(* ===== verification/Prelude.thy ===== *)
theory Prelude
  imports Main
begin

text \<open>
  Shared vocabulary of the development: the part of the JavaScript standard library the
  web UI uses on strings and plain objects, the generic lemmas about it, and the notion
  of an event machine with an invariant.

  A JavaScript string is a list of code units. The model uses \<^typ>\<open>char\<close> for a code
  unit, so it covers strings whose code units are below 256; on those every function
  below is exact (for instance \<open>trim\<close> also strips the no-break space).

  A plain object used as a dictionary is an association list in insertion order, which is
  the order \<open>Object.keys\<close> enumerates for non-numeric keys. Properties inherited from
  \<open>Object.prototype\<close> are not modelled.
\<close>

named_theorems js_defs \<open>definitions of the JavaScript library functions\<close>
named_theorems obj_simps \<open>lookup and key laws of plain objects\<close>

section \<open>Strings\<close>

definition js_ws :: "char \<Rightarrow> bool" where
  "js_ws c \<longleftrightarrow> c \<in> set [CHR 0x09, CHR 0x0A, CHR 0x0B, CHR 0x0C, CHR 0x0D, CHR '' '', CHR 0xA0]"

definition NL :: char where "NL = CHR 0x0A"
definition CR :: char where "CR = CHR 0x0D"
definition TAB :: char where "TAB = CHR 0x09"
definition DQ :: char where "DQ = CHR 0x22"
definition BSL :: char where "BSL = CHR 0x5C"

lemmas char_consts = NL_def CR_def TAB_def DQ_def BSL_def

definition js_trim :: "string \<Rightarrow> string" where
  "js_trim s = rev (dropWhile js_ws (rev (dropWhile js_ws s)))"

fun js_split :: "char \<Rightarrow> string \<Rightarrow> string list" where
  "js_split c [] = [[]]"
| "js_split c (x # xs) =
     (if x = c then [] # js_split c xs
      else (case js_split c xs of [] \<Rightarrow> [[x]] | h # t \<Rightarrow> (x # h) # t))"

fun js_join :: "string \<Rightarrow> string list \<Rightarrow> string" where
  "js_join sep [] = []"
| "js_join sep [x] = x"
| "js_join sep (x # y # ys) = x @ sep @ js_join sep (y # ys)"

fun starts_with :: "string \<Rightarrow> string \<Rightarrow> bool" where
  "starts_with [] s = True"
| "starts_with (p # ps) [] = False"
| "starts_with (p # ps) (x # xs) = (p = x \<and> starts_with ps xs)"

text \<open>\<open>s.indexOf(p)\<close>: the first position, or \<open>None\<close> for -1.\<close>

fun index_of :: "string \<Rightarrow> string \<Rightarrow> nat option" where
  "index_of p [] = (if p = [] then Some 0 else None)"
| "index_of p (x # xs) = (if starts_with p (x # xs) then Some 0 else map_option Suc (index_of p xs))"

text \<open>\<open>a || b\<close> on strings: the empty string is falsy.\<close>

definition or_str :: "string \<Rightarrow> string \<Rightarrow> string" where
  "or_str a b = (if a = [] then b else a)"

text \<open>\<open>s.replace(/c/g, r)\<close> for a single character \<open>c\<close>.\<close>

definition replace_char :: "char \<Rightarrow> string \<Rightarrow> string \<Rightarrow> string" where
  "replace_char c r s = concat (map (\<lambda>x. if x = c then r else [x]) s)"

text \<open>\<open>s.replace(/ab/g, r)\<close> for a two-character pattern, scanning left to right.\<close>

fun replace_pair :: "char \<Rightarrow> char \<Rightarrow> string \<Rightarrow> string \<Rightarrow> string" where
  "replace_pair a b r (x # y # xs) =
     (if x = a \<and> y = b then r @ replace_pair a b r xs else x # replace_pair a b r (y # xs))"
| "replace_pair a b r s = s"

definition is_digit :: "char \<Rightarrow> bool" where
  "is_digit c \<longleftrightarrow> 48 \<le> (of_char c :: nat) \<and> (of_char c :: nat) \<le> 57"

definition is_lower :: "char \<Rightarrow> bool" where
  "is_lower c \<longleftrightarrow> 97 \<le> (of_char c :: nat) \<and> (of_char c :: nat) \<le> 122"

definition is_upper :: "char \<Rightarrow> bool" where
  "is_upper c \<longleftrightarrow> 65 \<le> (of_char c :: nat) \<and> (of_char c :: nat) \<le> 90"

text \<open>The regular expression class \<open>\w\<close>.\<close>

definition is_word :: "char \<Rightarrow> bool" where
  "is_word c \<longleftrightarrow> is_digit c \<or> is_lower c \<or> is_upper c \<or> c = CHR ''_''"

text \<open>Decimal printing of a number, as string concatenation does.\<close>

fun show_nat :: "nat \<Rightarrow> string" where
  "show_nat n = (if n < 10 then [char_of (48 + n)] else show_nat (n div 10) @ [char_of (48 + n mod 10)])"

declare show_nat.simps [simp del]

definition show_int :: "int \<Rightarrow> string" where
  "show_int i = (if i < 0 then CHR ''-'' # show_nat (nat (- i)) else show_nat (nat i))"

text \<open>The value of a string of decimal digits.\<close>

definition digits_val :: "string \<Rightarrow> nat" where
  "digits_val ds = foldl (\<lambda>n c. 10 * n + (of_char c - 48)) 0 ds"

text \<open>\<open>parseInt(s, 10)\<close>: leading white space, an optional sign, the longest run of
  digits; \<open>None\<close> is \<open>NaN\<close>.\<close>

definition parse_int :: "string \<Rightarrow> int option" where
  "parse_int s =
     (let t = dropWhile js_ws s;
          neg = (t \<noteq> [] \<and> hd t = CHR ''-'');
          u = (if t \<noteq> [] \<and> (hd t = CHR ''-'' \<or> hd t = CHR ''+'') then tl t else t);
          ds = takeWhile is_digit u
      in if ds = [] then None
         else Some (if neg then - int (digits_val ds) else int (digits_val ds)))"

section \<open>Errors\<close>

text \<open>What a script throws; a call that can throw returns \<open>Inl\<close> for the exception.\<close>

datatype js_error = TypeError

definition err_bind :: "js_error + 'a \<Rightarrow> ('a \<Rightarrow> js_error + 'b) \<Rightarrow> js_error + 'b" where
  "err_bind m f = (case m of Inl e \<Rightarrow> Inl e | Inr x \<Rightarrow> f x)"

lemma err_bind_simps [simp]: "err_bind (Inl e) f = Inl e" "err_bind (Inr x) f = f x"
  by (simp_all add: err_bind_def)

section \<open>Plain objects\<close>

type_synonym 'a obj = "(string \<times> 'a) list"

definition obj_get :: "'a obj \<Rightarrow> string \<Rightarrow> 'a option" where
  "obj_get ob k = map_of ob k"

fun obj_set :: "'a obj \<Rightarrow> string \<Rightarrow> 'a \<Rightarrow> 'a obj" where
  "obj_set [] k v = [(k, v)]"
| "obj_set ((j, w) # ob) k v = (if j = k then (k, v) # ob else (j, w) # obj_set ob k v)"

definition obj_del :: "'a obj \<Rightarrow> string \<Rightarrow> 'a obj" where
  "obj_del ob k = filter (\<lambda>(j, w). j \<noteq> k) ob"

definition obj_keys :: "'a obj \<Rightarrow> string list" where
  "obj_keys ob = map fst ob"

definition obj_ok :: "'a obj \<Rightarrow> bool" where
  "obj_ok ob \<longleftrightarrow> distinct (map fst ob)"

text \<open>A list without its element at a position, as \<open>splice(i, 1)\<close> leaves it.\<close>

definition drop_at :: "nat \<Rightarrow> 'a list \<Rightarrow> 'a list" where
  "drop_at i xs = take i xs @ drop (Suc i) xs"

section \<open>Lemmas on strings\<close>

lemma js_split_nonempty [simp]: "js_split c s \<noteq> []"
  by (induction s) (auto split: list.splits)

lemma js_join_Cons: "xs \<noteq> [] \<Longrightarrow> js_join sep (x # xs) = x @ sep @ js_join sep xs"
  by (cases xs) auto

lemma js_split_no_sep [simp]: "c \<notin> set s \<Longrightarrow> js_split c s = [s]"
  by (induction s) auto

lemma js_split_append: "c \<notin> set s \<Longrightarrow> js_split c (s @ c # t) = s # js_split c t"
  by (induction s) auto

lemma js_split_append2: "js_split c (s @ c # t) = js_split c s @ js_split c t"
proof (induction s)
  case (Cons x s)
  then show ?case by (cases "js_split c s") auto
qed simp

lemma js_split_join_concat:
  "xs \<noteq> [] \<Longrightarrow> js_split c (js_join [c] xs) = concat (map (js_split c) xs)"
proof (induction xs)
  case (Cons x xs)
  then show ?case by (cases xs) (auto simp: js_split_append2)
qed simp

lemma js_join_split: "js_join [c] (js_split c s) = s"
proof (induction s)
  case Nil
  then show ?case by simp
next
  case (Cons x xs)
  obtain h t where ht: "js_split c xs = h # t" by (cases "js_split c xs") auto
  then show ?case using Cons by (cases t) auto
qed

lemma js_split_join:
  "xs \<noteq> [] \<Longrightarrow> \<forall>x \<in> set xs. c \<notin> set x \<Longrightarrow> js_split c (js_join [c] xs) = xs"
proof (induction xs)
  case (Cons x xs)
  then show ?case by (cases xs) (auto simp: js_split_append)
qed simp

lemma js_split_members: "p \<in> set (js_split c s) \<Longrightarrow> c \<notin> set p"
proof (induction s arbitrary: p)
  case (Cons x xs)
  obtain h t where ht: "js_split c xs = h # t" by (cases "js_split c xs") auto
  then show ?case using Cons by (auto split: if_splits)
qed simp

lemma starts_with_iff: "starts_with p s \<longleftrightarrow> (\<exists>t. s = p @ t)"
  by (induction p s rule: starts_with.induct) auto

lemma starts_with_append [simp]: "starts_with p (p @ t)"
  by (auto simp: starts_with_iff)

lemma index_of_None_iff: "index_of p s = None \<longleftrightarrow> \<not> (\<exists>a b. s = a @ p @ b)"
proof (induction s)
  case (Cons x xs)
  have "(\<exists>a b. x # xs = a @ p @ b) \<longleftrightarrow> starts_with p (x # xs) \<or> (\<exists>a b. xs = a @ p @ b)"
    by (metis (no_types, opaque_lifting) append_Cons append_Nil neq_Nil_conv list.inject starts_with_iff)
  then show ?case using Cons by auto
qed auto

lemma index_of_Some: "index_of p s = Some n \<Longrightarrow> \<exists>b. s = take n s @ p @ b"
proof (induction s arbitrary: n)
  case (Cons x xs)
  then show ?case
    by (auto split: if_splits simp: starts_with_iff)
qed (auto split: if_splits)

lemma js_ws_dropWhile_id: "s = [] \<or> \<not> js_ws (hd s) \<Longrightarrow> dropWhile js_ws s = s"
  by (cases s) auto

lemma js_trim_id: "s = [] \<or> (\<not> js_ws (hd s) \<and> \<not> js_ws (last s)) \<Longrightarrow> js_trim s = s"
  by (cases "s = []") (auto simp: js_trim_def js_ws_dropWhile_id hd_rev)

lemma js_trim_ends: "js_trim s \<noteq> [] \<Longrightarrow> \<not> js_ws (hd (js_trim s)) \<and> \<not> js_ws (last (js_trim s))"
proof -
  assume ne: "js_trim s \<noteq> []"
  define t where "t = dropWhile js_ws s"
  define u where "u = dropWhile js_ws (rev t)"
  have tr: "js_trim s = rev u" by (simp add: js_trim_def u_def t_def)
  have une: "u \<noteq> []" using ne tr by auto
  have l: "\<not> js_ws (last (rev u))"
    using une hd_dropWhile [of js_ws "rev t"] by (simp add: last_rev u_def)
  have tne: "t \<noteq> []" using une u_def by auto
  have th: "\<not> js_ws (hd t)" using hd_dropWhile [of js_ws s] tne t_def by auto
  obtain v where v: "rev t = v @ u" by (metis takeWhile_dropWhile_id u_def)
  then have "t = rev u @ rev v" by (metis rev_append rev_rev_ident)
  then have "hd t = hd (rev u)" using une by simp
  then show ?thesis using th l tr by simp
qed

lemma js_trim_idem [simp]: "js_trim (js_trim s) = js_trim s"
  using js_trim_ends by (cases "js_trim s = []") (auto intro: js_trim_id)

lemma set_js_trim: "set (js_trim s) \<subseteq> set s"
  by (auto simp: js_trim_def dest!: set_dropWhileD)

lemma js_trim_Nil [simp]: "js_trim [] = []"
  by (simp add: js_trim_def)

lemma js_trim_pad:
  assumes "\<forall>c \<in> set a. js_ws c" and "\<forall>c \<in> set b. js_ws c"
  shows "js_trim (a @ s @ b) = js_trim s"
proof -
  have d: "dropWhile js_ws (rev b @ r) = dropWhile js_ws r" for r
    using assms(2) by (intro dropWhile_append2) auto
  have "dropWhile js_ws (a @ s @ b) = dropWhile js_ws (s @ b)"
    using assms(1) by (intro dropWhile_append2) auto
  also have "\<dots> = (if dropWhile js_ws s = [] then [] else dropWhile js_ws s @ b)"
    using assms(2) by (induction s) (auto simp: dropWhile_eq_Nil_conv)
  finally show ?thesis by (cases "dropWhile js_ws s = []") (simp_all only: js_trim_def d rev.simps rev_append refl if_True if_False dropWhile.simps append_Nil simp_thms)
qed

lemma replace_char_simps [simp]:
  "replace_char c r [] = []"
  "replace_char c r (x # xs) = (if x = c then r else [x]) @ replace_char c r xs"
  by (auto simp: replace_char_def)

lemma replace_char_append [simp]: "replace_char c r (a @ b) = replace_char c r a @ replace_char c r b"
  by (simp add: replace_char_def)

lemma replace_char_id [simp]: "c \<notin> set s \<Longrightarrow> replace_char c r s = s"
  by (induction s) auto

lemma replace_pair_id: "a \<notin> set s \<Longrightarrow> replace_pair a b r s = s"
  by (induction a b r s rule: replace_pair.induct) auto

lemma of_char_small [simp]: "n < 256 \<Longrightarrow> (of_char (char_of n :: char) :: nat) = n"
  by (simp add: take_bit_nat_eq_self)

section \<open>Decimal numerals\<close>

lemma show_nat_digits: "c \<in> set (show_nat n) \<Longrightarrow> is_digit c"
proof (induction n rule: show_nat.induct)
  case (1 n)
  then show ?case
    by (subst (asm) show_nat.simps) (auto simp: is_digit_def split: if_splits)
qed

lemma show_nat_nonempty [simp]: "show_nat n \<noteq> []"
  by (subst show_nat.simps) simp

lemma digits_val_snoc: "digits_val (ds @ [c]) = 10 * digits_val ds + (of_char c - 48)"
  by (simp add: digits_val_def)

lemma digits_val_show_nat [simp]: "digits_val (show_nat n) = n"
proof (induction n rule: show_nat.induct)
  case (1 n)
  show ?case
  proof (cases "n < 10")
    case True
    then show ?thesis by (subst show_nat.simps) (simp add: digits_val_def)
  next
    case False
    with 1 show ?thesis by (subst show_nat.simps) (simp add: digits_val_snoc)
  qed
qed

lemma is_digit_not_ws: "is_digit c \<Longrightarrow> \<not> js_ws c"
  by (auto simp: is_digit_def js_ws_def)

lemma takeWhile_all: "\<forall>x \<in> set xs. P x \<Longrightarrow> takeWhile P xs = xs"
  by (simp add: takeWhile_eq_all_conv)

lemma show_nat_hd: "is_digit (hd (show_nat n))"
  using show_nat_digits show_nat_nonempty hd_in_set by blast

lemma show_nat_last: "is_digit (last (show_nat n))"
  using show_nat_digits show_nat_nonempty last_in_set by blast

lemma is_digit_sign [simp]: "\<not> is_digit (CHR ''-'')" "\<not> is_digit (CHR ''+'')"
  by (auto simp: is_digit_def)

lemma parse_int_show_nat [simp]: "parse_int (show_nat n) = Some (int n)"
proof -
  have h: "is_digit (hd (show_nat n))" by (rule show_nat_hd)
  then have dw: "dropWhile js_ws (show_nat n) = show_nat n"
    by (intro js_ws_dropWhile_id) (auto dest: is_digit_not_ws)
  have tw: "takeWhile is_digit (show_nat n) = show_nat n"
    by (rule takeWhile_all) (auto dest: show_nat_digits)
  have "hd (show_nat n) \<noteq> CHR ''-''" "hd (show_nat n) \<noteq> CHR ''+''" using h by auto
  then show ?thesis by (simp add: parse_int_def dw tw Let_def)
qed

section \<open>Plain objects: laws\<close>

text \<open>
  The contract the modules rely on when they keep a dictionary in a plain object: what a
  read gives after a write or a \<open>delete\<close>, which keys are enumerated, and that keys
  stay unique.
\<close>

locale dictionary =
  fixes get :: "'d \<Rightarrow> string \<Rightarrow> 'a option"
    and put :: "'d \<Rightarrow> string \<Rightarrow> 'a \<Rightarrow> 'd"
    and del :: "'d \<Rightarrow> string \<Rightarrow> 'd"
    and keys :: "'d \<Rightarrow> string list"
    and ok :: "'d \<Rightarrow> bool"
  assumes get_put: "ok d \<Longrightarrow> get (put d k v) j = (if j = k then Some v else get d j)"
    and get_del: "ok d \<Longrightarrow> get (del d k) j = (if j = k then None else get d j)"
    and keys_iff: "ok d \<Longrightarrow> k \<in> set (keys d) \<longleftrightarrow> get d k \<noteq> None"
    and ok_put: "ok d \<Longrightarrow> ok (put d k v)"
    and ok_del: "ok d \<Longrightarrow> ok (del d k)"
    and ok_distinct: "ok d \<Longrightarrow> distinct (keys d)"
begin

text \<open>The idiom \<open>Object.keys(o).forEach(k => if (!live[k]) delete o[k])\<close>.\<close>

definition retain :: "(string \<Rightarrow> bool) \<Rightarrow> 'd \<Rightarrow> 'd" where
  "retain live d = fold (\<lambda>k e. if live k then e else del e k) (keys d) d"

lemma ok_fold_del: "ok d \<Longrightarrow> ok (fold (\<lambda>k e. if live k then e else del e k) ks d)"
  by (induction ks arbitrary: d) (auto simp: ok_del)

lemma get_fold_del:
  "ok d \<Longrightarrow> get (fold (\<lambda>k e. if live k then e else del e k) ks d) j =
     (if j \<in> set ks \<and> \<not> live j then None else get d j)"
  by (induction ks arbitrary: d) (auto simp: ok_del get_del)

lemma get_retain: "ok d \<Longrightarrow> get (retain live d) j = (if live j then get d j else None)"
  by (auto simp: retain_def get_fold_del keys_iff)

lemma ok_retain: "ok d \<Longrightarrow> ok (retain live d)"
  by (simp add: retain_def ok_fold_del)

lemma keys_put: "ok d \<Longrightarrow> set (keys (put d k v)) = insert k (set (keys d))"
  by (auto simp: keys_iff ok_put get_put split: if_splits)

lemma keys_del: "ok d \<Longrightarrow> set (keys (del d k)) = set (keys d) - {k}"
  by (auto simp: keys_iff ok_del get_del split: if_splits)

lemma length_keys_put: "ok d \<Longrightarrow> get d k = None \<Longrightarrow> length (keys (put d k v)) = Suc (length (keys d))"
proof -
  assume a: "ok d" "get d k = None"
  then have "card (set (keys (put d k v))) = Suc (card (set (keys d)))"
    by (simp add: keys_put keys_iff)
  then show ?thesis using a by (simp add: distinct_card ok_distinct ok_put)
qed

lemma length_keys_del: "ok d \<Longrightarrow> get d k \<noteq> None \<Longrightarrow> Suc (length (keys (del d k))) = length (keys d)"
proof -
  assume a: "ok d" "get d k \<noteq> None"
  then have k: "k \<in> set (keys d)" by (simp add: keys_iff)
  have "card (set (keys d)) = Suc (card (set (keys d) - {k}))"
    using k by (metis List.finite_set card.remove)
  then show ?thesis using a by (simp add: distinct_card ok_distinct ok_del flip: keys_del)
qed

end

lemma obj_get_set: "obj_get (obj_set ob k v) j = (if j = k then Some v else obj_get ob j)"
  by (induction ob k v rule: obj_set.induct) (auto simp: obj_get_def)

lemma obj_get_del: "obj_get (obj_del ob k) j = (if j = k then None else obj_get ob j)"
  by (induction ob) (auto simp: obj_get_def obj_del_def)

lemma obj_keys_iff: "k \<in> set (obj_keys ob) \<longleftrightarrow> obj_get ob k \<noteq> None"
  by (force simp: obj_keys_def obj_get_def map_of_eq_None_iff)

lemma obj_set_keys: "set (map fst (obj_set ob k v)) = insert k (set (map fst ob))"
  by (induction ob k v rule: obj_set.induct) auto

lemma obj_ok_set: "obj_ok ob \<Longrightarrow> obj_ok (obj_set ob k v)"
proof (induction ob k v rule: obj_set.induct)
  case (2 j w ob k v)
  then show ?case using obj_set_keys [of ob k v] by (auto simp: obj_ok_def)
qed (simp add: obj_ok_def)

lemma obj_ok_del: "obj_ok ob \<Longrightarrow> obj_ok (obj_del ob k)"
  by (induction ob) (auto simp: obj_ok_def obj_del_def)

interpretation ob: dictionary obj_get obj_set obj_del obj_keys obj_ok
  by unfold_locales
    (auto simp: obj_get_set obj_get_del obj_keys_iff obj_ok_set obj_ok_del, auto simp: obj_ok_def obj_keys_def)

lemma obj_get_Nil [simp]: "obj_get [] k = None"
  by (simp add: obj_get_def)

lemma obj_keys_Nil [simp]: "obj_keys [] = []"
  by (simp add: obj_keys_def)

lemma obj_ok_Nil [simp]: "obj_ok []"
  by (simp add: obj_ok_def)

declare obj_get_set [obj_simps] obj_get_del [obj_simps] obj_keys_iff [obj_simps]

lemma obj_set_fresh: "k \<notin> set (obj_keys ob) \<Longrightarrow> obj_set ob k v = ob @ [(k, v)]"
  by (induction ob k v rule: obj_set.induct) (auto simp: obj_keys_def)

lemma obj_get_append:
  "obj_get (a @ b) k = (case obj_get a k of None \<Rightarrow> obj_get b k | Some v \<Rightarrow> Some v)"
  by (simp add: obj_get_def map_add_def split: option.split)

section \<open>Event machines\<close>

text \<open>
  A component that reacts to events is a start state and a step function; \<open>enabled\<close> says
  which events the page can deliver in a state (a button that is not on screen is not
  clicked). A property that holds at the start and is kept by every enabled step holds after
  every sequence of events the page can deliver. A machine that copes with every event in
  every state is the special case without a guard.
\<close>

locale guarded_machine =
  fixes start :: "'s"
    and step :: "'s \<Rightarrow> 'e \<Rightarrow> 's"
    and inv :: "'s \<Rightarrow> bool"
    and enabled :: "'s \<Rightarrow> 'e \<Rightarrow> bool"
  assumes inv_start: "inv start"
    and inv_step: "inv s \<Longrightarrow> enabled s e \<Longrightarrow> inv (step s e)"
begin

inductive reach :: "'s \<Rightarrow> bool" where
  init: "reach start"
| next_step: "reach s \<Longrightarrow> enabled s e \<Longrightarrow> reach (step s e)"

lemma reach_inv: "reach s \<Longrightarrow> inv s"
  by (induction rule: reach.induct) (auto intro: inv_start inv_step)

fun run_ok :: "'s \<Rightarrow> 'e list \<Rightarrow> bool" where
  "run_ok s [] = True"
| "run_ok s (e # es) = (enabled s e \<and> run_ok (step s e) es)"

lemma reach_run: "reach s \<Longrightarrow> run_ok s es \<Longrightarrow> reach (foldl step s es)"
  by (induction es arbitrary: s) (auto intro: reach.next_step)

lemma inv_run_start: "run_ok start es \<Longrightarrow> inv (foldl step start es)"
  by (rule reach_inv [OF reach_run [OF reach.init]])

lemma inv_run: "inv s \<Longrightarrow> run_ok s es \<Longrightarrow> inv (foldl step s es)"
  by (induction es arbitrary: s) (auto intro: inv_step)

end

locale event_machine =
  fixes start :: "'s"
    and step :: "'s \<Rightarrow> 'e \<Rightarrow> 's"
    and inv :: "'s \<Rightarrow> bool"
  assumes inv_start: "inv start"
    and inv_step: "inv s \<Longrightarrow> inv (step s e)"

sublocale event_machine \<subseteq> gm: guarded_machine start step inv "\<lambda>s e. True"
  by unfold_locales (auto intro: inv_start inv_step)

context event_machine
begin

lemma always_ok: "gm.run_ok s es"
  by (induction es arbitrary: s) auto

lemma always: "inv (foldl step start es)"
  by (rule gm.inv_run_start [OF always_ok])

lemma always_from: "inv s \<Longrightarrow> inv (foldl step s es)"
  by (rule gm.inv_run [OF _ always_ok])

end

end
