(* ===== verification/Text_Helpers.thy ===== *)
theory Text_Helpers
  imports Prelude
begin

text \<open>
  The text helpers of \<open>util.js\<close> and \<open>conn-form.js\<close>: HTML escaping, the command-line
  splitter, sizes, session names and resource URLs, and \<open>encodeURIComponent\<close>.
\<close>

section \<open>HTML escaping\<close>

text \<open>\<open>escapeHtml\<close> runs four global replacements one after the other.\<close>

definition escapeHtml :: "string \<Rightarrow> string" where
  "escapeHtml s =
     replace_char DQ ''&quot;''
       (replace_char (CHR ''>'') ''&gt;''
         (replace_char (CHR ''<'') ''&lt;''
           (replace_char (CHR ''&'') ''&amp;'' s)))"

text \<open>\<open>_hesc\<close> of \<open>conn-form.js\<close> adds the single quote; \<open>None\<close> is \<open>null\<close> or
  \<open>undefined\<close>.\<close>

definition hesc :: "string option \<Rightarrow> string" where
  "hesc v =
     replace_char (CHR 0x27) ''&#39;''
       (replace_char DQ ''&quot;''
         (replace_char (CHR ''>'') ''&gt;''
           (replace_char (CHR ''<'') ''&lt;''
             (replace_char (CHR ''&'') ''&amp;'' (case v of None \<Rightarrow> [] | Some s \<Rightarrow> s)))))"

text \<open>One entity per character: the reference the chain of replacements is compared with.\<close>

definition escape1 :: "char \<Rightarrow> string" where
  "escape1 c =
     (if c = CHR ''&'' then ''&amp;'' else if c = CHR ''<'' then ''&lt;''
      else if c = CHR ''>'' then ''&gt;'' else if c = DQ then ''&quot;'' else [c])"

text \<open>What a browser reads back from text or a double-quoted attribute value holding only
  the four entities.\<close>

fun unescapeHtml :: "string \<Rightarrow> string" where
  "unescapeHtml [] = []"
| "unescapeHtml (c # s) =
     (if c = CHR ''&'' then
        (if starts_with ''amp;'' s then CHR ''&'' # unescapeHtml (drop 4 s)
         else if starts_with ''lt;'' s then CHR ''<'' # unescapeHtml (drop 3 s)
         else if starts_with ''gt;'' s then CHR ''>'' # unescapeHtml (drop 3 s)
         else if starts_with ''quot;'' s then DQ # unescapeHtml (drop 5 s)
         else c # unescapeHtml s)
      else c # unescapeHtml s)"

section \<open>Command lines\<close>

text \<open>
  \<open>splitCommandLine\<close> is one pass over the line with four local variables: the finished
  tokens, the token being read, the open quote and whether a token has started.
\<close>

fun split_loop :: "string list \<Rightarrow> string \<Rightarrow> char option \<Rightarrow> bool \<Rightarrow> string \<Rightarrow> string list" where
  "split_loop out cur quote started [] = (if started then out @ [cur] else out)"
| "split_loop out cur quote started (c # line) =
     (case quote of
        Some q \<Rightarrow> if c = q then split_loop out cur None started line
                  else split_loop out (cur @ [c]) (Some q) started line
      | None \<Rightarrow>
          if c = DQ \<or> c = CHR 0x27 \<or> c = CHR 0x60 then split_loop out cur (Some c) True line
          else if c = CHR '' '' \<or> c = TAB then
            (if started then split_loop (out @ [cur]) [] None False line
             else split_loop out cur None started line)
          else split_loop out (cur @ [c]) None True line)"

definition splitCommandLine :: "string \<Rightarrow> string list" where
  "splitCommandLine line = split_loop [] [] None False line"

text \<open>A reference printer: every argument in double quotes, separated by one blank.\<close>

definition quote_arg :: "string \<Rightarrow> string" where
  "quote_arg a = DQ # a @ [DQ]"

definition quote_command :: "string list \<Rightarrow> string" where
  "quote_command args = js_join '' '' (map quote_arg args)"

section \<open>Sizes\<close>

text \<open>
  \<open>formatSize\<close> divides by 1024 while the size is at least 1024 and a larger unit is left.
  Division by a power of two is exact in binary floating point for the sizes a file can
  have, so the loop is carried out on the pair (bytes, number of divisions). \<open>toFixed(1)\<close>
  picks the nearest tenth, the larger one on a tie.
\<close>

fun size_loop :: "nat \<Rightarrow> nat \<Rightarrow> nat \<Rightarrow> nat" where
  "size_loop 0 bytes i = i"
| "size_loop (Suc left) bytes i = (if bytes \<ge> 1024 * 1024 ^ i then size_loop left bytes (Suc i) else i)"

definition size_units :: "string list" where
  "size_units = [''B'', ''KB'', ''MB'', ''GB'']"

text \<open>The number of tenths \<open>toFixed(1)\<close> prints for \<open>bytes / 1024 ^ i\<close>.\<close>

definition size_tenths :: "nat \<Rightarrow> nat \<Rightarrow> nat" where
  "size_tenths bytes i = (20 * bytes + 1024 ^ i) div (2 * 1024 ^ i)"

definition formatSize :: "int \<Rightarrow> string" where
  "formatSize bytes =
     (if bytes \<le> 0 then ''0 B''
      else
        (let n = nat bytes; i = size_loop (length size_units - 1) n 0
         in (if i = 0 then show_nat n
             else show_nat (size_tenths n i div 10) @ ''.'' @ show_nat (size_tenths n i mod 10))
            @ '' '' @ size_units ! i))"

section \<open>Session names and resource URLs\<close>

definition session_prefix :: string where
  "session_prefix = ''session-''"

definition stripSessionPrefix :: "string \<Rightarrow> string" where
  "stripSessionPrefix str =
     (let str = js_trim str
      in if starts_with session_prefix str then or_str (drop 8 str) str else str)"

text \<open>
  \<open>displaySessionShort\<close> on an object with optional \<open>id\<close> and \<open>name\<close>; the last
  alternative is the em dash, which is outside the character range of the model and is
  therefore an argument.
\<close>

definition displaySessionShort :: "string \<Rightarrow> string option \<Rightarrow> string option \<Rightarrow> string" where
  "displaySessionShort emdash sid nm =
     (let i = js_trim (case sid of None \<Rightarrow> [] | Some x \<Rightarrow> x);
          n = js_trim (case nm of None \<Rightarrow> [] | Some x \<Rightarrow> x)
      in if starts_with session_prefix n then or_str (drop 8 n) (or_str i n)
         else or_str i (or_str n emdash))"

definition TERMCP_SCHEME :: string where
  "TERMCP_SCHEME = ''termcp://''"

definition resourceUrlEntry :: "string \<Rightarrow> string" where
  "resourceUrlEntry name = TERMCP_SCHEME @ name"

definition resourceUrlSession :: "string \<Rightarrow> string" where
  "resourceUrlSession sid = TERMCP_SCHEME @ ''#'' @ stripSessionPrefix sid"

definition resourceUrlShell :: "string \<Rightarrow> nat \<Rightarrow> string" where
  "resourceUrlShell sid index = resourceUrlSession sid @ '':'' @ show_nat index"

section \<open>URL components\<close>

text \<open>
  \<open>encodeURIComponent\<close> keeps the unreserved characters and writes every other code unit
  as the percent-escaped bytes of its UTF-8 encoding.
\<close>

definition uri_unreserved :: "char \<Rightarrow> bool" where
  "uri_unreserved c \<longleftrightarrow>
     is_digit c \<or> is_lower c \<or> is_upper c \<or>
     c \<in> set [CHR ''-'', CHR ''_'', CHR ''.'', CHR ''!'', CHR ''~'', CHR ''*'', CHR 0x27, CHR ''('', CHR '')'']"

definition utf8_char :: "char \<Rightarrow> nat list" where
  "utf8_char c =
     (let n = (of_char c :: nat)
      in if n < 128 then [n] else [192 + n div 64, 128 + n mod 64])"

definition hex_digit :: "nat \<Rightarrow> char" where
  "hex_digit n = (if n < 10 then char_of (48 + n) else char_of (55 + n))"

definition percent_byte :: "nat \<Rightarrow> string" where
  "percent_byte b = [CHR ''%'', hex_digit (b div 16), hex_digit (b mod 16)]"

definition encodeURIComponent :: "string \<Rightarrow> string" where
  "encodeURIComponent s =
     concat (map (\<lambda>c. if uri_unreserved c then [c] else concat (map percent_byte (utf8_char c))) s)"

definition sessionAPI :: "string \<Rightarrow> string \<Rightarrow> string" where
  "sessionAPI sessionId suffix = ''/api/sessions/'' @ encodeURIComponent sessionId @ suffix"

text \<open>\<open>new TextEncoder().encode(text)\<close>.\<close>

definition textToBytes :: "string \<Rightarrow> nat list" where
  "textToBytes text = concat (map utf8_char text)"

section \<open>Reconnect delay\<close>

text \<open>\<open>d * 1.5\<close> rounded down is \<open>3 * d div 2\<close>; a missing or zero delay counts as one second.\<close>

definition sseBackoffNext :: "nat \<Rightarrow> nat" where
  "sseBackoffNext prev = (let d = (if prev = 0 then 1000 else prev) in min 30000 (max 2000 (3 * d div 2)))"

section \<open>Escaping is safe and loses nothing\<close>

lemma escapeHtml_simps [simp]:
  "escapeHtml [] = []"
  "escapeHtml (c # s) = escape1 c @ escapeHtml s"
  by (auto simp: escapeHtml_def escape1_def DQ_def)

lemma escapeHtml_append [simp]: "escapeHtml (a @ b) = escapeHtml a @ escapeHtml b"
  by (simp add: escapeHtml_def)

lemma escapeHtml_map: "escapeHtml s = concat (map escape1 s)"
  by (induction s) auto

lemma escape1_safe: "x \<in> set (escape1 c) \<Longrightarrow> x \<noteq> CHR ''<'' \<and> x \<noteq> CHR ''>'' \<and> x \<noteq> DQ"
  by (auto simp: escape1_def DQ_def split: if_splits)

lemma escapeHtml_safe: "x \<in> set (escapeHtml s) \<Longrightarrow> x \<noteq> CHR ''<'' \<and> x \<noteq> CHR ''>'' \<and> x \<noteq> DQ"
  by (induction s) (auto dest: escape1_safe)

text \<open>
  The contract of an escaping function towards the code that assembles markup from string
  literals and escaped values: an escaped value holds none of the characters that open or
  close a tag or a double-quoted attribute value.
\<close>

datatype 'v frag = Lit string | Hole 'v

definition markup :: "string \<Rightarrow> string" where
  "markup s = filter (\<lambda>c. c = CHR ''<'' \<or> c = CHR ''>'' \<or> c = DQ) s"

locale html_escaper =
  fixes esc :: "'v \<Rightarrow> string"
  assumes esc_safe: "x \<in> set (esc v) \<Longrightarrow> x \<noteq> CHR ''<'' \<and> x \<noteq> CHR ''>'' \<and> x \<noteq> DQ"
begin

definition render :: "'v frag list \<Rightarrow> string" where
  "render fs = concat (map (\<lambda>f. case f of Lit s \<Rightarrow> s | Hole v \<Rightarrow> esc v) fs)"

definition skeleton :: "'v frag list \<Rightarrow> string" where
  "skeleton fs = concat (map (\<lambda>f. case f of Lit s \<Rightarrow> s | Hole v \<Rightarrow> []) fs)"

lemma markup_esc [simp]: "markup (esc v) = []"
  using esc_safe by (fastforce simp: markup_def filter_empty_conv)

lemma markup_render: "markup (render fs) = markup (skeleton fs)"
proof (induction fs)
  case Nil
  then show ?case by (simp add: render_def skeleton_def)
next
  case (Cons f fs)
  then show ?case
    using markup_esc by (cases f) (auto simp: render_def skeleton_def markup_def)
qed

end

lemma markup_simps [simp]:
  "markup [] = []"
  "markup (a @ b) = markup a @ markup b"
  by (auto simp: markup_def)

interpretation html: html_escaper escapeHtml
  by unfold_locales (rule escapeHtml_safe)

lemma render_append: "html.render (a @ b) = html.render a @ html.render b"
  by (simp add: html.render_def)

lemma skeleton_append: "html.skeleton (a @ b) = html.skeleton a @ html.skeleton b"
  by (simp add: html.skeleton_def)

lemma skeleton_Lit: "html.skeleton (Lit a # fs) = a @ html.skeleton fs"
  by (simp add: html.skeleton_def)

lemma markup_frags:
  "markup (html.skeleton (Lit a # fs)) = markup a @ markup (html.skeleton fs)" "markup (html.skeleton (Hole v # fs)) = markup (html.skeleton fs)"
  "html.skeleton [] = []"
  by (simp_all add: html.skeleton_def)

lemma hesc_alt:
  "hesc v = replace_char (CHR 0x27) ''&#39;'' (escapeHtml (case v of None \<Rightarrow> [] | Some s \<Rightarrow> s))"
  by (simp add: hesc_def escapeHtml_def)

lemma set_replace_char: "x \<in> set (replace_char c r s) \<Longrightarrow> x \<in> set r \<or> (x \<in> set s \<and> x \<noteq> c)"
  by (auto simp: replace_char_def split: if_splits)

lemma hesc_safe: "x \<in> set (hesc v) \<Longrightarrow> x \<noteq> CHR ''<'' \<and> x \<noteq> CHR ''>'' \<and> x \<noteq> DQ"
proof -
  assume "x \<in> set (hesc v)"
  then have "x \<in> set ''&#39;'' \<or> x \<in> set (escapeHtml (case v of None \<Rightarrow> [] | Some s \<Rightarrow> s))"
    unfolding hesc_alt by (blast dest: set_replace_char)
  then show ?thesis using escapeHtml_safe by (auto simp: DQ_def)
qed

lemma hesc_no_quote: "CHR 0x27 \<notin> set (hesc v)"
  unfolding hesc_alt by (auto dest!: set_replace_char)

interpretation hes: html_escaper hesc
  by unfold_locales (rule hesc_safe)

lemma unescape_escape1: "unescapeHtml (escape1 c @ s) = c # unescapeHtml s"
  by (simp add: escape1_def DQ_def)

lemma unescape_escapeHtml [simp]: "unescapeHtml (escapeHtml s) = s"
  by (induction s) (auto simp: unescape_escape1)

section \<open>Splitting a command line\<close>

lemma split_loop_quoted:
  "q \<notin> set a \<Longrightarrow> split_loop out cur (Some q) st (a @ q # rest) = split_loop out (cur @ a) None st rest"
  by (induction a arbitrary: cur) auto

lemma split_loop_quote_arg:
  "DQ \<notin> set a \<Longrightarrow> split_loop out [] None False (quote_arg a @ rest) = split_loop out a None True rest"
  using split_loop_quoted [of DQ a out "[]" True rest] by (simp add: quote_arg_def)

lemma split_loop_quote_command:
  "\<forall>a \<in> set args. DQ \<notin> set a \<Longrightarrow>
     split_loop out [] None False (js_join '' '' (map quote_arg args)) = out @ args"
proof (induction args arbitrary: out)
  case Nil
  then show ?case by simp
next
  case (Cons a args)
  show ?case
  proof (cases args)
    case Nil
    then show ?thesis using Cons.prems split_loop_quote_arg [of a out "[]"] by simp
  next
    case (Cons b bs)
    with Cons.IH [of "out @ [a]"] Cons.prems show ?thesis
      by (simp add: js_join_Cons split_loop_quote_arg DQ_def TAB_def)
  qed
qed

text \<open>A command line in which every argument is written in double quotes splits into
  exactly those arguments, blanks and other quote characters inside them included.\<close>

theorem splitCommandLine_quote:
  assumes "\<forall>a \<in> set args. DQ \<notin> set a"
  shows "splitCommandLine (quote_command args) = args"
  using split_loop_quote_command [OF assms, of "[]"]
  by (simp add: splitCommandLine_def quote_command_def)

theorem splitCommandLine_quote_witness:
  "splitCommandLine (quote_command [''grep'', ''it's here'', [], ''/a b'']) =
     [''grep'', ''it's here'', [], ''/a b'']"
  by (rule splitCommandLine_quote) (simp add: DQ_def)

definition plain_arg_char :: "char \<Rightarrow> bool" where
  "plain_arg_char c \<longleftrightarrow> c \<noteq> DQ \<and> c \<noteq> CHR 0x27 \<and> c \<noteq> CHR 0x60 \<and> c \<noteq> TAB"

lemma split_loop_plain:
  "\<forall>c \<in> set line. plain_arg_char c \<Longrightarrow>
     split_loop out cur None (cur \<noteq> []) line =
       out @ filter (\<lambda>w. w \<noteq> []) ((cur @ hd (js_split (CHR '' '') line)) # tl (js_split (CHR '' '') line))"
proof (induction line arbitrary: out cur)
  case Nil
  then show ?case by simp
next
  case (Cons c line)
  obtain h t where ht: "js_split (CHR '' '') line = h # t"
    by (cases "js_split (CHR '' '') line") auto
  show ?case
  proof (cases "c = CHR '' ''")
    case True
    have "split_loop out cur None (cur \<noteq> []) (c # line) =
        split_loop (if cur = [] then out else out @ [cur]) [] None (([] :: string) \<noteq> []) line"
      using True by (auto simp: DQ_def)
    also have "\<dots> = (if cur = [] then out else out @ [cur]) @ filter (\<lambda>w. w \<noteq> []) (h # t)"
      using Cons.IH [of "if cur = [] then out else out @ [cur]" "[]"] Cons.prems ht by simp
    finally show ?thesis using True ht by simp
  next
    case False
    have "split_loop out cur None (cur \<noteq> []) (c # line) = split_loop out (cur @ [c]) None (cur @ [c] \<noteq> []) line"
      using False Cons.prems by (auto simp: plain_arg_char_def)
    also have "\<dots> = out @ filter (\<lambda>w. w \<noteq> []) (((cur @ [c]) @ h) # t)"
      using Cons.IH [of out "cur @ [c]"] Cons.prems ht by simp
    finally show ?thesis using False ht by simp
  qed
qed

text \<open>On a line without quotes and tabs the splitter returns the non-empty pieces
  between blanks, in order.\<close>

theorem splitCommandLine_plain:
  assumes "\<forall>c \<in> set line. plain_arg_char c"
  shows "splitCommandLine line = filter (\<lambda>w. w \<noteq> []) (js_split (CHR '' '') line)"
proof -
  obtain h t where ht: "js_split (CHR '' '') line = h # t"
    by (cases "js_split (CHR '' '') line") auto
  then show ?thesis
    using split_loop_plain [OF assms, of "[]" "[]"] by (simp add: splitCommandLine_def)
qed

theorem splitCommandLine_plain_witness:
  "splitCommandLine ''ls  -la /tmp'' = [''ls'', ''-la'', ''/tmp'']"
  using splitCommandLine_plain [of "''ls  -la /tmp''"] by (simp add: plain_arg_char_def char_consts)

section \<open>URL components are safe and reversible\<close>

definition hex_val :: "char \<Rightarrow> nat" where
  "hex_val c = (let n = (of_char c :: nat) in if n \<le> 57 then n - 48 else n - 55)"

text \<open>The server's decoding of a path segment: percent escapes to bytes, then UTF-8.\<close>

fun percent_decode :: "string \<Rightarrow> nat list" where
  "percent_decode (c # h # l # s) =
     (if c = CHR ''%'' then (16 * hex_val h + hex_val l) # percent_decode s
      else of_char c # percent_decode (h # l # s))"
| "percent_decode (c # s) = of_char c # percent_decode s"
| "percent_decode [] = []"

fun utf8_decode :: "nat list \<Rightarrow> string" where
  "utf8_decode [] = []"
| "utf8_decode (b # bs) =
     (if b < 128 then char_of b # utf8_decode bs
      else (case bs of [] \<Rightarrow> [] | d # ds \<Rightarrow> char_of ((b - 192) * 64 + (d - 128)) # utf8_decode ds))"

lemma hex_val_hex_digit: "n < 16 \<Longrightarrow> hex_val (hex_digit n) = n"
  by (auto simp: hex_val_def hex_digit_def Let_def)

lemma percent_decode_byte: "b < 256 \<Longrightarrow> percent_decode (percent_byte b @ s) = b # percent_decode s"
  by (simp add: percent_byte_def hex_val_hex_digit)

lemma percent_decode_plain: "c \<noteq> CHR ''%'' \<Longrightarrow> percent_decode (c # s) = of_char c # percent_decode s"
  by (cases s rule: percent_decode.cases) auto

lemma of_char_lt: "(of_char (c :: char) :: nat) < 256"
  by simp

lemma utf8_char_bytes: "b \<in> set (utf8_char c) \<Longrightarrow> b < 256"
proof -
  assume "b \<in> set (utf8_char c)"
  moreover have "(of_char c :: nat) div 64 < 4" using of_char_lt [of c] by linarith
  ultimately show ?thesis by (auto simp: utf8_char_def Let_def split: if_splits)
qed

lemma percent_decode_bytes:
  "\<forall>b \<in> set bs. b < 256 \<Longrightarrow> percent_decode (concat (map percent_byte bs) @ s) = bs @ percent_decode s"
  by (induction bs) (auto simp: percent_decode_byte)

lemma utf8_decode_char: "utf8_decode (utf8_char c @ bs) = c # utf8_decode bs"
proof (cases "(of_char c :: nat) < 128")
  case True
  then show ?thesis by (simp add: utf8_char_def)
next
  case False
  have "64 * ((of_char c :: nat) div 64) + (of_char c) mod 64 = of_char c" by simp
  with False show ?thesis by (simp add: utf8_char_def Let_def mult.commute)
qed

lemma utf8_decode_text: "utf8_decode (textToBytes s) = s"
  by (induction s) (auto simp: textToBytes_def utf8_decode_char)

lemma uri_unreserved_not_percent: "uri_unreserved c \<Longrightarrow> c \<noteq> CHR ''%''"
  by (auto simp: uri_unreserved_def is_digit_def is_lower_def is_upper_def)

lemma uri_unreserved_ascii: "uri_unreserved c \<Longrightarrow> (of_char c :: nat) < 128"
  by (auto simp: uri_unreserved_def is_digit_def is_lower_def is_upper_def)

lemma percent_decode_encode: "percent_decode (encodeURIComponent s) = textToBytes s"
proof (induction s)
  case Nil
  then show ?case by (simp add: encodeURIComponent_def textToBytes_def)
next
  case (Cons c s)
  show ?case
  proof (cases "uri_unreserved c")
    case True
    then show ?thesis
      using Cons uri_unreserved_ascii [OF True] uri_unreserved_not_percent [OF True]
      by (simp add: encodeURIComponent_def textToBytes_def percent_decode_plain utf8_char_def)
  next
    case False
    then show ?thesis
      using Cons utf8_char_bytes [of _ c]
      by (simp add: encodeURIComponent_def textToBytes_def percent_decode_bytes)
  qed
qed

lemma hex_digit_unreserved: "n < 16 \<Longrightarrow> uri_unreserved (hex_digit n)"
  by (auto simp: hex_digit_def uri_unreserved_def is_digit_def is_upper_def)

lemma encodeURIComponent_chars: "c \<in> set (encodeURIComponent s) \<Longrightarrow> uri_unreserved c \<or> c = CHR ''%''"
  by (auto simp: encodeURIComponent_def percent_byte_def hex_digit_unreserved less_mult_imp_div_less
      dest!: utf8_char_bytes split: if_splits)

text \<open>No session identifier can reach outside its place in a REST path: the segment that
  \<open>sessionAPI\<close> builds has no slash, question mark or hash, so the server's router sees one
  segment, and decoding it gives the identifier back.\<close>

theorem sessionAPI_one_segment:
  "\<exists>seg. sessionAPI sid suffix = ''/api/sessions/'' @ seg @ suffix \<and>
     set seg \<inter> {CHR ''/'', CHR ''?'', CHR ''#''} = {} \<and> utf8_decode (percent_decode seg) = sid"
proof (intro exI conjI)
  show "sessionAPI sid suffix = ''/api/sessions/'' @ encodeURIComponent sid @ suffix" by (simp add: sessionAPI_def)
  show "set (encodeURIComponent sid) \<inter> {CHR ''/'', CHR ''?'', CHR ''#''} = {}"
    by (auto simp: uri_unreserved_def is_digit_def is_lower_def is_upper_def dest!: encodeURIComponent_chars)
  show "utf8_decode (percent_decode (encodeURIComponent sid)) = sid"
    by (simp add: percent_decode_encode utf8_decode_text)
qed

section \<open>Sizes are printed in the right unit\<close>

lemma size_loop_bounds:
  "i \<le> size_loop k n i \<and> size_loop k n i \<le> i + k \<and>
   (i < size_loop k n i \<longrightarrow> 1024 ^ size_loop k n i \<le> n) \<and>
   (size_loop k n i < i + k \<longrightarrow> n < 1024 ^ Suc (size_loop k n i))"
proof (induction k n i rule: size_loop.induct)
  case (2 left bytes i)
  show ?case
  proof (cases "bytes \<ge> 1024 * 1024 ^ i")
    case True
    with 2 show ?thesis
      by (cases "Suc i = size_loop left bytes (Suc i)") (auto simp: less_eq_Suc_le)
  next
    case False
    then show ?thesis by simp
  qed
qed simp

lemma size_tenths_nearest:
  "2 * \<bar>int (size_tenths n i) * 1024 ^ i - 10 * int n\<bar> \<le> 1024 ^ i"
proof -
  define d :: nat where "d = 1024 ^ i"
  have dpos: "0 < d" by (simp add: d_def)
  define q where "q = (20 * n + d) div (2 * d)"
  define e where "e = q * d"
  have "2 * e \<le> 20 * n + d"
    using div_times_less_eq_dividend [of "20 * n + d" "2 * d"] unfolding q_def e_def by linarith
  moreover have "20 * n + d < 2 * e + 2 * d"
    using dpos dividend_less_div_times [of "2 * d" "20 * n + d"] unfolding q_def e_def by linarith
  ultimately have "2 * \<bar>int e - 10 * int n\<bar> \<le> int d" by arith
  then show ?thesis by (simp add: size_tenths_def q_def d_def e_def)
qed

text \<open>A positive size is printed in the largest unit that does not exceed it (capped at
  GB): exactly in bytes, otherwise as the nearest tenth of the unit.\<close>

theorem formatSize_correct:
  assumes "0 < n"
  shows "\<exists>i t. i \<le> 3 \<and>
    formatSize (int n) =
      (if i = 0 then show_nat n else show_nat (t div 10) @ ''.'' @ show_nat (t mod 10)) @ '' '' @ size_units ! i \<and>
    (0 < i \<longrightarrow> 1024 ^ i \<le> n) \<and> (i < 3 \<longrightarrow> n < 1024 ^ Suc i) \<and>
    2 * \<bar>int t * 1024 ^ i - 10 * int n\<bar> \<le> 1024 ^ i"
proof -
  define i where "i = size_loop 3 n 0"
  define t where "t = size_tenths n i"
  have b: "i \<le> 3" "0 < i \<longrightarrow> 1024 ^ i \<le> n" "i < 3 \<longrightarrow> n < 1024 ^ Suc i"
    using size_loop_bounds [of 0 3 n] by (auto simp: i_def)
  have "length size_units - 1 = 3" by (simp add: size_units_def)
  then have "formatSize (int n) =
      (if i = 0 then show_nat n else show_nat (t div 10) @ ''.'' @ show_nat (t mod 10)) @ '' '' @ size_units ! i"
    using assms by (simp add: formatSize_def Let_def i_def t_def)
  then show ?thesis using b size_tenths_nearest [of n i]
    by (intro exI [of _ i] exI [of _ t] conjI) (simp_all add: t_def)
qed

theorem formatSize_correct_witness:
  "\<exists>i t. i \<le> 3 \<and>
    formatSize (int 1536) =
      (if i = 0 then show_nat 1536 else show_nat (t div 10) @ ''.'' @ show_nat (t mod 10)) @ '' '' @ size_units ! i \<and>
    (0 < i \<longrightarrow> 1024 ^ i \<le> (1536::nat)) \<and> (i < 3 \<longrightarrow> (1536::nat) < 1024 ^ Suc i) \<and>
    2 * \<bar>int t * 1024 ^ i - 10 * int 1536\<bar> \<le> 1024 ^ i"
  by (rule formatSize_correct) simp

section \<open>The reconnect delay\<close>

lemma sseBackoffNext_bounds: "2000 \<le> sseBackoffNext d \<and> sseBackoffNext d \<le> 30000"
  by (simp add: sseBackoffNext_def Let_def)

lemma sseBackoffNext_mono: "d \<le> 30000 \<Longrightarrow> d \<le> sseBackoffNext d"
  by (auto simp: sseBackoffNext_def Let_def)

text \<open>A retry chain grows strictly until the cap of thirty seconds.\<close>

lemma sseBackoffNext_grows: "0 < d \<Longrightarrow> d < 30000 \<Longrightarrow> d < sseBackoffNext d"
  by (auto simp: sseBackoffNext_def Let_def)

section \<open>Session names\<close>

lemma stripSessionPrefix_nonempty: "js_trim s \<noteq> [] \<Longrightarrow> stripSessionPrefix s \<noteq> []"
  by (auto simp: stripSessionPrefix_def Let_def or_str_def)

lemma stripSessionPrefix_session:
  "js_trim x = x \<Longrightarrow> x \<noteq> [] \<Longrightarrow> stripSessionPrefix (session_prefix @ x) = x"
proof -
  assume a: "js_trim x = x" "x \<noteq> []"
  then have "\<not> js_ws (last x)" using js_trim_ends [of x] by auto
  then have "js_trim (session_prefix @ x) = session_prefix @ x"
    using a(2) by (intro js_trim_id) (auto simp: session_prefix_def js_ws_def)
  then show ?thesis using a by (simp add: stripSessionPrefix_def or_str_def) (simp add: session_prefix_def)
qed

text \<open>The session URL is the same whether the identifier carries the \<open>session-\<close>
  prefix or not, and the shell URL adds the shell's index after a colon.\<close>

theorem resource_url_prefix_free:
  assumes "js_trim x = x" and "x \<noteq> []" and "\<not> starts_with session_prefix x"
  shows "resourceUrlSession (session_prefix @ x) = resourceUrlSession x \<and>
    resourceUrlShell (session_prefix @ x) n = TERMCP_SCHEME @ ''#'' @ x @ '':'' @ show_nat n"
  using assms stripSessionPrefix_session [OF assms(1,2)]
  by (simp add: resourceUrlSession_def resourceUrlShell_def stripSessionPrefix_def [of x])

theorem resource_url_prefix_free_witness:
  "resourceUrlSession (session_prefix @ ''a1'') = resourceUrlSession ''a1'' \<and>
   resourceUrlShell (session_prefix @ ''a1'') 2 = TERMCP_SCHEME @ ''#'' @ ''a1'' @ '':'' @ show_nat 2"
  using resource_url_prefix_free [of "''a1''" 2] by (simp add: js_trim_def js_ws_def session_prefix_def)

end
