(* ===== verification/I18n.thy ===== *)
theory I18n
  imports Text_Helpers
begin

text \<open>
  The translation engine of \<open>i18n.js\<close>: language resolution, catalog lookup with fallback,
  placeholder interpolation, the refresh of marked nodes, the language menu and the switch.
  The catalogs themselves (\<open>i18n-catalog.js\<close>) are an argument: everything here holds for
  any catalog.
\<close>

type_synonym catalog = "string \<Rightarrow> string obj option"

section \<open>Language choice and resolution\<close>

definition I18N_AUTO :: string where "I18N_AUTO = ''auto''"
definition I18N_LANGS :: "string list" where "I18N_LANGS = [''en'', ''zh-Hans'', ''zh-Hant'']"

text \<open>\<open>None\<close> is the \<open>null\<close> that \<open>localStorage.getItem\<close> gives for a missing key.\<close>

definition isLangChoice :: "string option \<Rightarrow> bool" where
  "isLangChoice value \<longleftrightarrow> value = Some I18N_AUTO \<or> (\<exists>l \<in> set I18N_LANGS. value = Some l)"

definition storedLangChoice :: "bool \<Rightarrow> string option \<Rightarrow> string" where
  "storedLangChoice readable item =
     (let v = (if readable then item else None) in if isLangChoice v then the v else I18N_AUTO)"

definition to_lower :: "char \<Rightarrow> char" where
  "to_lower c = (if is_upper c then char_of ((of_char c :: nat) + 32) else c)"

text \<open>\<open>/^p/i.test(s)\<close> for a lower-case literal \<open>p\<close>.\<close>

definition starts_ci :: "string \<Rightarrow> string \<Rightarrow> bool" where
  "starts_ci p s \<longleftrightarrow> starts_with p (map to_lower s)"

definition lang_of_tag :: "string \<Rightarrow> string option" where
  "lang_of_tag tag =
     (if starts_ci ''zh-hant'' tag \<or> starts_ci ''zh-tw'' tag \<or> starts_ci ''zh-hk'' tag \<or> starts_ci ''zh-mo'' tag
      then Some ''zh-Hant''
      else if starts_ci ''zh'' tag then Some ''zh-Hans''
      else if starts_ci ''en'' tag then Some ''en''
      else None)"

fun first_lang :: "string list \<Rightarrow> string" where
  "first_lang [] = ''en''"
| "first_lang (tag # prefs) = (case lang_of_tag tag of Some l \<Rightarrow> l | None \<Rightarrow> first_lang prefs)"

text \<open>The browser's \<open>navigator.languages\<close> and \<open>navigator.language\<close> are arguments.\<close>

definition resolveLang :: "string list \<Rightarrow> string \<Rightarrow> string \<Rightarrow> string" where
  "resolveLang languages language stored =
     (if stored \<noteq> [] \<and> stored \<noteq> I18N_AUTO \<and> isLangChoice (Some stored) then stored
      else first_lang (if languages \<noteq> [] then languages else [language]))"

section \<open>Lookup, interpolation, plural choice\<close>

definition i18nLookup :: "catalog \<Rightarrow> string \<Rightarrow> string \<Rightarrow> string option" where
  "i18nLookup catalog lang key =
     (case catalog lang of None \<Rightarrow> None | Some cat \<Rightarrow> if key = [] then None else obj_get cat key)"

function interpolate :: "string obj \<Rightarrow> string \<Rightarrow> string" where
  "interpolate params [] = []"
| "interpolate params (c # s) =
     (if c = CHR ''{'' \<and> takeWhile is_word s \<noteq> [] \<and> dropWhile is_word s \<noteq> [] \<and>
         hd (dropWhile is_word s) = CHR ''}''
      then (case obj_get params (takeWhile is_word s) of
              Some v \<Rightarrow> v
            | None \<Rightarrow> CHR ''{'' # takeWhile is_word s @ ''}'')
           @ interpolate params (tl (dropWhile is_word s))
      else c # interpolate params s)"
  by pat_completeness auto
termination
  by (relation "measure (\<lambda>(p, s). length s)")
    (auto intro!: le_imp_less_Suc order_trans [OF diff_le_self length_dropWhile_le])

definition i18nInterpolate :: "string \<Rightarrow> string obj option \<Rightarrow> string" where
  "i18nInterpolate str params = (case params of None \<Rightarrow> str | Some ps \<Rightarrow> interpolate ps str)"

definition tr :: "catalog \<Rightarrow> string \<Rightarrow> string \<Rightarrow> string obj option \<Rightarrow> string" where
  "tr catalog lang key params =
     (case i18nLookup catalog lang key of
        Some s \<Rightarrow> i18nInterpolate s params
      | None \<Rightarrow> (case i18nLookup catalog ''en'' key of
                   Some s \<Rightarrow> i18nInterpolate s params
                 | None \<Rightarrow> key))"

text \<open>\<open>Number(params.count) === 1\<close> chooses the singular key.\<close>

definition tCount :: "catalog \<Rightarrow> string \<Rightarrow> string \<Rightarrow> string \<Rightarrow> nat \<Rightarrow> string" where
  "tCount catalog lang oneKey otherKey n =
     tr catalog lang (if n = 1 then oneKey else otherKey) (Some [(''count'', show_nat n)])"

section \<open>Marked nodes\<close>

record node =
  data_i18n :: "string option"
  data_title :: "string option"
  data_placeholder :: "string option"
  data_aria :: "string option"
  n_text :: string
  n_title :: string
  n_placeholder :: string
  n_aria :: string

definition hasI18nAttrs :: "node \<Rightarrow> bool" where
  "hasI18nAttrs el \<longleftrightarrow>
     data_i18n el \<noteq> None \<or> data_title el \<noteq> None \<or> data_placeholder el \<noteq> None \<or> data_aria el \<noteq> None"

text \<open>\<open>if (key) ...\<close>: a missing or empty attribute writes nothing.\<close>

definition when_key :: "string option \<Rightarrow> (string \<Rightarrow> node \<Rightarrow> node) \<Rightarrow> node \<Rightarrow> node" where
  "when_key key f el = (case key of None \<Rightarrow> el | Some k \<Rightarrow> if k = [] then el else f k el)"

definition refresh_node :: "(string \<Rightarrow> string) \<Rightarrow> node \<Rightarrow> node" where
  "refresh_node t el =
     when_key (data_aria el) (\<lambda>k e. e\<lparr>n_aria := t k\<rparr>)
       (when_key (data_placeholder el) (\<lambda>k e. e\<lparr>n_placeholder := t k\<rparr>)
         (when_key (data_title el) (\<lambda>k e. e\<lparr>n_title := t k\<rparr>)
           (when_key (data_i18n el) (\<lambda>k e. e\<lparr>n_text := t k\<rparr>) el)))"

text \<open>The scope is the list of its nodes in document order; unmarked nodes are skipped.\<close>

definition applyI18n :: "(string \<Rightarrow> string) \<Rightarrow> node list \<Rightarrow> node list" where
  "applyI18n t scope = map (\<lambda>el. if hasI18nAttrs el then refresh_node t el else el) scope"

section \<open>The language menu and the switch\<close>

record lang_opt =
  opt_lang :: string
  opt_node :: node
  opt_active :: bool

text \<open>
  The page state the engine works on. A redraw callback takes the rest of the page
  (\<open>'d\<close>) to a new one and says whether it threw.
\<close>

record 'd i18n_state =
  storage :: "string option"
  storage_ok :: bool
  termcpLang :: string
  langReappliers :: "('d \<Rightarrow> bool \<times> 'd) list"
  doc_lang :: string
  lang_hant :: bool
  doc_nodes :: "node list"
  page :: 'd
  lang_opts :: "lang_opt list"
  lang_current :: string
  langMenuOpen :: bool

definition onLangChange :: "('d \<Rightarrow> bool \<times> 'd) \<Rightarrow> 'd i18n_state \<Rightarrow> 'd i18n_state" where
  "onLangChange fn st = st\<lparr>langReappliers := langReappliers st @ [fn]\<rparr>"

definition syncLangChoice :: "string \<Rightarrow> 'd i18n_state \<Rightarrow> 'd i18n_state" where
  "syncLangChoice choice st =
     (let opts = map (\<lambda>o'. o'\<lparr>opt_active := (opt_lang o' = choice)\<rparr>) (lang_opts st);
          on = filter (\<lambda>o'. opt_lang o' = choice) opts
      in st\<lparr>lang_opts := opts, lang_current := (if on = [] then [] else n_text (opt_node (last on)))\<rparr>)"

definition setLangMenuOpen :: "bool \<Rightarrow> 'd i18n_state \<Rightarrow> 'd i18n_state" where
  "setLangMenuOpen op st = st\<lparr>langMenuOpen := op\<rparr>"

definition toggleLangMenu :: "'d i18n_state \<Rightarrow> 'd i18n_state" where
  "toggleLangMenu st = setLangMenuOpen (\<not> langMenuOpen st) st"

definition closeLangMenu :: "'d i18n_state \<Rightarrow> 'd i18n_state" where
  "closeLangMenu st = setLangMenuOpen False st"

text \<open>A click on the document (inside or outside the switch) and a key press.\<close>

definition langMenuDocClick :: "bool \<Rightarrow> 'd i18n_state \<Rightarrow> 'd i18n_state" where
  "langMenuDocClick inside_switch st =
     (if \<not> langMenuOpen st then st else if inside_switch then st else closeLangMenu st)"

definition langMenuKey :: "string \<Rightarrow> 'd i18n_state \<Rightarrow> 'd i18n_state" where
  "langMenuKey key st = (if \<not> langMenuOpen st \<or> key \<noteq> ''Escape'' then st else closeLangMenu st)"

text \<open>Each callback runs in its own \<open>try/catch\<close>, so a failure does not stop the next.\<close>

definition run_reappliers :: "('d \<Rightarrow> bool \<times> 'd) list \<Rightarrow> 'd \<Rightarrow> 'd" where
  "run_reappliers fns d = foldl (\<lambda>d fn. snd (fn d)) d fns"

definition relabel :: "catalog \<Rightarrow> string list \<Rightarrow> string \<Rightarrow> string \<Rightarrow> 'd i18n_state \<Rightarrow> 'd i18n_state" where
  "relabel catalog languages language choice st =
     (let lang = resolveLang languages language choice; t = (\<lambda>k. tr catalog lang k None)
      in st\<lparr>termcpLang := lang, doc_lang := lang, lang_hant := (lang = ''zh-Hant''),
           doc_nodes := applyI18n t (doc_nodes st),
           lang_opts := map (\<lambda>o'. o'\<lparr>opt_node := hd (applyI18n t [opt_node o'])\<rparr>) (lang_opts st)\<rparr>)"

definition termcpApplyLang :: "catalog \<Rightarrow> string list \<Rightarrow> string \<Rightarrow> string \<Rightarrow> 'd i18n_state \<Rightarrow> 'd i18n_state" where
  "termcpApplyLang catalog languages language value st =
     (let choice = (if isLangChoice (Some value) then value else I18N_AUTO);
          st1 = (if storage_ok st then st\<lparr>storage := Some choice\<rparr> else st);
          st2 = relabel catalog languages language choice st1;
          st3 = st2\<lparr>page := run_reappliers (langReappliers st2) (page st2)\<rparr>
      in syncLangChoice choice st3)"

definition chooseLang :: "catalog \<Rightarrow> string list \<Rightarrow> string \<Rightarrow> string \<Rightarrow> 'd i18n_state \<Rightarrow> 'd i18n_state" where
  "chooseLang catalog languages language value st =
     closeLangMenu (termcpApplyLang catalog languages language value st)"

definition initI18n :: "catalog \<Rightarrow> string list \<Rightarrow> string \<Rightarrow> 'd i18n_state \<Rightarrow> 'd i18n_state" where
  "initI18n catalog languages language st =
     (let choice = storedLangChoice (storage_ok st) (storage st)
      in syncLangChoice choice (relabel catalog languages language choice st))"

section \<open>Resolution\<close>

lemma lang_of_tag_range: "lang_of_tag tag = Some l \<Longrightarrow> l \<in> set I18N_LANGS"
  by (auto simp: lang_of_tag_def I18N_LANGS_def split: if_splits)

lemma first_lang_range: "first_lang prefs \<in> set I18N_LANGS"
  by (induction prefs) (auto split: option.splits dest: lang_of_tag_range, simp add: I18N_LANGS_def)

lemma resolveLang_range: "resolveLang languages language stored \<in> set I18N_LANGS"
  using first_lang_range by (auto simp: resolveLang_def isLangChoice_def)

lemma resolveLang_explicit:
  "l \<in> set I18N_LANGS \<Longrightarrow> resolveLang languages language l = l"
  by (auto simp: resolveLang_def isLangChoice_def I18N_LANGS_def I18N_AUTO_def)

lemma resolveLang_auto:
  "languages \<noteq> [] \<Longrightarrow> resolveLang languages language I18N_AUTO = first_lang languages"
  by (simp add: resolveLang_def)

lemma first_lang_skip: "\<forall>x \<in> set pre. lang_of_tag x = None \<Longrightarrow> first_lang (pre @ rest) = first_lang rest"
  by (induction pre) auto

text \<open>Every choice resolves to one of the three catalogs; an explicit choice resolves to
  itself, and the automatic one to the first entry of the browser's language list that any
  rule recognises, however many unknown tags stand before it.\<close>

theorem resolveLang_correct:
  "resolveLang languages language stored \<in> set I18N_LANGS \<and>
   (stored \<in> set I18N_LANGS \<longrightarrow> resolveLang languages language stored = stored) \<and>
   ((\<forall>x \<in> set pre. lang_of_tag x = None) \<and> lang_of_tag tag = Some l \<longrightarrow>
      resolveLang (pre @ tag # rest) language I18N_AUTO = l)"
  using resolveLang_range resolveLang_explicit
  by (auto simp: resolveLang_auto first_lang_skip)

lemma resolveLang_tags: "lang_of_tag ''fr'' = None" "lang_of_tag ''zh-TW'' = Some ''zh-Hant''"
  by code_simp+

theorem resolveLang_correct_witness:
  "resolveLang [''fr'', ''zh-TW'', ''en''] ''fr'' I18N_AUTO = ''zh-Hant'' \<and>
   resolveLang [''fr''] ''fr'' ''zh-Hans'' = ''zh-Hans''"
  using resolveLang_correct [of "[''fr'']" "''fr''" "''zh-Hans''" "[''fr'']" "''zh-TW''" "''zh-Hant''" "[''en'']"]
  by (simp add: resolveLang_tags I18N_LANGS_def)

section \<open>Interpolation\<close>

lemma interpolate_no_brace: "CHR ''{'' \<notin> set s \<Longrightarrow> interpolate ps s = s"
  by (induction s) auto

lemma interpolate_prefix: "CHR ''{'' \<notin> set a \<Longrightarrow> interpolate ps (a @ s) = a @ interpolate ps s"
  by (induction a) auto

lemma not_word_braces [simp]: "\<not> is_word (CHR ''}'')" "\<not> is_word (CHR ''{'')"
  by (auto simp: is_word_def is_digit_def is_lower_def is_upper_def)

lemma interpolate_hole:
  assumes "name \<noteq> []" and "\<forall>c \<in> set name. is_word c"
  shows "interpolate ps (CHR ''{'' # name @ CHR ''}'' # s) =
    (case obj_get ps name of Some v \<Rightarrow> v | None \<Rightarrow> CHR ''{'' # name @ ''}'') @ interpolate ps s"
proof -
  have t: "takeWhile is_word (name @ CHR ''}'' # s) = name"
    using assms(2) by (simp add: takeWhile_append2)
  have d: "dropWhile is_word (name @ CHR ''}'' # s) = CHR ''}'' # s"
    using assms(2) by (simp add: dropWhile_append2)
  show ?thesis by (cases "obj_get ps name") (simp_all add: t d assms(1))
qed

lemma interpolate_absent: "\<forall>k. obj_get ps k = None \<Longrightarrow> interpolate ps s = s"
proof (induction ps s rule: interpolate.induct)
  case (2 params c s)
  show ?case
  proof (cases "c = CHR ''{'' \<and> takeWhile is_word s \<noteq> [] \<and> dropWhile is_word s \<noteq> [] \<and>
      hd (dropWhile is_word s) = CHR ''}''")
    case True
    then have "interpolate params (tl (dropWhile is_word s)) = tl (dropWhile is_word s)"
      using 2 by blast
    moreover have "takeWhile is_word s @ CHR ''}'' # tl (dropWhile is_word s) = s"
      using True by (metis list.collapse takeWhile_dropWhile_id)
    ultimately show ?thesis using True 2 by simp
  next
    case False
    then have "interpolate params s = s" using 2 by blast
    then show ?thesis using False by (simp only: interpolate.simps if_False)
  qed
qed simp

text \<open>A message is literal text and named holes; the reference rendering fills each hole.\<close>

datatype part = Txt string | Var string

definition part_ok :: "part \<Rightarrow> bool" where
  "part_ok p = (case p of Txt s \<Rightarrow> CHR ''{'' \<notin> set s | Var n \<Rightarrow> n \<noteq> [] \<and> (\<forall>c \<in> set n. is_word c))"

definition part_src :: "part \<Rightarrow> string" where
  "part_src p = (case p of Txt s \<Rightarrow> s | Var n \<Rightarrow> CHR ''{'' # n @ ''}'')"

definition part_out :: "string obj \<Rightarrow> part \<Rightarrow> string" where
  "part_out ps p = (case p of Txt s \<Rightarrow> s | Var n \<Rightarrow> (case obj_get ps n of Some v \<Rightarrow> v | None \<Rightarrow> part_src p))"

text \<open>A message interpolates to its literal text with each named placeholder replaced by
  its parameter; a placeholder without a parameter stays verbatim, and inserted values are
  not scanned again.\<close>

theorem interpolate_parts:
  assumes "\<forall>p \<in> set parts. part_ok p"
  shows "i18nInterpolate (concat (map part_src parts)) (Some ps) = concat (map (part_out ps) parts)"
proof -
  have "interpolate ps (concat (map part_src parts)) = concat (map (part_out ps) parts)"
    using assms
  proof (induction parts)
    case (Cons p parts)
    show ?case
    proof (cases p)
      case (Txt x)
      with Cons show ?thesis by (simp add: part_ok_def part_src_def part_out_def interpolate_prefix)
    next
      case (Var n)
      with Cons show ?thesis
        using interpolate_hole [of n ps "concat (map part_src parts)"]
        by (cases "obj_get ps n") (simp_all add: part_ok_def part_src_def [of "Var n"] part_out_def [of ps "Var n"])
    qed
  qed simp
  then show ?thesis by (simp add: i18nInterpolate_def)
qed

theorem interpolate_parts_witness:
  "i18nInterpolate ''Deleted {count} of {total}'' (Some [(''count'', ''{total}'')]) = ''Deleted {total} of {total}''"
  using interpolate_parts [of "[Txt ''Deleted '', Var ''count'', Txt '' of '', Var ''total'']" "[(''count'', ''{total}'')]"]
  by (simp add: part_ok_def part_src_def part_out_def obj_get_def is_word_def is_digit_def is_lower_def is_upper_def)

section \<open>Translation fallback\<close>

lemma tr_missing: "i18nLookup cat lang k = None \<Longrightarrow> i18nLookup cat ''en'' k = None \<Longrightarrow> tr cat lang k ps = k"
  by (simp add: tr_def)

lemma tr_present: "i18nLookup cat lang k = Some s \<Longrightarrow> tr cat lang k ps = i18nInterpolate s ps"
  by (simp add: tr_def)

section \<open>Switching language\<close>

definition label_for :: "(string \<Rightarrow> string) \<Rightarrow> string option \<Rightarrow> string \<Rightarrow> string" where
  "label_for t key old = (case key of None \<Rightarrow> old | Some k \<Rightarrow> if k = [] then old else t k)"

lemma label_for_twice [simp]: "label_for t key (label_for u key old) = label_for t key old"
  by (simp add: label_for_def split: option.split)

lemma refresh_node_alt:
  "refresh_node t el =
     el\<lparr>n_text := label_for t (data_i18n el) (n_text el), n_title := label_for t (data_title el) (n_title el),
        n_placeholder := label_for t (data_placeholder el) (n_placeholder el),
        n_aria := label_for t (data_aria el) (n_aria el)\<rparr>"
proof -
  have w: "when_key key (\<lambda>k e. e\<lparr>n_text := t k\<rparr>) e = e\<lparr>n_text := label_for t key (n_text e)\<rparr>"
    "when_key key (\<lambda>k e. e\<lparr>n_title := t k\<rparr>) e = e\<lparr>n_title := label_for t key (n_title e)\<rparr>"
    "when_key key (\<lambda>k e. e\<lparr>n_placeholder := t k\<rparr>) e = e\<lparr>n_placeholder := label_for t key (n_placeholder e)\<rparr>"
    "when_key key (\<lambda>k e. e\<lparr>n_aria := t k\<rparr>) e = e\<lparr>n_aria := label_for t key (n_aria e)\<rparr>" for key and e :: node
    by (auto simp: when_key_def label_for_def split: option.splits)
  show ?thesis by (simp add: refresh_node_def w)
qed

lemma refresh_node_keys:
  "data_i18n (refresh_node t el) = data_i18n el" "data_title (refresh_node t el) = data_title el"
  "data_placeholder (refresh_node t el) = data_placeholder el" "data_aria (refresh_node t el) = data_aria el"
  by (simp_all add: refresh_node_alt)

lemma refresh_node_twice: "refresh_node t (refresh_node u el) = refresh_node t el"
  by (simp add: refresh_node_alt)

lemma applyI18n_twice: "applyI18n t (applyI18n u scope) = applyI18n t scope"
  by (auto simp: applyI18n_def hasI18nAttrs_def refresh_node_keys refresh_node_twice)

lemma relabel_twice: "relabel cat ls l b (relabel cat ls l a st) = relabel cat ls l b st"
proof -
  have *: "hd (applyI18n t [hd (applyI18n u [el])]) = hd (applyI18n t [el])" for t u el
    using applyI18n_twice [of t u "[el]"] by (simp add: applyI18n_def)
  show ?thesis by (simp add: relabel_def Let_def applyI18n_twice * cong: map_cong)
qed

lemma relabel_frame [simp]:
  "langReappliers (relabel cat ls l c st) = langReappliers st" "page (relabel cat ls l c st) = page st"
  "storage (relabel cat ls l c st) = storage st" "storage_ok (relabel cat ls l c st) = storage_ok st"
  by (simp_all add: relabel_def Let_def)

lemma sync_frame [simp]:
  "termcpLang (syncLangChoice c st) = termcpLang st" "storage (syncLangChoice c st) = storage st"
  "storage_ok (syncLangChoice c st) = storage_ok st" "doc_nodes (syncLangChoice c st) = doc_nodes st"
  "page (syncLangChoice c st) = page st" "doc_lang (syncLangChoice c st) = doc_lang st"
  "lang_hant (syncLangChoice c st) = lang_hant st"
  by (simp_all add: syncLangChoice_def Let_def)


definition i18n_blank :: "unit i18n_state" where
  "i18n_blank = \<lparr>storage = None, storage_ok = True, termcpLang = [], langReappliers = [], doc_lang = [],
     lang_hant = False, doc_nodes = [], page = (), lang_opts = [], lang_current = [], langMenuOpen = False\<rparr>"

lemma termcpLang_apply:
  "v \<in> set I18N_LANGS \<Longrightarrow> termcpLang (termcpApplyLang cat ls l v st) = v"
  by (simp add: termcpApplyLang_def Let_def isLangChoice_def) (simp add: relabel_def Let_def resolveLang_explicit)


end
