(* ===== verification/Conn_Toml.thy ===== *)
theory Conn_Toml
  imports Text_Helpers
begin

text \<open>
  The profile editor's two views of a connection (\<open>conn-form.js\<close>): the TOML printer of
  the form and its jump chain, and the line-oriented parser that fills the form back in.
  The form's inputs are a record of strings; what the browser itself normalises when a
  script assigns to \<open>input.value\<close> is not modelled.
\<close>

section \<open>Printing values\<close>

text \<open>A parsed TOML value is a JavaScript boolean, number or string.\<close>

datatype tval = TBool bool | TInt int | TStr string

definition truthy :: "tval \<Rightarrow> bool" where
  "truthy v = (case v of TBool b \<Rightarrow> b | TInt i \<Rightarrow> i \<noteq> 0 | TStr s \<Rightarrow> s \<noteq> [])"

text \<open>String concatenation and assignment to \<open>input.value\<close> convert to a string.\<close>

definition to_str :: "tval \<Rightarrow> string" where
  "to_str v = (case v of TBool b \<Rightarrow> if b then ''true'' else ''false'' | TInt i \<Rightarrow> show_int i | TStr s \<Rightarrow> s)"

definition tomlEscape :: "string \<Rightarrow> string" where
  "tomlEscape v = replace_char DQ [BSL, DQ] (replace_char BSL [BSL, BSL] v)"

text \<open>\<open>_tomlVal\<close>: a falsy value prints as the empty string; \<open>replace\<close> is not a method of
  numbers and booleans, so those throw.\<close>

definition tomlVal :: "tval \<Rightarrow> js_error + string" where
  "tomlVal s =
     (if truthy s then (case s of TStr x \<Rightarrow> Inr (DQ # tomlEscape x @ [DQ]) | _ \<Rightarrow> Inl TypeError)
      else Inr [DQ, DQ])"

section \<open>Parsing\<close>

type_synonym section_obj = "tval obj"

record toml_doc =
  root :: section_obj
  sections :: "section_obj obj"

text \<open>The parser's state adds the object being filled: the root or a named section.\<close>

record toml_state = toml_doc +
  cur :: "string option"

definition cur_put :: "string \<Rightarrow> tval \<Rightarrow> toml_state \<Rightarrow> toml_state" where
  "cur_put key v st =
     (case cur st of
        None \<Rightarrow> st\<lparr>root := obj_set (root st) key v\<rparr>
      | Some n \<Rightarrow> st\<lparr>sections := obj_set (sections st) n
                      (obj_set (case obj_get (sections st) n of None \<Rightarrow> [] | Some ob \<Rightarrow> ob) key v)\<rparr>)"

text \<open>\<open>sections[n] || (sections[n] = {})\<close>.\<close>

definition enter_section :: "string \<Rightarrow> toml_state \<Rightarrow> toml_state" where
  "enter_section n st =
     (case obj_get (sections st) n of
        Some ob \<Rightarrow> st\<lparr>cur := Some n\<rparr>
      | None \<Rightarrow> st\<lparr>sections := obj_set (sections st) n [], cur := Some n\<rparr>)"

text \<open>\<open>/^\[([^\]]+)\]$/\<close>.\<close>

definition section_match :: "string \<Rightarrow> string option" where
  "section_match line =
     (if length line \<ge> 3 \<and> hd line = CHR ''['' \<and> last line = CHR '']'' \<and> CHR '']'' \<notin> set (butlast (tl line))
      then Some (butlast (tl line)) else None)"

text \<open>\<open>/^(\w+)\s*=\s*(.*)$/\<close>.\<close>

definition kv_match :: "string \<Rightarrow> (string \<times> string) option" where
  "kv_match line =
     (let key = takeWhile is_word line; rest = dropWhile js_ws (dropWhile is_word line)
      in if key \<noteq> [] \<and> rest \<noteq> [] \<and> hd rest = CHR ''=''
         then Some (key, dropWhile js_ws (tl rest)) else None)"

definition QQQ :: string where "QQQ = [DQ, DQ, DQ]"

definition unescape_quotes :: "string \<Rightarrow> string" where
  "unescape_quotes s = replace_pair BSL DQ [DQ] s"

text \<open>\<open>v.replace(/^"(.*)"$/, '$1')\<close>.\<close>

definition strip_quotes :: "string \<Rightarrow> string" where
  "strip_quotes v =
     (if length v \<ge> 2 \<and> hd v = DQ \<and> last v = DQ then butlast (tl v) else v)"

text \<open>\<open>/^-?\d+$/\<close>.\<close>

definition int_literal :: "string \<Rightarrow> bool" where
  "int_literal v \<longleftrightarrow>
     (let d = (if v \<noteq> [] \<and> hd v = CHR ''-'' then tl v else v) in d \<noteq> [] \<and> (\<forall>c \<in> set d. is_digit c))"

definition scalar_value :: "string \<Rightarrow> tval" where
  "scalar_value raw =
     (let v = js_trim raw
      in if v = ''true'' then TBool True
         else if v = ''false'' then TBool False
         else if int_literal v then TInt (case parse_int v of None \<Rightarrow> 0 | Some i \<Rightarrow> i)
         else TStr (unescape_quotes (strip_quotes v)))"

text \<open>The inner loop of a multi-line string: lines up to the one with the closing quotes.\<close>

fun multi_lines :: "string list \<Rightarrow> string list \<times> string list" where
  "multi_lines [] = ([], [])"
| "multi_lines (l # ls) =
     (case index_of QQQ l of
        Some idx \<Rightarrow> ([take idx l], ls)
      | None \<Rightarrow> (case multi_lines ls of (parts, rest) \<Rightarrow> (l # parts, rest)))"

lemma multi_lines_shorter: "length (snd (multi_lines ls)) \<le> length ls"
  by (induction ls) (auto split: option.split prod.split)

text \<open>One iteration of the outer loop: the new state and the lines left.\<close>

definition parse_line :: "toml_state \<Rightarrow> string \<Rightarrow> string list \<Rightarrow> toml_state \<times> string list" where
  "parse_line st l ls =
     (let line = js_trim l
      in if line = [] \<or> hd line = CHR ''#'' then (st, ls)
         else (case section_match line of
           Some m \<Rightarrow> (enter_section (js_trim m) st, ls)
         | None \<Rightarrow> (case kv_match line of
             None \<Rightarrow> (st, ls)
           | Some (key, raw) \<Rightarrow>
               if starts_with QQQ raw then
                 (let body = drop 3 raw
                  in case index_of QQQ body of
                       Some idx \<Rightarrow> (cur_put key (TStr (unescape_quotes (take idx body))) st, ls)
                     | None \<Rightarrow> (case multi_lines ls of (parts, rest) \<Rightarrow>
                         (cur_put key (TStr (js_trim (unescape_quotes (js_join [NL] (body # parts))))) st, rest)))
               else (cur_put key (scalar_value raw) st, ls))))"

lemma parse_line_shorter: "length (snd (parse_line st l ls)) \<le> length ls"
  using multi_lines_shorter [of ls]
  by (auto simp: parse_line_def Let_def split: option.split prod.split)

function parse_lines :: "toml_state \<Rightarrow> string list \<Rightarrow> toml_state" where
  "parse_lines st [] = st"
| "parse_lines st (l # ls) = (case parse_line st l ls of (st', ls') \<Rightarrow> parse_lines st' ls')"
  by pat_completeness auto
termination
  by (relation "measure (\<lambda>(st, ls). length ls)") (simp, simp add: case_prod_beta parse_line_shorter less_Suc_eq_le)

definition parseConnTOML :: "string \<Rightarrow> toml_state" where
  "parseConnTOML toml =
     parse_lines \<lparr>root = [], sections = [], cur = None\<rparr> (js_split NL (filter (\<lambda>c. c \<noteq> CR) toml))"

section \<open>Jump chain\<close>

record jump =
  j_host :: tval
  j_port :: tval
  j_user :: tval
  j_auth :: string
  j_password :: tval
  j_pem :: tval
  j_passphrase :: tval
  j_proxy :: tval

definition newJumpCard :: jump where
  "newJumpCard = \<lparr>j_host = TStr [], j_port = TInt 22, j_user = TStr [], j_auth = ''password'',
     j_password = TStr [], j_pem = TStr [], j_passphrase = TStr [], j_proxy = TStr []\<rparr>"

text \<open>\<open>s.key || d\<close>: a missing property is \<open>undefined\<close>, which is falsy.\<close>

definition get_or :: "section_obj \<Rightarrow> string \<Rightarrow> tval \<Rightarrow> tval" where
  "get_or s key d = (case obj_get s key of None \<Rightarrow> d | Some v \<Rightarrow> if truthy v then v else d)"

definition has_truthy :: "section_obj \<Rightarrow> string \<Rightarrow> bool" where
  "has_truthy s key = (case obj_get s key of None \<Rightarrow> False | Some v \<Rightarrow> truthy v)"

definition sectionToJump :: "section_obj \<Rightarrow> jump" where
  "sectionToJump s =
     \<lparr>j_host = get_or s ''host'' (TStr []), j_port = get_or s ''port'' (TInt 22), j_user = get_or s ''user'' (TStr []),
      j_auth = (if has_truthy s ''private_key'' then ''key'' else ''password''),
      j_password = get_or s ''password'' (TStr []), j_pem = get_or s ''private_key'' (TStr []),
      j_passphrase = get_or s ''key_passphrase'' (TStr []), j_proxy = get_or s ''proxy'' (TStr [])\<rparr>"

text \<open>The loop over \<open>jump\<close>, \<open>jump.jump\<close>, \<dots> stops because the names get longer and the
  object has finitely many keys.\<close>

function jumps_loop :: "section_obj obj \<Rightarrow> string \<Rightarrow> jump list" where
  "jumps_loop secs name =
     (case obj_get secs name of
        None \<Rightarrow> []
      | Some s \<Rightarrow> sectionToJump s # jumps_loop secs (name @ ''.jump''))"
  by pat_completeness auto
termination
proof (relation "measure (\<lambda>(secs, name). card {k \<in> set (obj_keys secs). length name \<le> length k})")
  fix secs :: "section_obj obj" and name s
  assume "obj_get secs name = Some s"
  then have "name \<in> set (obj_keys secs)" by (simp add: obj_keys_iff)
  then have "{k \<in> set (obj_keys secs). length (name @ ''.jump'') \<le> length k} \<subset>
      {k \<in> set (obj_keys secs). length name \<le> length k}" by force
  then show "((secs, name @ ''.jump''), secs, name)
      \<in> measure (\<lambda>(secs, name). card {k \<in> set (obj_keys secs). length name \<le> length k})"
    by (simp add: psubset_card_mono)
qed simp

declare jumps_loop.simps [simp del]

definition jumpsFromSections :: "section_obj obj \<Rightarrow> jump list" where
  "jumpsFromSections secs = jumps_loop secs ''jump''"

text \<open>\<open>parseInt(c.port, 10) || 22\<close>.\<close>

definition port_number :: "tval \<Rightarrow> int" where
  "port_number v =
     (case parse_int (to_str v) of None \<Rightarrow> 22 | Some p \<Rightarrow> if p = 0 then 22 else p)"

fun jump_section :: "nat \<Rightarrow> string" where
  "jump_section 0 = []"
| "jump_section (Suc 0) = ''jump''"
| "jump_section (Suc (Suc n)) = jump_section (Suc n) @ ''.jump''"

text \<open>\<open>'key = ' + _tomlVal(v)\<close> as one line.\<close>

definition val_line :: "string \<Rightarrow> tval \<Rightarrow> js_error + string list" where
  "val_line key v = err_bind (tomlVal v) (\<lambda>x. Inr [key @ '' = '' @ x])"

definition opt_val_line :: "string \<Rightarrow> tval \<Rightarrow> js_error + string list" where
  "opt_val_line key v = (if truthy v then val_line key v else Inr [])"

definition port_line :: "int \<Rightarrow> string list" where
  "port_line p = (if p \<noteq> 22 then [''port = '' @ show_int p] else [])"

definition key_line :: "string \<Rightarrow> string" where
  "key_line pem = ''private_key = '' @ QQQ @ [NL] @ pem @ [NL] @ QQQ"

text \<open>\<open>c.auth === 'key' || (c.pem && c.pem.trim())\<close>; \<open>trim\<close> throws on a non-string.\<close>

definition wants_key :: "jump \<Rightarrow> js_error + bool" where
  "wants_key c =
     (if j_auth c = ''key'' then Inr True
      else if \<not> truthy (j_pem c) then Inr False
      else (case j_pem c of TStr s \<Rightarrow> Inr (js_trim s \<noteq> []) | _ \<Rightarrow> Inl TypeError))"

fun seq_lines :: "(js_error + string list) list \<Rightarrow> js_error + string list" where
  "seq_lines [] = Inr []"
| "seq_lines (m # ms) = err_bind m (\<lambda>a. err_bind (seq_lines ms) (\<lambda>b. Inr (a @ b)))"

definition jumpToLines :: "jump \<Rightarrow> nat \<Rightarrow> js_error + string list" where
  "jumpToLines c depth =
     seq_lines
       [Inr [''['' @ jump_section depth @ '']''],
        val_line ''host'' (j_host c),
        Inr (port_line (port_number (j_port c))),
        val_line ''user'' (j_user c),
        err_bind (wants_key c)
          (\<lambda>k. if k then Inr [key_line (to_str (j_pem c))] else val_line ''password'' (j_password c)),
        opt_val_line ''key_passphrase'' (j_passphrase c),
        opt_val_line ''proxy'' (j_proxy c)]"

section \<open>The form\<close>

record conn_form =
  f_host :: string
  f_port :: string
  f_user :: string
  f_auth :: string
  f_password :: string
  f_pem :: string
  f_passphrase :: string
  f_shell :: string
  f_approval :: bool
  f_proxy :: string
  jumpCards :: "jump list"

fun jumps_lines :: "jump list \<Rightarrow> nat \<Rightarrow> js_error + string list" where
  "jumps_lines [] d = Inr []"
| "jumps_lines (c # cs) d = seq_lines [jumpToLines c d, jumps_lines cs (Suc d)]"

definition connFormLines :: "bool \<Rightarrow> conn_form \<Rightarrow> js_error + string list" where
  "connFormLines isInternal f =
     seq_lines
       [Inr [if isInternal then ''kind = '' @ [DQ] @ ''internal'' @ [DQ] else ''kind = '' @ [DQ] @ ''remote'' @ [DQ]],
        (if isInternal then Inr []
         else seq_lines
           [val_line ''host'' (TStr (js_trim (f_host f))),
            Inr (port_line (port_number (TStr (f_port f)))),
            val_line ''user'' (TStr (js_trim (f_user f))),
            (if f_auth f = ''password'' then val_line ''password'' (TStr (f_password f))
             else Inr [key_line (f_pem f)]),
            opt_val_line ''key_passphrase'' (TStr (f_passphrase f))]),
        opt_val_line ''default_shell'' (TStr (js_trim (f_shell f))),
        Inr (if f_approval f then [''default_approval = true''] else []),
        (if isInternal then Inr [] else opt_val_line ''proxy'' (TStr (js_trim (f_proxy f)))),
        Inr [''trust_unknown_host = true''],
        jumps_lines (jumpCards f) 1]"

definition connFormToTOML :: "string \<Rightarrow> conn_form \<Rightarrow> js_error + string" where
  "connFormToTOML editingConnName f =
     err_bind (connFormLines (editingConnName = ''internal'') f) (\<lambda>lines. Inr (js_join [NL] lines @ [NL]))"

definition connTOMLToForm :: "string \<Rightarrow> conn_form" where
  "connTOMLToForm toml =
     (let p = parseConnTOML toml; ob = root p
      in \<lparr>f_host = to_str (get_or ob ''host'' (TStr [])), f_port = to_str (get_or ob ''port'' (TInt 22)),
          f_user = to_str (get_or ob ''user'' (TStr [])),
          f_auth = (if has_truthy ob ''private_key'' then ''key'' else ''password''),
          f_password = to_str (get_or ob ''password'' (TStr [])), f_pem = to_str (get_or ob ''private_key'' (TStr [])),
          f_passphrase = to_str (get_or ob ''key_passphrase'' (TStr [])),
          f_shell = to_str (get_or ob ''default_shell'' (TStr [])),
          f_approval = (obj_get ob ''default_approval'' = Some (TBool True)),
          f_proxy = to_str (get_or ob ''proxy'' (TStr [])),
          jumpCards = jumpsFromSections (sections p)\<rparr>)"

end
