(* ===== verification/Conn_Roundtrip.thy ===== *)
theory Conn_Roundtrip
  imports Conn_Toml
begin

text \<open>
  The two views of the profile editor agree: what the form prints, the parser reads back.
  The printed document is described by a list of entries; the printer renders them line by
  line and the parser's effect on the rendered lines is the entries' own effect.
\<close>

section \<open>Values\<close>

definition dbl :: "string \<Rightarrow> string" where
  "dbl s = replace_char BSL [BSL, BSL] s"

definition quoted :: "string \<Rightarrow> string" where
  "quoted x = DQ # tomlEscape x @ [DQ]"

lemma BSL_DQ [simp]: "BSL \<noteq> DQ" "DQ \<noteq> BSL"
  by (auto simp: char_consts)

lemma DQ_ws [simp]: "\<not> js_ws DQ" "\<not> is_digit DQ" "DQ \<noteq> CHR ''-''"
  by (auto simp: js_ws_def is_digit_def char_consts)

lemma tomlEscape_simps [simp]:
  "tomlEscape [] = []"
  "tomlEscape (c # s) = (if c = DQ then [BSL, DQ] else if c = BSL then [BSL, BSL] else [c]) @ tomlEscape s"
  by (auto simp: tomlEscape_def)

lemma tomlEscape_hd: "tomlEscape s = [] \<or> hd (tomlEscape s) \<noteq> DQ"
  by (cases s) auto

lemma replace_pair_keep: "s = [] \<or> hd s \<noteq> b \<Longrightarrow> replace_pair a b r (x # s) = x # replace_pair a b r s"
  by (cases s) auto

lemma replace_pair_other: "x \<noteq> a \<Longrightarrow> replace_pair a b r (x # s) = x # replace_pair a b r s"
  by (cases s) auto

lemma unescape_tomlEscape: "unescape_quotes (tomlEscape s) = dbl s"
  by (induction s)
    (auto simp: unescape_quotes_def dbl_def replace_pair_keep [OF tomlEscape_hd] replace_pair_other)

lemma strip_quotes_quoted: "strip_quotes (quoted x) = tomlEscape x"
  by (simp add: strip_quotes_def quoted_def)

lemma quoted_ends: "hd (quoted x) = DQ" "last (quoted x) = DQ" "quoted x \<noteq> []"
  by (auto simp: quoted_def)

lemma scalar_quoted: "scalar_value (quoted x) = TStr (dbl x)"
proof -
  have t: "js_trim (quoted x) = quoted x" by (rule js_trim_id) (simp add: quoted_ends)
  have "\<not> int_literal (quoted x)" by (simp add: int_literal_def quoted_def Let_def)
  moreover have "quoted x \<noteq> ''true''" "quoted x \<noteq> ''false''" by (auto simp: quoted_def char_consts)
  ultimately show ?thesis
    by (simp add: scalar_value_def t Let_def strip_quotes_quoted unescape_tomlEscape)
qed

lemma quoted_not_QQQ: "\<not> starts_with QQQ (quoted x)"
proof (cases "tomlEscape x")
  case (Cons c cs)
  then show ?thesis using tomlEscape_hd [of x] by (auto simp: quoted_def QQQ_def)
qed (simp add: quoted_def QQQ_def)

lemma tomlVal_str: "tomlVal (TStr x) = Inr (quoted x)"
  by (auto simp: tomlVal_def truthy_def quoted_def)

lemma val_line_str: "val_line key (TStr x) = Inr [key @ '' = '' @ quoted x]"
  by (simp add: val_line_def tomlVal_str)

lemma index_of_sub:
  assumes "index_of p (a @ s @ b) = None"
  shows "index_of p s = None"
proof -
  have no: "\<not> (\<exists>x y. a @ s @ b = x @ p @ y)" by (rule iffD1 [OF index_of_None_iff assms])
  have "s \<noteq> u @ p @ v" for u v
  proof
    assume "s = u @ p @ v"
    then have "a @ s @ b = (a @ u) @ p @ (v @ b)" by simp
    with no show False by (metis (no_types))
  qed
  then show ?thesis by (simp add: index_of_None_iff)
qed

lemma replace_pair_no_occ: "index_of [a, b] s = None \<Longrightarrow> replace_pair a b r s = s"
  by (induction a b r s rule: replace_pair.induct) (auto split: if_splits)

lemma js_split_sub: "l \<in> set (js_split c s) \<Longrightarrow> \<exists>a b. s = a @ l @ b"
proof (induction s arbitrary: l)
  case (Cons x s)
  obtain h t where ht: "js_split c s = h # t" by (cases "js_split c s") auto
  have sub: "\<exists>a b. x # s = a @ m @ b" if "m \<in> set (js_split c s)" for m
    using Cons.IH [OF that] by (metis append_Cons)
  show ?case
  proof (cases "x = c")
    case True
    then have "l = [] \<or> l \<in> set (js_split c s)" using Cons.prems by auto
    then show ?thesis using sub by (metis append_Nil)
  next
    case False
    obtain b where b: "s = h @ b"
      using js_join_split [of c s] ht by (cases t) auto
    have "l = x # h \<or> l \<in> set (js_split c s)" using Cons.prems False ht by auto
    moreover have "x # s = [] @ (x # h) @ b" using b by simp
    ultimately show ?thesis using sub by blast
  qed
qed simp

section \<open>Lines\<close>

definition key_ok :: "string \<Rightarrow> bool" where
  "key_ok k \<longleftrightarrow> k \<noteq> [] \<and> (\<forall>c \<in> set k. is_word c)"

lemma is_word_not: "is_word c \<Longrightarrow> \<not> js_ws c \<and> c \<noteq> CHR ''#'' \<and> c \<noteq> CHR ''['' \<and> c \<noteq> CHR ''=''"
  by (auto simp: is_word_def js_ws_def is_digit_def is_lower_def is_upper_def)

lemma ws_not_word: "js_ws c \<Longrightarrow> \<not> is_word c"
  using is_word_not by blast

lemma blank_ws [simp]: "js_ws (CHR '' '')" "\<not> is_word (CHR '' '')" "\<not> js_ws (CHR ''='')"
  by (auto simp: js_ws_def is_word_def is_digit_def is_lower_def is_upper_def)

lemma kv_line:
  assumes k: "key_ok k" and r: "raw \<noteq> []" "\<not> js_ws (hd raw)" "\<not> js_ws (last raw)"
  shows "parse_line st (k @ '' = '' @ raw) ls =
    (if starts_with QQQ raw then
       (case index_of QQQ (drop 3 raw) of
          Some idx \<Rightarrow> (cur_put k (TStr (unescape_quotes (take idx (drop 3 raw)))) st, ls)
        | None \<Rightarrow> (case multi_lines ls of (parts, rest) \<Rightarrow>
            (cur_put k (TStr (js_trim (unescape_quotes (js_join [NL] (drop 3 raw # parts))))) st, rest)))
     else (cur_put k (scalar_value raw) st, ls))"
proof -
  obtain c k' where ck: "k = c # k'" using k by (cases k) (auto simp: key_ok_def)
  then have c: "\<not> js_ws c" "c \<noteq> CHR ''#''" "c \<noteq> CHR ''[''"
    using k is_word_not [of c] by (auto simp: key_ok_def)
  have t: "js_trim (k @ '' = '' @ raw) = k @ '' = '' @ raw"
    using c r ck by (intro js_trim_id) simp
  have tw: "takeWhile is_word (k @ '' = '' @ raw) = k"
    using k by (subst takeWhile_append2) (auto simp: key_ok_def)
  have dw: "dropWhile is_word (k @ '' = '' @ raw) = '' = '' @ raw"
    using k by (subst dropWhile_append2) (auto simp: key_ok_def)
  have kv: "kv_match (k @ '' = '' @ raw) = Some (k, raw)"
    unfolding kv_match_def Let_def tw dw using ck r by (simp add: js_ws_dropWhile_id)
  have sm: "section_match (k @ '' = '' @ raw) = None" using c ck by (simp add: section_match_def)
  have h: "k @ '' = '' @ raw \<noteq> []" "hd (k @ '' = '' @ raw) \<noteq> CHR ''#''" using c ck by auto
  show ?thesis
    unfolding parse_line_def Let_def t kv sm using h by simp
qed

lemma section_line:
  assumes n: "n \<noteq> []" "CHR '']'' \<notin> set n" "js_trim n = n"
  shows "parse_line st (''['' @ n @ '']'') ls = (enter_section n st, ls)"
proof -
  have t: "js_trim (''['' @ n @ '']'') = ''['' @ n @ '']''"
    by (rule js_trim_id) (simp add: js_ws_def)
  have "section_match (''['' @ n @ '']'') = Some n"
    using n by (cases n) (auto simp: section_match_def)
  then show ?thesis using n(3) unfolding parse_line_def Let_def t by simp
qed

section \<open>Entries\<close>

text \<open>An abstract document: section headers, quoted strings, numbers, flags, key blocks.\<close>

datatype entry = Sec string | Str string string | Num string nat | Flag string | Pem string

fun entry_text :: "entry \<Rightarrow> string" where
  "entry_text (Sec n) = ''['' @ n @ '']''"
| "entry_text (Str k x) = k @ '' = '' @ quoted x"
| "entry_text (Num k n) = k @ '' = '' @ show_nat n"
| "entry_text (Flag k) = k @ '' = '' @ ''true''"
| "entry_text (Pem p) = key_line p"

fun entry_eff :: "entry \<Rightarrow> toml_state \<Rightarrow> toml_state" where
  "entry_eff (Sec n) st = enter_section n st"
| "entry_eff (Str k x) st = cur_put k (TStr (dbl x)) st"
| "entry_eff (Num k n) st = cur_put k (TInt (int n)) st"
| "entry_eff (Flag k) st = cur_put k (TBool True) st"
| "entry_eff (Pem p) st = cur_put ''private_key'' (TStr p) st"

definition wf_text :: "string \<Rightarrow> bool" where
  "wf_text x \<longleftrightarrow> NL \<notin> set x \<and> CR \<notin> set x"

definition wf_pem :: "string \<Rightarrow> bool" where
  "wf_pem p \<longleftrightarrow> p \<noteq> [] \<and> js_trim p = p \<and> CR \<notin> set p \<and> index_of QQQ p = None \<and> index_of [BSL, DQ] p = None"

fun entry_ok :: "entry \<Rightarrow> bool" where
  "entry_ok (Sec n) \<longleftrightarrow> n \<noteq> [] \<and> CHR '']'' \<notin> set n \<and> js_trim n = n \<and> wf_text n"
| "entry_ok (Str k x) \<longleftrightarrow> key_ok k \<and> wf_text x"
| "entry_ok (Num k n) \<longleftrightarrow> key_ok k"
| "entry_ok (Flag k) \<longleftrightarrow> key_ok k"
| "entry_ok (Pem p) \<longleftrightarrow> wf_pem p"

lemma NL_facts [simp]: "js_ws NL" "NL \<noteq> DQ" "NL \<noteq> BSL" "NL \<noteq> CHR '' ''" "NL \<noteq> CHR ''=''"
  "NL \<noteq> CHR ''[''" "NL \<noteq> CHR '']''" "\<not> is_word NL" "\<not> is_digit NL"
  by (auto simp: char_consts js_ws_def is_word_def is_digit_def is_lower_def is_upper_def)

lemma CR_facts [simp]: "NL \<noteq> CR" "CR \<noteq> DQ" "CR \<noteq> BSL" "CR \<noteq> CHR '' ''" "CR \<noteq> CHR ''=''" "CR \<noteq> NL"
  "CR \<noteq> CHR ''[''" "CR \<noteq> CHR '']''" "\<not> is_word CR" "\<not> is_digit CR"
  by (auto simp: char_consts is_word_def is_digit_def is_lower_def is_upper_def)

lemma key_ok_clean: "key_ok k \<Longrightarrow> NL \<notin> set k \<and> CR \<notin> set k"
  using NL_facts(8) CR_facts(9) by (auto simp: key_ok_def)

lemma set_tomlEscape: "set (tomlEscape x) \<subseteq> insert BSL (set x)"
  by (induction x) auto

lemma quoted_clean: "wf_text x \<Longrightarrow> NL \<notin> set (quoted x) \<and> CR \<notin> set (quoted x)"
  using set_tomlEscape [of x] by (auto simp: wf_text_def quoted_def)

lemma show_nat_clean: "NL \<notin> set (show_nat n)" "CR \<notin> set (show_nat n)"
  using show_nat_digits by fastforce+

lemma true_clean: "NL \<notin> set ''true''" "CR \<notin> set ''true''"
  by (auto simp: char_consts)

lemma parse_str: "key_ok k \<Longrightarrow> parse_line st (k @ '' = '' @ quoted x) ls = (cur_put k (TStr (dbl x)) st, ls)"
  by (subst kv_line) (auto simp: quoted_ends quoted_not_QQQ scalar_quoted)

lemma show_nat_not_QQQ: "\<not> starts_with QQQ (show_nat n)"
  using show_nat_hd [of n] show_nat_nonempty [of n] by (cases "show_nat n") (auto simp: QQQ_def)

lemma scalar_show_nat: "scalar_value (show_nat n) = TInt (int n)"
proof -
  have t: "js_trim (show_nat n) = show_nat n"
    using show_nat_hd [of n] show_nat_last [of n] by (intro js_trim_id) (auto dest: is_digit_not_ws)
  have h: "hd (show_nat n) \<noteq> CHR ''-''" using show_nat_hd [of n] by auto
  have "show_nat n \<noteq> ''true''" "show_nat n \<noteq> ''false''"
    using show_nat_hd [of n] by (auto simp: is_digit_def)
  moreover have "int_literal (show_nat n)"
    using h by (auto simp: int_literal_def Let_def dest: show_nat_digits)
  ultimately show ?thesis by (simp add: scalar_value_def t Let_def)
qed

lemma parse_num: "key_ok k \<Longrightarrow> parse_line st (k @ '' = '' @ show_nat n) ls = (cur_put k (TInt (int n)) st, ls)"
  using show_nat_hd [of n] show_nat_last [of n]
  by (subst kv_line) (auto simp: show_nat_not_QQQ scalar_show_nat dest: is_digit_not_ws)

lemma parse_true: "key_ok k \<Longrightarrow> parse_line st (k @ '' = '' @ ''true'') ls = (cur_put k (TBool True) st, ls)"
proof -
  have "js_trim ''true'' = ''true''" by (rule js_trim_id) (simp add: js_ws_def)
  then have "scalar_value ''true'' = TBool True" by (simp add: scalar_value_def)
  moreover have "\<not> starts_with QQQ ''true''" by (simp add: QQQ_def char_consts)
  ultimately show "key_ok k \<Longrightarrow> ?thesis" by (subst kv_line) (auto simp: js_ws_def)
qed

section \<open>Key blocks\<close>

lemma index_of_self: "index_of p p = Some 0"
  using starts_with_append [of p "[]"] by (cases p) auto

lemma multi_lines_close:
  "\<forall>l \<in> set ps. index_of QQQ l = None \<Longrightarrow> multi_lines (ps @ QQQ # rest) = (ps @ [[]], rest)"
  by (induction ps) (auto simp: index_of_self)

lemma js_join_snoc: "ps \<noteq> [] \<Longrightarrow> js_join sep (ps @ [x]) = js_join sep ps @ sep @ x"
proof (induction ps)
  case (Cons a ps)
  then show ?case by (cases ps) (auto simp: js_join_Cons)
qed simp

lemma wf_pem_lines: "wf_pem p \<Longrightarrow> l \<in> set (js_split NL p) \<Longrightarrow> index_of QQQ l = None"
proof -
  assume "wf_pem p" and "l \<in> set (js_split NL p)"
  then obtain a b where "index_of QQQ (a @ l @ b) = None"
    using js_split_sub [of l NL p] by (auto simp only: wf_pem_def)
  then show ?thesis by (rule index_of_sub)
qed

lemma key_line_split:
  "js_split NL (key_line p) = (''private_key = '' @ QQQ) # js_split NL p @ [QQQ]"
proof -
  define h where "h = ''private_key = '' @ QQQ"
  have e: "key_line p = h @ NL # (p @ NL # QQQ)" by (simp add: key_line_def h_def)
  have "NL \<notin> set h" "NL \<notin> set QQQ" by (auto simp: h_def QQQ_def char_consts)
  then have "js_split NL (h @ NL # (p @ NL # QQQ)) = h # js_split NL p @ [QQQ]"
    by (simp add: js_split_append2)
  then show ?thesis unfolding e by (simp only: h_def)
qed

lemma parse_pem:
  assumes "wf_pem p"
  shows "parse_line st (''private_key = '' @ QQQ) (js_split NL p @ QQQ # rest) =
    (cur_put ''private_key'' (TStr p) st, rest)"
proof -
  have k: "key_ok ''private_key''"
    by (auto simp: key_ok_def is_word_def is_lower_def)
  have ml: "multi_lines (js_split NL p @ QQQ # rest) = (js_split NL p @ [[]], rest)"
    by (rule multi_lines_close) (auto dest: wf_pem_lines [OF assms])
  have j: "js_join [NL] ([] # js_split NL p @ [[]]) = [NL] @ p @ [NL]"
    by (simp add: js_join_Cons js_join_snoc js_join_split)
  have "replace_pair BSL DQ [DQ] (p @ [NL]) = p @ [NL]"
  proof (rule replace_pair_no_occ)
    have "index_of [BSL, DQ] p = None" using assms by (simp only: wf_pem_def)
    then have "\<not> (\<exists>a b. p = a @ [BSL, DQ] @ b)" by (rule iffD1 [OF index_of_None_iff])
    then show "index_of [BSL, DQ] (p @ [NL]) = None"
      unfolding index_of_None_iff by (auto simp: append_eq_append_conv2 append_eq_Cons_conv Cons_eq_append_conv)
  qed
  then have u: "unescape_quotes ([NL] @ p @ [NL]) = [NL] @ p @ [NL]"
    by (simp add: unescape_quotes_def replace_pair_other)
  have tr: "js_trim ([NL] @ p @ [NL]) = p"
    using assms js_trim_pad [of "[NL]" "[NL]" p] by (simp add: wf_pem_def)
  have q: "QQQ \<noteq> []" "hd QQQ = DQ" "last QQQ = DQ" "starts_with QQQ QQQ" "drop 3 QQQ = []" "index_of QQQ [] = None"
    by (auto simp: QQQ_def)
  show ?thesis
    using kv_line [OF k, of QQQ st "js_split NL p @ QQQ # rest"] by (simp add: q ml j [simplified] u [simplified] tr [simplified])
qed

section \<open>Parsing what was printed\<close>

lemma entry_lines:
  assumes "entry_ok e"
  shows "parse_lines st (js_split NL (entry_text e) @ rest) = parse_lines (entry_eff e st) rest"
proof (cases e)
  case (Sec n)
  then have "NL \<notin> set (entry_text e)" using assms by (auto simp: wf_text_def)
  then have sp: "js_split NL (entry_text e) = [entry_text e]" by (rule js_split_no_sep)
  show ?thesis unfolding sp using Sec assms section_line [of n st rest] by simp
next
  case (Str k x)
  then have "NL \<notin> set (entry_text e)" using assms key_ok_clean quoted_clean by auto
  then have sp: "js_split NL (entry_text e) = [entry_text e]" by (rule js_split_no_sep)
  show ?thesis unfolding sp using Str assms parse_str [of k st x rest] by simp
next
  case (Num k n)
  then have "NL \<notin> set (entry_text e)" using assms key_ok_clean show_nat_clean by auto
  then have sp: "js_split NL (entry_text e) = [entry_text e]" by (rule js_split_no_sep)
  show ?thesis unfolding sp using Num assms parse_num [of k st n rest] by simp
next
  case (Flag k)
  then have "NL \<notin> set (entry_text e)" using assms key_ok_clean true_clean by auto
  then have sp: "js_split NL (entry_text e) = [entry_text e]" by (rule js_split_no_sep)
  show ?thesis unfolding sp using Flag assms parse_true [of k st rest] by simp
next
  case (Pem p)
  then show ?thesis using assms parse_pem [of p st rest] by (simp add: key_line_split)
qed

lemma parse_entries:
  "\<forall>e \<in> set es. entry_ok e \<Longrightarrow>
     parse_lines st (concat (map (\<lambda>e. js_split NL (entry_text e)) es) @ rest) =
     parse_lines (fold entry_eff es st) rest"
  by (induction es arbitrary: st) (auto simp: entry_lines)

section \<open>The effect of a block of entries\<close>

fun entry_kv :: "entry \<Rightarrow> string \<times> tval" where
  "entry_kv (Sec n) = ([], TBool False)"
| "entry_kv (Str k x) = (k, TStr (dbl x))"
| "entry_kv (Num k n) = (k, TInt (int n))"
| "entry_kv (Flag k) = (k, TBool True)"
| "entry_kv (Pem p) = (''private_key'', TStr p)"

fun is_Sec :: "entry \<Rightarrow> bool" where
  "is_Sec (Sec n) = True"
| "is_Sec e = False"

definition put_kv :: "entry \<Rightarrow> section_obj \<Rightarrow> section_obj" where
  "put_kv e ob = obj_set ob (fst (entry_kv e)) (snd (entry_kv e))"

lemma entry_eff_put: "\<not> is_Sec e \<Longrightarrow> entry_eff e st = cur_put (fst (entry_kv e)) (snd (entry_kv e)) st"
  by (cases e) auto

lemma obj_set_set [simp]: "obj_set (obj_set ob k v) k w = obj_set ob k w"
  by (induction ob k v rule: obj_set.induct) auto

lemma obj_set_same: "obj_get ob k = Some v \<Longrightarrow> obj_set ob k v = ob"
  by (induction ob k v rule: obj_set.induct) (auto simp: obj_get_def split: if_splits)

lemma fold_root:
  "\<forall>e \<in> set es. \<not> is_Sec e \<Longrightarrow> cur st = None \<Longrightarrow>
     fold entry_eff es st = st\<lparr>root := fold put_kv es (root st)\<rparr>"
  by (induction es arbitrary: st) (auto simp: entry_eff_put cur_put_def put_kv_def)

lemma fold_section:
  "\<forall>e \<in> set es. \<not> is_Sec e \<Longrightarrow> cur st = Some n \<Longrightarrow> obj_get (sections st) n = Some ob \<Longrightarrow>
     fold entry_eff es st = st\<lparr>sections := obj_set (sections st) n (fold put_kv es ob)\<rparr>"
proof (induction es arbitrary: st ob)
  case Nil
  then show ?case by (simp add: obj_set_same)
next
  case (Cons e es)
  have e: "entry_eff e st = st\<lparr>sections := obj_set (sections st) n (put_kv e ob)\<rparr>"
    using Cons.prems by (simp add: entry_eff_put cur_put_def put_kv_def)
  have "fold entry_eff es (entry_eff e st) =
      (entry_eff e st)\<lparr>sections := obj_set (sections (entry_eff e st)) n (fold put_kv es (put_kv e ob))\<rparr>"
    using Cons.prems by (intro Cons.IH) (auto simp: e obj_get_set)
  then show ?case by (simp add: e)
qed

definition last_val :: "entry list \<Rightarrow> string \<Rightarrow> tval option" where
  "last_val es k = map_of (rev (map entry_kv es)) k"

lemma last_val_simps [simp]:
  "last_val [] k = None"
  "last_val (e # es) k = (case last_val es k of Some v \<Rightarrow> Some v
     | None \<Rightarrow> if fst (entry_kv e) = k then Some (snd (entry_kv e)) else None)"
  "last_val (a @ b) k = (case last_val b k of Some v \<Rightarrow> Some v | None \<Rightarrow> last_val a k)"
  "last_val (if c then a else b) k = (if c then last_val a k else last_val b k)"
  by (auto simp: last_val_def map_add_def split: option.split)

lemma obj_get_fold_put:
  "obj_get (fold put_kv es ob) k = (case last_val es k of Some v \<Rightarrow> Some v | None \<Rightarrow> obj_get ob k)"
  by (induction es arbitrary: ob) (auto simp: put_kv_def obj_get_set split: option.split)

section \<open>Jumps\<close>

definition sval :: "tval \<Rightarrow> string" where
  "sval v = (case v of TStr x \<Rightarrow> x | _ \<Rightarrow> [])"

definition is_text :: "tval \<Rightarrow> bool" where
  "is_text v = (case v of TStr x \<Rightarrow> wf_text x | _ \<Rightarrow> False)"

definition pval :: "tval \<Rightarrow> nat" where
  "pval v = (case v of TInt p \<Rightarrow> nat p | _ \<Rightarrow> 0)"

definition wf_jump :: "jump \<Rightarrow> bool" where
  "wf_jump c \<longleftrightarrow>
     is_text (j_host c) \<and> is_text (j_user c) \<and> is_text (j_password c) \<and> is_text (j_passphrase c) \<and> is_text (j_proxy c) \<and>
     0 < pval (j_port c) \<and>
     (j_auth c = ''password'' \<and> j_pem c = TStr [] \<or>
      j_auth c = ''key'' \<and> j_password c = TStr [] \<and> (case j_pem c of TStr p \<Rightarrow> wf_pem p | _ \<Rightarrow> False))"

definition opt_str :: "string \<Rightarrow> string \<Rightarrow> entry list" where
  "opt_str k x = (if x = [] then [] else [Str k x])"

definition opt_port :: "nat \<Rightarrow> entry list" where
  "opt_port n = (if n = 22 then [] else [Num ''port'' n])"

definition jump_body :: "jump \<Rightarrow> entry list" where
  "jump_body c =
     [Str ''host'' (sval (j_host c))] @ opt_port (pval (j_port c)) @ [Str ''user'' (sval (j_user c))] @
     [if j_auth c = ''key'' then Pem (sval (j_pem c)) else Str ''password'' (sval (j_password c))] @
     opt_str ''key_passphrase'' (sval (j_passphrase c)) @ opt_str ''proxy'' (sval (j_proxy c))"

definition jump_entries :: "jump \<Rightarrow> nat \<Rightarrow> entry list" where
  "jump_entries c d = Sec (jump_section d) # jump_body c"

definition dbl_val :: "tval \<Rightarrow> tval" where
  "dbl_val v = TStr (dbl (sval v))"

definition dbl_jump :: "jump \<Rightarrow> jump" where
  "dbl_jump c = c\<lparr>j_host := dbl_val (j_host c), j_user := dbl_val (j_user c), j_password := dbl_val (j_password c),
     j_passphrase := dbl_val (j_passphrase c), j_proxy := dbl_val (j_proxy c)\<rparr>"

lemma is_text_sval: "is_text v \<Longrightarrow> v = TStr (sval v) \<and> wf_text (sval v)"
  by (cases v) (auto simp: is_text_def sval_def)

lemma pval_int: "0 < pval v \<Longrightarrow> v = TInt (int (pval v))"
  by (cases v) (auto simp: pval_def)

lemma port_number_int: "0 < n \<Longrightarrow> port_number (TInt (int n)) = int n"
  by (simp add: port_number_def to_str_def show_int_def)

lemma port_number_text: "0 < n \<Longrightarrow> port_number (TStr (show_nat n)) = int n"
  by (simp add: port_number_def to_str_def)

lemma port_line_entries: "port_line (int n) = map entry_text (opt_port n)"
  by (auto simp: port_line_def opt_port_def show_int_def)

lemma opt_val_line_str: "opt_val_line k (TStr x) = Inr (map entry_text (opt_str k x))"
  by (simp add: opt_val_line_def truthy_def val_line_str opt_str_def)

lemma wants_key_wf: "wf_jump c \<Longrightarrow> wants_key c = Inr (j_auth c = ''key'')"
  by (auto simp: wf_jump_def wants_key_def truthy_def)

lemma jumpToLines_entries:
  assumes "wf_jump c"
  shows "jumpToLines c d = Inr (map entry_text (jump_entries c d))"
proof -
  have t: "j_host c = TStr (sval (j_host c))" "j_user c = TStr (sval (j_user c))"
    "j_password c = TStr (sval (j_password c))" "j_passphrase c = TStr (sval (j_passphrase c))"
    "j_proxy c = TStr (sval (j_proxy c))" "j_port c = TInt (int (pval (j_port c)))"
    using assms by (auto simp only: wf_jump_def dest: is_text_sval pval_int)
  have v: "val_line k (j_host c) = Inr [entry_text (Str k (sval (j_host c)))]"
    "val_line k (j_user c) = Inr [entry_text (Str k (sval (j_user c)))]"
    "val_line k (j_password c) = Inr [entry_text (Str k (sval (j_password c)))]"
    "opt_val_line k (j_passphrase c) = Inr (map entry_text (opt_str k (sval (j_passphrase c))))"
    "opt_val_line k (j_proxy c) = Inr (map entry_text (opt_str k (sval (j_proxy c))))" for k
    using t by (metis val_line_str opt_val_line_str entry_text.simps(2))+
  have p: "port_number (j_port c) = int (pval (j_port c))"
    using assms port_number_int [of "pval (j_port c)"] t(6) by (simp add: wf_jump_def)
  have pem: "j_auth c = ''key'' \<Longrightarrow> to_str (j_pem c) = sval (j_pem c)"
    using assms by (auto simp: wf_jump_def to_str_def sval_def split: tval.splits)
  show ?thesis
    using pem by (simp add: jumpToLines_def wants_key_wf [OF assms] v p port_line_entries jump_entries_def jump_body_def)
qed

lemma get_or_some: "obj_get s k = Some v \<Longrightarrow> truthy v \<Longrightarrow> get_or s k d = v"
  by (simp add: get_or_def)

lemma dbl_Nil [simp]: "dbl x = [] \<longleftrightarrow> x = []" "dbl [] = []"
  by (cases x; simp add: dbl_def)+

lemma get_or_str:
  "(obj_get s k = Some (TStr (dbl x)) \<or> (obj_get s k = None \<and> x = [])) \<Longrightarrow> get_or s k (TStr []) = TStr (dbl x)"
  by (auto simp: get_or_def truthy_def)

lemma get_or_opt:
  "obj_get s k = (if x = [] then None else Some (TStr (dbl x))) \<Longrightarrow> get_or s k (TStr []) = TStr (dbl x)"
  by (cases "x = []") (auto simp: get_or_def truthy_def)

lemma sectionToJump_body:
  assumes "wf_jump c"
  shows "sectionToJump (fold put_kv (jump_body c) []) = dbl_jump c"
proof -
  let ?s = "fold put_kv (jump_body c) []"
  have g: "obj_get ?s k = last_val (jump_body c) k" for k
    by (simp add: obj_get_fold_put split: option.split)
  have host: "obj_get ?s ''host'' = Some (TStr (dbl (sval (j_host c))))"
    and user: "obj_get ?s ''user'' = Some (TStr (dbl (sval (j_user c))))"
    and port: "obj_get ?s ''port'' = (if pval (j_port c) = 22 then None else Some (TInt (int (pval (j_port c)))))"
    and pw: "obj_get ?s ''password'' = (if j_auth c = ''key'' then None else Some (TStr (dbl (sval (j_password c)))))"
    and pem: "obj_get ?s ''private_key'' = (if j_auth c = ''key'' then Some (TStr (sval (j_pem c))) else None)"
    and pp: "obj_get ?s ''key_passphrase'' = (if sval (j_passphrase c) = [] then None else Some (TStr (dbl (sval (j_passphrase c)))))"
    and px: "obj_get ?s ''proxy'' = (if sval (j_proxy c) = [] then None else Some (TStr (dbl (sval (j_proxy c)))))"
    unfolding g by (simp_all add: jump_body_def opt_str_def opt_port_def)
  have t: "j_port c = TInt (int (pval (j_port c)))" "0 < pval (j_port c)"
    using assms by (auto simp only: wf_jump_def dest: pval_int)
  have "get_or ?s ''port'' (TInt 22) = j_port c"
    using t(2) port by (cases "j_port c") (auto simp: get_or_def truthy_def pval_def)
  moreover have "get_or ?s ''password'' (TStr []) = dbl_val (j_password c)"
    using pw assms by (auto simp: get_or_def truthy_def dbl_val_def sval_def wf_jump_def)
  moreover have "get_or ?s ''private_key'' (TStr []) = j_pem c" "has_truthy ?s ''private_key'' = (j_auth c = ''key'')"
    using pem assms by (auto simp: get_or_def has_truthy_def truthy_def sval_def wf_jump_def wf_pem_def split: tval.splits)
  moreover have "get_or ?s ''host'' (TStr []) = dbl_val (j_host c)" "get_or ?s ''user'' (TStr []) = dbl_val (j_user c)"
    "get_or ?s ''key_passphrase'' (TStr []) = dbl_val (j_passphrase c)" "get_or ?s ''proxy'' (TStr []) = dbl_val (j_proxy c)"
    using get_or_str [of ?s "''host''"] get_or_str [of ?s "''user''"] host user get_or_opt [OF pp] get_or_opt [OF px]
    by (simp_all add: dbl_val_def)
  moreover have "j_auth c = (if j_auth c = ''key'' then ''key'' else ''password'')"
    using assms by (auto simp: wf_jump_def)
  ultimately show ?thesis by (simp add: sectionToJump_def dbl_jump_def)
qed

section \<open>Chains of jumps\<close>

fun chain_entries :: "jump list \<Rightarrow> nat \<Rightarrow> entry list" where
  "chain_entries [] d = []"
| "chain_entries (c # cs) d = jump_entries c d @ chain_entries cs (Suc d)"

lemma jumps_lines_entries:
  "\<forall>c \<in> set cs. wf_jump c \<Longrightarrow> jumps_lines cs d = Inr (map entry_text (chain_entries cs d))"
  by (induction cs arbitrary: d) (auto simp: jumpToLines_entries)

lemma jump_section_Suc: "0 < d \<Longrightarrow> jump_section (Suc d) = jump_section d @ ''.jump''"
  by (cases d) auto

lemma jump_section_length: "0 < d \<Longrightarrow> length (jump_section d) = 5 * d - 1"
proof (induction d)
  case (Suc d)
  then show ?case by (cases "d = 0") (auto simp: jump_section_Suc)
qed simp

lemma jump_section_inj: "0 < a \<Longrightarrow> 0 < b \<Longrightarrow> jump_section a = jump_section b \<Longrightarrow> a = b"
  using jump_section_length [of a] jump_section_length [of b] by simp

lemma jump_body_no_Sec: "\<forall>e \<in> set (jump_body c). \<not> is_Sec e"
  by (auto simp: jump_body_def opt_str_def opt_port_def)

lemma fold_jump_entries:
  assumes "obj_get (sections st) (jump_section d) = None"
  shows "fold entry_eff (jump_entries c d) st =
    st\<lparr>sections := obj_set (sections st) (jump_section d) (fold put_kv (jump_body c) []), cur := Some (jump_section d)\<rparr>"
proof -
  define st1 where "st1 = enter_section (jump_section d) st"
  have st1: "st1 = st\<lparr>sections := obj_set (sections st) (jump_section d) [], cur := Some (jump_section d)\<rparr>"
    using assms by (simp add: st1_def enter_section_def)
  have "fold entry_eff (jump_body c) st1 =
      st1\<lparr>sections := obj_set (sections st1) (jump_section d) (fold put_kv (jump_body c) [])\<rparr>"
    by (rule fold_section [OF jump_body_no_Sec]) (simp_all add: st1 obj_get_set)
  then show ?thesis by (simp add: jump_entries_def st1_def [symmetric]) (simp add: st1)
qed

lemma fold_chain:
  assumes "0 < d" and "\<forall>i \<ge> d. obj_get (sections st) (jump_section i) = None"
  shows "root (fold entry_eff (chain_entries cs d) st) = root st \<and>
    (\<forall>i. 0 < i \<longrightarrow> obj_get (sections (fold entry_eff (chain_entries cs d) st)) (jump_section i) =
       (if d \<le> i \<and> i < d + length cs then Some (fold put_kv (jump_body (cs ! (i - d))) [])
        else obj_get (sections st) (jump_section i)))"
  using assms
proof (induction cs arbitrary: d st)
  case (Cons c cs)
  define st1 where "st1 = fold entry_eff (jump_entries c d) st"
  have st1: "st1 = st\<lparr>sections := obj_set (sections st) (jump_section d) (fold put_kv (jump_body c) []), cur := Some (jump_section d)\<rparr>"
    using Cons.prems by (simp add: st1_def fold_jump_entries)
  have g: "obj_get (sections st1) (jump_section i) =
      (if i = d then Some (fold put_kv (jump_body c) []) else obj_get (sections st) (jump_section i))" if "0 < i" for i
    using that Cons.prems(1) jump_section_inj by (auto simp: st1 obj_get_set)
  have IH: "root (fold entry_eff (chain_entries cs (Suc d)) st1) = root st1 \<and>
    (\<forall>i. 0 < i \<longrightarrow> obj_get (sections (fold entry_eff (chain_entries cs (Suc d)) st1)) (jump_section i) =
       (if Suc d \<le> i \<and> i < Suc d + length cs then Some (fold put_kv (jump_body (cs ! (i - Suc d))) [])
        else obj_get (sections st1) (jump_section i)))"
    by (rule Cons.IH) (use Cons.prems g in auto)
  have split: "(c # cs) ! (i - d) = (if i = d then c else cs ! (i - Suc d))" if "d \<le> i" for i
    using that by (auto simp: nth_Cons')
  show ?case
    using IH by (auto simp: st1_def [symmetric] g split) (auto simp: st1)
qed auto

lemma jumps_loop_chain:
  assumes "0 < d" and "\<forall>i. d \<le> i \<and> i < d + length ss \<longrightarrow> obj_get secs (jump_section i) = Some (ss ! (i - d))"
    and "obj_get secs (jump_section (d + length ss)) = None"
  shows "jumps_loop secs (jump_section d) = map sectionToJump ss"
  using assms
proof (induction ss arbitrary: d)
  case Nil
  then show ?case by (subst jumps_loop.simps) simp
next
  case (Cons s ss)
  have "jumps_loop secs (jump_section (Suc d)) = map sectionToJump ss"
  proof (rule Cons.IH)
    show "\<forall>i. Suc d \<le> i \<and> i < Suc d + length ss \<longrightarrow> obj_get secs (jump_section i) = Some (ss ! (i - Suc d))"
    proof (intro allI impI)
      fix i assume "Suc d \<le> i \<and> i < Suc d + length ss"
      then show "obj_get secs (jump_section i) = Some (ss ! (i - Suc d))"
        using Cons.prems(2) [rule_format, of i] by (auto simp: nth_Cons')
    qed
  qed (use Cons.prems in auto)
  moreover have "obj_get secs (jump_section d) = Some s" using Cons.prems(2) [rule_format, of d] by simp
  ultimately show ?case
    using Cons.prems(1) by (subst jumps_loop.simps) (simp add: jump_section_Suc)
qed

section \<open>The whole form\<close>

text \<open>
  A form the editor can hold for a remote host: single-line fields, trimmed where the
  printer trims them, a positive port, and only the credential of the chosen kind.
\<close>

definition trimmed_text :: "string \<Rightarrow> bool" where
  "trimmed_text x \<longleftrightarrow> wf_text x \<and> js_trim x = x"

definition wf_form :: "conn_form \<Rightarrow> bool" where
  "wf_form f \<longleftrightarrow>
     trimmed_text (f_host f) \<and> trimmed_text (f_user f) \<and> trimmed_text (f_shell f) \<and> trimmed_text (f_proxy f) \<and>
     wf_text (f_password f) \<and> wf_text (f_passphrase f) \<and>
     f_port f = show_nat (digits_val (f_port f)) \<and> 0 < digits_val (f_port f) \<and>
     (f_auth f = ''password'' \<and> f_pem f = [] \<or> f_auth f = ''key'' \<and> f_password f = [] \<and> wf_pem (f_pem f)) \<and>
     (\<forall>c \<in> set (jumpCards f). wf_jump c)"

definition root_entries :: "conn_form \<Rightarrow> entry list" where
  "root_entries f =
     [Str ''kind'' ''remote''] @ [Str ''host'' (f_host f)] @ opt_port (digits_val (f_port f)) @
     [Str ''user'' (f_user f)] @
     [if f_auth f = ''password'' then Str ''password'' (f_password f) else Pem (f_pem f)] @
     opt_str ''key_passphrase'' (f_passphrase f) @ opt_str ''default_shell'' (f_shell f) @
     (if f_approval f then [Flag ''default_approval''] else []) @ opt_str ''proxy'' (f_proxy f) @
     [Flag ''trust_unknown_host'']"

definition dbl_form :: "conn_form \<Rightarrow> conn_form" where
  "dbl_form f = f\<lparr>f_host := dbl (f_host f), f_user := dbl (f_user f), f_password := dbl (f_password f),
     f_passphrase := dbl (f_passphrase f), f_shell := dbl (f_shell f), f_proxy := dbl (f_proxy f),
     jumpCards := map dbl_jump (jumpCards f)\<rparr>"

lemma connFormLines_entries:
  assumes "wf_form f"
  shows "connFormLines False f = Inr (map entry_text (root_entries f @ chain_entries (jumpCards f) 1))"
proof -
  have p: "port_number (TStr (f_port f)) = int (digits_val (f_port f))"
    using assms port_number_text [of "digits_val (f_port f)"] by (simp add: wf_form_def)
  have t: "js_trim (f_host f) = f_host f" "js_trim (f_user f) = f_user f" "js_trim (f_shell f) = f_shell f"
    "js_trim (f_proxy f) = f_proxy f" using assms by (auto simp: wf_form_def trimmed_text_def)
  have k: "quoted ''remote'' = DQ # ''remote'' @ [DQ]" by (simp add: quoted_def char_consts)
  have j: "jumps_lines (jumpCards f) (Suc 0) = Inr (map entry_text (chain_entries (jumpCards f) (Suc 0)))"
    using assms by (intro jumps_lines_entries) (simp add: wf_form_def)
  show ?thesis
    by (simp add: connFormLines_def root_entries_def p t j k val_line_str opt_val_line_str port_line_entries)
qed

lemma key_ok_names:
  "key_ok ''kind''" "key_ok ''host''" "key_ok ''port''" "key_ok ''user''" "key_ok ''password''"
  "key_ok ''key_passphrase''" "key_ok ''default_shell''" "key_ok ''default_approval''" "key_ok ''proxy''"
  "key_ok ''trust_unknown_host''"
  by (auto simp: key_ok_def is_word_def is_lower_def)

lemma wf_text_Nil [simp]: "wf_text []"
  by (simp add: wf_text_def)

lemma root_entries_ok: "wf_form f \<Longrightarrow> \<forall>e \<in> set (root_entries f). entry_ok e"
proof -
  assume f: "wf_form f"
  have "wf_text ''remote''" by (simp add: wf_text_def char_consts)
  with f show ?thesis
    by (auto simp: root_entries_def opt_str_def opt_port_def key_ok_names wf_form_def trimmed_text_def)
qed

lemma jump_body_ok: "wf_jump c \<Longrightarrow> \<forall>e \<in> set (jump_body c). entry_ok e"
  using is_text_sval by (auto simp: wf_jump_def jump_body_def opt_str_def opt_port_def key_ok_names sval_def split: tval.splits)

lemma jump_section_chars: "0 < d \<Longrightarrow> jump_section d \<noteq> [] \<and> hd (jump_section d) = CHR ''j'' \<and> last (jump_section d) = CHR ''p'' \<and>
    set (jump_section d) \<subseteq> set ''jump.''"
proof (induction d)
  case (Suc d)
  then show ?case by (cases "d = 0") (auto simp: jump_section_Suc)
qed simp

lemma jump_section_ok: "0 < d \<Longrightarrow> entry_ok (Sec (jump_section d))"
proof -
  assume "0 < d"
  note c = jump_section_chars [OF this]
  have "js_trim (jump_section d) = jump_section d" using c by (intro js_trim_id) (simp add: js_ws_def)
  moreover have "NL \<notin> set ''jump.''" "CR \<notin> set ''jump.''" by (auto simp: char_consts)
  ultimately show ?thesis using c by (auto simp: wf_text_def)
qed

lemma chain_entries_ok: "0 < d \<Longrightarrow> \<forall>c \<in> set cs. wf_jump c \<Longrightarrow> \<forall>e \<in> set (chain_entries cs d). entry_ok e"
proof (induction cs arbitrary: d)
  case (Cons c cs)
  have "\<forall>e \<in> set (chain_entries cs (Suc d)). entry_ok e" using Cons.prems by (intro Cons.IH) auto
  then show ?case using Cons.prems jump_section_ok [of d] jump_body_ok [of c]
    by (simp add: jump_entries_def ball_Un del: entry_ok.simps)
qed simp

lemma entry_text_CR: "entry_ok e \<Longrightarrow> CR \<notin> set (entry_text e)"
  using key_ok_clean quoted_clean show_nat_clean true_clean
  by (cases e) (auto simp: wf_text_def wf_pem_def key_line_def QQQ_def char_consts)

lemma js_join_set: "x \<in> set (js_join sep xs) \<Longrightarrow> x \<in> set sep \<or> (\<exists>y \<in> set xs. x \<in> set y)"
  by (induction sep xs rule: js_join.induct) auto

lemma parse_printed:
  assumes "\<forall>e \<in> set es. entry_ok e" and "es \<noteq> []"
  shows "parseConnTOML (js_join [NL] (map entry_text es) @ [NL]) =
    fold entry_eff es \<lparr>root = [], sections = [], cur = None\<rparr>"
proof -
  let ?t = "js_join [NL] (map entry_text es)"
  have "CR \<notin> set ?t"
    using assms(1) entry_text_CR by (auto dest!: js_join_set)
  then have "filter (\<lambda>c. c \<noteq> CR) (?t @ [NL]) = ?t @ [NL]"
    by (auto simp: filter_id_conv)
  moreover have "js_split NL (?t @ [NL]) = concat (map (\<lambda>e. js_split NL (entry_text e)) es) @ [[]]"
    using assms(2) js_split_append2 [of NL ?t "[]"] by (simp add: js_split_join_concat comp_def)
  ultimately show ?thesis
    by (simp add: parseConnTOML_def parse_entries [OF assms(1)]) (simp add: parse_line_def)
qed

text \<open>Reading the printed form back gives the form, with every backslash of a quoted field doubled.\<close>

lemma root_entries_no_Sec: "\<forall>e \<in> set (root_entries f). \<not> is_Sec e"
  by (auto simp: root_entries_def opt_str_def opt_port_def)

lemma form_jumps:
  assumes "\<forall>c \<in> set cs. wf_jump c"
  shows "jumpsFromSections (sections (fold entry_eff (chain_entries cs 1) \<lparr>root = r, sections = [], cur = None\<rparr>)) = map dbl_jump cs"
proof -
  let ?st = "\<lparr>root = r, sections = [], cur = None\<rparr>"
  let ?ss = "map (\<lambda>c. fold put_kv (jump_body c) []) cs"
  have "\<forall>i. 0 < i \<longrightarrow> obj_get (sections (fold entry_eff (chain_entries cs 1) ?st)) (jump_section i) =
       (if 1 \<le> i \<and> i < 1 + length cs then Some (fold put_kv (jump_body (cs ! (i - 1))) [])
        else obj_get (sections ?st) (jump_section i))"
    by (rule conjunct2 [OF fold_chain]) (auto simp: obj_get_def)
  then have "jumps_loop (sections (fold entry_eff (chain_entries cs 1) ?st)) (jump_section 1) = map sectionToJump ?ss"
    by (intro jumps_loop_chain) (auto simp: obj_get_def)
  then show ?thesis
    using assms by (simp add: jumpsFromSections_def sectionToJump_body cong: map_cong)
qed

lemma form_root:
  assumes "wf_form f" and "ob = fold put_kv (root_entries f) []"
  shows "to_str (get_or ob ''host'' (TStr [])) = dbl (f_host f)"
    and "to_str (get_or ob ''port'' (TInt 22)) = f_port f"
    and "to_str (get_or ob ''user'' (TStr [])) = dbl (f_user f)"
    and "(if has_truthy ob ''private_key'' then ''key'' else ''password'') = f_auth f"
    and "to_str (get_or ob ''password'' (TStr [])) = dbl (f_password f)"
    and "to_str (get_or ob ''private_key'' (TStr [])) = f_pem f"
    and "to_str (get_or ob ''key_passphrase'' (TStr [])) = dbl (f_passphrase f)"
    and "to_str (get_or ob ''default_shell'' (TStr [])) = dbl (f_shell f)"
    and "(obj_get ob ''default_approval'' = Some (TBool True)) = f_approval f"
    and "to_str (get_or ob ''proxy'' (TStr [])) = dbl (f_proxy f)"
proof -
  have g: "obj_get ob k = last_val (root_entries f) k" for k
    by (simp add: assms(2) obj_get_fold_put split: option.split)
  have host: "obj_get ob ''host'' = Some (TStr (dbl (f_host f)))"
    and user: "obj_get ob ''user'' = Some (TStr (dbl (f_user f)))"
    and port: "obj_get ob ''port'' = (if digits_val (f_port f) = 22 then None else Some (TInt (int (digits_val (f_port f)))))"
    and pw: "obj_get ob ''password'' = (if f_auth f = ''password'' then Some (TStr (dbl (f_password f))) else None)"
    and pem: "obj_get ob ''private_key'' = (if f_auth f = ''password'' then None else Some (TStr (f_pem f)))"
    and pp: "obj_get ob ''key_passphrase'' = (if f_passphrase f = [] then None else Some (TStr (dbl (f_passphrase f))))"
    and sh: "obj_get ob ''default_shell'' = (if f_shell f = [] then None else Some (TStr (dbl (f_shell f))))"
    and ap: "obj_get ob ''default_approval'' = (if f_approval f then Some (TBool True) else None)"
    and px: "obj_get ob ''proxy'' = (if f_proxy f = [] then None else Some (TStr (dbl (f_proxy f))))"
    unfolding g by (simp_all add: root_entries_def opt_str_def opt_port_def)
  show "to_str (get_or ob ''host'' (TStr [])) = dbl (f_host f)"
    using get_or_str [of ob "''host''" "f_host f"] host by (simp add: to_str_def)
  show "to_str (get_or ob ''user'' (TStr [])) = dbl (f_user f)"
    using get_or_str [of ob "''user''" "f_user f"] user by (simp add: to_str_def)
  have n: "f_port f = show_nat (digits_val (f_port f))" "0 < digits_val (f_port f)"
    using assms(1) by (auto simp: wf_form_def)
  show "to_str (get_or ob ''port'' (TInt 22)) = f_port f"
    using n port by (cases "digits_val (f_port f) = 22") (auto simp: get_or_def truthy_def to_str_def show_int_def)
  show "to_str (get_or ob ''password'' (TStr [])) = dbl (f_password f)"
    using pw assms(1) by (auto simp: get_or_def truthy_def to_str_def wf_form_def)
  show "(if has_truthy ob ''private_key'' then ''key'' else ''password'') = f_auth f"
    and "to_str (get_or ob ''private_key'' (TStr [])) = f_pem f"
    using pem assms(1) by (auto simp: has_truthy_def get_or_def truthy_def to_str_def wf_form_def wf_pem_def)
  show "to_str (get_or ob ''key_passphrase'' (TStr [])) = dbl (f_passphrase f)"
    and "to_str (get_or ob ''default_shell'' (TStr [])) = dbl (f_shell f)"
    and "to_str (get_or ob ''proxy'' (TStr [])) = dbl (f_proxy f)"
    using get_or_opt [OF pp] get_or_opt [OF sh] get_or_opt [OF px] by (simp_all add: to_str_def)
  show "(obj_get ob ''default_approval'' = Some (TBool True)) = f_approval f"
    by (simp add: ap)
qed

lemma form_printed:
  assumes "wf_form f" and "name \<noteq> ''internal''"
  shows "\<exists>toml. connFormToTOML name f = Inr toml \<and>
    root (parseConnTOML toml) = fold put_kv (root_entries f) [] \<and>
    jumpsFromSections (sections (parseConnTOML toml)) = map dbl_jump (jumpCards f)"
proof -
  let ?es = "root_entries f @ chain_entries (jumpCards f) 1"
  let ?t = "js_join [NL] (map entry_text ?es) @ [NL]"
  let ?r = "fold put_kv (root_entries f) []"
  have cs: "\<forall>c \<in> set (jumpCards f). wf_jump c" using assms(1) by (simp add: wf_form_def)
  have "\<forall>e \<in> set ?es. entry_ok e"
    using root_entries_ok [OF assms(1)] chain_entries_ok [of 1, OF _ cs] by auto
  moreover have "?es \<noteq> []" by (simp add: root_entries_def)
  ultimately have "parseConnTOML ?t = fold entry_eff ?es \<lparr>root = [], sections = [], cur = None\<rparr>"
    by (rule parse_printed)
  also have "\<dots> = fold entry_eff (chain_entries (jumpCards f) 1) \<lparr>root = ?r, sections = [], cur = None\<rparr>"
    by (simp add: fold_root [OF root_entries_no_Sec])
  finally have p: "parseConnTOML ?t = fold entry_eff (chain_entries (jumpCards f) 1) \<lparr>root = ?r, sections = [], cur = None\<rparr>" .
  have "root (parseConnTOML ?t) = ?r"
    unfolding p by (subst conjunct1 [OF fold_chain]) (auto simp: obj_get_def)
  moreover have "jumpsFromSections (sections (parseConnTOML ?t)) = map dbl_jump (jumpCards f)"
    unfolding p by (rule form_jumps [OF cs])
  moreover have "connFormToTOML name f = Inr ?t"
    using assms by (simp add: connFormToTOML_def connFormLines_entries)
  ultimately show ?thesis by blast
qed

lemma form_reread:
  assumes "wf_form f" and "name \<noteq> ''internal''"
  shows "\<exists>toml. connFormToTOML name f = Inr toml \<and> connTOMLToForm toml = dbl_form f"
proof -
  obtain toml where t: "connFormToTOML name f = Inr toml"
    "root (parseConnTOML toml) = fold put_kv (root_entries f) []"
    "jumpsFromSections (sections (parseConnTOML toml)) = map dbl_jump (jumpCards f)"
    using form_printed [OF assms] by blast
  have "connTOMLToForm toml = dbl_form f"
    by (simp only: connTOMLToForm_def Let_def t(3) form_root [OF assms(1) t(2)]) (simp add: dbl_form_def)
  with t(1) show ?thesis by blast
qed

section \<open>The properties of the two views\<close>

definition plain_jump :: "jump \<Rightarrow> bool" where
  "plain_jump c \<longleftrightarrow> (\<forall>v \<in> set [j_host c, j_user c, j_password c, j_passphrase c, j_proxy c]. BSL \<notin> set (sval v))"

definition plain_form :: "conn_form \<Rightarrow> bool" where
  "plain_form f \<longleftrightarrow>
     (\<forall>x \<in> set [f_host f, f_user f, f_password f, f_passphrase f, f_shell f, f_proxy f]. BSL \<notin> set x) \<and>
     (\<forall>c \<in> set (jumpCards f). plain_jump c)"

lemma dbl_plain: "BSL \<notin> set s \<Longrightarrow> dbl s = s"
  by (simp add: dbl_def)

lemma dbl_length: "length (dbl s) = length s + count_list s BSL"
  by (induction s) (auto simp: dbl_def)

lemma dbl_jump_plain: "wf_jump c \<Longrightarrow> plain_jump c \<Longrightarrow> dbl_jump c = c"
proof -
  assume w: "wf_jump c" and p: "plain_jump c"
  then have "dbl_val v = v" if "v \<in> set [j_host c, j_user c, j_password c, j_passphrase c, j_proxy c]" for v
    using that is_text_sval [of v] by (auto simp: wf_jump_def plain_jump_def dbl_val_def dbl_plain)
  then show ?thesis by (simp add: dbl_jump_def)
qed

lemma dbl_form_plain: "wf_form f \<Longrightarrow> plain_form f \<Longrightarrow> dbl_form f = f"
proof -
  assume w: "wf_form f" and p: "plain_form f"
  then have "map dbl_jump (jumpCards f) = jumpCards f"
    by (intro map_idI) (auto simp: wf_form_def plain_form_def intro: dbl_jump_plain)
  with p show ?thesis by (simp add: dbl_form_def plain_form_def dbl_plain)
qed

definition sample_jump :: jump where
  "sample_jump = newJumpCard\<lparr>j_host := TStr ''bastion'', j_port := TInt 2222, j_user := TStr ''ops''\<rparr>"

definition sample_form :: conn_form where
  "sample_form = \<lparr>f_host = ''10.0.0.5'', f_port = ''22'', f_user = ''root'', f_auth = ''password'',
     f_password = ''s3cret'', f_pem = [], f_passphrase = [], f_shell = ''/bin/bash'', f_approval = True,
     f_proxy = [], jumpCards = [sample_jump]\<rparr>"

lemma sample_wf: "wf_form sample_form" "wf_form (sample_form\<lparr>f_password := ''a'' @ [BSL]\<rparr>)" "plain_form sample_form"
  by code_simp+



text \<open>The escaping is not undone: the printer doubles backslashes and the parser only
  un-escapes quotes, so each round through the two views makes a password longer by the number
  of its backslashes.\<close>

theorem form_toml_backslashes:
  assumes "name \<noteq> ''internal''" and "wf_form f"
  shows "\<exists>toml. connFormToTOML name f = Inr toml \<and>
    length (f_password (connTOMLToForm toml)) = length (f_password f) + count_list (f_password f) BSL"
  using form_reread [OF assms(2,1)] dbl_length [of "f_password f"] by (auto simp: dbl_form_def)

theorem form_toml_backslashes_witness:
  "\<exists>toml. connFormToTOML ''web'' (sample_form\<lparr>f_password := ''a'' @ [BSL]\<rparr>) = Inr toml \<and>
    length (f_password (connTOMLToForm toml)) = 3"
  using form_toml_backslashes [OF _ sample_wf(2), of "''web''"] by (simp add: BSL_def eval_nat_numeral)

text \<open>Whatever the stored profile said about host keys, the form view writes a document that
  trusts unknown hosts and pins no \<open>known_hosts\<close>.\<close>

theorem form_toml_trusts_unknown:
  assumes "name \<noteq> ''internal''" and "wf_form f"
  shows "\<exists>toml. connFormToTOML name f = Inr toml \<and>
    obj_get (root (parseConnTOML toml)) ''trust_unknown_host'' = Some (TBool True) \<and>
    obj_get (root (parseConnTOML toml)) ''known_hosts'' = None"
proof -
  obtain toml where t: "connFormToTOML name f = Inr toml"
    "root (parseConnTOML toml) = fold put_kv (root_entries f) []"
    using form_printed [OF assms(2,1)] by blast
  have "obj_get (root (parseConnTOML toml)) k = last_val (root_entries f) k" for k
    by (simp add: t(2) obj_get_fold_put split: option.split)
  then show ?thesis using t(1) by (simp add: root_entries_def opt_str_def opt_port_def)
qed

theorem form_toml_trusts_unknown_witness:
  "\<exists>toml. connFormToTOML ''web'' sample_form = Inr toml \<and>
    obj_get (root (parseConnTOML toml)) ''trust_unknown_host'' = Some (TBool True) \<and>
    obj_get (root (parseConnTOML toml)) ''known_hosts'' = None"
  by (rule form_toml_trusts_unknown) (simp_all add: sample_wf)

end
