(* ===== verification/Sidebar.thy ===== *)
theory Sidebar
  imports Prelude
begin

text \<open>
  The two collapsible sections of the page and the entries drawer of touch devices
  (end of \<open>conn-form.js\<close>). The drawer shares its header with the entries section, and its
  listeners run before the section's own.
\<close>

section \<open>A section\<close>

record section_state =
  aria_expanded :: bool
  body_collapsed :: bool
  stored :: "string option"

text \<open>The start of the page: the stored word decides, else the attribute in the page.\<close>

definition section_load :: "bool \<Rightarrow> string option \<Rightarrow> section_state" where
  "section_load html_expanded st =
     (let c = (if st \<noteq> None \<and> st \<noteq> Some [] then st = Some ''collapsed'' else \<not> html_expanded)
      in \<lparr>aria_expanded = \<not> c, body_collapsed = c, stored = st\<rparr>)"

definition section_click :: "bool \<Rightarrow> ('a section_state_scheme) \<Rightarrow> 'a section_state_scheme" where
  "section_click on_icon_btn s =
     (if on_icon_btn then s
      else if \<not> aria_expanded s then s\<lparr>aria_expanded := True, body_collapsed := False, stored := Some ''expanded''\<rparr>
      else s\<lparr>aria_expanded := False, body_collapsed := True, stored := Some ''collapsed''\<rparr>)"

definition is_click_key :: "string \<Rightarrow> bool" where
  "is_click_key k \<longleftrightarrow> k = ''Enter'' \<or> k = '' ''"

section \<open>The drawer\<close>

record drawer_state = section_state +
  body_open :: bool
  scrim_open :: bool
  overflow_hidden :: bool
  mobile :: bool

definition setOpen :: "bool \<Rightarrow> drawer_state \<Rightarrow> drawer_state" where
  "setOpen op d = d\<lparr>body_open := op, scrim_open := op, aria_expanded := op, overflow_hidden := op\<rparr>"

definition header_click :: "bool \<Rightarrow> bool \<Rightarrow> drawer_state \<Rightarrow> drawer_state" where
  "header_click on_button on_icon_btn d =
     (if mobile d \<and> \<not> on_button then setOpen (\<not> body_open d) d else section_click on_icon_btn d)"

definition header_key :: "string \<Rightarrow> drawer_state \<Rightarrow> drawer_state" where
  "header_key k d =
     (if \<not> is_click_key k then d
      else if mobile d then setOpen (\<not> body_open d) d
      else header_click False False d)"

definition scrim_click :: "drawer_state \<Rightarrow> drawer_state" where
  "scrim_click d = setOpen False d"

definition document_key :: "string \<Rightarrow> drawer_state \<Rightarrow> drawer_state" where
  "document_key k d = (if k = ''Escape'' \<and> body_open d then setOpen False d else d)"

definition body_click :: "bool \<Rightarrow> drawer_state \<Rightarrow> drawer_state" where
  "body_click on_tile d = (if on_tile then setOpen False d else d)"

definition viewport_resize :: "bool \<Rightarrow> drawer_state \<Rightarrow> drawer_state" where
  "viewport_resize mob d =
     (let d1 = d\<lparr>mobile := mob\<rparr> in if body_open d1 \<and> \<not> mob then setOpen False d1 else d1)"

text \<open>\<open>termcpToggleEntriesDrawer\<close>: the result says whether there is a drawer.\<close>

definition toggleEntriesDrawer :: "bool option \<Rightarrow> drawer_state \<Rightarrow> bool \<times> drawer_state" where
  "toggleEntriesDrawer forceOpen d =
     (if \<not> mobile d then (False, d)
      else (True, setOpen (case forceOpen of None \<Rightarrow> \<not> body_open d | Some b \<Rightarrow> b) d))"

definition drawer_load :: "bool \<Rightarrow> string option \<Rightarrow> bool \<Rightarrow> drawer_state" where
  "drawer_load html_expanded st mob =
     (let s = section_load html_expanded st
      in \<lparr>aria_expanded = (aria_expanded s \<and> \<not> mob), body_collapsed = body_collapsed s, stored = stored s,
          body_open = False, scrim_open = False, overflow_hidden = False, mobile = mob\<rparr>)"

datatype drawer_event =
    HeaderClick bool bool | HeaderKey string | ScrimClick | DocumentKey string
  | BodyClick bool | Resize bool | Toggle "bool option"

fun drawer_step :: "drawer_state \<Rightarrow> drawer_event \<Rightarrow> drawer_state" where
  "drawer_step d (HeaderClick b i) = header_click b i d"
| "drawer_step d (HeaderKey k) = header_key k d"
| "drawer_step d ScrimClick = scrim_click d"
| "drawer_step d (DocumentKey k) = document_key k d"
| "drawer_step d (BodyClick t) = body_click t d"
| "drawer_step d (Resize mob) = viewport_resize mob d"
| "drawer_step d (Toggle f) = snd (toggleEntriesDrawer f d)"

definition drawer_inv :: "drawer_state \<Rightarrow> bool" where
  "drawer_inv d \<longleftrightarrow>
     scrim_open d = body_open d \<and> overflow_hidden d = body_open d \<and>
     (body_open d \<longrightarrow> mobile d \<and> aria_expanded d) \<and>
     (stored d = Some ''collapsed'' \<longrightarrow> body_collapsed d) \<and> (stored d = Some ''expanded'' \<longrightarrow> \<not> body_collapsed d)"

lemmas drawer_defs = header_click_def header_key_def scrim_click_def document_key_def body_click_def
  viewport_resize_def toggleEntriesDrawer_def setOpen_def section_click_def Let_def

lemma section_click_open [simp]:
  "body_open (section_click i d) = body_open d" "mobile (section_click i d) = mobile d"
  by (simp_all add: section_click_def)

lemma drawer_load_inv: "drawer_inv (drawer_load h st m)"
  by (auto simp: drawer_inv_def drawer_load_def section_load_def Let_def)

lemma setOpen_inv: "drawer_inv d \<Longrightarrow> (op \<longrightarrow> mobile d) \<Longrightarrow> drawer_inv (setOpen op d)"
  by (auto simp: drawer_inv_def setOpen_def)

text \<open>The entries header holds no button, so a click on it is never on one.\<close>

fun drawer_enabled :: "drawer_state \<Rightarrow> drawer_event \<Rightarrow> bool" where
  "drawer_enabled d (HeaderClick b i) = (\<not> b \<and> \<not> i)"
| "drawer_enabled d e = True"

lemma drawer_step_inv: "drawer_inv d \<Longrightarrow> drawer_enabled d e \<Longrightarrow> drawer_inv (drawer_step d e)"
  by (cases e) (auto simp: drawer_inv_def drawer_defs split: option.split)

interpretation drawer: guarded_machine "drawer_load h st m" drawer_step drawer_inv drawer_enabled for h st m
  by unfold_locales (rule drawer_load_inv, rule drawer_step_inv)

lemma drawer_mobile_step: "(\<forall>m'. e \<noteq> Resize m') \<Longrightarrow> mobile (drawer_step d e) = mobile d"
  by (cases e) (auto simp: drawer_defs split: option.split)



text \<open>On a desktop, picking a connection runs the drawer's close, which marks the section as
  collapsed although its body stays expanded; the next click on the header changes nothing
  that is visible.\<close>

theorem desktop_tile_click_desyncs:
  assumes "\<not> mobile d" and "aria_expanded d" and "\<not> body_collapsed d"
  shows "\<not> aria_expanded (body_click True d) \<and> \<not> body_collapsed (body_click True d) \<and>
    \<not> body_collapsed (header_click False False (body_click True d))"
  using assms by (simp add: drawer_defs)

theorem desktop_tile_click_desyncs_witness:
  "\<not> aria_expanded (body_click True (drawer_load True None False)) \<and>
   \<not> body_collapsed (header_click False False (body_click True (drawer_load True None False)))"
  using desktop_tile_click_desyncs [of "drawer_load True None False"]
  by (simp add: drawer_load_def section_load_def Let_def)

end
