(* ===== verification/Approval.thy ===== *)
theory Approval
  imports Text_Helpers I18n
begin

text \<open>
  Review mode in the browser (\<open>approval.js\<close>, with the lock and the panel of a window from
  \<open>terminal-view.js\<close>): the rows of the queue, the pending counts, and the surfaces that show
  them. What the server answers is an argument of the operation that reads it; \<open>None\<close> is a
  failed read. The translation function \<open>t\<close> is an argument.
\<close>

section \<open>Keys\<close>

definition KEY_LABELS :: "string obj" where
  "KEY_LABELS =
     [(''ctrl+c'', ''Ctrl+C''), (''enter'', ''Enter''), (''tab'', ''Tab''), (''esc'', ''Esc''),
      (''up'', ''Up''), (''down'', ''Down''), (''left'', ''Left''), (''right'', ''Right''),
      (''backspace'', ''Bksp''), (''delete'', ''Del''), (''home'', ''Home''), (''end'', ''End''),
      (''ctrl+d'', ''Ctrl+D''), (''ctrl+z'', ''Ctrl+Z''), (''ctrl+l'', ''Ctrl+L''),
      (''ctrl+u'', ''Ctrl+U''), (''ctrl+w'', ''Ctrl+W'')]"

definition keyLabel :: "string \<Rightarrow> string" where
  "keyLabel key = (case obj_get KEY_LABELS key of Some l \<Rightarrow> or_str l key | None \<Rightarrow> key)"

definition chips_frags :: "string list \<Rightarrow> string frag list" where
  \<open>chips_frags keys =
     concat (map (\<lambda>k. [Lit ''<span class="approval-chip">'', Hole (keyLabel k), Lit ''</span>''])
       (filter (\<lambda>k. k \<noteq> ''enter'') keys))\<close>

definition approvalChipsHtml :: "string list \<Rightarrow> string" where
  "approvalChipsHtml keys = html.render (chips_frags keys)"

section \<open>Requests and rows\<close>

text \<open>A missing string field is the empty string: the code reads every one with \<open>||\<close>.\<close>

record request =
  rq_id :: string
  rq_session :: string
  rq_shell :: string
  rq_state :: string
  rq_kind :: string
  rq_text :: string
  rq_summary :: string
  rq_keys :: "string list"
  rq_source :: string

text \<open>One item of the answer of \<open>/api/approvals\<close>; the request may be missing.\<close>

type_synonym approvals = "request option list"

definition empty_request :: request where
  "empty_request = \<lparr>rq_id = [], rq_session = [], rq_shell = [], rq_state = [], rq_kind = [], rq_text = [],
     rq_summary = [], rq_keys = [], rq_source = []\<rparr>"

definition kindLabelOf :: "(string \<Rightarrow> string) \<Rightarrow> string \<Rightarrow> string" where
  "kindLabelOf t kind =
     (if kind = ''file_write'' then t ''review.kind.fileWrite''
      else if kind = ''file_delete'' then t ''review.kind.fileDelete''
      else if kind = ''file_rename'' then t ''review.kind.fileRename''
      else if kind = ''file_mkdir'' then t ''review.kind.fileMkdir''
      else if kind = ''file_perm'' then t ''review.kind.filePerm''
      else if kind = ''file_link'' then t ''review.kind.fileLink''
      else if kind = ''file_truncate'' then t ''review.kind.fileTruncate''
      else if kind = ''forward_open'' then t ''review.kind.forwardOpen''
      else if kind = ''forward_close'' then t ''review.kind.forwardClose''
      else [])"

definition request_kindLabel :: "(string \<Rightarrow> string) \<Rightarrow> request \<Rightarrow> string" where
  "request_kindLabel t req = kindLabelOf t (or_str (rq_kind req) ''shell_input'')"

definition body_frags :: "(string \<Rightarrow> string) \<Rightarrow> request \<Rightarrow> string frag list" where
  \<open>body_frags t req =
     (if rq_text req \<noteq> [] then [Lit ''<code class="approval-code">'', Hole (rq_text req), Lit ''</code>'']
      else if request_kindLabel t req \<noteq> []
      then [Lit ''<code class="approval-code approval-code-op">'', Hole (or_str (rq_summary req) (request_kindLabel t req)), Lit ''</code>'']
      else [])\<close>

definition actions_frags :: "(string \<Rightarrow> string) \<Rightarrow> request \<Rightarrow> string frag list" where
  \<open>actions_frags t req =
     (if rq_state req = ''pending''
      then [Lit ''<div class="approval-actions">'',
            Lit ''<button type="button" class="btn btn-primary" data-approve="'', Hole (rq_id req), Lit ''">'', Hole (t ''review.accept''), Lit ''</button>'',
            Lit ''<button type="button" class="btn btn-danger" data-reject="'', Hole (rq_id req), Lit ''">'', Hole (t ''review.reject''), Lit ''</button>'',
            Lit ''</div>'']
      else [Lit ''<div class="approval-state">'', Hole (rq_state req), Lit ''</div>''])\<close>

definition main_frags :: "(string \<Rightarrow> string) \<Rightarrow> request \<Rightarrow> string frag list" where
  \<open>main_frags t req =
     [Lit ''<div class="approval-main">''] @ body_frags t req @
     (if approvalChipsHtml (rq_keys req) \<noteq> []
      then [Lit ''<div class="approval-chips">''] @ chips_frags (rq_keys req) @ [Lit ''</div>''] else []) @
     [Lit ''</div>'']\<close>

definition item_frags :: "(string \<Rightarrow> string) \<Rightarrow> request \<Rightarrow> string frag list" where
  \<open>item_frags t req =
     [Lit ''<div class="approval-item'', Lit (if rq_state req = ''pending'' then [] else '' approval-item-done''), Lit ''">'',
      Lit ''<div class="approval-item-head">'',
      Lit ''<span class="approval-src">'', Hole (or_str (rq_source req) ''?''), Lit ''</span>''] @
     (if request_kindLabel t req \<noteq> []
      then [Lit ''<span class="approval-kind">'', Hole (request_kindLabel t req), Lit ''</span>''] else []) @
     [Lit ''<span class="approval-sid">'', Hole (rq_shell req), Lit ''</span>'',
      Lit ''</div>'', Lit ''<div class="approval-row">''] @ main_frags t req @ actions_frags t req @
     [Lit ''</div>'', Lit ''</div>'']\<close>

definition renderApprovalItem :: "(string \<Rightarrow> string) \<Rightarrow> request option \<Rightarrow> string" where
  "renderApprovalItem t it = html.render (item_frags t (case it of None \<Rightarrow> empty_request | Some req \<Rightarrow> req))"

section \<open>The surfaces\<close>

record badge =
  b_hidden :: bool
  b_text :: string

text \<open>What a window's panel shows: nothing yet, rows, the empty note, or the failure note.\<close>

datatype queue = NotLoaded | Rows "request list" | LoadFailed

record rwin =
  rw_parentSid :: string
  rw_approvalMode :: bool
  lock_is_on :: bool
  lock_closed_glyph :: bool
  lock_aria :: string
  lock_title :: string
  lock_badge :: badge
  sheet_open :: bool
  aria_open :: bool
  queue_list :: queue
  buttons_disabled :: bool
  switch_checked :: bool
  switch_disabled :: bool
  switch_text :: string
  win_approval :: bool

record rtab =
  tab_win_sid :: "string option"
  tab_badge :: badge
  tab_has_review :: bool

record rtile =
  tile_sid :: string
  tile_badge :: badge

record review_ui =
  approvalCounts :: "nat obj"
  rwins :: "rwin list"
  rtabs :: "rtab list"
  rtiles :: "rtile list"

type_synonym translate = "string \<Rightarrow> string obj option \<Rightarrow> string"

definition count_of :: "nat obj \<Rightarrow> string \<Rightarrow> nat" where
  "count_of counts sid = (case obj_get counts sid of None \<Rightarrow> 0 | Some n \<Rightarrow> n)"

definition num_badge :: "nat \<Rightarrow> badge" where
  "num_badge n = \<lparr>b_hidden = (n = 0), b_text = show_nat n\<rparr>"

definition updateReviewLockTitle :: "translate \<Rightarrow> nat obj \<Rightarrow> rwin \<Rightarrow> rwin" where
  "updateReviewLockTitle t counts w =
     (let n = count_of counts (rw_parentSid w)
      in w\<lparr>lock_title := (if rw_approvalMode w then t ''review.lock.on'' None else t ''review.lock.off'' None) @
             (if n \<noteq> 0 then t ''review.lock.waitingCount'' (Some [(''count'', show_nat n)]) else t ''review.lock.clickOpen'' None)\<rparr>)"

definition paint_win :: "translate \<Rightarrow> nat obj \<Rightarrow> rwin \<Rightarrow> rwin" where
  "paint_win t counts w = (updateReviewLockTitle t counts w)\<lparr>lock_badge := num_badge (count_of counts (rw_parentSid w))\<rparr>"

definition paint_tab :: "nat obj \<Rightarrow> rtab \<Rightarrow> rtab" where
  "paint_tab counts tb =
     (let n = (case tab_win_sid tb of None \<Rightarrow> 0 | Some sid \<Rightarrow> count_of counts sid)
      in tb\<lparr>tab_badge := num_badge n, tab_has_review := (n \<noteq> 0)\<rparr>)"

definition badge_text :: "translate \<Rightarrow> nat \<Rightarrow> string" where
  "badge_text t n = t (if n = 1 then ''review.badge.one'' else ''review.badge.other'') (Some [(''count'', show_nat n)])"

definition paint_tile :: "translate \<Rightarrow> nat obj \<Rightarrow> rtile \<Rightarrow> rtile" where
  "paint_tile t counts ti =
     (let n = count_of counts (tile_sid ti) in ti\<lparr>tile_badge := \<lparr>b_hidden = (n = 0), b_text = badge_text t n\<rparr>\<rparr>)"

definition applyApprovalCounts :: "translate \<Rightarrow> review_ui \<Rightarrow> review_ui" where
  "applyApprovalCounts t ui =
     ui\<lparr>rwins := map (paint_win t (approvalCounts ui)) (rwins ui),
        rtabs := map (paint_tab (approvalCounts ui)) (rtabs ui),
        rtiles := map (paint_tile t (approvalCounts ui)) (rtiles ui)\<rparr>"

definition count_item :: "nat obj \<Rightarrow> request option \<Rightarrow> nat obj" where
  "count_item per it =
     (let req = (case it of None \<Rightarrow> empty_request | Some r \<Rightarrow> r)
      in if rq_state req \<noteq> ''pending'' \<or> rq_session req = [] then per
         else obj_set per (rq_session req) (count_of per (rq_session req) + 1))"

definition keepApprovalCounts :: "translate \<Rightarrow> approvals \<Rightarrow> review_ui \<Rightarrow> review_ui" where
  "keepApprovalCounts t approvals ui = applyApprovalCounts t (ui\<lparr>approvalCounts := foldl count_item [] approvals\<rparr>)"

definition refreshApprovalCounts :: "translate \<Rightarrow> approvals option \<Rightarrow> review_ui \<Rightarrow> review_ui" where
  "refreshApprovalCounts t ans ui = (case ans of None \<Rightarrow> ui | Some a \<Rightarrow> keepApprovalCounts t a ui)"

definition clearApprovalCount :: "translate \<Rightarrow> string \<Rightarrow> review_ui \<Rightarrow> review_ui" where
  "clearApprovalCount t sid ui =
     (if sid = [] \<or> count_of (approvalCounts ui) sid = 0 then ui
      else applyApprovalCounts t (ui\<lparr>approvalCounts := obj_del (approvalCounts ui) sid\<rparr>))"

definition is_mine :: "string \<Rightarrow> request option \<Rightarrow> bool" where
  "is_mine sid it = (case it of None \<Rightarrow> False | Some r \<Rightarrow> rq_session r = sid \<and> rq_state r = ''pending'')"

text \<open>Windows are addressed by their position.\<close>

definition upd_win :: "nat \<Rightarrow> (rwin \<Rightarrow> rwin) \<Rightarrow> review_ui \<Rightarrow> review_ui" where
  "upd_win i f ui = (if i < length (rwins ui) then ui\<lparr>rwins := (rwins ui)[i := f (rwins ui ! i)]\<rparr> else ui)"

definition loadReviewQueue :: "translate \<Rightarrow> approvals option \<Rightarrow> nat \<Rightarrow> review_ui \<Rightarrow> review_ui" where
  "loadReviewQueue t ans i ui =
     (case ans of
        None \<Rightarrow> upd_win i (\<lambda>w. w\<lparr>queue_list := LoadFailed, buttons_disabled := False\<rparr>) ui
      | Some all \<Rightarrow>
          keepApprovalCounts t all
            (upd_win i (\<lambda>w. w\<lparr>queue_list := Rows (map the (filter (is_mine (rw_parentSid w)) all)), buttons_disabled := False\<rparr>) ui))"

text \<open>The markup of the list for a loaded queue.\<close>

definition queue_html :: "translate \<Rightarrow> queue \<Rightarrow> string" where
  \<open>queue_html t q =
     (case q of
        NotLoaded \<Rightarrow> []
      | LoadFailed \<Rightarrow> ''<div class="shell-review-empty">'' @ escapeHtml (t ''review.loadFailed'' None) @ ''</div>''
      | Rows [] \<Rightarrow> ''<div class="shell-review-empty">'' @ escapeHtml (t ''review.empty'' None) @ ''</div>''
      | Rows (r # rs) \<Rightarrow> concat (map (\<lambda>r. renderApprovalItem (\<lambda>k. t k None) (Some r)) (r # rs)))\<close>

section \<open>Decisions and the switch\<close>

text \<open>The click: the buttons go dead and a request is posted.\<close>

definition decideApproval :: "nat \<Rightarrow> string \<Rightarrow> bool \<Rightarrow> review_ui \<Rightarrow> string \<times> review_ui" where
  "decideApproval i rid approve ui =
     (''/api/approvals/'' @ encodeURIComponent rid @ (if approve then ''/approve'' else ''/reject''),
      upd_win i (\<lambda>w. w\<lparr>buttons_disabled := True\<rparr>) ui)"

text \<open>Either answer to the post re-reads the queue.\<close>

definition decided :: "translate \<Rightarrow> approvals option \<Rightarrow> nat \<Rightarrow> review_ui \<Rightarrow> review_ui" where
  "decided t ans i ui = loadReviewQueue t ans i ui"

definition setReviewSheetOpen :: "translate \<Rightarrow> approvals option \<Rightarrow> nat \<Rightarrow> bool \<Rightarrow> review_ui \<Rightarrow> review_ui" where
  "setReviewSheetOpen t ans i op ui =
     (let ui1 = upd_win i (\<lambda>w. w\<lparr>sheet_open := op, aria_open := op\<rparr>) ui
      in if op then loadReviewQueue t ans i ui1 else ui1)"

definition paintReviewLabels :: "translate \<Rightarrow> nat obj \<Rightarrow> rwin \<Rightarrow> rwin" where
  "paintReviewLabels t counts w =
     (let on = rw_approvalMode w
      in (updateReviewLockTitle t counts
           (w\<lparr>lock_is_on := on, lock_closed_glyph := on,
              lock_aria := (if on then t ''review.aria.on'' None else t ''review.aria.off'' None)\<rparr>))
         \<lparr>switch_checked := on, switch_disabled := False,
          switch_text := (if on then t ''review.on'' None else t ''review.off'' None)\<rparr>)"

definition applyApprovalMode :: "translate \<Rightarrow> approvals option \<Rightarrow> nat \<Rightarrow> bool \<Rightarrow> review_ui \<Rightarrow> review_ui" where
  "applyApprovalMode t ans i on ui =
     (let ui1 = upd_win i (\<lambda>w. paintReviewLabels t (approvalCounts ui) (w\<lparr>rw_approvalMode := on\<rparr>)) ui;
          ui2 = upd_win i (\<lambda>w. w\<lparr>win_approval := on\<rparr>) (applyApprovalCounts t ui1)
      in if i < length (rwins ui) \<and> sheet_open (rwins ui2 ! i) then loadReviewQueue t ans i ui2 else ui2)"

text \<open>The switch of the panel: the browser has flipped the box, \<open>ok\<close> is the answer of the
  confirmation (asked only when turning off) and \<open>sent\<close> whether the server accepted.\<close>

definition applyReviewToggle :: "translate \<Rightarrow> bool \<Rightarrow> bool \<Rightarrow> nat \<Rightarrow> review_ui \<Rightarrow> review_ui" where
  "applyReviewToggle t ok sent i ui =
     (if i < length (rwins ui) then
        (let w = rwins ui ! i; flipped = upd_win i (\<lambda>w. w\<lparr>switch_checked := \<not> switch_checked w\<rparr>) ui
         in if rw_parentSid w = [] then flipped
            else
              (let ui1 = (if rw_approvalMode w \<and> ok \<and> sent then clearApprovalCount t (rw_parentSid w) flipped else flipped)
               in upd_win i (\<lambda>w. w\<lparr>switch_disabled := False\<rparr>) ui1))
      else ui)"

text \<open>The mode a window starts with: the cached snapshot's, else off.\<close>

definition snapshot_mode :: "(string \<times> bool) list \<Rightarrow> string \<Rightarrow> bool" where
  "snapshot_mode snap sid = (case map_of snap sid of None \<Rightarrow> False | Some m \<Rightarrow> m)"

definition applyApprovalModeFromSnapshot ::
  "translate \<Rightarrow> approvals option \<Rightarrow> (string \<times> bool) list \<Rightarrow> nat \<Rightarrow> string \<Rightarrow> review_ui \<Rightarrow> review_ui" where
  "applyApprovalModeFromSnapshot t ans snap i sid ui = applyApprovalMode t ans i (snapshot_mode snap sid) ui"

text \<open>The authoritative answer, \<open>None\<close> when the read failed; a window that shows another
  session by now ignores it.\<close>

definition refreshApprovalState :: "translate \<Rightarrow> approvals option \<Rightarrow> bool option \<Rightarrow> nat \<Rightarrow> string \<Rightarrow> review_ui \<Rightarrow> review_ui" where
  "refreshApprovalState t ans r i sid ui =
     (case r of
        None \<Rightarrow> ui
      | Some m \<Rightarrow> if sid \<noteq> [] \<and> i < length (rwins ui) \<and> rw_parentSid (rwins ui ! i) = sid then applyApprovalMode t ans i m ui else ui)"

text \<open>A push: the counts are re-read, then every open panel; the answers are given in order.\<close>

definition open_panels :: "review_ui \<Rightarrow> nat list" where
  "open_panels ui = filter (\<lambda>i. sheet_open (rwins ui ! i)) [0..<length (rwins ui)]"

definition onApprovalEvent :: "translate \<Rightarrow> approvals option \<Rightarrow> approvals option list \<Rightarrow> review_ui \<Rightarrow> review_ui" where
  "onApprovalEvent t ans answers ui =
     foldl (\<lambda>u (i, a). loadReviewQueue t a i u) (refreshApprovalCounts t ans ui) (zip (open_panels ui) answers)"

definition reviewBadgeHtml :: "translate \<Rightarrow> nat obj \<Rightarrow> string \<Rightarrow> string" where
  \<open>reviewBadgeHtml t counts sid =
     (let n = count_of counts sid
      in if n = 0 then ''<div class="sess-review" hidden></div>''
         else ''<div class="sess-review">'' @ escapeHtml (badge_text t n) @ ''</div>'')\<close>

section \<open>The review surfaces as a machine\<close>

text \<open>A window as \<open>openShellWindow\<close> creates it, before the mode is seeded.\<close>

definition fresh_rwin :: "string \<Rightarrow> rwin" where
  "fresh_rwin sid =
     \<lparr>rw_parentSid = sid, rw_approvalMode = False, lock_is_on = False, lock_closed_glyph = False, lock_aria = ''Review'',
      lock_title = [], lock_badge = \<lparr>b_hidden = True, b_text = ''0''\<rparr>, sheet_open = False, aria_open = False,
      queue_list = NotLoaded, buttons_disabled = False, switch_checked = False, switch_disabled = False,
      switch_text = ''Review'', win_approval = False\<rparr>"

text \<open>The end of \<open>refreshSessionTabbar\<close>: one tab per window, then the counts are painted.\<close>

definition tabbar_review :: "translate \<Rightarrow> review_ui \<Rightarrow> review_ui" where
  "tabbar_review t ui =
     applyApprovalCounts t
       (ui\<lparr>rtabs := map (\<lambda>w. \<lparr>tab_win_sid = Some (rw_parentSid w), tab_badge = \<lparr>b_hidden = True, b_text = []\<rparr>, tab_has_review = False\<rparr>) (rwins ui)\<rparr>)"

text \<open>The session grid builds each tile's badge from the counts in hand.\<close>

definition grid_review :: "translate \<Rightarrow> string list \<Rightarrow> review_ui \<Rightarrow> review_ui" where
  "grid_review t sids ui =
     ui\<lparr>rtiles := map (\<lambda>sid. let n = count_of (approvalCounts ui) sid
                          in \<lparr>tile_sid = sid, tile_badge = \<lparr>b_hidden = (n = 0), b_text = (if n = 0 then [] else badge_text t n)\<rparr>\<rparr>) sids\<rparr>"

datatype rv_event =
    RvRefresh "approvals option" | RvLoad nat "approvals option" | RvMode nat bool "approvals option"
  | RvClear string | RvSheet nat bool "approvals option" | RvDecide nat string bool | RvToggle nat bool bool
  | RvOpen string bool "approvals option" | RvTabbar | RvGrid "string list"

fun rv_step :: "translate \<Rightarrow> review_ui \<Rightarrow> rv_event \<Rightarrow> review_ui" where
  "rv_step t ui (RvRefresh ans) = refreshApprovalCounts t ans ui"
| "rv_step t ui (RvLoad i ans) = loadReviewQueue t ans i ui"
| "rv_step t ui (RvMode i on ans) = applyApprovalMode t ans i on ui"
| "rv_step t ui (RvClear sid) = clearApprovalCount t sid ui"
| "rv_step t ui (RvSheet i op ans) = setReviewSheetOpen t ans i op ui"
| "rv_step t ui (RvDecide i rid ok) = snd (decideApproval i rid ok ui)"
| "rv_step t ui (RvToggle i ok sent) = applyReviewToggle t ok sent i ui"
| "rv_step t ui (RvOpen sid on ans) =
     applyApprovalModeFromSnapshot t ans [(sid, on)] (length (rwins ui)) sid (ui\<lparr>rwins := rwins ui @ [fresh_rwin sid]\<rparr>)"
| "rv_step t ui RvTabbar = tabbar_review t ui"
| "rv_step t ui (RvGrid sids) = grid_review t sids ui"

definition rv_start :: review_ui where
  "rv_start = \<lparr>approvalCounts = [], rwins = [], rtabs = [], rtiles = []\<rparr>"

definition win_ok :: "translate \<Rightarrow> nat obj \<Rightarrow> rwin \<Rightarrow> bool" where
  "win_ok t counts w \<longleftrightarrow>
     lock_badge w = num_badge (count_of counts (rw_parentSid w)) \<and>
     lock_title w = lock_title (updateReviewLockTitle t counts w) \<and>
     lock_is_on w = rw_approvalMode w \<and> lock_closed_glyph w = rw_approvalMode w \<and> win_approval w = rw_approvalMode w \<and>
     aria_open w = sheet_open w"

definition tab_ok :: "nat obj \<Rightarrow> rtab \<Rightarrow> bool" where
  "tab_ok counts tb \<longleftrightarrow>
     (let n = (case tab_win_sid tb of None \<Rightarrow> 0 | Some sid \<Rightarrow> count_of counts sid)
      in tab_badge tb = num_badge n \<and> tab_has_review tb = (n \<noteq> 0))"

definition tile_ok :: "translate \<Rightarrow> nat obj \<Rightarrow> rtile \<Rightarrow> bool" where
  "tile_ok t counts ti \<longleftrightarrow>
     (let n = count_of counts (tile_sid ti)
      in b_hidden (tile_badge ti) = (n = 0) \<and> (n \<noteq> 0 \<longrightarrow> b_text (tile_badge ti) = badge_text t n))"

definition rv_inv :: "translate \<Rightarrow> review_ui \<Rightarrow> bool" where
  "rv_inv t ui \<longleftrightarrow>
     (\<forall>w \<in> set (rwins ui). win_ok t (approvalCounts ui) w) \<and>
     (\<forall>tb \<in> set (rtabs ui). tab_ok (approvalCounts ui) tb) \<and>
     (\<forall>ti \<in> set (rtiles ui). tile_ok t (approvalCounts ui) ti)"

text \<open>Everything about a window that painting does not write.\<close>

definition mode_ok :: "rwin \<Rightarrow> bool" where
  "mode_ok w \<longleftrightarrow> lock_is_on w = rw_approvalMode w \<and> lock_closed_glyph w = rw_approvalMode w \<and>
     win_approval w = rw_approvalMode w \<and> aria_open w = sheet_open w"

definition modes_ok :: "review_ui \<Rightarrow> bool" where
  "modes_ok ui \<longleftrightarrow> (\<forall>w \<in> set (rwins ui). mode_ok w)"

lemma rv_inv_modes: "rv_inv t ui \<Longrightarrow> modes_ok ui"
  by (auto simp: rv_inv_def modes_ok_def win_ok_def mode_ok_def)

lemma paint_inv: "modes_ok ui \<Longrightarrow> rv_inv t (applyApprovalCounts t ui)"
  by (auto simp: rv_inv_def modes_ok_def mode_ok_def applyApprovalCounts_def win_ok_def tab_ok_def tile_ok_def paint_win_def
      updateReviewLockTitle_def paint_tab_def paint_tile_def Let_def)

lemma modes_counts [simp]: "modes_ok (ui\<lparr>approvalCounts := c\<rparr>) = modes_ok ui"
  by (simp add: modes_ok_def)

lemma keep_inv: "modes_ok ui \<Longrightarrow> rv_inv t (keepApprovalCounts t a ui)"
  by (simp add: keepApprovalCounts_def paint_inv)

lemma upd_win_in: "w \<in> set (rwins (upd_win i f ui)) \<Longrightarrow> w \<in> set (rwins ui) \<or> (\<exists>v \<in> set (rwins ui). w = f v)"
  by (auto simp: upd_win_def split: if_splits dest!: subsetD [OF set_update_subset_insert])

lemma upd_win_modes: "modes_ok ui \<Longrightarrow> (\<And>w. mode_ok w \<Longrightarrow> mode_ok (f w)) \<Longrightarrow> modes_ok (upd_win i f ui)"
  by (auto simp: modes_ok_def dest!: upd_win_in)

lemma upd_win_inv:
  assumes "rv_inv t ui" and "\<And>w. win_ok t (approvalCounts ui) w \<Longrightarrow> win_ok t (approvalCounts ui) (f w)"
  shows "rv_inv t (upd_win i f ui)"
proof -
  have "approvalCounts (upd_win i f ui) = approvalCounts ui" "rtabs (upd_win i f ui) = rtabs ui" "rtiles (upd_win i f ui) = rtiles ui"
    by (simp_all add: upd_win_def)
  with assms show ?thesis by (auto simp: rv_inv_def dest!: upd_win_in)
qed

lemma load_inv: "rv_inv t ui \<Longrightarrow> rv_inv t (loadReviewQueue t ans i ui)"
proof (cases ans)
  case None
  assume "rv_inv t ui"
  then show ?thesis by (auto simp: None loadReviewQueue_def win_ok_def updateReviewLockTitle_def Let_def intro!: upd_win_inv)
next
  case (Some a)
  assume "rv_inv t ui"
  then show ?thesis
    by (auto simp: Some loadReviewQueue_def mode_ok_def intro!: keep_inv upd_win_modes dest: rv_inv_modes)
qed

lemma clear_inv: "rv_inv t ui \<Longrightarrow> rv_inv t (clearApprovalCount t sid ui)"
  by (auto simp: clearApprovalCount_def intro!: paint_inv dest: rv_inv_modes)

text \<open>Setting a mode: the window's labels follow, then everything is repainted.\<close>

lemma mode_inv:
  assumes "modes_ok ui"
  shows "rv_inv t (applyApprovalMode t ans i on ui)"
proof -
  define ui2 where "ui2 = upd_win i (\<lambda>w. w\<lparr>win_approval := on\<rparr>)
    (applyApprovalCounts t (upd_win i (\<lambda>w. paintReviewLabels t (approvalCounts ui) (w\<lparr>rw_approvalMode := on\<rparr>)) ui))"
  have "rv_inv t ui2"
  proof (cases "i < length (rwins ui)")
    case True
    let ?c = "approvalCounts ui"
    let ?w = "paint_win t ?c (paintReviewLabels t ?c ((rwins ui ! i)\<lparr>rw_approvalMode := on\<rparr>))\<lparr>win_approval := on\<rparr>"
    have w: "rwins ui2 = (map (paint_win t ?c) (rwins ui))[i := ?w]"
      using True by (simp add: ui2_def upd_win_def applyApprovalCounts_def map_update)
    have "win_ok t ?c ?w"
      using assms True
      by (auto simp: modes_ok_def mode_ok_def win_ok_def paint_win_def paintReviewLabels_def updateReviewLockTitle_def Let_def)
    moreover have "win_ok t ?c (paint_win t ?c v)" if "v \<in> set (rwins ui)" for v
      using assms that by (auto simp: modes_ok_def mode_ok_def win_ok_def paint_win_def updateReviewLockTitle_def Let_def)
    ultimately have "\<forall>v \<in> set (rwins ui2). win_ok t ?c v"
      unfolding w by (auto dest!: subsetD [OF set_update_subset_insert])
    then show ?thesis
      using True by (auto simp: rv_inv_def ui2_def upd_win_def applyApprovalCounts_def tab_ok_def tile_ok_def paint_tab_def paint_tile_def Let_def)
  next
    case False
    then have "ui2 = applyApprovalCounts t ui" by (simp add: ui2_def upd_win_def applyApprovalCounts_def)
    then show ?thesis using assms by (simp add: paint_inv)
  qed
  then show ?thesis by (simp add: applyApprovalMode_def Let_def ui2_def [symmetric] load_inv)
qed

lemma toggle_inv: "rv_inv t ui \<Longrightarrow> rv_inv t (applyReviewToggle t ok sent i ui)"
proof -
  assume a: "rv_inv t ui"
  have f: "rv_inv t (upd_win i (\<lambda>w. w\<lparr>switch_checked := \<not> switch_checked w\<rparr>) ui)"
    using a by (auto simp: win_ok_def updateReviewLockTitle_def Let_def intro!: upd_win_inv)
  have "rv_inv t (upd_win i (\<lambda>w. w\<lparr>switch_disabled := False\<rparr>) u)" if "rv_inv t u" for u
    using that by (auto simp: win_ok_def updateReviewLockTitle_def Let_def intro!: upd_win_inv)
  then show ?thesis using a f clear_inv by (simp add: applyReviewToggle_def Let_def)
qed

lemma sheet_inv: "rv_inv t ui \<Longrightarrow> rv_inv t (setReviewSheetOpen t ans i op ui)"
proof -
  assume a: "rv_inv t ui"
  then have "rv_inv t (upd_win i (\<lambda>w. w\<lparr>sheet_open := op, aria_open := op\<rparr>) ui)"
    by (auto simp: win_ok_def updateReviewLockTitle_def Let_def intro!: upd_win_inv)
  then show ?thesis by (cases op) (simp_all add: setReviewSheetOpen_def Let_def load_inv)
qed

lemma rv_step_inv: "rv_inv t ui \<Longrightarrow> rv_inv t (rv_step t ui e)"
proof (cases e)
  case (RvRefresh ans)
  then show "rv_inv t ui \<Longrightarrow> ?thesis" by (auto simp: refreshApprovalCounts_def keep_inv rv_inv_modes split: option.split)
next
  case (RvDecide i rid ok)
  then show "rv_inv t ui \<Longrightarrow> ?thesis"
    by (auto simp: decideApproval_def win_ok_def updateReviewLockTitle_def Let_def intro!: upd_win_inv)
next
  case (RvOpen sid on ans)
  have "modes_ok (ui\<lparr>rwins := rwins ui @ [fresh_rwin sid]\<rparr>)" if "rv_inv t ui"
    using rv_inv_modes [OF that] by (auto simp: modes_ok_def mode_ok_def fresh_rwin_def)
  then show "rv_inv t ui \<Longrightarrow> ?thesis" using RvOpen by (simp add: applyApprovalModeFromSnapshot_def mode_inv)
next
  case RvTabbar
  then show "rv_inv t ui \<Longrightarrow> ?thesis"
    using rv_inv_modes [of t ui] by (auto simp: tabbar_review_def modes_ok_def intro!: paint_inv)
next
  case (RvGrid sids)
  then show "rv_inv t ui \<Longrightarrow> ?thesis" by (auto simp: grid_review_def rv_inv_def tile_ok_def Let_def)
qed (auto simp: load_inv mode_inv rv_inv_modes clear_inv sheet_inv toggle_inv)

interpretation rv: event_machine rv_start "rv_step t" "rv_inv t" for t
  by unfold_locales (simp add: rv_inv_def rv_start_def, rule rv_step_inv)

section \<open>What the surfaces show\<close>


definition sample_req :: request where
  "sample_req = empty_request\<lparr>rq_id := ''7'', rq_session := ''s1'', rq_state := ''pending'', rq_text := ''rm -rf <dir>''\<rparr>"


lemma count_item_of:
  "sid \<noteq> [] \<Longrightarrow> count_of (count_item per it) sid = count_of per sid + (if is_mine sid it then 1 else 0)"
proof (cases it)
  case None
  then show ?thesis by (simp add: count_item_def is_mine_def empty_request_def)
next
  case (Some r)
  assume "sid \<noteq> []"
  then show ?thesis
    by (cases "rq_session r = sid") (auto simp: Some count_item_def is_mine_def count_of_def obj_get_set Let_def)
qed

lemma counts_pending:
  "sid \<noteq> [] \<Longrightarrow> count_of (foldl count_item per as) sid = count_of per sid + length (filter (is_mine sid) as)"
  by (induction as arbitrary: per) (simp_all add: count_item_of)

lemma applyApprovalCounts_simps [simp]:
  "approvalCounts (applyApprovalCounts t ui) = approvalCounts ui"
  "length (rwins (applyApprovalCounts t ui)) = length (rwins ui)"
  "i < length (rwins ui) \<Longrightarrow> rwins (applyApprovalCounts t ui) ! i = paint_win t (approvalCounts ui) (rwins ui ! i)"
  by (simp_all add: applyApprovalCounts_def)

lemma paint_win_simps [simp]:
  "queue_list (paint_win t c w) = queue_list w" "rw_parentSid (paint_win t c w) = rw_parentSid w"
  "lock_badge (paint_win t c w) = num_badge (count_of c (rw_parentSid w))"
  "buttons_disabled (paint_win t c w) = buttons_disabled w"
  by (simp_all add: paint_win_def updateReviewLockTitle_def Let_def)

text \<open>Reading the queue makes the panel and the badge agree: the panel lists exactly the
  pending requests of the window's session in the order of the answer, the lock counts those
  rows, and the buttons work again.\<close>

theorem review_panel_matches_count:
  assumes "i < length (rwins ui)" and "rw_parentSid (rwins ui ! i) \<noteq> []"
  shows "\<exists>rows. queue_list (rwins (loadReviewQueue t (Some all) i ui) ! i) = Rows rows \<and>
    rows = map the (filter (is_mine (rw_parentSid (rwins ui ! i))) all) \<and>
    lock_badge (rwins (loadReviewQueue t (Some all) i ui) ! i) = num_badge (length rows) \<and>
    \<not> buttons_disabled (rwins (loadReviewQueue t (Some all) i ui) ! i)"
  using assms by (simp add: loadReviewQueue_def keepApprovalCounts_def upd_win_def counts_pending) (simp add: count_of_def)

definition sample_ui :: review_ui where
  "sample_ui = rv_start\<lparr>rwins := [fresh_rwin ''s1'']\<rparr>"

theorem review_panel_matches_count_witness:
  "queue_list (rwins (loadReviewQueue (\<lambda>k p. k) (Some [Some sample_req, None]) 0 sample_ui) ! 0) = Rows [sample_req]"
proof -
  have "is_mine ''s1'' (Some sample_req)" by code_simp
  then show ?thesis
    using review_panel_matches_count [of 0 sample_ui "\<lambda>k p. k" "[Some sample_req, None]"]
    by (simp add: sample_ui_def fresh_rwin_def is_mine_def)
qed

section \<open>What a reviewer reads\<close>

text \<open>C8: A reviewer decides on exactly what will run: the row of a request with a command shows
  the command in a code box, and reading that box as HTML text gives the command back,
  character for character.\<close>

theorem row_shows_exact_command:
  assumes "rq_text req \<noteq> []"
  shows \<open>\<exists>pre shown post. renderApprovalItem t (Some req) =
      pre @ ''<code class="approval-code">'' @ shown @ ''</code>'' @ post \<and>
    CHR ''<'' \<notin> set shown \<and> unescapeHtml shown = rq_text req\<close>
proof -
  define code_open where \<open>code_open = ''<code class="approval-code">''\<close>
  have b: "body_frags t req = [Lit code_open, Hole (rq_text req), Lit ''</code>'']"
    using assms by (simp add: body_frags_def code_open_def)
  obtain a c where "item_frags t req = a @ [Lit code_open, Hole (rq_text req), Lit ''</code>''] @ c"
    unfolding item_frags_def main_frags_def b by (metis append.assoc)
  then have "renderApprovalItem t (Some req) =
      html.render a @ code_open @ escapeHtml (rq_text req) @ ''</code>'' @ html.render c"
    unfolding renderApprovalItem_def option.case by (simp only: render_append) (simp add: html.render_def)
  moreover have "CHR ''<'' \<notin> set (escapeHtml (rq_text req))" using escapeHtml_safe by blast
  moreover have "unescapeHtml (escapeHtml (rq_text req)) = rq_text req"
    by (rule unescape_escapeHtml)
  ultimately show ?thesis unfolding code_open_def by blast
qed

theorem row_shows_exact_command_witness:
  \<open>\<exists>pre shown post. renderApprovalItem (\<lambda>k. k) (Some sample_req) =
      pre @ ''<code class="approval-code">'' @ shown @ ''</code>'' @ post \<and> unescapeHtml shown = ''rm -rf <dir>''\<close>
  using row_shows_exact_command [of sample_req "\<lambda>k. k"] by (auto simp: sample_req_def empty_request_def)

text \<open>What the structure of a row depends on.\<close>

definition row_shape :: "(string \<Rightarrow> string) \<Rightarrow> request \<Rightarrow> bool \<times> bool \<times> bool \<times> nat" where
  "row_shape t req =
     (rq_state req = ''pending'', rq_text req = [], request_kindLabel t req = [], length (filter (\<lambda>k. k \<noteq> ''enter'') (rq_keys req)))"

lemma chips_empty: "html.render (chips_frags keys) = [] \<longleftrightarrow> filter (\<lambda>k. k \<noteq> ''enter'') keys = []"
  by (cases "filter (\<lambda>k. k \<noteq> ''enter'') keys") (auto simp: chips_frags_def html.render_def)

lemma chips_skeleton:
  "length (filter (\<lambda>k. k \<noteq> ''enter'') ks) = length (filter (\<lambda>k. k \<noteq> ''enter'') ks') \<Longrightarrow>
    html.skeleton (chips_frags ks) = html.skeleton (chips_frags ks')"
proof -
  have sk: "html.skeleton (concat (map (\<lambda>k. [Lit a, Hole (keyLabel k), Lit b]) xs)) = concat (replicate (length xs) (a @ b))" for a b xs
    by (induction xs) (auto simp: html.skeleton_def)
  assume "length (filter (\<lambda>k. k \<noteq> ''enter'') ks) = length (filter (\<lambda>k. k \<noteq> ''enter'') ks')"
  then show ?thesis unfolding chips_frags_def sk by simp
qed

lemma part_skeletons:
  assumes "row_shape t r = row_shape t r'"
  shows "markup (html.skeleton (body_frags t r)) = markup (html.skeleton (body_frags t r'))"
    and "markup (html.skeleton (actions_frags t r)) = markup (html.skeleton (actions_frags t r'))"
    and "markup (html.skeleton (main_frags t r)) = markup (html.skeleton (main_frags t r'))"
proof -
  show b: "markup (html.skeleton (body_frags t r)) = markup (html.skeleton (body_frags t r'))"
    using assms by (simp add: body_frags_def row_shape_def html.skeleton_def)
  show "markup (html.skeleton (actions_frags t r)) = markup (html.skeleton (actions_frags t r'))"
    using assms by (simp add: actions_frags_def row_shape_def html.skeleton_def)
  have n: "length (filter (\<lambda>k. k \<noteq> ''enter'') (rq_keys r)) = length (filter (\<lambda>k. k \<noteq> ''enter'') (rq_keys r'))"
    using assms by (simp add: row_shape_def)
  then have e: "approvalChipsHtml (rq_keys r) = [] \<longleftrightarrow> approvalChipsHtml (rq_keys r') = []"
    unfolding approvalChipsHtml_def chips_empty by (metis length_0_conv)
  show "markup (html.skeleton (main_frags t r)) = markup (html.skeleton (main_frags t r'))"
    unfolding main_frags_def skeleton_append markup_simps b using e chips_skeleton [OF n]
    by (cases "approvalChipsHtml (rq_keys r) = []") (simp_all add: skeleton_append skeleton_Lit)
qed

text \<open>C32: Nothing an AI puts in a request, be it the command, a summary, a key name or an identifier, can
  add markup to the review panel: rows of the same shape carry the same angle brackets and
  attribute quotes.\<close>

theorem review_row_markup_safe:
  assumes "row_shape t r = row_shape t r'"
  shows "markup (renderApprovalItem t (Some r)) = markup (renderApprovalItem t (Some r'))"
proof -
  have s: "rq_state r = ''pending'' \<longleftrightarrow> rq_state r' = ''pending''" "request_kindLabel t r = [] \<longleftrightarrow> request_kindLabel t r' = []"
    using assms by (auto simp: row_shape_def)
  have dn: "markup '' approval-item-done'' = []" by (simp add: markup_def DQ_def)
  show ?thesis
    unfolding renderApprovalItem_def option.case html.markup_render item_frags_def skeleton_append markup_simps part_skeletons [OF assms]
    using s dn by (cases "request_kindLabel t r = []"; cases "rq_state r = ''pending''") (simp_all add: html.skeleton_def)
qed

theorem review_row_markup_safe_witness:
  "markup (renderApprovalItem (\<lambda>k. k) (Some sample_req)) =
   markup (renderApprovalItem (\<lambda>k. k) (Some (sample_req\<lparr>rq_text := ''ls''\<rparr>)))"
  by (rule review_row_markup_safe) code_simp

section \<open>Two surprises\<close>

text \<open>Refusing the confirmation that turns review off leaves the panel's switch unchecked
  while review is still on: nothing repaints it.\<close>

theorem refused_toggle_leaves_switch_off:
  assumes "i < length (rwins ui)" and "rw_parentSid (rwins ui ! i) \<noteq> []"
    and "rw_approvalMode (rwins ui ! i)" and "switch_checked (rwins ui ! i)"
  shows "rw_approvalMode (rwins (applyReviewToggle t False sent i ui) ! i) \<and>
    \<not> switch_checked (rwins (applyReviewToggle t False sent i ui) ! i)"
  using assms by (simp add: applyReviewToggle_def upd_win_def Let_def)

theorem refused_toggle_leaves_switch_off_witness:
  "\<not> switch_checked (rwins (applyReviewToggle (\<lambda>k p. k) False True 0 (applyApprovalMode (\<lambda>k p. k) None 0 True sample_ui)) ! 0)"
proof -
  let ?ui = "applyApprovalMode (\<lambda>k p. k) None 0 True sample_ui"
  have "0 < length (rwins ?ui)" "rw_parentSid (rwins ?ui ! 0) \<noteq> []" "rw_approvalMode (rwins ?ui ! 0)" "switch_checked (rwins ?ui ! 0)"
    by code_simp+
  then show ?thesis using refused_toggle_leaves_switch_off by blast
qed

text \<open>A keystroke request that only sends Enter is drawn exactly like one that sends nothing.\<close>

lemma enter_only_row_is_blank:
  "renderApprovalItem t (Some (req\<lparr>rq_text := [], rq_keys := [''enter'']\<rparr>)) =
   renderApprovalItem t (Some (req\<lparr>rq_text := [], rq_keys := []\<rparr>))"
  by (simp add: renderApprovalItem_def item_frags_def main_frags_def body_frags_def actions_frags_def approvalChipsHtml_def
      chips_frags_def request_kindLabel_def)

end
