(* ===== verification/Channels.thy ===== *)
theory Channels
  imports Text_Helpers
begin

text \<open>
  The shell channels of one window (\<open>terminal-view.js\<close>, \<open>sessions.js\<close>) and the messages
  they send over the page's WebSocket (\<open>ui-socket.js\<close>). A channel's xterm is the list of
  what was written to it. Requests and their answers are separate events; an HTTP request
  that is only fired and forgotten is recorded in the log of requests.
\<close>

section \<open>The wire\<close>

datatype ui_msg = WatchAdd string | WatchRemove string | InputMsg string string | ResizeMsg string nat nat

text \<open>
  \<open>sent\<close> is what went over the present connection, oldest first; \<open>deletes\<close> the shells whose
  deletion was requested. \<open>pendingWatch\<close> is the object \<open>_pendingTerminalWatch\<close>.
\<close>

record net =
  ws_open :: bool
  sent :: "ui_msg list"
  pendingWatch :: "bool obj"
  deletes :: "string list"

definition wsUiSend :: "ui_msg \<Rightarrow> net \<Rightarrow> net" where
  "wsUiSend m n = (if ws_open n then n\<lparr>sent := sent n @ [m]\<rparr> else n)"

definition sendTerminalWatch :: "string \<Rightarrow> bool \<Rightarrow> net \<Rightarrow> net" where
  "sendTerminalWatch sid add n = (if sid = [] then n else wsUiSend (if add then WatchAdd sid else WatchRemove sid) n)"

definition queueTerminalWatch :: "string \<Rightarrow> net \<Rightarrow> net" where
  "queueTerminalWatch sid n =
     (if sid = [] then n
      else if ws_open n then sendTerminalWatch sid True n
      else n\<lparr>pendingWatch := obj_set (pendingWatch n) sid True\<rparr>)"

definition flushPendingTerminalWatches :: "net \<Rightarrow> net" where
  "flushPendingTerminalWatches n =
     (foldl (\<lambda>m sid. sendTerminalWatch sid True m) n (obj_keys (pendingWatch n)))\<lparr>pendingWatch := []\<rparr>"

text \<open>What the server watches for this connection.\<close>

definition watch_step :: "string set \<Rightarrow> ui_msg \<Rightarrow> string set" where
  "watch_step W m = (case m of WatchAdd s \<Rightarrow> insert s W | WatchRemove s \<Rightarrow> W - {s} | _ \<Rightarrow> W)"

definition watched :: "ui_msg list \<Rightarrow> string set" where
  "watched ms = foldl watch_step {} ms"

section \<open>Channels and windows\<close>

datatype out = Live string | EndedMark

record channel =
  readOnlyHistory :: bool
  streamDone :: bool
  endedMarkPrinted :: bool
  historyLoaded :: bool
  ended_badge :: bool
  term_readOnly :: bool
  urlIndex :: nat
  tab_label :: string
  screen :: "out list"

text \<open>
  The fields of a window its channels use. \<open>dom_tabs\<close> are the nodes of the tab bar in order
  with their \<open>active\<close> class; the instances in the body are added, removed and toggled in
  the same places and are the same list. The object \<open>_channels\<close> is created with the first
  channel (\<open>c_hasChannels\<close>).
\<close>

record cwin =
  c_sid :: string
  c_parentSid :: string
  c_primaryShellId :: string
  c_readOnly :: bool
  c_lockedReadonly :: bool
  c_inputClosed :: bool
  c_userReady :: bool
  c_deadBadge :: bool
  c_streamDone :: bool
  c_hasChannels :: bool
  channels :: "channel obj"
  channelCount :: nat
  channelSeq :: nat
  activeChannel :: "string option"
  dom_tabs :: "(string \<times> bool) list"
  empty_shown :: bool

definition get_ch :: "cwin \<Rightarrow> string \<Rightarrow> channel option" where
  "get_ch w sid = obj_get (channels w) sid"

definition upd_ch :: "string \<Rightarrow> (channel \<Rightarrow> channel) \<Rightarrow> cwin \<Rightarrow> cwin" where
  "upd_ch sid f w = (case get_ch w sid of None \<Rightarrow> w | Some ch \<Rightarrow> w\<lparr>channels := obj_set (channels w) sid (f ch)\<rparr>)"

definition switchChannelTab :: "string \<Rightarrow> cwin \<Rightarrow> cwin" where
  "switchChannelTab sid w =
     (if get_ch w sid = None \<or> activeChannel w = Some sid then w
      else w\<lparr>activeChannel := Some sid, c_userReady := True, dom_tabs := map (\<lambda>(s, a). (s, s = sid)) (dom_tabs w)\<rparr>)"

definition new_channel :: "string \<Rightarrow> bool \<Rightarrow> nat \<Rightarrow> channel" where
  "new_channel label roh idx =
     \<lparr>readOnlyHistory = roh, streamDone = roh, endedMarkPrinted = False, historyLoaded = False, ended_badge = False,
      term_readOnly = False, urlIndex = idx, tab_label = label, screen = []\<rparr>"

definition createChannelTab :: "string \<Rightarrow> string \<Rightarrow> bool \<Rightarrow> cwin \<Rightarrow> cwin" where
  "createChannelTab sid optLabel roh w =
     (if get_ch w sid \<noteq> None then switchChannelTab sid w
      else
        (let idx = channelSeq w + 1; label = or_str optLabel (''shell-'' @ show_nat idx)
         in w\<lparr>c_hasChannels := True, empty_shown := False,
              dom_tabs := map (\<lambda>(s, a). (s, False)) (dom_tabs w) @ [(sid, True)],
              channels := obj_set (channels w) sid (new_channel label roh idx),
              activeChannel := Some sid, channelCount := channelCount w + 1, channelSeq := channelSeq w + 1\<rparr>))"

text \<open>\<open>_channelNeighbor\<close>: the loop with its two local variables.\<close>

fun neighbor_loop :: "string \<Rightarrow> string list \<Rightarrow> bool \<Rightarrow> string option \<Rightarrow> string option" where
  "neighbor_loop sid [] found prev = prev"
| "neighbor_loop sid (k # ks) found prev =
     (if k = sid then neighbor_loop sid ks True prev
      else if found then Some k
      else neighbor_loop sid ks found (Some k))"

definition channelNeighbor :: "string \<Rightarrow> cwin \<Rightarrow> string option" where
  "channelNeighbor sid w = neighbor_loop sid (map fst (dom_tabs w)) False None"

definition showChannelEmpty :: "bool \<Rightarrow> cwin \<Rightarrow> cwin" where
  "showChannelEmpty sh w = w\<lparr>empty_shown := sh\<rparr>"

definition remove_channel :: "string \<Rightarrow> cwin \<Rightarrow> cwin" where
  "remove_channel sid w =
     (let c = channelCount w - 1
      in w\<lparr>dom_tabs := filter (\<lambda>(s, a). s \<noteq> sid) (dom_tabs w), channels := obj_del (channels w) sid,
           channelCount := c, channelSeq := (if c = 0 then 0 else channelSeq w)\<rparr>)"

definition closeChannelTab :: "string \<Rightarrow> cwin \<Rightarrow> net \<Rightarrow> cwin \<times> net" where
  "closeChannelTab sid w n =
     (if get_ch w sid = None then (w, n)
      else
        (let n1 = sendTerminalWatch sid False n;
             n2 = (if c_readOnly w then n1 else n1\<lparr>deletes := deletes n1 @ [sid]\<rparr>);
             w1 = remove_channel sid w
         in (if activeChannel w1 \<noteq> Some sid then w1
             else (case channelNeighbor sid w1 of
                     Some k \<Rightarrow> if get_ch w1 k \<noteq> None then switchChannelTab k w1
                               else if channelCount w1 = 0 then showChannelEmpty True (w1\<lparr>activeChannel := None\<rparr>) else w1
                   | None \<Rightarrow> if channelCount w1 = 0 then showChannelEmpty True (w1\<lparr>activeChannel := None\<rparr>) else w1),
             n2)))"

section \<open>Input, output and the end of a stream\<close>

definition is_enter :: "string \<Rightarrow> bool" where
  "is_enter d \<longleftrightarrow> d = [CR] \<or> d = [NL] \<or> d = [CR, NL]"

text \<open>The \<open>onData\<close> callback of a channel's terminal.\<close>

definition onData :: "string \<Rightarrow> string \<Rightarrow> cwin \<Rightarrow> net \<Rightarrow> cwin \<times> net" where
  "onData sid d w n =
     (if c_inputClosed w then (w, n)
      else (case get_ch w sid of
              None \<Rightarrow> (w, n)
            | Some ch \<Rightarrow>
                if streamDone ch then (if is_enter d then closeChannelTab sid w n else (w, n))
                else if \<not> c_userReady w then (w, n)
                else if \<not> ws_open n then (w, n)
                else (w, wsUiSend (InputMsg sid d) n)))"

text \<open>The one-time unlock of the input gate by a mouse, key, paste or composition event.\<close>

definition unlockInput :: "cwin \<Rightarrow> cwin" where
  "unlockInput w = w\<lparr>c_userReady := True\<rparr>"

definition showTerminalEndedMarker :: "channel \<Rightarrow> channel" where
  "showTerminalEndedMarker ch =
     (if endedMarkPrinted ch then ch
      else ch\<lparr>endedMarkPrinted := True, ended_badge := True, screen := screen ch @ [EndedMark]\<rparr>)"

text \<open>The end of \<open>bootstrapShellFullHistory\<close> for a channel: the \<open>finally\<close> block.\<close>

definition historyDone :: "string \<Rightarrow> cwin \<Rightarrow> net \<Rightarrow> cwin \<times> net" where
  "historyDone sid w n =
     (let w1 = upd_ch sid (\<lambda>ch. ch\<lparr>historyLoaded := True\<rparr>) w;
          roh = (case get_ch w1 sid of None \<Rightarrow> False | Some ch \<Rightarrow> readOnlyHistory ch)
      in if c_readOnly w1 \<or> roh then (upd_ch sid showTerminalEndedMarker w1, n)
         else (w1, queueTerminalWatch sid n))"

text \<open>The frames \<open>terminal\<close> and \<open>terminal_done\<close> for a channel of this window.\<close>

definition terminalFrame :: "string \<Rightarrow> string \<Rightarrow> cwin \<Rightarrow> cwin" where
  "terminalFrame sid d w = upd_ch sid (\<lambda>ch. if streamDone ch then ch else ch\<lparr>screen := screen ch @ [Live d]\<rparr>) w"

definition terminalDone :: "string \<Rightarrow> cwin \<Rightarrow> cwin" where
  "terminalDone sid w =
     (if get_ch w sid \<noteq> None then upd_ch sid (\<lambda>ch. showTerminalEndedMarker (ch\<lparr>streamDone := True\<rparr>)) w
      else w\<lparr>c_streamDone := True\<rparr>)"

definition setWindowDeadBadge :: "cwin \<Rightarrow> cwin" where
  "setWindowDeadBadge w = w\<lparr>c_deadBadge := True\<rparr>"

definition lock_channel :: "channel \<Rightarrow> channel" where
  "lock_channel ch =
     (let ch1 = ch\<lparr>streamDone := True, term_readOnly := True\<rparr>
      in if historyLoaded ch1 then showTerminalEndedMarker ch1 else ch1)"

definition unwatch_all :: "string list \<Rightarrow> net \<Rightarrow> net" where
  "unwatch_all sids n = foldl (\<lambda>m sid. sendTerminalWatch sid False m) n sids"

definition lockWindowReadonly :: "cwin \<Rightarrow> net \<Rightarrow> cwin \<times> net" where
  "lockWindowReadonly w n =
     (setWindowDeadBadge
        (w\<lparr>c_lockedReadonly := True, c_readOnly := True, c_inputClosed := True,
           channels := map (\<lambda>(k, ch). (k, lock_channel ch)) (channels w)\<rparr>),
      unwatch_all (obj_keys (channels w)) n)"

section \<open>Following the server's list of shells\<close>

text \<open>A listed shell: its identifier and whether it runs.\<close>

type_synonym shells = "(string \<times> bool) list"

definition add_missing :: "bool \<Rightarrow> string list \<Rightarrow> cwin \<Rightarrow> cwin" where
  "add_missing roh sids w =
     foldl (\<lambda>v sid. if get_ch v sid = None then createChannelTab sid [] roh v else v) w sids"

definition prune_tabs :: "string list \<Rightarrow> string list \<Rightarrow> cwin \<Rightarrow> net \<Rightarrow> cwin \<times> net" where
  "prune_tabs listed keys w n =
     foldl (\<lambda>(v, m) sid. if sid = c_primaryShellId v \<or> sid \<in> set listed \<or> get_ch v sid = None then (v, m)
                          else closeChannelTab sid v m) (w, n) keys"

definition syncWindowTabs :: "shells \<Rightarrow> cwin \<Rightarrow> net \<Rightarrow> cwin \<times> net" where
  "syncWindowTabs shells w n =
     (if c_readOnly w then (add_missing False (map fst shells) w, n)
      else
        (let exited = map fst (filter (\<lambda>s. \<not> snd s) shells);
             running = filter (\<lambda>sid. sid \<noteq> c_primaryShellId w) (map fst (filter snd shells));
             w1 = add_missing True exited w;
             w2 = add_missing False running w1
         in prune_tabs (map fst shells) (obj_keys (channels w2)) w2 n))"

text \<open>The tabs a window opens with, from the first answer of the shell list.\<close>

definition openTabs :: "bool \<Rightarrow> string option \<Rightarrow> shells \<Rightarrow> cwin \<Rightarrow> net \<Rightarrow> cwin \<times> net" where
  "openTabs readOnly lastActive shells w n =
     (let running = filter snd shells; exited = filter (\<lambda>s. \<not> snd s) shells
      in if running = [] \<and> exited \<noteq> [] \<and> \<not> readOnly
         then (foldl (\<lambda>v s. createChannelTab (fst s) [] True v) w exited, n)
         else
           (let tabs = filter (\<lambda>s. readOnly \<or> snd s) shells
            in if tabs \<noteq> []
               then
                 (let w1 = (if c_primaryShellId w = [] then w\<lparr>c_primaryShellId := fst (hd tabs)\<rparr> else w);
                      w2 = foldl (\<lambda>v s. createChannelTab (fst s) [] False v) w1 tabs;
                      w3 = (case lastActive of
                              Some a \<Rightarrow> if a \<noteq> [] \<and> get_ch w2 a \<noteq> None then switchChannelTab a w2 else w2
                            | None \<Rightarrow> w2)
                  in if readOnly then lockWindowReadonly w3 n else (w3, n))
               else
                 (let w1 = showChannelEmpty True w in if readOnly then lockWindowReadonly w1 n else (w1, n))))"

text \<open>
  \<open>closeShellWindow\<close> on the channels: every channel is unwatched, the session's own identifier
  as well when no channel carries it, and its queued watch is dropped.
\<close>

definition closeShellWindow :: "cwin \<Rightarrow> net \<Rightarrow> cwin \<times> net" where
  "closeShellWindow w n =
     (let n1 = unwatch_all (obj_keys (channels w)) n;
          n2 = (if c_sid w \<noteq> [] \<and> c_sid w \<notin> set (obj_keys (channels w)) then sendTerminalWatch (c_sid w) False n1 else n1);
          n3 = (if c_sid w \<noteq> [] then n2\<lparr>pendingWatch := obj_del (pendingWatch n2) (c_sid w)\<rparr> else n2)
      in (w\<lparr>c_inputClosed := True, channels := []\<rparr>, n3))"

text \<open>The watches a window renews on a new connection.\<close>

definition resubscribe_win :: "cwin \<Rightarrow> net \<Rightarrow> net" where
  "resubscribe_win w n =
     (if c_hasChannels w
      then foldl (\<lambda>m sid. sendTerminalWatch sid True m) n (map fst (filter (\<lambda>(k, ch). \<not> streamDone ch) (channels w)))
      else if c_sid w \<noteq> [] \<and> \<not> c_streamDone w then sendTerminalWatch (c_sid w) True n
      else n)"

section \<open>The window's channels as a machine\<close>

datatype ch_event =
    ChCreate string string bool | ChSwitch string | ChClose string | ChHistory string | ChData string string | ChUnlock
  | ChFrame string string | ChDone string | ChLock | ChSync shells | ChOpenTabs bool "string option" shells | ChDown | ChUp

fun ch_step :: "cwin \<times> net \<Rightarrow> ch_event \<Rightarrow> cwin \<times> net" where
  "ch_step (w, n) (ChCreate sid label roh) = (createChannelTab sid label roh w, n)"
| "ch_step (w, n) (ChSwitch sid) = (switchChannelTab sid w, n)"
| "ch_step (w, n) (ChClose sid) = closeChannelTab sid w n"
| "ch_step (w, n) (ChHistory sid) = historyDone sid w n"
| "ch_step (w, n) (ChData sid d) = onData sid d w n"
| "ch_step (w, n) ChUnlock = (unlockInput w, n)"
| "ch_step (w, n) (ChFrame sid d) = (terminalFrame sid d w, n)"
| "ch_step (w, n) (ChDone sid) = (terminalDone sid w, n)"
| "ch_step (w, n) ChLock = lockWindowReadonly w n"
| "ch_step (w, n) (ChSync shells) = syncWindowTabs shells w n"
| "ch_step (w, n) (ChOpenTabs ro lastActive shells) = openTabs ro lastActive shells w n"
| "ch_step (w, n) ChDown = (w, n\<lparr>ws_open := False\<rparr>)"
| "ch_step (w, n) ChUp = (w, resubscribe_win w (flushPendingTerminalWatches (n\<lparr>ws_open := True, sent := []\<rparr>)))"

text \<open>Shell identifiers are never empty; a window's opening list is answered before it has tabs.\<close>

fun ch_enabled :: "cwin \<times> net \<Rightarrow> ch_event \<Rightarrow> bool" where
  "ch_enabled s (ChCreate sid label roh) = (sid \<noteq> [])"
| "ch_enabled s (ChSync shells) = ([] \<notin> fst ` set shells)"
| "ch_enabled s (ChOpenTabs ro lastActive shells) = ([] \<notin> fst ` set shells \<and> channels (fst s) = [])"
| "ch_enabled s e = True"

definition marks :: "out list \<Rightarrow> nat" where
  "marks os = length (filter (\<lambda>x. x = EndedMark) os)"

definition ch_ok :: "bool \<Rightarrow> channel \<Rightarrow> bool" where
  "ch_ok ro ch \<longleftrightarrow>
     marks (screen ch) = (if endedMarkPrinted ch then 1 else 0) \<and> ended_badge ch = endedMarkPrinted ch \<and>
     (readOnlyHistory ch \<longrightarrow> streamDone ch) \<and>
     (historyLoaded ch \<and> (ro \<or> readOnlyHistory ch) \<longrightarrow> endedMarkPrinted ch)"

definition win_inv :: "cwin \<Rightarrow> bool" where
  "win_inv w \<longleftrightarrow>
     obj_ok (channels w) \<and> [] \<notin> set (obj_keys (channels w)) \<and>
     dom_tabs w = map (\<lambda>k. (k, activeChannel w = Some k)) (obj_keys (channels w)) \<and>
     channelCount w = length (channels w) \<and>
     (channels w = [] \<longrightarrow> activeChannel w = None) \<and>
     (channels w \<noteq> [] \<longrightarrow> activeChannel w \<noteq> None \<and> the (activeChannel w) \<in> set (obj_keys (channels w))) \<and>
     distinct (map (\<lambda>(k, ch). urlIndex ch) (channels w)) \<and> (\<forall>(k, ch) \<in> set (channels w). urlIndex ch \<le> channelSeq w) \<and>
     (\<forall>(k, ch) \<in> set (channels w). ch_ok (c_readOnly w) ch) \<and>
     (c_readOnly w \<longrightarrow> c_inputClosed w) \<and> (empty_shown w \<longrightarrow> channels w = []) \<and> (channels w \<noteq> [] \<longrightarrow> c_hasChannels w)"

lemma get_ch_None: "get_ch w sid = None \<longleftrightarrow> sid \<notin> set (obj_keys (channels w))"
  by (simp add: get_ch_def obj_keys_iff)

lemma get_ch_in: "get_ch w sid = Some ch \<Longrightarrow> (sid, ch) \<in> set (channels w)"
  by (simp add: get_ch_def obj_get_def map_of_SomeD)

lemma obj_keys_set: "obj_keys (obj_set ob k v) = (if k \<in> set (obj_keys ob) then obj_keys ob else obj_keys ob @ [k])"
  by (induction ob k v rule: obj_set.induct) (auto simp: obj_keys_def)

lemma obj_keys_del: "obj_keys (obj_del ob k) = filter (\<lambda>j. j \<noteq> k) (obj_keys ob)"
  by (induction ob) (auto simp: obj_keys_def obj_del_def)

lemma obj_set_twice: "obj_set (obj_set ob k v) k u = obj_set ob k u"
  by (induction ob k v rule: obj_set.induct) auto

lemma obj_set_map:
  "obj_ok ob \<Longrightarrow> obj_get ob k = Some v \<Longrightarrow> obj_set ob k (f v) = map (\<lambda>(j, u). (j, if j = k then f u else u)) ob"
proof (induction ob)
  case (Cons p ob)
  obtain j u where p: "p = (j, u)" by (cases p)
  show ?case
  proof (cases "j = k")
    case True
    then have "k \<notin> fst ` set ob" using Cons.prems p by (auto simp: obj_ok_def)
    then have "map (\<lambda>(j, u). (j, if j = k then f u else u)) ob = ob" by (intro map_idI) force
    then show ?thesis using Cons.prems True p by (simp add: obj_get_def)
  next
    case False
    then show ?thesis using Cons p by (simp add: obj_ok_def obj_get_def)
  qed
qed (simp add: obj_get_def)

text \<open>Updating every channel by a function that respects the invariant.\<close>

lemma map_channels_inv:
  assumes "win_inv w" and "\<And>k ch. (k, ch) \<in> set (channels w) \<Longrightarrow> ch_ok ro (f k ch) \<and> urlIndex (f k ch) = urlIndex ch"
    and "ro \<longrightarrow> ic"
  shows "win_inv (w\<lparr>channels := map (\<lambda>(k, ch). (k, f k ch)) (channels w), c_readOnly := ro, c_inputClosed := ic\<rparr>)"
proof -
  define cs where "cs = map (\<lambda>(k, ch). (k, f k ch)) (channels w)"
  have k: "obj_keys cs = obj_keys (channels w)" "obj_ok cs = obj_ok (channels w)" "length cs = length (channels w)" "cs = [] \<longleftrightarrow> channels w = []"
    by (auto simp: cs_def obj_keys_def obj_ok_def comp_def case_prod_beta)
  have u: "map (\<lambda>(k, ch). urlIndex ch) cs = map (\<lambda>(k, ch). urlIndex ch) (channels w)"
    using assms(2) by (auto simp: cs_def)
  have ok: "\<forall>(k, ch) \<in> set cs. ch_ok ro ch" and le: "\<forall>(k, ch) \<in> set cs. urlIndex ch \<le> channelSeq w"
    using assms(1,2) by (fastforce simp: win_inv_def cs_def)+
  show ?thesis unfolding cs_def [symmetric] using assms(1,3) ok le k unfolding win_inv_def by (simp add: u)
qed

lemma upd_ch_inv:
  assumes "win_inv w" and "\<And>ch. ch_ok (c_readOnly w) ch \<Longrightarrow> ch_ok (c_readOnly w) (f ch) \<and> urlIndex (f ch) = urlIndex ch"
  shows "win_inv (upd_ch sid f w)"
proof (cases "get_ch w sid")
  case (Some ch)
  have ok: "obj_ok (channels w)" using assms(1) by (simp add: win_inv_def)
  have m: "obj_set (channels w) sid (f ch) = map (\<lambda>(j, u). (j, if j = sid then f u else u)) (channels w)"
    using Some by (intro obj_set_map [OF ok]) (simp add: get_ch_def)
  have "win_inv (w\<lparr>channels := map (\<lambda>(j, u). (j, if j = sid then f u else u)) (channels w), c_readOnly := c_readOnly w, c_inputClosed := c_inputClosed w\<rparr>)"
    using assms by (intro map_channels_inv) (auto simp: win_inv_def)
  then show ?thesis using Some m by (simp add: upd_ch_def)
qed (simp add: upd_ch_def assms)

lemma switch_inv: "win_inv w \<Longrightarrow> win_inv (switchChannelTab sid w)"
proof (cases "get_ch w sid = None \<or> activeChannel w = Some sid")
  case False
  assume w: "win_inv w"
  have "sid \<in> set (obj_keys (channels w))" using False by (simp add: get_ch_None)
  moreover have "map (\<lambda>(s, a). (s, s = sid)) (dom_tabs w) = map (\<lambda>k. (k, sid = k)) (obj_keys (channels w))"
    using w by (auto simp: win_inv_def)
  ultimately show ?thesis using w False by (auto simp: switchChannelTab_def win_inv_def obj_keys_def)
qed (auto simp: switchChannelTab_def)

lemma create_inv:
  assumes w: "win_inv w" and sid: "sid \<noteq> []"
  shows "win_inv (createChannelTab sid label roh w)"
proof (cases "get_ch w sid = None")
  case True
  then have new: "sid \<notin> set (obj_keys (channels w))" by (simp add: get_ch_None)
  then have cs: "obj_set (channels w) sid ch = channels w @ [(sid, ch)]" for ch by (rule obj_set_fresh)
  have d: "map (\<lambda>(s, a). (s, False)) (dom_tabs w) @ [(sid, True)] = map (\<lambda>k. (k, sid = k)) (obj_keys (channels w) @ [sid])"
    using w new by (auto simp: win_inv_def)
  have u: "\<forall>(k, ch) \<in> set (channels w). urlIndex ch \<noteq> channelSeq w + 1"
    using w by (fastforce simp: win_inv_def)
  show ?thesis
    unfolding createChannelTab_def Let_def using True w new u sid
    by (auto simp: win_inv_def cs d new_channel_def ch_ok_def marks_def obj_ok_def obj_keys_def)
qed (simp add: createChannelTab_def switch_inv w)

lemma neighbor_absent: "sid \<notin> set ks \<Longrightarrow> neighbor_loop sid ks False prev = (if ks = [] then prev else Some (last ks))"
  by (induction ks arbitrary: prev) auto

lemma remove_keys: "obj_keys (channels (remove_channel sid w)) = filter (\<lambda>j. j \<noteq> sid) (obj_keys (channels w))"
  by (simp add: remove_channel_def Let_def obj_keys_del)

lemma filter_neq_length: "distinct xs \<Longrightarrow> x \<in> set xs \<Longrightarrow> length (filter (\<lambda>j. j \<noteq> x) xs) = length xs - 1"
proof -
  assume d: "distinct xs" and x: "x \<in> set xs"
  have "filter (\<lambda>j. j \<noteq> x) xs = removeAll x xs" unfolding removeAll_filter_not_eq by (rule filter_cong) auto
  also have "\<dots> = remove1 x xs" using d by (rule distinct_remove1_removeAll [symmetric])
  finally show ?thesis using x by (simp add: length_remove1)
qed

lemma remove_parts:
  assumes "win_inv w" and "sid \<in> set (obj_keys (channels w))"
  shows "dom_tabs (remove_channel sid w) = map (\<lambda>k. (k, activeChannel w = Some k)) (obj_keys (channels (remove_channel sid w)))"
    and "channelCount (remove_channel sid w) = length (channels (remove_channel sid w))"
    and "activeChannel (remove_channel sid w) = activeChannel w"
proof -
  show "dom_tabs (remove_channel sid w) = map (\<lambda>k. (k, activeChannel w = Some k)) (obj_keys (channels (remove_channel sid w)))"
    using assms(1) by (simp add: obj_keys_del remove_channel_def Let_def win_inv_def filter_map comp_def)
  have "distinct (obj_keys (channels w))" using assms(1) by (simp add: win_inv_def obj_ok_def obj_keys_def)
  then have "length (filter (\<lambda>j. j \<noteq> sid) (obj_keys (channels w))) = length (obj_keys (channels w)) - 1"
    using assms(2) by (simp add: filter_neq_length)
  then have "length (obj_keys (channels (remove_channel sid w))) = length (obj_keys (channels w)) - 1"
    by (simp add: remove_keys)
  then show "channelCount (remove_channel sid w) = length (channels (remove_channel sid w))"
    using assms(1) by (simp add: remove_channel_def Let_def win_inv_def obj_keys_def)
  show "activeChannel (remove_channel sid w) = activeChannel w" by (simp add: remove_channel_def Let_def)
qed

lemma remove_empty: "channels (remove_channel sid w) = [] \<longleftrightarrow> obj_keys (channels (remove_channel sid w)) = []"
  by (simp add: obj_keys_def)

text \<open>Removing a channel keeps everything but the choice of the active tab.\<close>

lemma remove_inv:
  assumes "win_inv w" and "sid \<in> set (obj_keys (channels w))" and "a \<in> set (obj_keys (channels (remove_channel sid w)))"
    and "dt = map (\<lambda>k. (k, Some a = Some k)) (obj_keys (channels (remove_channel sid w)))"
  shows "win_inv ((remove_channel sid w)\<lparr>activeChannel := Some a, c_userReady := r, dom_tabs := dt\<rparr>)"
proof -
  let ?w = "remove_channel sid w"
  have sub: "set (channels ?w) \<subseteq> set (channels w)" by (auto simp: remove_channel_def Let_def obj_del_def)
  have ne: "channels ?w \<noteq> []" "channelSeq ?w = channelSeq w"
    using assms(3) remove_parts(2) [OF assms(1,2)] by (auto simp: remove_channel_def Let_def)
  have "distinct (map (\<lambda>(k, ch). urlIndex ch) (channels ?w))" "obj_ok (channels ?w)"
    using assms(1) by (auto simp: remove_channel_def Let_def obj_del_def win_inv_def obj_ok_def distinct_map_filter)
  moreover have "c_readOnly ?w = c_readOnly w" "c_inputClosed ?w = c_inputClosed w" "empty_shown ?w = empty_shown w" "c_hasChannels ?w = c_hasChannels w"
    by (simp_all add: remove_channel_def Let_def)
  moreover have "\<not> empty_shown w" "c_hasChannels w" using assms(1,2) by (auto simp: win_inv_def)
  ultimately show ?thesis
    using assms sub ne remove_parts(2) [OF assms(1,2)] by (auto simp: win_inv_def remove_keys)
qed

lemma close_inv: "win_inv w \<Longrightarrow> win_inv (fst (closeChannelTab sid w n))"
proof (cases "get_ch w sid = None")
  case False
  assume w: "win_inv w"
  let ?w = "remove_channel sid w" and ?ks = "obj_keys (channels (remove_channel sid w))"
  have sid: "sid \<in> set (obj_keys (channels w))" using False by (simp add: get_ch_None)
  note parts = remove_parts [OF w sid]
  have fsts: "map fst (dom_tabs ?w) = ?ks" by (simp add: parts(1) comp_def)
  have notin: "sid \<notin> set ?ks" by (simp add: remove_keys)
  show ?thesis
  proof (cases "activeChannel w = Some sid")
    case True
    have nb: "channelNeighbor sid ?w = (if ?ks = [] then None else Some (last ?ks))"
      unfolding channelNeighbor_def fsts using neighbor_absent [OF notin] by simp
    show ?thesis
    proof (cases "?ks = []")
      case True
      then have none: "channels ?w = []" by (simp add: obj_keys_def)
      have "c_readOnly ?w = c_readOnly w" "c_inputClosed ?w = c_inputClosed w" by (simp_all add: remove_channel_def Let_def)
      then have "win_inv (showChannelEmpty True (?w\<lparr>activeChannel := None\<rparr>))"
        using w none parts by (simp add: win_inv_def showChannelEmpty_def)
      moreover have "channelCount ?w = 0" using none parts(2) by simp
      ultimately show ?thesis
        using False nb True \<open>activeChannel w = Some sid\<close> parts(3) by (auto simp: closeChannelTab_def Let_def)
    next
      case ne: False
      define a where "a = last ?ks"
      have a: "a \<in> set ?ks" using ne by (simp add: a_def)
      have as: "a \<noteq> sid" using a notin by blast
      have g: "get_ch ?w a \<noteq> None" using a by (simp only: get_ch_None not_not)
      have act: "activeChannel ?w = Some sid" using True parts(3) by simp
      have "map (\<lambda>(s, b). (s, s = a)) (dom_tabs ?w) = map (\<lambda>k. (k, Some a = Some k)) ?ks"
        unfolding parts(1) by (simp add: comp_def eq_commute)
      then have "switchChannelTab a ?w = ?w\<lparr>activeChannel := Some a, c_userReady := True, dom_tabs := map (\<lambda>k. (k, Some a = Some k)) ?ks\<rparr>"
        using g act as by (simp only: switchChannelTab_def if_False option.inject simp_thms not_sym [OF as])
      then have "win_inv (switchChannelTab a ?w)" using remove_inv [OF w sid a refl, of True] by simp
      then show ?thesis
        using False act nb ne g by (simp add: closeChannelTab_def Let_def a_def [symmetric] del: not_None_eq)
    qed
  next
    case act: False
    obtain a where a: "activeChannel w = Some a" "a \<in> set (obj_keys (channels w))" using w sid by (auto simp: win_inv_def)
    then have "a \<in> set ?ks" using act by (simp add: remove_keys)
    then have "win_inv (?w\<lparr>activeChannel := Some a, c_userReady := c_userReady ?w, dom_tabs := dom_tabs ?w\<rparr>)"
      using parts(1) a(1) by (intro remove_inv [OF w sid]) auto
    moreover have "?w\<lparr>activeChannel := Some a, c_userReady := c_userReady ?w, dom_tabs := dom_tabs ?w\<rparr> = ?w" using a(1) parts(3) by simp
    ultimately show ?thesis using False act parts(3) by (simp add: closeChannelTab_def Let_def del: not_None_eq)
  qed
qed (simp add: closeChannelTab_def)

lemma mark_ok: "ch_ok ro ch \<Longrightarrow> ch_ok ro (showTerminalEndedMarker ch) \<and> urlIndex (showTerminalEndedMarker ch) = urlIndex ch"
  by (auto simp: ch_ok_def showTerminalEndedMarker_def marks_def)

lemma mark_done_ok: "ch_ok ro ch \<Longrightarrow> ch_ok ro (showTerminalEndedMarker (ch\<lparr>streamDone := True\<rparr>)) \<and>
    urlIndex (showTerminalEndedMarker (ch\<lparr>streamDone := True\<rparr>)) = urlIndex ch"
  by (auto simp: ch_ok_def showTerminalEndedMarker_def marks_def)

lemma lock_ok: "ch_ok ro ch \<Longrightarrow> ch_ok True (lock_channel ch) \<and> urlIndex (lock_channel ch) = urlIndex ch"
  by (auto simp: ch_ok_def lock_channel_def showTerminalEndedMarker_def marks_def Let_def)

lemma lock_inv: "win_inv w \<Longrightarrow> win_inv (fst (lockWindowReadonly w n))"
proof -
  assume w: "win_inv w"
  have "win_inv (w\<lparr>channels := map (\<lambda>(k, ch). (k, lock_channel ch)) (channels w), c_readOnly := True, c_inputClosed := True\<rparr>)"
    using w lock_ok by (intro map_channels_inv) (auto simp: win_inv_def)
  then show ?thesis by (simp add: lockWindowReadonly_def setWindowDeadBadge_def win_inv_def)
qed

lemma upd_ch_fields [simp]:
  "c_readOnly (upd_ch sid f w) = c_readOnly w" "c_inputClosed (upd_ch sid f w) = c_inputClosed w" "c_primaryShellId (upd_ch sid f w) = c_primaryShellId w"
  by (auto simp: upd_ch_def split: option.split)

lemma get_ch_upd: "get_ch (upd_ch sid f w) k = (if k = sid then map_option f (get_ch w sid) else get_ch w k)"
  by (auto simp: upd_ch_def get_ch_def obj_get_set split: option.split)

lemma history_inv: "win_inv w \<Longrightarrow> win_inv (fst (historyDone sid w n))"
proof -
  assume w: "win_inv w"
  show ?thesis
  proof (cases "get_ch w sid")
    case None
    then have u: "upd_ch sid f w = w" for f by (simp add: upd_ch_def)
    show ?thesis using w None by (auto simp: historyDone_def Let_def u)
  next
    case (Some ch)
    have ok: "ch_ok (c_readOnly w) ch" using w get_ch_in [OF Some] by (auto simp: win_inv_def)
    have two: "upd_ch sid showTerminalEndedMarker (upd_ch sid (\<lambda>ch. ch\<lparr>historyLoaded := True\<rparr>) w) =
        upd_ch sid (\<lambda>ch. showTerminalEndedMarker (ch\<lparr>historyLoaded := True\<rparr>)) w"
      using Some by (simp add: upd_ch_def get_ch_def obj_get_set) (metis obj_set_twice)
    show ?thesis
    proof (cases "c_readOnly w \<or> readOnlyHistory ch")
      case True
      have "win_inv (upd_ch sid (\<lambda>ch. showTerminalEndedMarker (ch\<lparr>historyLoaded := True\<rparr>)) w)"
        using w by (rule upd_ch_inv) (auto simp: ch_ok_def showTerminalEndedMarker_def marks_def)
      then show ?thesis using True Some by (simp add: historyDone_def Let_def get_ch_upd two)
    next
      case False
      then have "win_inv (upd_ch sid (\<lambda>c. if c = ch then c\<lparr>historyLoaded := True\<rparr> else c) w)"
        using w by (intro upd_ch_inv) (auto simp: ch_ok_def)
      moreover have "upd_ch sid (\<lambda>c. if c = ch then c\<lparr>historyLoaded := True\<rparr> else c) w = upd_ch sid (\<lambda>ch. ch\<lparr>historyLoaded := True\<rparr>) w"
        using Some by (simp add: upd_ch_def)
      ultimately show ?thesis using False Some by (simp add: historyDone_def Let_def get_ch_upd)
    qed
  qed
qed

lemma add_missing_inv: "win_inv w \<Longrightarrow> [] \<notin> set sids \<Longrightarrow> win_inv (add_missing roh sids w)"
  unfolding add_missing_def by (induction sids arbitrary: w) (auto simp: create_inv)

lemma prune_inv: "win_inv w \<Longrightarrow> win_inv (fst (prune_tabs listed keys w n))"
proof (induction keys arbitrary: w n)
  case (Cons k keys)
  show ?case
  proof (cases "k = c_primaryShellId w \<or> k \<in> set listed \<or> get_ch w k = None")
    case True
    then have "prune_tabs listed (k # keys) w n = prune_tabs listed keys w n" by (auto simp: prune_tabs_def)
    then show ?thesis using Cons by simp
  next
    case False
    obtain v m where c: "closeChannelTab k w n = (v, m)" by (cases "closeChannelTab k w n")
    then have "prune_tabs listed (k # keys) w n = prune_tabs listed keys v m" using False by (simp add: prune_tabs_def del: not_None_eq)
    then show ?thesis using Cons.IH [of v m] close_inv [OF Cons.prems, of k n] c by simp
  qed
qed (simp add: prune_tabs_def)

lemma sync_inv: "win_inv w \<Longrightarrow> [] \<notin> fst ` set shells \<Longrightarrow> win_inv (fst (syncWindowTabs shells w n))"
proof -
  assume w: "win_inv w" and s: "[] \<notin> fst ` set shells"
  then have "[] \<notin> set (map fst (filter P shells))" for P by auto
  then show ?thesis using w s by (auto simp: syncWindowTabs_def Let_def intro!: add_missing_inv prune_inv)
qed

lemma create_all_inv: "win_inv w \<Longrightarrow> [] \<notin> fst ` set ts \<Longrightarrow> win_inv (foldl (\<lambda>v s. createChannelTab (fst s) [] roh v) w ts)"
  by (induction ts arbitrary: w) (auto simp: create_inv)

lemma empty_inv: "win_inv w \<Longrightarrow> channels w = [] \<Longrightarrow> win_inv (showChannelEmpty b w)"
  by (simp add: win_inv_def showChannelEmpty_def)

lemma openTabs_inv:
  assumes w: "win_inv w" and s: "[] \<notin> fst ` set shells" and e: "channels w = []"
  shows "win_inv (fst (openTabs ro lastActive shells w n))"
proof -
  have ne: "[] \<notin> fst ` set (filter P shells)" for P using s by auto
  have p: "win_inv (w\<lparr>c_primaryShellId := x\<rparr>)" for x using w by (simp add: win_inv_def)
  have c: "win_inv (foldl (\<lambda>v s. createChannelTab (fst s) [] b v) w (filter P shells))"
    "win_inv (foldl (\<lambda>v s. createChannelTab (fst s) [] b v) (w\<lparr>c_primaryShellId := x\<rparr>) (filter P shells))" for b P x
    using create_all_inv [OF w ne] create_all_inv [OF p ne] by auto
  have lk: "win_inv (fst (if ro then lockWindowReadonly v n else (v, n)))" if "win_inv v" for v
    using lock_inv [OF that] that by simp
  have act: "win_inv (case lastActive of Some a \<Rightarrow> if a \<noteq> [] \<and> get_ch v a \<noteq> None then switchChannelTab a v else v | None \<Rightarrow> v)"
    if "win_inv v" for v
    using switch_inv [OF that] that by (cases lastActive) simp_all
  have pr: "win_inv (foldl (\<lambda>v s. createChannelTab (fst s) [] False v)
      (if c_primaryShellId w = [] then w\<lparr>c_primaryShellId := x\<rparr> else w) (filter P shells))" for x P
    using c [of False] by simp
  show ?thesis
    unfolding openTabs_def Let_def
    by (cases "filter snd shells = [] \<and> filter (\<lambda>s. \<not> snd s) shells \<noteq> [] \<and> \<not> ro"; cases "filter (\<lambda>s. ro \<or> snd s) shells = []")
      (simp_all only: if_True if_False fst_conv simp_thms c(1) lk [OF act [OF pr]] lk [OF empty_inv [OF w e]])
qed

lemma ch_step_inv: "win_inv (fst s) \<Longrightarrow> ch_enabled s ev \<Longrightarrow> win_inv (fst (ch_step s ev))"
proof -
  assume a: "win_inv (fst s)" "ch_enabled s ev"
  obtain w n where s: "s = (w, n)" by (cases s)
  have w: "win_inv w" using a s by simp
  show ?thesis
  proof (cases ev)
    case (ChData sid d)
    then show ?thesis using w close_inv by (simp add: s onData_def split: option.split)
  next
    case (ChFrame sid d)
    have "win_inv (terminalFrame sid d w)"
      unfolding terminalFrame_def using w by (rule upd_ch_inv) (auto simp: ch_ok_def marks_def)
    then show ?thesis by (simp add: s ChFrame)
  next
    case (ChDone sid)
    have "win_inv (w\<lparr>c_streamDone := True\<rparr>)" using w by (simp add: win_inv_def)
    moreover have "win_inv (upd_ch sid (\<lambda>ch. showTerminalEndedMarker (ch\<lparr>streamDone := True\<rparr>)) w)"
      using w by (rule upd_ch_inv) (rule mark_done_ok)
    ultimately show ?thesis by (simp add: s ChDone terminalDone_def)
  next
    case ChUnlock
    then show ?thesis using w by (simp add: s unlockInput_def win_inv_def)
  qed (use a s w in \<open>auto simp: create_inv switch_inv close_inv history_inv lock_inv sync_inv openTabs_inv\<close>)
qed

text \<open>A freshly created window of a session, live or read-only, on any network state.\<close>

definition new_cwin :: "string \<Rightarrow> bool \<Rightarrow> cwin" where
  "new_cwin sid ro =
     \<lparr>c_sid = sid, c_parentSid = sid, c_primaryShellId = [], c_readOnly = ro, c_lockedReadonly = False, c_inputClosed = ro,
      c_userReady = False, c_deadBadge = False, c_streamDone = False, c_hasChannels = False, channels = [], channelCount = 0,
      channelSeq = 0, activeChannel = None, dom_tabs = [], empty_shown = False\<rparr>"

interpretation cm: guarded_machine "(new_cwin sid ro, n0)" ch_step "\<lambda>s. win_inv (fst s)" ch_enabled for sid ro n0
  by unfold_locales (simp add: new_cwin_def win_inv_def obj_ok_def, rule ch_step_inv)

section \<open>Tabs\<close>

text \<open>C2: In every reachable state the tab bar is the window's channel list: one tab per channel
  in creation order, exactly one of them active when there is any and that one is the active
  channel, the stored count is right, the empty notice shows only without channels, and no two
  tabs share a resource number.\<close>

theorem channel_tabs_consistent:
  assumes "cm.reach sid ro n0 (w, n)"
  shows "map fst (dom_tabs w) = obj_keys (channels w) \<and> distinct (map fst (dom_tabs w)) \<and>
    map fst (filter snd (dom_tabs w)) = (case activeChannel w of None \<Rightarrow> [] | Some a \<Rightarrow> [a]) \<and>
    (activeChannel w = None \<longleftrightarrow> channels w = []) \<and> channelCount w = length (channels w) \<and>
    (empty_shown w \<longrightarrow> channels w = []) \<and> distinct (map (\<lambda>(k, ch). urlIndex ch) (channels w))"
proof -
  have w: "win_inv w" using cm.reach_inv [OF assms] by simp
  then have d: "distinct (obj_keys (channels w))" by (simp add: win_inv_def obj_ok_def obj_keys_def)
  have one: "filter (\<lambda>k. a = k) ks = [a]" if "distinct ks" "a \<in> set ks" for a and ks :: "string list"
    using that by (induction ks) (auto simp: filter_empty_conv)
  have "map fst (filter snd (dom_tabs w)) = (case activeChannel w of None \<Rightarrow> [] | Some a \<Rightarrow> [a])"
    using w d one by (cases "activeChannel w") (auto simp: win_inv_def filter_map comp_def)
  then show ?thesis using w d by (auto simp: win_inv_def comp_def)
qed

definition two_tabs :: "cwin \<times> net" where
  "two_tabs = foldl ch_step (new_cwin ''s1'' False, \<lparr>ws_open = True, sent = [], pendingWatch = [], deletes = []\<rparr>)
     [ChCreate ''a'' [] False, ChCreate ''b'' [] False, ChHistory ''b'']"

lemma two_tabs_reach:
  "cm.reach ''s1'' False \<lparr>ws_open = True, sent = [], pendingWatch = [], deletes = []\<rparr> (fst two_tabs, snd two_tabs)"
proof -
  have "cm.run_ok (new_cwin ''s1'' False, \<lparr>ws_open = True, sent = [], pendingWatch = [], deletes = []\<rparr>)
     [ChCreate ''a'' [] False, ChCreate ''b'' [] False, ChHistory ''b'']" by simp
  from cm.reach_run [OF cm.reach.init this] show ?thesis by (simp add: two_tabs_def)
qed

lemma two_tabs_facts: "activeChannel (fst two_tabs) = Some ''b''" "obj_keys (channels (fst two_tabs)) = [''a'', ''b'']"
  "c_readOnly (fst two_tabs) = False"
  by code_simp+

theorem channel_tabs_consistent_witness: "map fst (filter snd (dom_tabs (fst two_tabs))) = [''b'']"
  using channel_tabs_consistent [OF two_tabs_reach] two_tabs_facts by simp

text \<open>Closing the active tab always moves to the last remaining tab: the neighbour is looked up
  after the tab's node is gone, so the tab beside the closed one is never found.\<close>

theorem close_selects_last:
  assumes "cm.reach s0 ro n0 (w, n)" and "activeChannel w = Some sid" and "filter (\<lambda>k. k \<noteq> sid) (obj_keys (channels w)) \<noteq> []"
  shows "activeChannel (fst (closeChannelTab sid w m)) = Some (last (filter (\<lambda>k. k \<noteq> sid) (obj_keys (channels w))))"
proof -
  have w: "win_inv w" using cm.reach_inv [OF assms(1)] by simp
  then have sid: "sid \<in> set (obj_keys (channels w))" using assms(2) by (cases "channels w = []") (auto simp: win_inv_def)
  let ?w = "remove_channel sid w"
  have ks: "obj_keys (channels ?w) = filter (\<lambda>k. k \<noteq> sid) (obj_keys (channels w))" by (rule remove_keys)
  note parts = remove_parts [OF w sid]
  have fsts: "map fst (dom_tabs ?w) = obj_keys (channels ?w)" by (simp add: parts(1) comp_def)
  define a where "a = last (obj_keys (channels ?w))"
  have a: "a \<in> set (obj_keys (channels ?w))" "a \<noteq> sid" using assms(3) last_in_set [of "obj_keys (channels ?w)"] by (auto simp: a_def ks)
  have nb: "channelNeighbor sid ?w = Some a"
    unfolding channelNeighbor_def fsts a_def using neighbor_absent [of sid "obj_keys (channels ?w)" None] assms(3) by (simp add: ks)
  have "get_ch ?w a \<noteq> None" using a(1) by (simp only: get_ch_None not_not)
  moreover have "get_ch w sid \<noteq> None" using sid by (simp only: get_ch_None not_not)
  ultimately show ?thesis
    using nb parts(3) assms(2) a(2) unfolding ks [symmetric] a_def [symmetric]
    by (simp add: closeChannelTab_def Let_def switchChannelTab_def del: not_None_eq)
qed

definition three_tabs :: "cwin \<times> net" where
  "three_tabs = foldl ch_step (new_cwin ''s1'' False, \<lparr>ws_open = True, sent = [], pendingWatch = [], deletes = []\<rparr>)
     [ChCreate ''a'' [] False, ChCreate ''b'' [] False, ChCreate ''c'' [] False, ChSwitch ''a'']"

lemma three_tabs_reach:
  "cm.reach ''s1'' False \<lparr>ws_open = True, sent = [], pendingWatch = [], deletes = []\<rparr> (fst three_tabs, snd three_tabs)"
proof -
  have "cm.run_ok (new_cwin ''s1'' False, \<lparr>ws_open = True, sent = [], pendingWatch = [], deletes = []\<rparr>)
     [ChCreate ''a'' [] False, ChCreate ''b'' [] False, ChCreate ''c'' [] False, ChSwitch ''a'']" by simp
  from cm.reach_run [OF cm.reach.init this] show ?thesis by (simp add: three_tabs_def)
qed

theorem close_selects_last_witness:
  "activeChannel (fst (closeChannelTab ''a'' (fst three_tabs) (snd three_tabs))) = Some ''c''"
proof -
  have "activeChannel (fst three_tabs) = Some ''a''" "obj_keys (channels (fst three_tabs)) = [''a'', ''b'', ''c'']"
    by code_simp+
  then show ?thesis using close_selects_last [OF three_tabs_reach, of "''a''" "snd three_tabs"] by simp
qed

section \<open>The end of a stream\<close>

text \<open>C10: The end-of-stream line is printed at most once on every channel, whatever combination of
  \<open>terminal_done\<close> frames, dead-session snapshots, re-subscriptions and history loads arrives;
  and once a read-only window has restored a channel's history the line is there.\<close>

theorem ended_marker_once:
  assumes "cm.reach sid ro n0 (w, n)" and "(k, ch) \<in> set (channels w)"
  shows "marks (screen ch) \<le> 1 \<and> (c_readOnly w \<and> historyLoaded ch \<longrightarrow> marks (screen ch) = 1) \<and>
    ended_badge ch = (marks (screen ch) = 1)"
proof -
  have "ch_ok (c_readOnly w) ch" using cm.reach_inv [OF assms(1)] assms(2) by (auto simp: win_inv_def)
  then show ?thesis by (auto simp: ch_ok_def)
qed

definition dead_tab :: "cwin \<times> net" where
  "dead_tab = foldl ch_step (new_cwin ''s1'' False, \<lparr>ws_open = True, sent = [], pendingWatch = [], deletes = []\<rparr>)
     [ChCreate ''a'' [] False, ChHistory ''a'', ChDone ''a'', ChLock, ChDone ''a'', ChLock]"

theorem ended_marker_once_witness:
  "\<exists>ch. channels (fst dead_tab) = [(''a'', ch)] \<and> marks (screen ch) = 1"
proof -
  have "cm.run_ok (new_cwin ''s1'' False, \<lparr>ws_open = True, sent = [], pendingWatch = [], deletes = []\<rparr>)
     [ChCreate ''a'' [] False, ChHistory ''a'', ChDone ''a'', ChLock, ChDone ''a'', ChLock]" by simp
  from cm.reach_run [OF cm.reach.init this]
  have r: "cm.reach ''s1'' False \<lparr>ws_open = True, sent = [], pendingWatch = [], deletes = []\<rparr> (fst dead_tab, snd dead_tab)"
    by (simp add: dead_tab_def)
  have f: "map fst (channels (fst dead_tab)) = [''a'']" "map (historyLoaded \<circ> snd) (channels (fst dead_tab)) = [True]" "c_readOnly (fst dead_tab)"
    by code_simp+
  obtain ch where "channels (fst dead_tab) = [(''a'', ch)]" using f(1) by auto
  with f show ?thesis using ended_marker_once [OF r, of "''a''" ch] by simp
qed

section \<open>What goes over the wire\<close>

fun is_input :: "ui_msg \<Rightarrow> bool" where
  "is_input (InputMsg sid d) = True"
| "is_input m = False"

definition inputs :: "net \<Rightarrow> ui_msg list" where
  "inputs n = filter is_input (sent n)"

lemma inputs_ws [simp]: "inputs (n\<lparr>ws_open := b\<rparr>) = inputs n"
  by (simp add: inputs_def)

lemma send_watch_quiet [simp]:
  "inputs (sendTerminalWatch sid b n) = inputs n" "deletes (sendTerminalWatch sid b n) = deletes n"
  "ws_open (sendTerminalWatch sid b n) = ws_open n" "pendingWatch (sendTerminalWatch sid b n) = pendingWatch n"
  by (simp_all add: sendTerminalWatch_def wsUiSend_def inputs_def)

lemma unwatch_quiet [simp]:
  "inputs (unwatch_all sids n) = inputs n" "deletes (unwatch_all sids n) = deletes n"
  "ws_open (unwatch_all sids n) = ws_open n" "pendingWatch (unwatch_all sids n) = pendingWatch n"
  unfolding unwatch_all_def by (induction sids arbitrary: n) simp_all

lemma close_readonly_quiet:
  "c_readOnly w \<Longrightarrow> inputs (snd (closeChannelTab sid w n)) = inputs n \<and> deletes (snd (closeChannelTab sid w n)) = deletes n"
  by (simp add: closeChannelTab_def Let_def)


lemma dead_tab_reach:
  "cm.reach ''s1'' False \<lparr>ws_open = True, sent = [], pendingWatch = [], deletes = []\<rparr> (fst dead_tab, snd dead_tab)"
proof -
  have "cm.run_ok (new_cwin ''s1'' False, \<lparr>ws_open = True, sent = [], pendingWatch = [], deletes = []\<rparr>)
     [ChCreate ''a'' [] False, ChHistory ''a'', ChDone ''a'', ChLock, ChDone ''a'', ChLock]" by simp
  from cm.reach_run [OF cm.reach.init this] show ?thesis by (simp add: dead_tab_def)
qed


text \<open>A keystroke is sent exactly when the window accepts input, the channel exists and still
  streams, the user has touched the terminal and the socket is open; then the message carries
  the text unchanged, and in no case is another shell addressed. Enter on an ended channel
  closes its tab.\<close>

theorem keystroke_gate:
  "(let passes = (\<not> c_inputClosed w \<and> (\<exists>ch. get_ch w sid = Some ch \<and> \<not> streamDone ch) \<and> c_userReady w \<and> ws_open n)
    in inputs (snd (onData sid d w n)) = (if passes then inputs n @ [InputMsg sid d] else inputs n)) \<and>
   (\<not> c_inputClosed w \<and> (\<exists>ch. get_ch w sid = Some ch \<and> streamDone ch) \<and> is_enter d \<longrightarrow>
      onData sid d w n = closeChannelTab sid w n)"
  by (auto simp: onData_def wsUiSend_def inputs_def closeChannelTab_def Let_def split: option.split)
    (auto simp: inputs_def [symmetric])

definition sent_key :: "ui_msg list" where
  "sent_key = inputs (snd (onData ''b'' ''x'' (unlockInput (fst two_tabs)) (snd two_tabs)))"

lemma two_tabs_open: "ws_open (snd two_tabs)" "inputs (snd two_tabs) = []" "\<not> c_inputClosed (fst two_tabs)"
  "map_option streamDone (get_ch (fst two_tabs) ''b'') = Some False"
  by code_simp+

theorem keystroke_gate_witness: "sent_key = [InputMsg ''b'' ''x'']"
proof -
  have "\<exists>ch. get_ch (unlockInput (fst two_tabs)) ''b'' = Some ch \<and> \<not> streamDone ch"
    using two_tabs_open(4) by (auto simp: unlockInput_def get_ch_def)
  then show ?thesis
    using keystroke_gate [of "unlockInput (fst two_tabs)" "''b''" "snd two_tabs" "''x''"] two_tabs_open
    by (simp add: sent_key_def unlockInput_def Let_def)
qed

section \<open>Following the list of shells\<close>

lemma keys_switch [simp]: "channels (switchChannelTab sid w) = channels w"
  by (simp add: switchChannelTab_def)

lemma keys_create: "set (obj_keys (channels (createChannelTab sid l roh w))) = insert sid (set (obj_keys (channels w)))"
  by (auto simp: createChannelTab_def Let_def obj_keys_set get_ch_def obj_keys_iff)

lemma primary_create [simp]: "c_primaryShellId (createChannelTab sid l roh w) = c_primaryShellId w"
  by (simp add: createChannelTab_def switchChannelTab_def Let_def)

lemma keys_add_missing: "set (obj_keys (channels (add_missing roh sids w))) = set (obj_keys (channels w)) \<union> set sids \<and>
    c_primaryShellId (add_missing roh sids w) = c_primaryShellId w"
  unfolding add_missing_def
proof (induction sids arbitrary: w)
  case (Cons k ks)
  then show ?case by (cases "get_ch w k = None") (auto simp: keys_create get_ch_None simp del: not_None_eq)
qed simp

lemma keys_close: "set (obj_keys (channels (fst (closeChannelTab sid w n)))) = set (obj_keys (channels w)) - {sid} \<and>
    c_primaryShellId (fst (closeChannelTab sid w n)) = c_primaryShellId w"
proof (cases "get_ch w sid = None")
  case True
  then show ?thesis by (simp add: closeChannelTab_def get_ch_None)
next
  case False
  have "channels (fst (closeChannelTab sid w n)) = channels (remove_channel sid w)"
    "c_primaryShellId (fst (closeChannelTab sid w n)) = c_primaryShellId w"
    using False by (auto simp: closeChannelTab_def Let_def showChannelEmpty_def switchChannelTab_def remove_channel_def
        simp del: not_None_eq split: option.split)
  then show ?thesis by (auto simp: remove_keys)
qed

lemma keys_prune:
  "set (obj_keys (channels (fst (prune_tabs listed keys w n)))) =
     {k \<in> set (obj_keys (channels w)). k = c_primaryShellId w \<or> k \<in> set listed \<or> k \<notin> set keys}"
proof (induction keys arbitrary: w n)
  case (Cons k keys)
  show ?case
  proof (cases "k = c_primaryShellId w \<or> k \<in> set listed \<or> get_ch w k = None")
    case True
    then have "prune_tabs listed (k # keys) w n = prune_tabs listed keys w n" by (auto simp: prune_tabs_def)
    then show ?thesis using Cons.IH True by (auto simp: get_ch_None)
  next
    case False
    obtain v m where c: "closeChannelTab k w n = (v, m)" by (cases "closeChannelTab k w n")
    then have p: "prune_tabs listed (k # keys) w n = prune_tabs listed keys v m"
      using False by (simp add: prune_tabs_def del: not_None_eq)
    have v: "set (obj_keys (channels v)) = set (obj_keys (channels w)) - {k}" "c_primaryShellId v = c_primaryShellId w"
      using keys_close [of k w n] c by auto
    show ?thesis unfolding p using Cons.IH [of v m] False v by auto
  qed
qed (simp add: prune_tabs_def)

text \<open>C33: After a refresh a live window shows exactly the shells the server lists, except that the
  primary shell's tab is neither created nor closed by the refresh: tabs of vanished shells are
  gone, exited shells keep theirs, new ones have one.\<close>

theorem sync_matches_server:
  assumes "\<not> c_readOnly w"
  shows "set (obj_keys (channels (fst (syncWindowTabs shells w n)))) =
    {k. (k \<in> fst ` set shells \<and> (k \<noteq> c_primaryShellId w \<or> (k, False) \<in> set shells \<or> k \<in> set (obj_keys (channels w)))) \<or>
        (k = c_primaryShellId w \<and> k \<in> set (obj_keys (channels w)))}"
proof -
  let ?ex = "map fst (filter (\<lambda>s. \<not> snd s) shells)"
  let ?run = "filter (\<lambda>sid. sid \<noteq> c_primaryShellId w) (map fst (filter snd shells))"
  let ?w2 = "add_missing False ?run (add_missing True ?ex w)"
  have k2: "set (obj_keys (channels ?w2)) = set (obj_keys (channels w)) \<union> set ?ex \<union> set ?run" and p2: "c_primaryShellId ?w2 = c_primaryShellId w"
    using keys_add_missing by auto
  have s: "syncWindowTabs shells w n = prune_tabs (map fst shells) (obj_keys (channels ?w2)) ?w2 n"
    using assms by (simp add: syncWindowTabs_def Let_def)
  have ex: "set ?ex = {k. (k, False) \<in> set shells}" and run: "set ?run = {k. (k, True) \<in> set shells \<and> k \<noteq> c_primaryShellId w}"
    by force+
  have all: "k \<in> fst ` set shells \<longleftrightarrow> (k, True) \<in> set shells \<or> (k, False) \<in> set shells" for k
    by (induction shells) auto
  have ls: "set (map fst shells) = fst ` set shells" by simp
  show ?thesis
    unfolding s keys_prune k2 p2 ex run ls by (rule set_eqI) (simp add: all, blast)
qed

theorem sync_matches_server_witness:
  "set (obj_keys (channels (fst (syncWindowTabs [(''b'', True), (''c'', False)] (fst two_tabs) (snd two_tabs))))) = {''b'', ''c''}"
proof -
  have "c_primaryShellId (fst two_tabs) = []" by code_simp
  then show ?thesis
    using sync_matches_server [of "fst two_tabs" "[(''b'', True), (''c'', False)]" "snd two_tabs"] two_tabs_facts by auto
qed

section \<open>Watches\<close>

lemma watched_snoc [simp]: "watched (ms @ [m]) = watch_step (watched ms) m"
  by (simp add: watched_def)

lemma watched_send:
  "ws_open n \<Longrightarrow> sid \<noteq> [] \<Longrightarrow>
     watched (sent (sendTerminalWatch sid b n)) = (if b then insert sid (watched (sent n)) else watched (sent n) - {sid})"
  by (simp add: sendTerminalWatch_def wsUiSend_def watch_step_def)

lemma watched_unwatch_all:
  "ws_open n \<Longrightarrow> [] \<notin> set sids \<Longrightarrow> watched (sent (unwatch_all sids n)) = watched (sent n) - set sids"
  unfolding unwatch_all_def by (induction sids arbitrary: n) (auto simp: watched_send)

text \<open>Closing a window over an open socket leaves nothing of it watched on the server: no
  channel and not the session itself, and no queued watch of the session.\<close>

theorem closed_window_unwatches:
  assumes "cm.reach s0 ro n0 (w, n)" and "ws_open n" and "c_sid w \<noteq> []"
  shows "watched (sent (snd (closeShellWindow w n))) = watched (sent n) - insert (c_sid w) (set (obj_keys (channels w))) \<and>
    obj_get (pendingWatch (snd (closeShellWindow w n))) (c_sid w) = None \<and> channels (fst (closeShellWindow w n)) = []"
proof -
  have k: "[] \<notin> set (obj_keys (channels w))" using cm.reach_inv [OF assms(1)] by (simp add: win_inv_def)
  show ?thesis
    using assms(2,3) watched_unwatch_all [OF assms(2) k]
    by (auto simp: closeShellWindow_def Let_def watched_send obj_get_del)
qed

theorem closed_window_unwatches_witness:
  "watched (sent (snd (closeShellWindow (fst two_tabs) (snd two_tabs)))) = {}"
proof -
  have "c_sid (fst two_tabs) = ''s1''" "watched (sent (snd two_tabs)) = {''b''}" by code_simp+
  then show ?thesis using closed_window_unwatches [OF two_tabs_reach two_tabs_open(1)] two_tabs_facts(2) by simp
qed

text \<open>A tab closed before its history has loaded is watched after all: the end of the load
  subscribes to the shell although its channel is gone.\<close>

theorem late_history_watches_closed_shell:
  assumes "get_ch w sid = None" and "\<not> c_readOnly w" and "sid \<noteq> []" and "ws_open n"
  shows "sid \<in> watched (sent (snd (historyDone sid w n)))"
  using assms by (simp add: historyDone_def upd_ch_def Let_def queueTerminalWatch_def watched_send)

theorem late_history_watches_closed_shell_witness:
  "let (w, n) = closeChannelTab ''a'' (fst two_tabs) (snd two_tabs) in ''a'' \<in> watched (sent (snd (historyDone ''a'' w n)))"
proof -
  obtain w n where c: "closeChannelTab ''a'' (fst two_tabs) (snd two_tabs) = (w, n)"
    by (cases "closeChannelTab ''a'' (fst two_tabs) (snd two_tabs)")
  have "get_ch (fst (closeChannelTab ''a'' (fst two_tabs) (snd two_tabs))) ''a'' = None"
    "\<not> c_readOnly (fst (closeChannelTab ''a'' (fst two_tabs) (snd two_tabs)))"
    "ws_open (snd (closeChannelTab ''a'' (fst two_tabs) (snd two_tabs)))" by code_simp+
  then show ?thesis using late_history_watches_closed_shell [of w "''a''" n] c by simp
qed

text \<open>
  The answer with the shells of a session is not dropped when its window was closed meanwhile: the window, which nobody
  sees, gets its tabs, and when their history is loaded the server is asked to watch them for good.
\<close>

lemma late_open_watches_closed_window:
  "let n0 = \<lparr>ws_open = True, sent = [], pendingWatch = [], deletes = []\<rparr>;
       (w, n) = closeShellWindow (new_cwin ''s1'' False) n0;
       (w', n') = foldl ch_step (w, n) [ChOpenTabs False None [(''a'', True)], ChHistory ''a'']
   in sent n' = [WatchRemove ''s1'', WatchAdd ''a''] \<and> c_inputClosed w' \<and> map fst (dom_tabs w') = [''a'']"
  by code_simp

end
