(* ===== verification/Sessions.thy ===== *)
theory Sessions
  imports Approval Channels
begin

text \<open>
  The session grid and what hangs on the server's session list (\<open>sessions.js\<close>, the batch
  actions of \<open>conn-form.js\<close>, the notifications of \<open>util.js\<close>): rendering, selecting,
  deleting, renaming, highlighting, and the reconciliation of the open windows with each
  snapshot. The windows are those of \<open>Channels\<close>, their review surfaces those of \<open>Approval\<close>.
\<close>

section \<open>Data\<close>

text \<open>One entry of the session list; a missing string is the empty one.\<close>

record sess =
  s_id :: string
  s_name :: string
  s_running :: bool
  s_reason :: string
  s_approval :: bool

text \<open>One active port forward, as \<open>loadForwards\<close> keeps it.\<close>

record fwd =
  f_config :: string
  f_listen :: string
  f_target :: string

text \<open>A tile of the grid; its listeners hold the session it was made for.\<close>

record tile =
  tl_sess :: sess
  tl_archived :: bool
  tl_class :: bool
  tl_checked :: bool
  tl_notified :: bool
  tl_fwds :: "(string \<times> string) list"

text \<open>A card of the notification stack; \<open>cd_dur\<close> is 0 when it has no timer.\<close>

record card =
  cd_level :: string
  cd_title :: string
  cd_msg :: string
  cd_sid :: string
  cd_dur :: nat
  cd_review :: bool
  cd_dismissed :: bool

record notice =
  n_level :: string
  n_title :: string
  n_msg :: string
  n_duration :: "int option"
  n_sid :: string
  n_review :: bool

text \<open>An open window: its channels, whether it still waits for its session, its highlight.\<close>

record swin =
  sw_c :: cwin
  sw_placeholder :: bool
  sw_notified :: bool

text \<open>The toolbar above the grid; \<open>b_count\<close> is \<open>None\<close> while the counter is hidden.\<close>

record batch_bar =
  b_allChecked :: bool
  b_selTitle :: string
  b_selDisabled :: bool
  b_count :: "nat option"
  b_delDisabled :: bool

text \<open>
  The page. \<open>h_selected\<close> is the set of selected identifiers in insertion order. The surfaces
  of the windows' review panels are \<open>h_rv\<close>, in the order of \<open>h_wins\<close>. \<open>h_batches\<close> are the
  sequential deletions under way, with the key of the failure message and the sessions still to
  delete, the one being deleted first, and \<open>h_requests\<close> the deletions requested so far.
\<close>

record hub =
  h_snapshot :: "sess list"
  h_selected :: "string list"
  h_highlights :: "bool obj"
  h_lastActive :: "string obj"
  h_forwards :: "fwd list"
  h_tiles :: "tile list"
  h_empty :: bool
  h_banner :: string
  h_bar :: batch_bar
  h_wins :: "swin list"
  h_net :: net
  h_rv :: review_ui
  h_cards :: "card list"
  h_batches :: "(string \<times> string list) list"
  h_requests :: "string list"

definition set_add :: "string \<Rightarrow> string list \<Rightarrow> string list" where
  "set_add x xs = (if x \<in> set xs then xs else xs @ [x])"

definition set_del :: "string \<Rightarrow> string list \<Rightarrow> string list" where
  "set_del x xs = filter (\<lambda>y. y \<noteq> x) xs"

section \<open>The grid\<close>

definition updateSessionBatchBar :: "hub \<Rightarrow> hub" where
  "updateSessionBatchBar h =
     (let total = length (filter (\<lambda>s. s_id s \<noteq> []) (h_snapshot h));
          n = length (h_selected h);
          allSelected = (total > 0 \<and> n \<ge> total)
      in h\<lparr>h_bar :=
           \<lparr>b_allChecked = allSelected,
            b_selTitle = (if allSelected then ''section.batch.clearSelection'' else ''section.batch.selectAll''),
            b_selDisabled = (total = 0), b_count = (if n > 0 then Some n else None), b_delDisabled = (n = 0)\<rparr>\<rparr>)"

definition sess_tile :: "hub \<Rightarrow> sess \<Rightarrow> tile" where
  "sess_tile h s =
     (let sel = (s_id s \<in> set (h_selected h))
      in \<lparr>tl_sess = s, tl_archived = (\<not> s_running s), tl_class = sel, tl_checked = sel,
          tl_notified = (s_id s \<noteq> [] \<and> obj_get (h_highlights h) (s_id s) = Some True),
          tl_fwds = (if s_running s then map (\<lambda>f. (f_listen f, f_target f)) (filter (\<lambda>f. f_config f = s_name s) (h_forwards h)) else [])\<rparr>)"

definition renderSessionGrid :: "translate \<Rightarrow> sess list \<Rightarrow> string \<Rightarrow> hub \<Rightarrow> hub" where
  "renderSessionGrid t ss banner h =
     (let h1 = h\<lparr>h_banner := banner, h_rv := grid_review t (map s_id ss) (h_rv h)\<rparr>
      in if ss = []
         then (updateSessionBatchBar (h1\<lparr>h_selected := [], h_tiles := []\<rparr>))\<lparr>h_empty := True\<rparr>
         else updateSessionBatchBar
                (h1\<lparr>h_tiles := map (sess_tile h1) ss, h_empty := False,
                    h_selected := filter (\<lambda>i. i \<noteq> [] \<and> i \<in> set (map s_id ss)) (h_selected h1)\<rparr>))"

definition reasonLabel :: "translate \<Rightarrow> string \<Rightarrow> string" where
  "reasonLabel t r =
     (if r = [] then []
      else if r \<in> {''explicit'', ''crash'', ''exited'', ''shutdown''} then t (''reason.'' @ r) None
      else r)"

text \<open>The name on a tile, and the checkbox.\<close>

definition entryLine :: "string \<Rightarrow> sess \<Rightarrow> string" where
  "entryLine emdash s =
     (let nm = js_trim (s_name s)
      in if nm \<noteq> [] \<and> \<not> starts_with session_prefix nm then nm else displaySessionShort emdash (Some (s_id s)) (Some (s_name s)))"

definition checkbox_click :: "nat \<Rightarrow> hub \<Rightarrow> hub" where
  "checkbox_click k h =
     (let tl = h_tiles h ! k; c = (\<not> tl_checked tl); sid = s_id (tl_sess tl)
      in updateSessionBatchBar
           (h\<lparr>h_tiles := (h_tiles h)[k := tl\<lparr>tl_checked := c, tl_class := c\<rparr>],
              h_selected := (if c then set_add sid (h_selected h) else set_del sid (h_selected h))\<rparr>))"

definition select_all_click :: "translate \<Rightarrow> hub \<Rightarrow> hub" where
  "select_all_click t h =
     (let ids = filter (\<lambda>i. i \<noteq> []) (map s_id (h_snapshot h));
          allSelected = (ids \<noteq> [] \<and> (\<forall>i \<in> set ids. i \<in> set (h_selected h)))
      in renderSessionGrid t (h_snapshot h) []
           (h\<lparr>h_selected := (if allSelected then foldl (\<lambda>sel i. set_del i sel) (h_selected h) ids
                             else foldl (\<lambda>sel i. set_add i sel) (h_selected h) ids)\<rparr>))"

section \<open>The markup of a tile\<close>

definition SVG_LOCK_CLOSED :: string where
  \<open>SVG_LOCK_CLOSED = ''<svg viewBox="0 0 16 16" width="11" height="11" aria-hidden="true" fill="none" stroke="currentColor" stroke-width="1.6" stroke-linecap="round"><rect x="3" y="7" width="10" height="7" rx="1.5"/><path d="M5.5 7V5a2.5 2.5 0 015 0v2"/></svg>''\<close>

definition SVG_LOCK_OPEN :: string where
  \<open>SVG_LOCK_OPEN = ''<svg viewBox="0 0 16 16" width="11" height="11" aria-hidden="true" fill="none" stroke="currentColor" stroke-width="1.6" stroke-linecap="round"><rect x="3" y="7" width="10" height="7" rx="1.5"/><path d="M5.5 7V5a2.5 2.5 0 014.9-.6"/></svg>''\<close>

definition terminalIconImgHtml :: string where
  \<open>terminalIconImgHtml = ''<img class="terminal-shell-icon" src="'' @ ''icons/terminal-shell.svg'' @ ''" width="16" height="16" alt="" draggable="false">''\<close>

definition status_text :: "translate \<Rightarrow> sess \<Rightarrow> string" where
  "status_text t s =
     (if s_running s then t ''session.status.running'' None
      else t ''session.status.dead'' (Some [(''reason'', reasonLabel t (s_reason s))]))"

definition status_frags :: "translate \<Rightarrow> sess \<Rightarrow> string frag list" where
  \<open>status_frags t s =
     [Lit ''<span class="sess-status-ic '', Lit (if s_running s then ''is-live'' else ''is-dead''), Lit ''" title="'', Hole (status_text t s),
      Lit ''" role="img" aria-label="'', Hole (status_text t s), Lit ''"></span>'']\<close>

definition lock_frags :: "translate \<Rightarrow> sess \<Rightarrow> string frag list" where
  \<open>lock_frags t s =
     (if s_running s
      then [Lit ''<button type="button" class="sess-lock'', Lit (if s_approval s then '' is-on'' else []), Lit ''" '', Lit ''title="'',
            Hole (if s_approval s then t ''review.disableTip'' None else t ''review.enableTip'' None), Lit ''" '', Lit ''aria-pressed="'',
            Lit (if s_approval s then ''true'' else ''false''), Lit ''" '', Lit ''aria-label="'', Hole (t ''review.mode'' None), Lit ''">'',
            Lit (if s_approval s then SVG_LOCK_CLOSED else SVG_LOCK_OPEN), Lit ''</button>'']
      else [])\<close>

definition corner_frags :: "string frag list" where
  \<open>corner_frags =
     [Lit ''<button type="button" class="sess-x" title="Delete session" data-i18n-title="session.delete.title" aria-label="Delete session" data-i18n-aria="session.delete.title">'',
      Lit ''<svg viewBox="0 0 12 12" width="13" height="13" aria-hidden="true"><path fill="none" stroke="currentColor" stroke-width="1.75" stroke-linecap="round" d="M2 2l8 8M10 2L2 10"/></svg>'',
      Lit ''</button>'']\<close>

definition badge_frags :: "translate \<Rightarrow> nat obj \<Rightarrow> string \<Rightarrow> string frag list" where
  \<open>badge_frags t counts sid =
     (let n = count_of counts sid
      in if n = 0 then [Lit ''<div class="sess-review" hidden></div>'']
         else [Lit ''<div class="sess-review">'', Hole (badge_text t n), Lit ''</div>''])\<close>

definition tile_frags :: "translate \<Rightarrow> string \<Rightarrow> nat obj \<Rightarrow> bool \<Rightarrow> sess \<Rightarrow> string frag list" where
  \<open>tile_frags t emdash counts isSelected s =
     [Lit ''<div class="conn-tile-stack">''] @ corner_frags @
     [Lit ''<div class="icon-wrap" title="'', Hole (if s_running s then t ''session.openTerminal'' None else t ''session.openHistory'' None),
      Lit ''"><span class="sess-terminal-ic">'', Lit terminalIconImgHtml, Lit ''</span></div>'', Lit ''</div>'',
      Lit ''<div class="sess-tile-body">'', Lit ''<div class="sess-name-row">'',
      Lit ''<input type="checkbox" class="sess-checkbox" title="Select session" data-i18n-title="session.aria.select" aria-label="Select session" data-i18n-aria="session.aria.select"'',
      Lit (if isSelected then '' checked'' else []), Lit ''>'',
      Lit ''<div class="sess-entry-line" role="button" tabindex="0" title="Rename session" data-i18n-title="session.aria.rename" aria-label="Rename session" data-i18n-aria="session.aria.rename">'',
      Hole (entryLine emdash s), Lit ''</div>'', Lit ''</div>'', Lit ''<div class="sess-meta-row">''] @
     status_frags t s @ lock_frags t s @
     [Lit ''<span class="sess-sid-line" role="button" tabindex="0" title="Copy session URL" data-i18n-title="session.aria.copyUrl" aria-label="Copy session URL" data-i18n-aria="session.aria.copyUrl">'',
      Hole (s_id s), Lit ''</span>'', Lit ''</div>''] @ badge_frags t counts (s_id s) @
     [Lit ''</div>'',
      Lit ''<div class="sess-fwd-info" style="display:none;font-size:0.62rem;color:#656d76;margin-top:2px;text-align:center"></div>'']\<close>

definition sessTileHtml :: "translate \<Rightarrow> string \<Rightarrow> nat obj \<Rightarrow> bool \<Rightarrow> sess \<Rightarrow> string" where
  "sessTileHtml t emdash counts isSelected s = html.render (tile_frags t emdash counts isSelected s)"

section \<open>Windows\<close>

fun first_at :: "('a \<Rightarrow> bool) \<Rightarrow> 'a list \<Rightarrow> nat option" where
  "first_at P [] = None"
| "first_at P (x # xs) = (if P x then Some 0 else map_option Suc (first_at P xs))"

definition win_at_sid :: "string \<Rightarrow> hub \<Rightarrow> nat option" where
  "win_at_sid sid h = first_at (\<lambda>w. c_sid (sw_c w) = sid) (h_wins h)"

text \<open>\<open>closeShellWindow\<close>: the active tab is remembered, the channels are let go, the node leaves.\<close>

definition close_win :: "nat \<Rightarrow> hub \<Rightarrow> hub" where
  "close_win i h =
     (let c = sw_c (h_wins h ! i);
          la = (case activeChannel c of
                  Some a \<Rightarrow> if c_parentSid c \<noteq> [] \<and> a \<noteq> [] then obj_set (h_lastActive h) (c_parentSid c) a else h_lastActive h
                | None \<Rightarrow> h_lastActive h)
      in h\<lparr>h_lastActive := la, h_net := snd (closeShellWindow c (h_net h)), h_wins := drop_at i (h_wins h),
           h_rv := (h_rv h)\<lparr>rwins := drop_at i (rwins (h_rv h))\<rparr>\<rparr>)"

definition close_sid :: "string \<Rightarrow> hub \<Rightarrow> hub" where
  "close_sid sid h = (case win_at_sid sid h of None \<Rightarrow> h | Some i \<Rightarrow> close_win i h)"

definition lock_win :: "nat \<Rightarrow> hub \<Rightarrow> hub" where
  "lock_win i h =
     (let w = h_wins h ! i; r = lockWindowReadonly (sw_c w) (h_net h)
      in h\<lparr>h_wins := (h_wins h)[i := w\<lparr>sw_c := fst r\<rparr>], h_net := snd r\<rparr>)"

definition mode_win :: "translate \<Rightarrow> approvals option \<Rightarrow> nat \<Rightarrow> bool \<Rightarrow> hub \<Rightarrow> hub" where
  "mode_win t ans i on h = h\<lparr>h_rv := applyApprovalMode t ans i on (h_rv h)\<rparr>"

text \<open>
  \<open>openShellWindow\<close> for a session without a window; its shells arrive later (\<open>HWin\<close> with
  \<open>ChOpenTabs\<close>). The review mode is the one of the snapshot in hand.
\<close>

definition snapshot_modes :: "hub \<Rightarrow> (string \<times> bool) list" where
  "snapshot_modes h = map (\<lambda>s. (s_id s, s_approval s)) (h_snapshot h)"

definition open_win :: "translate \<Rightarrow> approvals option \<Rightarrow> string \<Rightarrow> bool \<Rightarrow> hub \<Rightarrow> hub" where
  "open_win t ans sid ro h =
     (let i = length (h_wins h);
          h1 = h\<lparr>h_wins := h_wins h @ [\<lparr>sw_c = new_cwin sid ro, sw_placeholder = False, sw_notified = False\<rparr>],
                 h_rv := (h_rv h)\<lparr>rwins := rwins (h_rv h) @ [fresh_rwin sid]\<rparr>\<rparr>
      in h1\<lparr>h_rv := applyApprovalModeFromSnapshot t ans (snapshot_modes h) i sid (h_rv h1)\<rparr>)"

text \<open>The part of \<open>focusSessionWindow\<close> outside the window manager.\<close>

definition focus_session :: "translate \<Rightarrow> approvals option \<Rightarrow> string \<Rightarrow> bool \<Rightarrow> hub \<Rightarrow> hub" where
  "focus_session t ans sid ro h =
     (case win_at_sid sid h of None \<Rightarrow> open_win t ans sid ro h | Some i \<Rightarrow> if ro then lock_win i h else h)"

text \<open>A window that waits for its session, and the end of the wait.\<close>

definition open_pending :: "hub \<Rightarrow> hub" where
  "open_pending h =
     h\<lparr>h_wins := h_wins h @ [\<lparr>sw_c = new_cwin [] False, sw_placeholder = True, sw_notified = False\<rparr>],
       h_rv := (h_rv h)\<lparr>rwins := rwins (h_rv h) @ [fresh_rwin []]\<rparr>\<rparr>"

definition finalize_win :: "translate \<Rightarrow> approvals option \<Rightarrow> nat \<Rightarrow> string \<Rightarrow> string \<Rightarrow> hub \<Rightarrow> hub" where
  "finalize_win t ans i sid shell h =
     (let w = h_wins h ! i;
          c = (sw_c w)\<lparr>c_sid := sid, c_parentSid := sid, c_primaryShellId := or_str shell sid\<rparr>;
          rv1 = upd_win i (\<lambda>r. r\<lparr>rw_parentSid := sid\<rparr>) (h_rv h)
      in h\<lparr>h_wins := (h_wins h)[i := w\<lparr>sw_placeholder := False, sw_c := createChannelTab (or_str shell sid) [] False c\<rparr>],
           h_rv := applyApprovalModeFromSnapshot t ans (snapshot_modes h) i sid rv1\<rparr>)"

section \<open>Following the session list\<close>

definition session_map :: "sess list \<Rightarrow> sess obj" where
  "session_map ss = foldl (\<lambda>m s. if s_id s \<noteq> [] then obj_set m (s_id s) s else m) [] ss"

definition releaseSessionUIState :: "string \<Rightarrow> hub \<Rightarrow> hub" where
  "releaseSessionUIState sid h =
     (if sid = [] then h
      else h\<lparr>h_highlights := obj_del (h_highlights h) sid, h_selected := set_del sid (h_selected h),
             h_lastActive := obj_del (h_lastActive h) sid,
             h_net := (h_net h)\<lparr>pendingWatch := obj_del (pendingWatch (h_net h)) sid\<rparr>\<rparr>)"

definition keep_keys :: "'a obj \<Rightarrow> 'b obj \<Rightarrow> 'b obj" where
  "keep_keys live ob = filter (\<lambda>(k, v). obj_get live k \<noteq> None) ob"

definition pruneDeadSessionUIState :: "sess obj \<Rightarrow> hub \<Rightarrow> hub" where
  "pruneDeadSessionUIState live h =
     h\<lparr>h_highlights := keep_keys live (h_highlights h), h_selected := filter (\<lambda>i. obj_get live i \<noteq> None) (h_selected h),
       h_lastActive := keep_keys live (h_lastActive h),
       h_net := (h_net h)\<lparr>pendingWatch := keep_keys live (pendingWatch (h_net h))\<rparr>\<rparr>"

text \<open>
  One round of the loop over the windows open when the snapshot arrived: \<open>i\<close> is the position
  of the window now, \<open>ans\<close> what the review queue would answer an open panel.
\<close>

definition reconcile_win :: "translate \<Rightarrow> (nat \<Rightarrow> approvals option) \<Rightarrow> sess obj \<Rightarrow> nat \<Rightarrow> hub \<Rightarrow> nat \<times> hub" where
  "reconcile_win t ans byId i h =
     (let w = h_wins h ! i; p = c_parentSid (sw_c w)
      in if p = [] \<or> sw_placeholder w then (Suc i, h)
         else (case obj_get byId p of
                 None \<Rightarrow> (i, close_win i (releaseSessionUIState p h))
               | Some s \<Rightarrow> (Suc i, mode_win t (ans i) i (s_approval s) (if s_running s then h else lock_win i h))))"

fun reconcile_loop :: "translate \<Rightarrow> (nat \<Rightarrow> approvals option) \<Rightarrow> sess obj \<Rightarrow> nat \<Rightarrow> nat \<Rightarrow> hub \<Rightarrow> hub" where
  "reconcile_loop t ans byId 0 i h = h"
| "reconcile_loop t ans byId (Suc k) i h = (case reconcile_win t ans byId i h of (j, h') \<Rightarrow> reconcile_loop t ans byId k j h')"

text \<open>The requests at the end (\<open>loadForwards\<close>, \<open>refreshAllWindowTabs\<close>) are answered by events of
  their own.\<close>

definition applySessionsSnapshot :: "translate \<Rightarrow> (nat \<Rightarrow> approvals option) \<Rightarrow> sess list \<Rightarrow> hub \<Rightarrow> hub" where
  "applySessionsSnapshot t ans ss h =
     (let h1 = renderSessionGrid t ss [] (h\<lparr>h_snapshot := ss\<rparr>); byId = session_map ss
      in pruneDeadSessionUIState byId (reconcile_loop t ans byId (length (h_wins h1)) 0 h1))"

text \<open>The answer of \<open>loadForwards\<close>, \<open>None\<close> when it failed.\<close>

definition forwards_loaded :: "translate \<Rightarrow> fwd list option \<Rightarrow> hub \<Rightarrow> hub" where
  "forwards_loaded t ans h =
     (case ans of None \<Rightarrow> h\<lparr>h_forwards := []\<rparr> | Some fs \<Rightarrow> renderSessionGrid t (h_snapshot h) [] (h\<lparr>h_forwards := fs\<rparr>))"

section \<open>Deleting and renaming\<close>

definition delete_url :: "string \<Rightarrow> string" where
  "delete_url sid = ''/api/sessions/'' @ encodeURIComponent sid"

text \<open>The deletions of a batch run one after the other; the first starts at once.\<close>

definition start_batch :: "translate \<Rightarrow> string \<Rightarrow> string \<Rightarrow> string list \<Rightarrow> hub \<Rightarrow> hub" where
  "start_batch t key fail targets h =
     (case targets of
        [] \<Rightarrow> h
      | i # is \<Rightarrow>
          h\<lparr>h_banner := t (key @ (if is = [] then ''.one'' else ''.other'')) (Some [(''count'', show_nat (length targets))]),
            h_batches := h_batches h @ [(fail, targets)], h_requests := h_requests h @ [delete_url i]\<rparr>)"

definition batch_delete :: "translate \<Rightarrow> bool \<Rightarrow> hub \<Rightarrow> hub" where
  "batch_delete t ok h =
     (let targets = filter (\<lambda>i. i \<noteq> [] \<and> i \<in> set (h_selected h)) (map s_id (h_snapshot h))
      in if ok then start_batch t ''banner.deleting'' ''toast.delete.failed'' targets h else h)"

definition clear_dead :: "translate \<Rightarrow> bool \<Rightarrow> hub \<Rightarrow> hub" where
  "clear_dead t ok h =
     (let targets = map s_id (filter (\<lambda>s. s_id s \<noteq> [] \<and> \<not> s_running s) (h_snapshot h))
      in if ok then start_batch t ''banner.clearing'' ''toast.clear.failed'' targets h else h)"

text \<open>The answer to the deletion in front of batch \<open>j\<close>: \<open>None\<close> when the session is gone (204, 404 or
  any success), else the error.\<close>

definition batch_answer :: "translate \<Rightarrow> nat \<Rightarrow> string option \<Rightarrow> hub \<Rightarrow> hub" where
  "batch_answer t j err h =
     (case err of
        Some msg \<Rightarrow>
          renderSessionGrid t (h_snapshot h) []
            (h\<lparr>h_batches := drop_at j (h_batches h), h_banner := t (fst (h_batches h ! j)) (Some [(''msg'', msg)])\<rparr>)
      | None \<Rightarrow>
          (let b = snd (h_batches h ! j); h1 = close_sid (hd b) h; h2 = h1\<lparr>h_selected := set_del (hd b) (h_selected h1)\<rparr>
           in case tl b of
                [] \<Rightarrow> renderSessionGrid t (h_snapshot h2) [] (h2\<lparr>h_batches := drop_at j (h_batches h2), h_banner := []\<rparr>)
              | i # is \<Rightarrow> h2\<lparr>h_batches := (h_batches h2)[j := (fst (h_batches h ! j), i # is)], h_requests := h_requests h2 @ [delete_url i]\<rparr>))"

text \<open>The cross of a tile, confirmed and accepted by the server.\<close>

definition tile_delete :: "nat \<Rightarrow> hub \<Rightarrow> hub" where
  "tile_delete k h = close_sid (s_id (tl_sess (h_tiles h ! k))) h"

text \<open>A rename the server accepted: the entries of the snapshot in hand change, then it is applied.\<close>

definition rename_current :: "sess \<Rightarrow> string" where
  "rename_current s = (let cur = js_trim (s_name s) in if starts_with session_prefix cur then [] else cur)"

definition rename_session :: "translate \<Rightarrow> (nat \<Rightarrow> approvals option) \<Rightarrow> nat \<Rightarrow> string \<Rightarrow> hub \<Rightarrow> hub" where
  "rename_session t ans k input h =
     (let s = tl_sess (h_tiles h ! k); cur = rename_current s; newName = js_trim input
      in if newName = [] \<or> (cur \<noteq> [] \<and> newName = cur) then h
         else applySessionsSnapshot t ans (map (\<lambda>x. if s_id x = s_id s then x\<lparr>s_name := newName\<rparr> else x) (h_snapshot h)) h)"

text \<open>The lock of a tile: the request it sends, \<open>None\<close> when the confirmation is refused. Turning
  review on asks nothing.\<close>

definition setSessionApproval :: "string \<Rightarrow> bool \<Rightarrow> string \<times> string" where
  \<open>setSessionApproval sid enabled = (sessionAPI sid ''/approval'', if enabled then ''{"enabled":true}'' else ''{"enabled":false}'')\<close>

definition toggleSessionApproval :: "sess \<Rightarrow> bool \<Rightarrow> bool \<Rightarrow> (string \<times> string) option" where
  "toggleSessionApproval s gated ok =
     (if s_id s = [] then None
      else if gated then (if ok then Some (setSessionApproval (s_id s) False) else None)
      else Some (setSessionApproval (s_id s) True))"

section \<open>Notifications\<close>

text \<open>The first tile and the first window of a session carry its highlight.\<close>

definition set_tile_notified :: "string \<Rightarrow> bool \<Rightarrow> hub \<Rightarrow> hub" where
  "set_tile_notified sid b h =
     (case first_at (\<lambda>tl. s_id (tl_sess tl) = sid) (h_tiles h) of
        None \<Rightarrow> h | Some k \<Rightarrow> h\<lparr>h_tiles := (h_tiles h)[k := (h_tiles h ! k)\<lparr>tl_notified := b\<rparr>]\<rparr>)"

definition set_win_notified :: "string \<Rightarrow> bool \<Rightarrow> hub \<Rightarrow> hub" where
  "set_win_notified sid b h =
     (case win_at_sid sid h of
        None \<Rightarrow> h | Some i \<Rightarrow> h\<lparr>h_wins := (h_wins h)[i := (h_wins h ! i)\<lparr>sw_notified := b\<rparr>]\<rparr>)"

definition clearSessNotified :: "string \<Rightarrow> hub \<Rightarrow> hub" where
  "clearSessNotified sid h =
     (if sid = [] then h
      else set_win_notified sid False (set_tile_notified sid False (h\<lparr>h_highlights := obj_del (h_highlights h) sid\<rparr>)))"

definition markSessNotified :: "string \<Rightarrow> hub \<Rightarrow> hub" where
  "markSessNotified sid h =
     (if sid = [] then h
      else set_win_notified sid True (set_tile_notified sid True (h\<lparr>h_highlights := obj_set (h_highlights h) sid True\<rparr>)))"

definition dismissUiNotify :: "nat \<Rightarrow> hub \<Rightarrow> hub" where
  "dismissUiNotify c h =
     (let cd = h_cards h ! c
      in if cd_dismissed cd then h
         else
           (let h1 = h\<lparr>h_cards := (h_cards h)[c := cd\<lparr>cd_dismissed := True, cd_dur := 0\<rparr>]\<rparr>
            in if cd_sid cd \<noteq> [] then clearSessNotified (cd_sid cd) h1 else h1))"

text \<open>\<open>n_duration\<close> is what \<open>parseInt\<close> made of the duration.\<close>

definition notice_level :: "string \<Rightarrow> string" where
  "notice_level l = (if l \<in> {''info'', ''success'', ''warn'', ''error''} then l else ''info'')"

definition notice_duration :: "int option \<Rightarrow> nat" where
  "notice_duration d = (case d of None \<Rightarrow> 10 | Some n \<Rightarrow> if n < 0 then 10 else if n > 600 then 600 else nat n)"

definition showUiNotify :: "notice \<Rightarrow> hub \<Rightarrow> hub" where
  "showUiNotify n h =
     markSessNotified (n_sid n)
       (h\<lparr>h_cards := h_cards h @
            [\<lparr>cd_level = notice_level (or_str (n_level n) ''info''), cd_title = or_str (n_title n) ''termcp'', cd_msg = n_msg n,
              cd_sid = n_sid n, cd_dur = notice_duration (n_duration n), cd_review = n_review n, cd_dismissed = False\<rparr>]\<rparr>)"

text \<open>A click on a card goes to its session, read-only when the snapshot says it is over, and on to
  the review panel when the notice is about a decision.\<close>

definition dead_in_snapshot :: "string \<Rightarrow> hub \<Rightarrow> bool" where
  "dead_in_snapshot sid h = (case find (\<lambda>s. s_id s = sid) (h_snapshot h) of None \<Rightarrow> False | Some s \<Rightarrow> \<not> s_running s)"

definition open_review :: "translate \<Rightarrow> approvals option \<Rightarrow> string \<Rightarrow> hub \<Rightarrow> hub" where
  "open_review t ans sid h =
     (case win_at_sid sid h of
        None \<Rightarrow> h
      | Some i \<Rightarrow> if sw_placeholder (h_wins h ! i) then h else h\<lparr>h_rv := setReviewSheetOpen t ans i True (h_rv h)\<rparr>)"

definition card_click :: "translate \<Rightarrow> approvals option \<Rightarrow> nat \<Rightarrow> hub \<Rightarrow> hub" where
  "card_click t ans c h =
     (let cd = h_cards h ! c; sid = cd_sid cd
      in if sid = [] then h
         else
           (let h1 = focus_session t ans sid (dead_in_snapshot sid h) (dismissUiNotify c h)
            in if cd_review cd then open_review t ans sid h1 else h1))"

definition tile_click :: "translate \<Rightarrow> approvals option \<Rightarrow> nat \<Rightarrow> hub \<Rightarrow> hub" where
  "tile_click t ans k h =
     (let s = tl_sess (h_tiles h ! k) in focus_session t ans (s_id s) (\<not> s_running s) (clearSessNotified (s_id s) h))"

section \<open>The connection\<close>

text \<open>
  What a socket that opens or closes does here; what it makes of the watches is the matter of
  \<open>Socket\<close>, and comes as an argument. A close of the socket in use announces the wait of so many
  seconds, a close of a replaced one changes nothing.
\<close>

definition socket_opened :: "translate \<Rightarrow> net \<Rightarrow> hub \<Rightarrow> hub" where
  "socket_opened t n h = h\<lparr>h_net := n, h_banner := t ''banner.syncing'' None\<rparr>"

definition socket_closed :: "translate \<Rightarrow> net \<Rightarrow> nat option \<Rightarrow> hub \<Rightarrow> hub" where
  "socket_closed t n wait h =
     (case wait of
        None \<Rightarrow> h\<lparr>h_net := n\<rparr>
      | Some s \<Rightarrow> renderSessionGrid t (h_snapshot h) (t ''banner.reconnecting'' (Some [(''s'', show_nat s)])) (h\<lparr>h_net := n\<rparr>))"

section \<open>The page as a machine\<close>

datatype hub_event =
    HSnapshot "nat \<Rightarrow> approvals option" "sess list" | HForwards "fwd list option" | HLang | HCheck nat | HSelectAll
  | HBatchDelete bool | HClearDead bool | HBatchAnswer nat "string option" | HTileDelete nat
  | HRename "nat \<Rightarrow> approvals option" nat string | HTileClick "approvals option" nat
  | HNotify notice | HDismiss nat | HCardClick "approvals option" nat
  | HFocus "approvals option" string bool | HOpened net | HClosed net "nat option" | HPending | HFinal "approvals option" nat string string | HClose nat | HWin nat ch_event | HReview rv_event

definition win_step :: "nat \<Rightarrow> ch_event \<Rightarrow> hub \<Rightarrow> hub" where
  "win_step i e h =
     (let w = h_wins h ! i; r = ch_step (sw_c w, h_net h) e
      in h\<lparr>h_wins := (h_wins h)[i := w\<lparr>sw_c := fst r\<rparr>], h_net := snd r\<rparr>)"

fun hub_op :: "translate \<Rightarrow> hub \<Rightarrow> hub_event \<Rightarrow> hub" where
  "hub_op t h (HSnapshot ans ss) = applySessionsSnapshot t ans ss h"
| "hub_op t h (HForwards fs) = forwards_loaded t fs h"
| "hub_op t h HLang = renderSessionGrid t (h_snapshot h) [] h"
| "hub_op t h (HCheck k) = checkbox_click k h"
| "hub_op t h HSelectAll = select_all_click t h"
| "hub_op t h (HBatchDelete ok) = batch_delete t ok h"
| "hub_op t h (HClearDead ok) = clear_dead t ok h"
| "hub_op t h (HBatchAnswer j err) = batch_answer t j err h"
| "hub_op t h (HTileDelete k) = tile_delete k h"
| "hub_op t h (HRename ans k input) = rename_session t ans k input h"
| "hub_op t h (HTileClick ans k) = tile_click t ans k h"
| "hub_op t h (HNotify n) = showUiNotify n h"
| "hub_op t h (HDismiss c) = dismissUiNotify c h"
| "hub_op t h (HCardClick ans c) = card_click t ans c h"
| "hub_op t h (HFocus ans sid ro) = focus_session t ans sid ro h"
| "hub_op t h (HOpened n) = socket_opened t n h"
| "hub_op t h (HClosed n wait) = socket_closed t n wait h"
| "hub_op t h HPending = open_pending h"
| "hub_op t h (HFinal ans i sid shell) = finalize_win t ans i sid shell h"
| "hub_op t h (HClose i) = close_win i h"
| "hub_op t h (HWin i e) = win_step i e h"
| "hub_op t h (HReview e) = h\<lparr>h_rv := rv_step t (h_rv h) e\<rparr>"

text \<open>A change of the open windows rebuilds the session tabs.\<close>

definition hub_step :: "translate \<Rightarrow> hub \<Rightarrow> hub_event \<Rightarrow> hub" where
  "hub_step t h e =
     (let h' = hub_op t h e
      in if map (c_sid \<circ> sw_c) (h_wins h') \<noteq> map (c_sid \<circ> sw_c) (h_wins h) then h'\<lparr>h_rv := tabbar_review t (h_rv h')\<rparr> else h')"

text \<open>
  The registry lists every session once and under a non-empty identifier. Clicks land on
  tiles, cards and windows that exist; the review events are those that do not open windows
  or redraw the grid, which this component does itself.
\<close>

definition ids_ok :: "sess list \<Rightarrow> bool" where
  "ids_ok ss \<longleftrightarrow> distinct (map s_id ss) \<and> [] \<notin> set (map s_id ss)"

fun hub_enabled :: "hub \<Rightarrow> hub_event \<Rightarrow> bool" where
  "hub_enabled h (HSnapshot ans ss) = ids_ok ss"
| "hub_enabled h (HCheck k) = (k < length (h_tiles h))"
| "hub_enabled h (HBatchAnswer j err) = (j < length (h_batches h))"
| "hub_enabled h (HTileDelete k) = (k < length (h_tiles h))"
| "hub_enabled h (HRename ans k input) = (k < length (h_tiles h))"
| "hub_enabled h (HTileClick ans k) = (k < length (h_tiles h))"
| "hub_enabled h (HDismiss c) = (c < length (h_cards h))"
| "hub_enabled h (HCardClick ans c) = (c < length (h_cards h))"
| "hub_enabled h (HFocus ans sid ro) = (sid \<noteq> [])"
| "hub_enabled h (HFinal ans i sid shell) = (i < length (h_wins h) \<and> sid \<noteq> [] \<and> sw_placeholder (h_wins h ! i))"
| "hub_enabled h (HClose i) = (i < length (h_wins h))"
| "hub_enabled h (HWin i e) =
     (i < length (h_wins h) \<and> ch_enabled (sw_c (h_wins h ! i), h_net h) e \<and> e \<noteq> ChUp \<and> e \<noteq> ChDown)"
| "hub_enabled h (HReview e) = (case e of RvOpen sid on ans \<Rightarrow> False | RvGrid sids \<Rightarrow> False | _ \<Rightarrow> True)"
| "hub_enabled h e = True"

text \<open>The page before its first answer, on any connection.\<close>

definition hub_start :: "net \<Rightarrow> hub" where
  "hub_start n0 =
     \<lparr>h_snapshot = [], h_selected = [], h_highlights = [], h_lastActive = [], h_forwards = [], h_tiles = [], h_empty = False,
      h_banner = [],
      h_bar = \<lparr>b_allChecked = False, b_selTitle = ''section.batch.selectAll'', b_selDisabled = False, b_count = None, b_delDisabled = True\<rparr>,
      h_wins = [], h_net = n0, h_rv = rv_start, h_cards = [],
      h_batches = [], h_requests = []\<rparr>"

end
