(* ===== verification/Sessions_Invariant.thy ===== *)
theory Sessions_Invariant
  imports Sessions
begin

text \<open>
  The invariant of the session grid (tiles, selection and toolbar follow the snapshot) and of the
  windows (each keeps the invariant of \<open>Channels\<close>, their review surfaces that of \<open>Approval\<close>, and
  the two lists stay aligned), and that every event keeps it.
\<close>

section \<open>The grid's invariant\<close>

definition tile_fine :: "bool obj \<Rightarrow> tile \<Rightarrow> bool" where
  "tile_fine hl ti \<longleftrightarrow>
     tl_archived ti = (\<not> s_running (tl_sess ti)) \<and> tl_class ti = tl_checked ti \<and>
     tl_notified ti = (obj_get hl (s_id (tl_sess ti)) = Some True)"

definition marks_ok :: "hub \<Rightarrow> bool" where
  "marks_ok h \<longleftrightarrow> (\<forall>ti \<in> set (h_tiles h). tl_checked ti = (s_id (tl_sess ti) \<in> set (h_selected h)))"

definition bar_ok :: "hub \<Rightarrow> bool" where
  "bar_ok h \<longleftrightarrow>
     b_count (h_bar h) = (if h_selected h = [] then None else Some (length (h_selected h))) \<and>
     b_delDisabled (h_bar h) = (h_selected h = []) \<and>
     b_allChecked (h_bar h) = (h_snapshot h \<noteq> [] \<and> set (h_selected h) = s_id ` set (h_snapshot h)) \<and>
     b_selTitle (h_bar h) = (if b_allChecked (h_bar h) then ''section.batch.clearSelection'' else ''section.batch.selectAll'')"

definition sel_ok :: "hub \<Rightarrow> bool" where
  "sel_ok h \<longleftrightarrow> distinct (h_selected h) \<and> set (h_selected h) \<subseteq> s_id ` set (h_snapshot h)"

definition grid_inv :: "hub \<Rightarrow> bool" where
  "grid_inv h \<longleftrightarrow>
     ids_ok (h_snapshot h) \<and> map tl_sess (h_tiles h) = h_snapshot h \<and> (\<forall>ti \<in> set (h_tiles h). tile_fine (h_highlights h) ti) \<and>
     sel_ok h \<and> (\<forall>b \<in> set (h_batches h). snd b \<noteq> []) \<and> (h_batches h = [] \<longrightarrow> marks_ok h \<and> bar_ok h)"

lemma set_del_set [simp]: "set (set_del x xs) = set xs - {x}" "distinct xs \<Longrightarrow> distinct (set_del x xs)"
  by (auto simp: set_del_def)

lemma set_add_set [simp]: "set (set_add x xs) = insert x (set xs)" "distinct xs \<Longrightarrow> distinct (set_add x xs)"
  by (auto simp: set_add_def)

lemma drop_at_map: "map f (drop_at i xs) = drop_at i (map f xs)"
  by (simp add: drop_at_def take_map drop_map)

lemma set_drop_at: "set (drop_at i xs) \<subseteq> set xs"
  using set_take_subset set_drop_subset by (fastforce simp: drop_at_def)

lemma first_at_Some: "first_at P xs = Some k \<Longrightarrow> k < length xs \<and> P (xs ! k)"
  by (induction P xs arbitrary: k rule: first_at.induct) (auto split: if_splits)

lemma first_at_None: "first_at P xs = None \<longleftrightarrow> (\<forall>x \<in> set xs. \<not> P x)"
  by (induction P xs rule: first_at.induct) auto

lemma ids_nonempty: "ids_ok ss \<Longrightarrow> s \<in> set ss \<Longrightarrow> s_id s \<noteq> []"
  unfolding ids_ok_def by (metis imageI list.set_map)

lemma ids_filter: "ids_ok ss \<Longrightarrow> filter (\<lambda>s. s_id s \<noteq> []) ss = ss"
  using ids_nonempty by (intro filter_True) blast

text \<open>The bar is right whenever it is recomputed.\<close>

lemma all_selected:
  assumes "ids_ok ss" and "distinct sel" and "set sel \<subseteq> s_id ` set ss"
  shows "length (filter (\<lambda>s. s_id s \<noteq> []) ss) \<le> length sel \<longleftrightarrow> set sel = s_id ` set ss"
proof -
  have "filter (\<lambda>s. s_id s \<noteq> []) ss = ss" by (rule ids_filter [OF assms(1)])
  moreover have "length ss = card (s_id ` set ss)" using assms(1) by (metis distinct_card ids_ok_def length_map list.set_map)
  moreover have "length sel = card (set sel)" using assms(2) by (simp add: distinct_card)
  moreover have "card (s_id ` set ss) \<le> card (set sel) \<longleftrightarrow> set sel = s_id ` set ss"
    using assms(3) card_seteq [of "s_id ` set ss" "set sel"] by auto
  ultimately show ?thesis by simp
qed

lemma batch_bar_ok:
  assumes "ids_ok (h_snapshot h)" and "sel_ok h"
  shows "bar_ok (updateSessionBatchBar h)"
proof -
  have "filter (\<lambda>s. s_id s \<noteq> []) (h_snapshot h) = h_snapshot h" by (rule ids_filter [OF assms(1)])
  then show ?thesis using all_selected [OF assms(1)] assms(2)
    by (auto simp: bar_ok_def updateSessionBatchBar_def sel_ok_def Let_def)
qed

lemma batch_bar_fields [simp]:
  "h_snapshot (updateSessionBatchBar h) = h_snapshot h" "h_selected (updateSessionBatchBar h) = h_selected h"
  "h_highlights (updateSessionBatchBar h) = h_highlights h" "h_tiles (updateSessionBatchBar h) = h_tiles h"
  "h_batches (updateSessionBatchBar h) = h_batches h" "h_wins (updateSessionBatchBar h) = h_wins h"
  "h_rv (updateSessionBatchBar h) = h_rv h" "h_net (updateSessionBatchBar h) = h_net h"
  "h_cards (updateSessionBatchBar h) = h_cards h" "h_requests (updateSessionBatchBar h) = h_requests h"
  "h_banner (updateSessionBatchBar h) = h_banner h"
  by (simp_all add: updateSessionBatchBar_def Let_def)

lemma render_fields [simp]:
  "h_snapshot (renderSessionGrid t ss b h) = h_snapshot h" "h_highlights (renderSessionGrid t ss b h) = h_highlights h"
  "h_batches (renderSessionGrid t ss b h) = h_batches h" "h_wins (renderSessionGrid t ss b h) = h_wins h"
  "h_net (renderSessionGrid t ss b h) = h_net h" "h_cards (renderSessionGrid t ss b h) = h_cards h"
  "h_requests (renderSessionGrid t ss b h) = h_requests h" "h_banner (renderSessionGrid t ss b h) = b"
  "h_rv (renderSessionGrid t ss b h) = grid_review t (map s_id ss) (h_rv h)"
  by (simp_all add: renderSessionGrid_def Let_def)

lemma render_grid:
  assumes i: "ids_ok (h_snapshot h)" and s: "distinct (h_selected h)" and b: "\<forall>b \<in> set (h_batches h). snd b \<noteq> []"
  shows "grid_inv (renderSessionGrid t (h_snapshot h) banner h)" "marks_ok (renderSessionGrid t (h_snapshot h) banner h)"
    "bar_ok (renderSessionGrid t (h_snapshot h) banner h)"
proof -
  define r where "r = renderSessionGrid t (h_snapshot h) banner h"
  have sel: "sel_ok r" using s by (auto simp: sel_ok_def r_def renderSessionGrid_def Let_def)
  have ne: "\<forall>s \<in> set (h_snapshot h). s_id s \<noteq> []" using ids_nonempty [OF i] by blast
  have bar: "bar_ok r"
  proof (cases "h_snapshot h = []")
    case True
    define e where "e = h\<lparr>h_banner := banner, h_rv := grid_review t [] (h_rv h), h_selected := [], h_tiles := []\<rparr>"
    have "bar_ok (updateSessionBatchBar e)" using i by (intro batch_bar_ok) (simp_all add: e_def sel_ok_def)
    then show ?thesis using True by (simp add: r_def renderSessionGrid_def Let_def e_def bar_ok_def)
  next
    case False
    then obtain e where e: "r = updateSessionBatchBar e" "h_snapshot e = h_snapshot h"
      by (simp add: r_def renderSessionGrid_def Let_def)
    then have "sel_ok e" using sel by (simp add: sel_ok_def)
    then show ?thesis unfolding e(1) using i e(2) by (intro batch_bar_ok) simp_all
  qed
  have marks: "marks_ok r" using ne by (auto simp: marks_ok_def r_def renderSessionGrid_def sess_tile_def Let_def)
  have "map tl_sess (h_tiles r) = h_snapshot h" by (auto simp: r_def renderSessionGrid_def sess_tile_def Let_def o_def)
  moreover have "\<forall>ti \<in> set (h_tiles r). tile_fine (h_highlights r) ti"
    using ne by (auto simp: r_def renderSessionGrid_def sess_tile_def Let_def tile_fine_def)
  ultimately have "grid_inv r" using i b sel marks bar by (simp add: grid_inv_def r_def)
  then show "grid_inv (renderSessionGrid t (h_snapshot h) banner h)" "marks_ok (renderSessionGrid t (h_snapshot h) banner h)"
    "bar_ok (renderSessionGrid t (h_snapshot h) banner h)" using marks bar by (simp_all add: r_def)
qed

text \<open>What the grid's invariant reads.\<close>

definition grid_part :: "hub \<Rightarrow> sess list \<times> tile list \<times> bool obj \<times> string list \<times> (string \<times> string list) list \<times> batch_bar" where
  "grid_part h = (h_snapshot h, h_tiles h, h_highlights h, h_selected h, h_batches h, h_bar h)"

lemma grid_cong: "grid_part h' = grid_part h \<Longrightarrow> grid_inv h' = grid_inv h"
  by (simp add: grid_part_def grid_inv_def sel_ok_def marks_ok_def bar_ok_def)

lemma grid_part_wins [simp]:
  "grid_part (close_win i h) = grid_part h" "grid_part (close_sid sid h) = grid_part h" "grid_part (lock_win i h) = grid_part h"
  "grid_part (mode_win t ans i on h) = grid_part h" "grid_part (open_win t ans sid ro h) = grid_part h"
  "grid_part (focus_session t ans sid ro h) = grid_part h" "grid_part (open_pending h) = grid_part h"
  "grid_part (finalize_win t ans i sid shell h) = grid_part h" "grid_part (win_step i e h) = grid_part h"
  "grid_part (h\<lparr>h_rv := r\<rparr>) = grid_part h" "grid_part (open_review t ans sid h) = grid_part h" "grid_part (h\<lparr>h_cards := c\<rparr>) = grid_part h" "grid_part (set_win_notified sid b h) = grid_part h"
  by (simp_all add: grid_part_def close_win_def close_sid_def lock_win_def mode_win_def open_win_def focus_session_def open_pending_def
      finalize_win_def win_step_def set_win_notified_def open_review_def Let_def split: option.split)

lemmas grid_wins [simp] = grid_part_wins [THEN grid_cong]

lemma grid_partD: "grid_part h' = grid_part h \<Longrightarrow>
    h_snapshot h' = h_snapshot h \<and> h_tiles h' = h_tiles h \<and> h_highlights h' = h_highlights h \<and> h_selected h' = h_selected h \<and>
    h_batches h' = h_batches h \<and> h_bar h' = h_bar h"
  by (simp add: grid_part_def)

lemmas grid_part_fields [simp] = grid_part_wins [THEN grid_partD, THEN conjunct1]

lemma session_map_get: "obj_get (session_map ss) k \<noteq> None \<longleftrightarrow> k \<noteq> [] \<and> k \<in> s_id ` set ss"
proof -
  have "obj_get (foldl (\<lambda>m s. if s_id s \<noteq> [] then obj_set m (s_id s) s else m) m ss) k \<noteq> None \<longleftrightarrow>
      obj_get m k \<noteq> None \<or> (k \<noteq> [] \<and> k \<in> s_id ` set ss)" for m
    by (induction ss arbitrary: m) (auto simp: obj_get_set)
  then show ?thesis by (simp add: session_map_def)
qed

lemma keep_keys_get: "obj_get (keep_keys live ob) k = (if obj_get live k \<noteq> None then obj_get ob k else None)"
  by (induction ob) (auto simp: keep_keys_def obj_get_def)

text \<open>Letting go of what no tile shows.\<close>

lemma grid_forget:
  assumes h: "grid_inv h" and s: "h_selected h' = h_selected h" and part: "h_snapshot h' = h_snapshot h" "h_tiles h' = h_tiles h"
    "h_batches h' = h_batches h" "h_bar h' = h_bar h"
    and hl: "\<And>k. k \<in> s_id ` set (h_snapshot h) \<Longrightarrow> obj_get (h_highlights h') k = obj_get (h_highlights h) k"
  shows "grid_inv h'"
proof -
  have "s_id (tl_sess ti) \<in> s_id ` set (h_snapshot h)" if "ti \<in> set (h_tiles h)" for ti
    using h that unfolding grid_inv_def by (metis imageI list.set_map)
  then have "\<forall>ti \<in> set (h_tiles h). tile_fine (h_highlights h') ti" using h hl by (simp add: grid_inv_def tile_fine_def)
  then show ?thesis using h s part by (simp add: grid_inv_def sel_ok_def marks_ok_def bar_ok_def)
qed

lemma set_del_id: "x \<notin> set xs \<Longrightarrow> set_del x xs = xs"
  by (auto simp: set_del_def intro!: filter_True)

lemma release_grid:
  assumes h: "grid_inv h" and p: "p \<notin> s_id ` set (h_snapshot h)"
  shows "grid_inv (releaseSessionUIState p h)"
proof (cases "p = []")
  case False
  have "p \<notin> set (h_selected h)" using h p by (auto simp: grid_inv_def sel_ok_def)
  then show ?thesis using False p
    by (intro grid_forget [OF h]) (auto simp: releaseSessionUIState_def set_del_id obj_get_del)
qed (use h in \<open>simp add: releaseSessionUIState_def\<close>)

lemma prune_grid:
  assumes h: "grid_inv h" and b: "byId = session_map (h_snapshot h)"
  shows "grid_inv (pruneDeadSessionUIState byId h)"
proof -
  have ne: "k \<noteq> []" if "k \<in> s_id ` set (h_snapshot h)" for k using ids_nonempty [of "h_snapshot h"] h that by (auto simp: grid_inv_def)
  have "\<forall>i \<in> set (h_selected h). obj_get byId i \<noteq> None"
    using h ne session_map_get [of "h_snapshot h"] unfolding b grid_inv_def sel_ok_def by blast
  then have "filter (\<lambda>i. obj_get byId i \<noteq> None) (h_selected h) = h_selected h" by (intro filter_True) blast
  then show ?thesis using ne session_map_get [of "h_snapshot h"] unfolding b
    by (intro grid_forget [OF h]) (auto simp: pruneDeadSessionUIState_def keep_keys_get)
qed

lemma release_fields [simp]:
  "h_snapshot (releaseSessionUIState p h) = h_snapshot h" "h_wins (releaseSessionUIState p h) = h_wins h"
  "h_rv (releaseSessionUIState p h) = h_rv h" "h_batches (releaseSessionUIState p h) = h_batches h"
  by (simp_all add: releaseSessionUIState_def)

lemma reconcile_grid:
  assumes "grid_inv h" and "byId = session_map (h_snapshot h)"
  shows "grid_inv (reconcile_loop t ans byId k i h) \<and> h_snapshot (reconcile_loop t ans byId k i h) = h_snapshot h"
  using assms
proof (induction k arbitrary: i h)
  case (Suc k)
  obtain j h' where r: "reconcile_win t ans byId i h = (j, h')" by fastforce
  let ?p = "c_parentSid (sw_c (h_wins h ! i))"
  have "grid_inv h' \<and> h_snapshot h' = h_snapshot h"
  proof (cases "?p = [] \<or> sw_placeholder (h_wins h ! i)")
    case False
    then show ?thesis
    proof (cases "obj_get byId ?p")
      case None
      then have "?p \<notin> s_id ` set (h_snapshot h)" using False session_map_get [of "h_snapshot h" ?p] Suc.prems(2) by simp
      then show ?thesis using r None False release_grid [OF Suc.prems(1)] by (auto simp: reconcile_win_def Let_def)
    qed (use r False Suc.prems(1) in \<open>auto simp: reconcile_win_def Let_def split: if_splits\<close>)
  qed (use r Suc.prems(1) in \<open>auto simp: reconcile_win_def Let_def\<close>)
  then show ?case using Suc.IH [of h' j] Suc.prems(2) r by simp
qed simp

lemma snapshot_grid:
  assumes h: "grid_inv h" and ss: "ids_ok ss"
  shows "grid_inv (applySessionsSnapshot t ans ss h)"
proof -
  define h1 where "h1 = renderSessionGrid t ss [] (h\<lparr>h_snapshot := ss\<rparr>)"
  have h1: "grid_inv h1" "h_snapshot h1 = ss"
    using render_grid(1) [of "h\<lparr>h_snapshot := ss\<rparr>" t "[]"] h ss by (simp_all add: h1_def grid_inv_def sel_ok_def)
  have r: "grid_inv (reconcile_loop t ans (session_map ss) k 0 h1)" "h_snapshot (reconcile_loop t ans (session_map ss) k 0 h1) = ss" for k
    using reconcile_grid [OF h1(1), of "session_map ss"] h1(2) by simp_all
  show ?thesis unfolding applySessionsSnapshot_def Let_def h1_def [symmetric] using r by (intro prune_grid) simp_all
qed

text \<open>Marking a tile.\<close>

lemma notified_grid:
  assumes h: "grid_inv h" and sid: "sid \<noteq> []"
    and hl: "obj_get hl sid = (if b then Some True else None)" "\<And>k. k \<noteq> sid \<Longrightarrow> obj_get hl k = obj_get (h_highlights h) k"
  shows "grid_inv (set_tile_notified sid b (h\<lparr>h_highlights := hl\<rparr>))"
proof -
  define g where "g = set_tile_notified sid b (h\<lparr>h_highlights := hl\<rparr>)"
  have tiles: "h_tiles g = map (\<lambda>ti. if s_id (tl_sess ti) = sid then ti\<lparr>tl_notified := b\<rparr> else ti) (h_tiles h)"
  proof (cases "first_at (\<lambda>ti. s_id (tl_sess ti) = sid) (h_tiles h)")
    case None
    then have "map (\<lambda>ti. if s_id (tl_sess ti) = sid then ti\<lparr>tl_notified := b\<rparr> else ti) (h_tiles h) = h_tiles h"
      unfolding first_at_None by (intro map_idI) simp
    then show ?thesis using None by (simp add: g_def set_tile_notified_def)
  next
    case (Some k)
    have "distinct (map (s_id \<circ> tl_sess) (h_tiles h))" using h by (simp add: grid_inv_def ids_ok_def flip: map_map)
    then show ?thesis using first_at_Some [OF Some] Some
      by (auto simp: g_def set_tile_notified_def nth_list_update distinct_conv_nth intro!: nth_equalityI)
  qed
  have rest: "h_snapshot g = h_snapshot h" "h_selected g = h_selected h" "h_batches g = h_batches h" "h_bar g = h_bar h" "h_highlights g = hl"
    by (simp_all add: g_def set_tile_notified_def split: option.split)
  have "map tl_sess (h_tiles g) = h_snapshot h" using h by (auto simp: tiles grid_inv_def o_def if_distrib cong: if_cong)
  moreover have "\<forall>ti \<in> set (h_tiles g). tile_fine hl ti" using h hl by (auto simp: tiles grid_inv_def tile_fine_def split: if_splits)
  moreover have "marks_ok h \<Longrightarrow> marks_ok g" by (auto simp: marks_ok_def tiles rest)
  ultimately show ?thesis unfolding g_def [symmetric] using h rest by (simp add: grid_inv_def sel_ok_def bar_ok_def)
qed

lemma mark_grid: "grid_inv h \<Longrightarrow> grid_inv (markSessNotified sid h)"
  by (simp add: markSessNotified_def) (auto intro!: notified_grid simp: obj_get_set)

lemma clear_grid: "grid_inv h \<Longrightarrow> grid_inv (clearSessNotified sid h)"
  by (simp add: clearSessNotified_def) (auto intro!: notified_grid simp: obj_get_del)

lemma dismiss_grid: "grid_inv h \<Longrightarrow> grid_inv (dismissUiNotify c h)"
  by (auto simp: dismissUiNotify_def Let_def intro!: clear_grid)

text \<open>Selecting.\<close>

lemma check_grid:
  assumes h: "grid_inv h" and k: "k < length (h_tiles h)"
  shows "grid_inv (checkbox_click k h)"
proof -
  define ti where "ti = h_tiles h ! k"
  define g where "g = h\<lparr>h_tiles := (h_tiles h)[k := ti\<lparr>tl_checked := \<not> tl_checked ti, tl_class := \<not> tl_checked ti\<rparr>],
      h_selected := (if \<not> tl_checked ti then set_add (s_id (tl_sess ti)) (h_selected h) else set_del (s_id (tl_sess ti)) (h_selected h))\<rparr>"
  have e: "checkbox_click k h = updateSessionBatchBar g" by (simp add: checkbox_click_def g_def ti_def Let_def)
  have tin: "ti \<in> set (h_tiles h)" using k by (simp add: ti_def)
  have d: "distinct (map (s_id \<circ> tl_sess) (h_tiles h))" using h by (simp add: grid_inv_def ids_ok_def flip: map_map)
  have "tl_sess ti = h_snapshot h ! k" using h k by (metis grid_inv_def nth_map ti_def)
  then have "map tl_sess (h_tiles g) = h_snapshot h" using h by (simp add: g_def grid_inv_def map_update)
  moreover have "\<forall>x \<in> set (h_tiles g). tile_fine (h_highlights h) x"
    using h tin by (auto simp: g_def grid_inv_def tile_fine_def dest!: set_update_subset_insert [THEN subsetD])
  moreover have s: "sel_ok g"
  proof -
    have "s_id (tl_sess ti) \<in> s_id ` set (h_snapshot h)" using h tin unfolding grid_inv_def by (metis imageI list.set_map)
    then show ?thesis using h by (auto simp: g_def sel_ok_def grid_inv_def)
  qed
  moreover have "marks_ok g" if "marks_ok h"
  proof -
    have "tl_checked (h_tiles g ! j) = (s_id (tl_sess (h_tiles g ! j)) \<in> set (h_selected g))" if "j < length (h_tiles g)" for j
    proof (cases "j = k")
      case False
      then have "s_id (tl_sess (h_tiles h ! j)) \<noteq> s_id (tl_sess ti)" using d that k by (auto simp: g_def ti_def distinct_conv_nth)
      then show ?thesis using \<open>marks_ok h\<close> that False by (auto simp: g_def marks_ok_def)
    qed (use k in \<open>auto simp: g_def\<close>)
    then show ?thesis unfolding marks_ok_def by (metis in_set_conv_nth)
  qed
  moreover have "bar_ok (updateSessionBatchBar g)" using s h by (intro batch_bar_ok) (simp_all add: g_def grid_inv_def)
  moreover have "sel_ok (updateSessionBatchBar g) = sel_ok g" "marks_ok (updateSessionBatchBar g) = marks_ok g" by (simp_all add: sel_ok_def marks_ok_def)
  ultimately show ?thesis unfolding e using h by (simp add: grid_inv_def g_def)
qed

lemma fold_set_del: "set (foldl (\<lambda>sel i. set_del i sel) sel ids) = set sel - set ids" "distinct sel \<Longrightarrow> distinct (foldl (\<lambda>sel i. set_del i sel) sel ids)"
  by (induction ids arbitrary: sel) auto

lemma fold_set_add: "set (foldl (\<lambda>sel i. set_add i sel) sel ids) = set sel \<union> set ids" "distinct sel \<Longrightarrow> distinct (foldl (\<lambda>sel i. set_add i sel) sel ids)"
  by (induction ids arbitrary: sel) auto

lemma grid_invD:
  assumes "grid_inv h"
  shows "ids_ok (h_snapshot h)" "map tl_sess (h_tiles h) = h_snapshot h" "distinct (h_selected h)" "set (h_selected h) \<subseteq> s_id ` set (h_snapshot h)"
    "\<forall>b \<in> set (h_batches h). snd b \<noteq> []"
  using assms by (simp_all add: grid_inv_def sel_ok_def)

lemma select_all_grid: "grid_inv h \<Longrightarrow> grid_inv (select_all_click t h)"
proof -
  have g: "grid_inv (renderSessionGrid t (h_snapshot h) [] (h\<lparr>h_selected := sel\<rparr>))" if "grid_inv h" "distinct sel" for sel
    using render_grid(1) [of "h\<lparr>h_selected := sel\<rparr>" t "[]"] grid_invD [OF that(1)] that(2) by simp
  show "grid_inv h \<Longrightarrow> ?thesis" unfolding select_all_click_def Let_def
    by (rule g) (simp_all add: grid_invD fold_set_del fold_set_add)
qed

lemma rerender_grid: "grid_inv h \<Longrightarrow> grid_inv (renderSessionGrid t (h_snapshot h) b h)"
  by (rule render_grid(1)) (auto simp: grid_invD)

lemma forwards_grid: "grid_inv h \<Longrightarrow> grid_inv (forwards_loaded t ans h)"
proof -
  have f: "grid_inv h \<Longrightarrow> grid_inv (h\<lparr>h_forwards := fs\<rparr>)" for fs by (subst grid_cong [of _ h]) (simp_all add: grid_part_def)
  show "grid_inv h \<Longrightarrow> ?thesis" using f rerender_grid [of "h\<lparr>h_forwards := fs\<rparr>" for fs] by (auto simp: forwards_loaded_def split: option.split)
qed

text \<open>Batches.\<close>

lemma start_grid: "grid_inv h \<Longrightarrow> grid_inv (start_batch t key fail targets h)"
  by (auto simp: start_batch_def grid_inv_def sel_ok_def split: list.split)

lemma answer_grid:
  assumes h: "grid_inv h" and j: "j < length (h_batches h)"
  shows "grid_inv (batch_answer t j err h)"
proof -
  have bd: "\<forall>b \<in> set (drop_at j (h_batches h)). snd b \<noteq> []" using grid_invD(5) [OF h] set_drop_at [of j "h_batches h"] by blast
  show ?thesis
  proof (cases err)
    case (Some msg)
    then show ?thesis
      using render_grid(1) [of "h\<lparr>h_batches := drop_at j (h_batches h), h_banner := t (fst (h_batches h ! j)) (Some [(''msg'', msg)])\<rparr>" t "[]"]
        grid_invD [OF h] bd by (simp add: batch_answer_def)
  next
    case None
    define b where "b = snd (h_batches h ! j)"
    define h1 where "h1 = close_sid (hd b) h"
    have p: "grid_part h1 = grid_part h" by (simp add: h1_def)
    note f = grid_partD [OF p]
    show ?thesis
    proof (cases "tl b")
      case Nil
      have "batch_answer t j err h = renderSessionGrid t (h_snapshot h1) []
          (h1\<lparr>h_selected := set_del (hd b) (h_selected h1), h_batches := drop_at j (h_batches h1), h_banner := []\<rparr>)"
        by (simp add: batch_answer_def None b_def [symmetric] h1_def [symmetric] Let_def Nil)
      then show ?thesis
        using render_grid(1) [of "h1\<lparr>h_selected := set_del (hd b) (h_selected h1), h_batches := drop_at j (h_batches h1), h_banner := []\<rparr>" t "[]"]
          f grid_invD [OF h] bd by simp
    next
      case (Cons i js)
      have e: "batch_answer t j err h = h1\<lparr>h_selected := set_del (hd b) (h_selected h1),
          h_batches := (h_batches h1)[j := (fst (h_batches h ! j), i # js)], h_requests := h_requests h1 @ [delete_url i]\<rparr>"
        by (simp add: batch_answer_def None b_def [symmetric] h1_def [symmetric] Let_def Cons)
      have "\<forall>x \<in> set ((h_batches h)[j := (fst (h_batches h ! j), i # js)]). snd x \<noteq> []"
        using grid_invD(5) [OF h] by (auto dest!: set_update_subset_insert [THEN subsetD])
      moreover have "h_batches h \<noteq> []" using j by auto
      ultimately show ?thesis unfolding e using f h by (auto simp: grid_inv_def sel_ok_def)
    qed
  qed
qed

lemma rename_ids: "ids_ok (map (\<lambda>x. if s_id x = k then x\<lparr>s_name := n\<rparr> else x) ss) = ids_ok ss"
proof -
  have "map s_id (map (\<lambda>x. if s_id x = k then x\<lparr>s_name := n\<rparr> else x) ss) = map s_id ss" by simp
  then show ?thesis unfolding ids_ok_def by metis
qed

lemma socket_grid: "grid_inv h \<Longrightarrow> grid_inv (socket_opened t n h)" "grid_inv h \<Longrightarrow> grid_inv (socket_closed t n wait h)"
proof -
  assume h: "grid_inv h"
  have g: "grid_inv (h\<lparr>h_net := n, h_banner := b\<rparr>)" "grid_inv (h\<lparr>h_net := n\<rparr>)" for b
    using h by (subst grid_cong [of _ h]; simp add: grid_part_def)+
  then show "grid_inv (socket_opened t n h)" by (simp add: socket_opened_def)
  show "grid_inv (socket_closed t n wait h)" using g(2) rerender_grid [OF g(2)] by (simp add: socket_closed_def split: option.split)
qed

lemma hub_op_grid:
  assumes h: "grid_inv h" and e: "hub_enabled h ev"
  shows "grid_inv (hub_op t h ev)"
proof (cases ev)
  case (HRename ans k input)
  then show ?thesis using h grid_invD(1) [OF h] rename_ids by (auto simp: rename_session_def Let_def intro!: snapshot_grid)
next
  case (HBatchAnswer j err)
  then show ?thesis using answer_grid [OF h] e by simp
next
  case (HCheck k)
  then show ?thesis using check_grid [OF h] e by simp
qed (use h e in \<open>auto simp: batch_delete_def clear_dead_def tile_delete_def tile_click_def card_click_def showUiNotify_def Let_def
    intro: snapshot_grid forwards_grid rerender_grid select_all_grid start_grid mark_grid clear_grid dismiss_grid socket_grid\<close>)

section \<open>The windows' invariant\<close>

text \<open>A channel event never changes which session a window belongs to.\<close>

lemma parent_switch [simp]: "c_parentSid (switchChannelTab sid w) = c_parentSid w" "c_sid (switchChannelTab sid w) = c_sid w"
  by (simp_all add: switchChannelTab_def)

lemma parent_create [simp]: "c_parentSid (createChannelTab sid l roh w) = c_parentSid w" "c_sid (createChannelTab sid l roh w) = c_sid w"
  by (simp_all add: createChannelTab_def Let_def)

lemma parent_close [simp]: "c_parentSid (fst (closeChannelTab sid w n)) = c_parentSid w" "c_sid (fst (closeChannelTab sid w n)) = c_sid w"
  by (simp_all add: closeChannelTab_def Let_def remove_channel_def showChannelEmpty_def split: option.split)

lemma parent_lock [simp]: "c_parentSid (fst (lockWindowReadonly w n)) = c_parentSid w" "c_sid (fst (lockWindowReadonly w n)) = c_sid w"
  by (simp_all add: lockWindowReadonly_def setWindowDeadBadge_def)

lemma parent_creates:
  "c_parentSid (foldl (\<lambda>v s. createChannelTab (f s) [] roh v) w ss) = c_parentSid w \<and> c_sid (foldl (\<lambda>v s. createChannelTab (f s) [] roh v) w ss) = c_sid w"
  by (induction ss arbitrary: w) simp_all

lemma parent_add: "c_parentSid (add_missing roh sids w) = c_parentSid w \<and> c_sid (add_missing roh sids w) = c_sid w"
  unfolding add_missing_def by (induction sids arbitrary: w) simp_all

lemma parent_prune: "c_parentSid (fst (prune_tabs listed keys w n)) = c_parentSid w \<and> c_sid (fst (prune_tabs listed keys w n)) = c_sid w"
  unfolding prune_tabs_def
proof (induction keys arbitrary: w n)
  case (Cons k ks)
  then show ?case by (cases "closeChannelTab k w n") (use parent_close [of k w n] in auto)
qed simp

lemma parent_step: "c_parentSid (fst (ch_step (w, n) e)) = c_parentSid w \<and> c_sid (fst (ch_step (w, n) e)) = c_sid w"
proof (cases e)
  case (ChSync shells)
  then show ?thesis by (simp add: syncWindowTabs_def Let_def parent_add parent_prune)
next
  case (ChOpenTabs ro la shells)
  then show ?thesis by (auto simp: openTabs_def Let_def parent_creates showChannelEmpty_def split: option.split)
qed (auto simp: historyDone_def onData_def unlockInput_def terminalFrame_def terminalDone_def upd_ch_def Let_def split: option.splits)

text \<open>What a review event leaves of the windows.\<close>

definition rv_parents :: "review_ui \<Rightarrow> string list" where
  "rv_parents ui = map rw_parentSid (rwins ui)"

lemma parents_upd: "(\<And>w. rw_parentSid (f w) = rw_parentSid w) \<Longrightarrow> rv_parents (upd_win i f ui) = rv_parents ui"
  by (auto simp: rv_parents_def upd_win_def map_update list_update_same_conv)

lemma parents_paint [simp]: "rv_parents (applyApprovalCounts t ui) = rv_parents ui"
  by (simp add: rv_parents_def applyApprovalCounts_def o_def)

lemma parents_keep [simp]: "rv_parents (keepApprovalCounts t a ui) = rv_parents ui"
  by (simp add: keepApprovalCounts_def) (simp add: rv_parents_def)

lemma parents_load [simp]: "rv_parents (loadReviewQueue t ans i ui) = rv_parents ui"
  by (simp add: loadReviewQueue_def parents_upd split: option.split)

lemma parents_mode [simp]: "rv_parents (applyApprovalMode t ans i on ui) = rv_parents ui"
  by (simp add: applyApprovalMode_def Let_def parents_upd paintReviewLabels_def updateReviewLockTitle_def)

lemma parents_tabbar [simp]: "rv_parents (tabbar_review t ui) = rv_parents ui"
  by (simp add: tabbar_review_def) (simp add: rv_parents_def)

lemma parents_grid [simp]: "rv_parents (grid_review t sids ui) = rv_parents ui"
  by (simp add: grid_review_def rv_parents_def)

lemma parents_clear [simp]: "rv_parents (clearApprovalCount t sid ui) = rv_parents ui"
  by (simp add: clearApprovalCount_def) (simp add: rv_parents_def)

lemma parents_step:
  assumes "hub_enabled h (HReview e)"
  shows "rv_parents (rv_step t ui e) = rv_parents ui"
  using assms
  by (cases e) (auto simp: refreshApprovalCounts_def setReviewSheetOpen_def decideApproval_def applyReviewToggle_def Let_def parents_upd
      split: option.split)

definition wins_inv :: "translate \<Rightarrow> hub \<Rightarrow> bool" where
  "wins_inv t h \<longleftrightarrow>
     (\<forall>w \<in> set (h_wins h). win_inv (sw_c w)) \<and> rv_inv t (h_rv h) \<and> rv_parents (h_rv h) = map (c_parentSid \<circ> sw_c) (h_wins h)"

lemma wins_cong: "h_wins h' = h_wins h \<Longrightarrow> h_rv h' = h_rv h \<Longrightarrow> wins_inv t h' = wins_inv t h"
  by (simp add: wins_inv_def)

lemma wins_rv:
  assumes "wins_inv t h" and "rv_inv t r" and "rv_parents r = rv_parents (h_rv h)"
  shows "wins_inv t (h\<lparr>h_rv := r\<rparr>)"
  using assms by (simp add: wins_inv_def)

lemma rv_drop: "rv_inv t ui \<Longrightarrow> rv_inv t (ui\<lparr>rwins := drop_at i (rwins ui)\<rparr>)"
  using set_drop_at [of i "rwins ui"] by (auto simp: rv_inv_def)

lemma wins_render: "wins_inv t h \<Longrightarrow> wins_inv t (renderSessionGrid t ss b h)"
  using rv_step_inv [of t "h_rv h" "RvGrid (map s_id ss)"] by (simp add: wins_inv_def)

lemma wins_close: "wins_inv t h \<Longrightarrow> wins_inv t (close_win i h)"
  using set_drop_at [of i "h_wins h"] rv_drop [of t "h_rv h" i]
  by (auto simp: wins_inv_def close_win_def Let_def rv_parents_def drop_at_map)

lemma wins_close_sid: "wins_inv t h \<Longrightarrow> wins_inv t (close_sid sid h)"
  by (simp add: close_sid_def wins_close split: option.split)

lemma wins_upd:
  assumes h: "wins_inv t h" and i: "i < length (h_wins h)" and w: "win_inv (sw_c w)" "c_parentSid (sw_c w) = c_parentSid (sw_c (h_wins h ! i))"
  shows "wins_inv t (h\<lparr>h_wins := (h_wins h)[i := w], h_net := n\<rparr>)"
proof -
  have "map (c_parentSid \<circ> sw_c) ((h_wins h)[i := w]) = map (c_parentSid \<circ> sw_c) (h_wins h)"
    using w(2) i by (simp add: map_update list_update_same_conv)
  moreover have "\<forall>v \<in> set ((h_wins h)[i := w]). win_inv (sw_c v)"
    using h w(1) by (auto simp: wins_inv_def dest!: set_update_subset_insert [THEN subsetD])
  ultimately show ?thesis using h by (simp add: wins_inv_def)
qed

lemma wins_at: "wins_inv t h \<Longrightarrow> i < length (h_wins h) \<Longrightarrow> win_inv (sw_c (h_wins h ! i))"
  by (simp add: wins_inv_def)

lemma wins_lock: "wins_inv t h \<Longrightarrow> i < length (h_wins h) \<Longrightarrow> wins_inv t (lock_win i h)"
  unfolding lock_win_def Let_def by (rule wins_upd) (simp_all add: lock_inv wins_at)

lemma wins_step: "wins_inv t h \<Longrightarrow> i < length (h_wins h) \<Longrightarrow> ch_enabled (sw_c (h_wins h ! i), h_net h) e \<Longrightarrow> wins_inv t (win_step i e h)"
  unfolding win_step_def Let_def using ch_step_inv [of "(sw_c (h_wins h ! i), h_net h)" e] parent_step [of "sw_c (h_wins h ! i)" "h_net h" e]
  by (intro wins_upd) (simp_all add: wins_at)

lemma wins_mode: "wins_inv t h \<Longrightarrow> wins_inv t (mode_win t ans i on h)"
  unfolding mode_win_def by (rule wins_rv) (auto simp: wins_inv_def intro!: mode_inv rv_inv_modes)

lemma fresh_modes: "modes_ok ui \<Longrightarrow> modes_ok (ui\<lparr>rwins := rwins ui @ [fresh_rwin sid]\<rparr>)"
  by (auto simp: modes_ok_def mode_ok_def fresh_rwin_def)

lemma new_win_inv [simp]: "win_inv (new_cwin sid ro)" "c_parentSid (new_cwin sid ro) = sid" "c_sid (new_cwin sid ro) = sid"
  by (simp_all add: new_cwin_def win_inv_def obj_ok_def)

lemma wins_open: "wins_inv t h \<Longrightarrow> wins_inv t (open_win t ans sid ro h)"
proof -
  assume h: "wins_inv t h"
  define r where "r = (h_rv h)\<lparr>rwins := rwins (h_rv h) @ [fresh_rwin sid]\<rparr>"
  have "rv_inv t (applyApprovalMode t ans i on r)" for i on
    using h unfolding r_def wins_inv_def by (intro mode_inv fresh_modes rv_inv_modes [of t]) simp
  moreover have "rv_parents r = map (c_parentSid \<circ> sw_c) (h_wins h) @ [sid]" using h by (simp add: wins_inv_def r_def rv_parents_def fresh_rwin_def)
  ultimately show ?thesis using h
    by (simp add: wins_inv_def open_win_def Let_def applyApprovalModeFromSnapshot_def r_def [symmetric])
qed

lemma win_at_lt: "win_at_sid sid h = Some i \<Longrightarrow> i < length (h_wins h)"
  unfolding win_at_sid_def using first_at_Some by fast

lemma wins_focus: "wins_inv t h \<Longrightarrow> wins_inv t (focus_session t ans sid ro h)"
  by (auto simp: focus_session_def wins_open wins_lock dest: win_at_lt split: option.split)

lemma wins_notified: "wins_inv t h \<Longrightarrow> wins_inv t (set_win_notified sid b h)"
proof (cases "win_at_sid sid h")
  case (Some i)
  assume h: "wins_inv t h"
  have "wins_inv t (h\<lparr>h_wins := (h_wins h)[i := (h_wins h ! i)\<lparr>sw_notified := b\<rparr>], h_net := h_net h\<rparr>)"
    using h win_at_lt [OF Some] by (intro wins_upd) (simp_all add: wins_at)
  then show ?thesis using Some by (simp add: set_win_notified_def)
qed (simp add: set_win_notified_def)

lemma wins_review: "wins_inv t h \<Longrightarrow> wins_inv t (open_review t ans sid h)"
proof (cases "win_at_sid sid h")
  case (Some i)
  assume h: "wins_inv t h"
  have "wins_inv t (h\<lparr>h_rv := rv_step t (h_rv h) (RvSheet i True ans)\<rparr>)"
    using h rv_step_inv [of t "h_rv h" "RvSheet i True ans"] parents_step [of h "RvSheet i True ans" t "h_rv h"]
    by (intro wins_rv [OF h]) (simp_all only: wins_inv_def hub_enabled.simps rv_event.case)
  then show ?thesis using Some h by (simp add: open_review_def)
qed (simp add: open_review_def)

lemma modes_tabbar: "modes_ok ui \<Longrightarrow> rv_inv t (tabbar_review t ui)"
  unfolding tabbar_review_def by (rule paint_inv) (simp add: modes_ok_def)

lemma wins_pending: "wins_inv t h \<Longrightarrow> wins_inv t ((open_pending h)\<lparr>h_rv := tabbar_review t (h_rv (open_pending h))\<rparr>)"
proof -
  assume h: "wins_inv t h"
  then have "modes_ok (h_rv (open_pending h))" unfolding open_pending_def wins_inv_def using fresh_modes [OF rv_inv_modes [of t "h_rv h"]] by simp
  then show ?thesis using h modes_tabbar by (simp add: wins_inv_def open_pending_def) (simp add: rv_parents_def fresh_rwin_def)
qed

lemma wins_final:
  assumes h: "wins_inv t h" and i: "i < length (h_wins h)" and sid: "sid \<noteq> []"
  shows "wins_inv t (finalize_win t ans i sid shell h)"
proof -
  define w where "w = h_wins h ! i"
  define c where "c = (sw_c w)\<lparr>c_sid := sid, c_parentSid := sid, c_primaryShellId := or_str shell sid\<rparr>"
  define r where "r = upd_win i (\<lambda>r. r\<lparr>rw_parentSid := sid\<rparr>) (h_rv h)"
  have len: "length (rwins (h_rv h)) = length (h_wins h)" using h unfolding wins_inv_def rv_parents_def by (metis length_map)
  have "win_inv c" using wins_at [OF h i] by (simp add: c_def w_def win_inv_def)
  then have "win_inv (createChannelTab (or_str shell sid) [] False c)" using sid by (intro create_inv) (auto simp: or_str_def)
  then have ws: "\<forall>v \<in> set ((h_wins h)[i := w\<lparr>sw_placeholder := False, sw_c := createChannelTab (or_str shell sid) [] False c\<rparr>]). win_inv (sw_c v)"
    using h by (auto simp: wins_inv_def dest!: set_update_subset_insert [THEN subsetD])
  have "modes_ok r" using h unfolding r_def wins_inv_def by (intro upd_win_modes rv_inv_modes [of t]) (simp_all add: mode_ok_def)
  then have rv: "rv_inv t (applyApprovalMode t ans i on r)" for on by (rule mode_inv)
  have "rv_parents r = (map (c_parentSid \<circ> sw_c) (h_wins h))[i := sid]"
    using h i len by (simp add: r_def rv_parents_def upd_win_def map_update wins_inv_def)
  then show ?thesis using ws rv
    by (simp add: wins_inv_def finalize_win_def Let_def applyApprovalModeFromSnapshot_def w_def [symmetric] c_def [symmetric] r_def [symmetric] map_update)
      (simp add: c_def)
qed

text \<open>Reconciling visits every window once.\<close>

lemma reconcile_length:
  assumes "reconcile_win t ans byId i h = (j, h')" and "i < length (h_wins h)"
  shows "j + length (h_wins h) = Suc i + length (h_wins h') \<and> j \<le> Suc i"
  using assms by (auto simp: reconcile_win_def close_win_def lock_win_def mode_win_def drop_at_def Let_def split: if_splits option.splits)

lemma wins_reconcile_win:
  assumes "wins_inv t h" and "i < length (h_wins h)" and "reconcile_win t ans byId i h = (j, h')"
  shows "wins_inv t h'"
proof -
  have "wins_inv t (releaseSessionUIState p h)" for p using assms(1) by (subst wins_cong [of _ h]) simp_all
  then show ?thesis using assms wins_lock wins_mode wins_close
    by (auto simp: reconcile_win_def Let_def split: if_splits option.splits)
qed

lemma wins_reconcile:
  "wins_inv t h \<Longrightarrow> i + k \<le> length (h_wins h) \<Longrightarrow> wins_inv t (reconcile_loop t ans byId k i h)"
proof (induction k arbitrary: i h)
  case (Suc k)
  obtain j h' where r: "reconcile_win t ans byId i h = (j, h')" by fastforce
  have "wins_inv t h'" by (rule wins_reconcile_win [OF Suc.prems(1) _ r]) (use Suc.prems(2) in simp)
  moreover have "j + k \<le> length (h_wins h')" using reconcile_length [OF r] Suc.prems(2) by simp
  ultimately show ?case using Suc.IH r by simp
qed simp

lemma wins_snapshot:
  assumes h: "wins_inv t h"
  shows "wins_inv t (applySessionsSnapshot t ans ss h)"
proof -
  define h1 where "h1 = renderSessionGrid t ss [] (h\<lparr>h_snapshot := ss\<rparr>)"
  have "wins_inv t (h\<lparr>h_snapshot := ss\<rparr>)" using h by (simp add: wins_inv_def)
  then have "wins_inv t h1" unfolding h1_def by (rule wins_render)
  then have "wins_inv t (reconcile_loop t ans (session_map ss) (length (h_wins h1)) 0 h1)" by (rule wins_reconcile) simp
  then show ?thesis unfolding applySessionsSnapshot_def Let_def h1_def [symmetric] by (subst wins_cong) (simp_all add: pruneDeadSessionUIState_def)
qed

lemma wins_tile: "wins_inv t h \<Longrightarrow> wins_inv t (set_tile_notified sid b h)"
  by (subst wins_cong [of _ h]) (simp_all add: set_tile_notified_def split: option.split)

lemma wins_fields:
  "wins_inv t (h\<lparr>h_highlights := x\<rparr>) = wins_inv t h" "wins_inv t (h\<lparr>h_cards := y\<rparr>) = wins_inv t h"
  by (simp_all add: wins_inv_def)

lemma wins_mark: "wins_inv t h \<Longrightarrow> wins_inv t (markSessNotified sid h)"
  by (simp add: markSessNotified_def wins_notified wins_tile wins_fields)

lemma wins_clear: "wins_inv t h \<Longrightarrow> wins_inv t (clearSessNotified sid h)"
  by (simp add: clearSessNotified_def wins_notified wins_tile wins_fields)

lemma wins_dismiss: "wins_inv t h \<Longrightarrow> wins_inv t (dismissUiNotify c h)"
  by (simp add: dismissUiNotify_def Let_def wins_clear wins_fields)

lemma wins_answer: "wins_inv t h \<Longrightarrow> wins_inv t (batch_answer t j err h)"
proof (cases err)
  case (Some msg)
  assume "wins_inv t h"
  then have "wins_inv t (h\<lparr>h_batches := drop_at j (h_batches h), h_banner := t (fst (h_batches h ! j)) (Some [(''msg'', msg)])\<rparr>)"
    by (simp add: wins_inv_def)
  then show ?thesis using wins_render Some by (simp add: batch_answer_def)
next
  case None
  assume "wins_inv t h"
  then have "wins_inv t (close_sid (hd (snd (h_batches h ! j))) h)" by (rule wins_close_sid)
  then have w: "wins_inv t ((close_sid (hd (snd (h_batches h ! j))) h)\<lparr>h_selected := s, h_batches := b, h_requests := r\<rparr>)"
    "wins_inv t ((close_sid (hd (snd (h_batches h ! j))) h)\<lparr>h_selected := s, h_batches := b, h_banner := m\<rparr>)" for s b r m
    by (simp_all add: wins_inv_def)
  show ?thesis using None w wins_render [OF w(2)]
    by (cases "tl (snd (h_batches h ! j))") (simp_all add: batch_answer_def Let_def)
qed

lemma wins_start: "wins_inv t h \<Longrightarrow> wins_inv t (start_batch t' key fail targets h)"
  by (subst wins_cong [of _ h]) (simp_all add: start_batch_def split: list.split)

lemma wins_socket: "wins_inv t h \<Longrightarrow> wins_inv t (socket_opened t' n h)" "wins_inv t h \<Longrightarrow> wins_inv t (socket_closed t n wait h)"
proof -
  assume h: "wins_inv t h"
  then have n: "wins_inv t (h\<lparr>h_net := n\<rparr>)" by (simp add: wins_inv_def)
  show "wins_inv t (socket_opened t' n h)" using h by (simp add: socket_opened_def wins_inv_def)
  show "wins_inv t (socket_closed t n wait h)" using n wins_render [OF n] by (simp add: socket_closed_def split: option.split)
qed

lemma wins_op:
  assumes h: "wins_inv t h" and e: "hub_enabled h ev" and p: "ev \<noteq> HPending"
  shows "wins_inv t (hub_op t h ev)"
proof (cases ev)
  case (HReview e')
  then show ?thesis using h rv_step_inv parents_step [of h e'] e by (auto simp: wins_inv_def intro!: wins_rv)
next
  case (HForwards fs)
  have "wins_inv t (h\<lparr>h_forwards := x\<rparr>)" for x using h by (simp add: wins_inv_def)
  then show ?thesis using HForwards wins_render by (auto simp: forwards_loaded_def split: option.split)
next
  case HSelectAll
  have "wins_inv t (h\<lparr>h_selected := x\<rparr>)" for x using h by (simp add: wins_inv_def)
  then show ?thesis using HSelectAll wins_render by (simp add: select_all_click_def Let_def)
next
  case (HCheck k)
  then show ?thesis using h by (simp add: wins_inv_def checkbox_click_def Let_def)
next
  case (HFinal ans i sid shell)
  then show ?thesis using e wins_final [OF h] by simp
next
  case (HWin i e')
  then show ?thesis using e wins_step [OF h] by simp
qed (use h e p in \<open>auto simp: batch_delete_def clear_dead_def tile_delete_def rename_session_def tile_click_def card_click_def
    showUiNotify_def wins_fields Let_def
    intro: wins_start wins_snapshot wins_render wins_close wins_close_sid wins_focus wins_review wins_mark wins_clear wins_dismiss wins_answer wins_socket\<close>)

definition hub_inv :: "translate \<Rightarrow> hub \<Rightarrow> bool" where
  "hub_inv t h \<longleftrightarrow> grid_inv h \<and> wins_inv t h"

lemma hub_step_inv:
  assumes h: "hub_inv t h" and e: "hub_enabled h ev"
  shows "hub_inv t (hub_step t h ev)"
proof -
  have g: "grid_inv (hub_op t h ev)" using h by (intro hub_op_grid e) (simp add: hub_inv_def)
  then have g': "grid_inv (hub_step t h ev)" by (simp add: hub_step_def Let_def)
  have "wins_inv t (hub_step t h ev)"
  proof (cases "ev = HPending")
    case True
    have "map (c_sid \<circ> sw_c) (h_wins (open_pending h)) \<noteq> map (c_sid \<circ> sw_c) (h_wins h)" by (simp add: open_pending_def)
    then show ?thesis using True h wins_pending by (simp add: hub_step_def hub_inv_def Let_def del: map_map)
  next
    case False
    then have w: "wins_inv t (hub_op t h ev)" using h by (intro wins_op e) (simp_all add: hub_inv_def)
    then have "rv_inv t (tabbar_review t (h_rv (hub_op t h ev)))" by (intro modes_tabbar rv_inv_modes [of t]) (simp add: wins_inv_def)
    then show ?thesis using w wins_rv [OF w] by (simp add: hub_step_def Let_def)
  qed
  then show ?thesis using g' by (simp add: hub_inv_def)
qed

lemma hub_start_inv: "hub_inv t (hub_start n0)"
  by (simp add: hub_inv_def grid_inv_def wins_inv_def hub_start_def sel_ok_def marks_ok_def bar_ok_def ids_ok_def rv_inv_def rv_start_def rv_parents_def)

interpretation hubm: guarded_machine "hub_start n0" "hub_step t" "hub_inv t" hub_enabled for n0 t
  by unfold_locales (rule hub_start_inv, rule hub_step_inv)

end
