(* ===== verification/Sessions_Shown.thy ===== *)
theory Sessions_Shown
  imports Sessions_Invariant
begin

text \<open>
  The properties of the session list: the grid shows the state, a snapshot leaves exactly the
  windows it should, a batch deletes exactly the selection, and a tile's markup is fixed.
\<close>

section \<open>Properties\<close>


definition two_sessions :: "sess list" where
  "two_sessions = [\<lparr>s_id = ''s1'', s_name = ''web'', s_running = True, s_reason = [], s_approval = False\<rparr>,
     \<lparr>s_id = ''s2'', s_name = ''db'', s_running = False, s_reason = ''exited'', s_approval = True\<rparr>]"

definition idle_net :: net where
  "idle_net = \<lparr>ws_open = True, sent = [], pendingWatch = [], deletes = []\<rparr>"

definition sample_hub :: hub where
  "sample_hub = foldl (hub_step (\<lambda>k p. k)) (hub_start idle_net) [HSnapshot (\<lambda>i. None) two_sessions, HTileClick None 0, HCheck 1]"

lemma sample_hub_reach: "hubm.reach idle_net (\<lambda>k p. k) sample_hub"
proof -
  have "hubm.run_ok (\<lambda>k p. k) (hub_start idle_net) [HSnapshot (\<lambda>i. None) two_sessions, HTileClick None 0, HCheck 1]"
    unfolding hubm.run_ok.simps hub_enabled.simps by code_simp
  then show ?thesis unfolding sample_hub_def by (rule hubm.reach_run [OF hubm.reach.init])
qed

lemma sample_hub_facts: "h_selected sample_hub = [''s2'']" "h_batches sample_hub = []" "h_snapshot sample_hub = two_sessions"
  "map (c_sid \<circ> sw_c) (h_wins sample_hub) = [''s1'']"
  by code_simp+


text \<open>What a snapshot means for the open windows: those of sessions that are gone close, those of
  sessions that are over are locked, the others stay as they are.\<close>

definition gone :: "sess obj \<Rightarrow> swin \<Rightarrow> bool" where
  "gone byId w \<longleftrightarrow> c_parentSid (sw_c w) \<noteq> [] \<and> \<not> sw_placeholder w \<and> obj_get byId (c_parentSid (sw_c w)) = None"

definition settle :: "net \<Rightarrow> sess obj \<Rightarrow> swin \<Rightarrow> swin" where
  "settle n byId w =
     (if c_parentSid (sw_c w) = [] \<or> sw_placeholder w then w
      else (case obj_get byId (c_parentSid (sw_c w)) of
              None \<Rightarrow> w
            | Some s \<Rightarrow> if s_running s then w else w\<lparr>sw_c := fst (lockWindowReadonly (sw_c w) n)\<rparr>))"

definition mode_of :: "sess obj \<Rightarrow> swin \<Rightarrow> bool \<Rightarrow> bool" where
  "mode_of byId w m =
     (if c_parentSid (sw_c w) = [] \<or> sw_placeholder w then m
      else (case obj_get byId (c_parentSid (sw_c w)) of None \<Rightarrow> m | Some s \<Rightarrow> s_approval s))"

definition modes :: "hub \<Rightarrow> bool list" where
  "modes h = map rw_approvalMode (rwins (h_rv h))"

lemma lock_any_net: "fst (lockWindowReadonly c n) = fst (lockWindowReadonly c m)"
  by (simp add: lockWindowReadonly_def)

lemma upd_modes: "(\<And>w. rw_approvalMode (f w) = rw_approvalMode w) \<Longrightarrow> map rw_approvalMode (rwins (upd_win i f ui)) = map rw_approvalMode (rwins ui)"
  by (auto simp: upd_win_def map_update list_update_same_conv)

lemma paint_modes: "map rw_approvalMode (rwins (applyApprovalCounts t ui)) = map rw_approvalMode (rwins ui)"
  by (simp add: applyApprovalCounts_def paint_win_def updateReviewLockTitle_def Let_def o_def)

lemma load_modes: "map rw_approvalMode (rwins (loadReviewQueue t ans i ui)) = map rw_approvalMode (rwins ui)"
  by (simp add: loadReviewQueue_def keepApprovalCounts_def paint_modes upd_modes split: option.split)

lemma mode_modes: "i < length (rwins (h_rv h)) \<Longrightarrow> modes (mode_win t ans i on h) = (modes h)[i := on]"
  unfolding mode_win_def modes_def applyApprovalMode_def Let_def
  by (simp add: load_modes upd_modes paint_modes)
    (simp add: upd_win_def map_update paintReviewLabels_def updateReviewLockTitle_def Let_def)

lemma reconcile_skip:
  "c_parentSid (sw_c w) = [] \<or> sw_placeholder w \<Longrightarrow> h_wins h ! i = w \<Longrightarrow> reconcile_win t ans byId i h = (Suc i, h)"
  by (auto simp: reconcile_win_def Let_def)

lemma drop_at_append: "length P = i \<Longrightarrow> drop_at i (P @ x # R) = P @ R"
  by (simp add: drop_at_def)

lemma modes_length: "wins_inv t h \<Longrightarrow> length (modes h) = length (h_wins h) \<and> length (rwins (h_rv h)) = length (h_wins h)"
  unfolding wins_inv_def rv_parents_def modes_def by (metis length_map)

lemma reconcile_spec:
  assumes "h_wins h = P @ R" and "modes h = MP @ MR" and "length P = i" "length MP = i" and "wins_inv t h"
  shows "\<exists>MR'. h_wins (reconcile_loop t ans byId (length R) i h) = P @ map (settle n byId) (filter (\<lambda>w. \<not> gone byId w) R) \<and>
    modes (reconcile_loop t ans byId (length R) i h) = MP @ MR' \<and>
    list_all2 (\<lambda>w m. (\<exists>m0. m = mode_of byId w m0)) (filter (\<lambda>w. \<not> gone byId w) R) MR'"
  using assms
proof (induction R arbitrary: h P i MP MR)
  case Nil
  have "MR = []" using modes_length [OF Nil.prems(5)] Nil.prems by simp
  then show ?case using Nil.prems by simp
next
  case (Cons w R)
  have wi: "h_wins h ! i = w" "i < length (h_wins h)" using Cons.prems(1,3) by (simp_all add: nth_append)
  obtain m MR1 where MR: "MR = m # MR1" "length MR1 = length R"
    using modes_length [OF Cons.prems(5)] Cons.prems by (cases MR) auto
  obtain j h' where r: "reconcile_win t ans byId i h = (j, h')" by fastforce
  have inv: "wins_inv t h'" by (rule wins_reconcile_win [OF Cons.prems(5) wi(2) r])
  have step: "reconcile_loop t ans byId (length (w # R)) i h = reconcile_loop t ans byId (length R) j h'" using r by simp
  have keep: ?case if k: "j = Suc i" "h_wins h' = (P @ [w']) @ R" "modes h' = (MP @ [m']) @ MR1" "w' = settle n byId w" "m' = mode_of byId w m"
    and g: "\<not> gone byId w" for w' m'
  proof -
    obtain MR' where "h_wins (reconcile_loop t ans byId (length R) j h') = (P @ [w']) @ map (settle n byId) (filter (\<lambda>w. \<not> gone byId w) R)"
      "modes (reconcile_loop t ans byId (length R) j h') = (MP @ [m']) @ MR'"
      "list_all2 (\<lambda>w m. (\<exists>m0. m = mode_of byId w m0)) (filter (\<lambda>w. \<not> gone byId w) R) MR'"
      using Cons.IH [OF k(2,3) _ _ inv, of "Suc i"] Cons.prems(3,4) k(1) by auto
    then show ?thesis unfolding step using g k(4,5) by (intro exI [of _ "m' # MR'"]) auto
  qed
  show ?case
  proof (cases "c_parentSid (sw_c w) = [] \<or> sw_placeholder w")
    case True
    then have "j = Suc i" "h' = h" using r wi(1) by (auto simp: reconcile_win_def Let_def)
    then show ?thesis using Cons.prems(1,2) MR True by (intro keep [of w m]) (auto simp: settle_def mode_of_def gone_def)
  next
    case False
    show ?thesis
    proof (cases "obj_get byId (c_parentSid (sw_c w))")
      case None
      have h': "j = i" "h' = close_win i (releaseSessionUIState (c_parentSid (sw_c w)) h)"
        using r wi(1) False None by (auto simp: reconcile_win_def Let_def)
      have "h_wins h' = P @ R" "modes h' = MP @ MR1"
        using Cons.prems(1-4) MR(1) by (simp_all add: h'(2) close_win_def Let_def modes_def drop_at_append drop_at_map)
      from Cons.IH [OF this Cons.prems(3,4) inv] show ?thesis unfolding step using False None h'(1) by (simp add: gone_def)
    next
      case (Some s)
      define l where "l = (if s_running s then h else lock_win i h)"
      have h': "j = Suc i" "h' = mode_win t (ans i) i (s_approval s) l"
        using r wi(1) False Some by (auto simp: reconcile_win_def Let_def l_def)
      have wl: "h_wins l = P @ settle n byId w # R"
        using Cons.prems(1,3) wi(1) False Some lock_any_net by (auto simp: l_def settle_def lock_win_def Let_def list_update_append)
      have ml: "modes l = modes h" "length (rwins (h_rv l)) = length (h_wins h)"
        using modes_length [OF Cons.prems(5)] by (simp_all add: l_def modes_def lock_win_def Let_def)
      have "modes h' = (MP @ [s_approval s]) @ MR1"
        using mode_modes [of i l] ml wi(2) Cons.prems(2,4) MR(1) by (simp add: h'(2) list_update_append)
      moreover have "h_wins h' = (P @ [settle n byId w]) @ R" using wl by (simp add: h'(2) mode_win_def)
      ultimately show ?thesis using h'(1) False Some by (intro keep) (auto simp: mode_of_def gone_def)
    qed
  qed
qed

lemma session_map_Some: "ids_ok ss \<Longrightarrow> s \<in> set ss \<Longrightarrow> obj_get (session_map ss) (s_id s) = Some s"
proof -
  have g: "obj_get (foldl (\<lambda>m s. if s_id s \<noteq> [] then obj_set m (s_id s) s else m) m ss) k =
      (case find (\<lambda>s. s_id s = k) ss of None \<Rightarrow> obj_get m k | Some s \<Rightarrow> if k = [] then obj_get m k else Some s)" if "distinct (map s_id ss)" for m k ss
    using that
  proof (induction ss arbitrary: m)
    case (Cons s ss)
    have "find (\<lambda>s. s_id s = k) ss = None" if "s_id s = k" using Cons.prems that by (auto simp: find_None_iff image_iff)
    then show ?case using Cons by (auto simp: obj_get_set split: option.split)
  qed simp
  assume a: "ids_ok ss" "s \<in> set ss"
  have "find (\<lambda>x. s_id x = s_id s) ss = Some s"
    using a(1,2) by (induction ss) (auto simp: ids_ok_def image_iff)
  then show ?thesis using g [of ss "[]" "s_id s"] a ids_nonempty [OF a] by (simp add: session_map_def ids_ok_def)
qed

text \<open>C15: A snapshot of the registry leaves exactly the windows it should: windows of sessions it no
  longer lists are closed, windows of sessions that are over are locked read-only with their
  tabs, all others (and those still waiting for a session) are untouched and in the same order;
  and the review lock of every window of a listed session shows the snapshot's review mode.\<close>

theorem snapshot_reconciles:
  assumes "hubm.reach n0 t h" and "ids_ok ss" and "f = applySessionsSnapshot t ans ss h"
  shows "h_wins f = map (settle n (session_map ss)) (filter (\<lambda>w. \<not> gone (session_map ss) w) (h_wins h)) \<and>
    (\<forall>s \<in> set ss. \<forall>i < length (h_wins f).
       c_parentSid (sw_c (h_wins f ! i)) = s_id s \<and> \<not> sw_placeholder (h_wins f ! i) \<longrightarrow>
       rw_parentSid (rwins (h_rv f) ! i) = s_id s \<and> rw_approvalMode (rwins (h_rv f) ! i) = s_approval s \<and>
       lock_is_on (rwins (h_rv f) ! i) = s_approval s \<and> (\<not> s_running s \<longrightarrow> c_readOnly (sw_c (h_wins f ! i))))"
proof -
  define h1 where "h1 = renderSessionGrid t ss [] (h\<lparr>h_snapshot := ss\<rparr>)"
  define byId where "byId = session_map ss"
  define l where "l = reconcile_loop t ans byId (length (h_wins h1)) 0 h1"
  have h: "wins_inv t h" using hubm.reach_inv [OF assms(1)] by (simp add: hub_inv_def)
  have "wins_inv t (h\<lparr>h_snapshot := ss\<rparr>)" using h by (simp add: wins_inv_def)
  then have w1: "wins_inv t h1" unfolding h1_def by (rule wins_render)
  have fl: "h_wins f = h_wins l" "h_rv f = h_rv l"
    by (simp_all add: assms(3) applySessionsSnapshot_def Let_def l_def byId_def h1_def pruneDeadSessionUIState_def)
  have fi: "wins_inv t f" unfolding assms(3) by (rule wins_snapshot [OF h])
  let ?R = "filter (\<lambda>w. \<not> gone byId w) (h_wins h)"
  obtain M where M: "h_wins l = map (settle n byId) ?R" "modes l = M" "list_all2 (\<lambda>w m. (\<exists>m0. m = mode_of byId w m0)) ?R M"
    using reconcile_spec [of h1 "[]" "h_wins h1" "[]" "modes h1" 0 t ans byId n] w1 by (auto simp: l_def h1_def)
  have "rw_parentSid (rwins (h_rv f) ! i) = s_id s \<and> rw_approvalMode (rwins (h_rv f) ! i) = s_approval s \<and>
      lock_is_on (rwins (h_rv f) ! i) = s_approval s \<and> (\<not> s_running s \<longrightarrow> c_readOnly (sw_c (h_wins f ! i)))"
    if s: "s \<in> set ss" and i: "i < length (h_wins f)" and p: "c_parentSid (sw_c (h_wins f ! i)) = s_id s" "\<not> sw_placeholder (h_wins f ! i)" for s i
  proof -
    have len: "length (rwins (h_rv f)) = length (h_wins f)" using modes_length [OF fi] by simp
    have iR: "i < length ?R" using i M(1) by (simp add: fl)
    have wi: "h_wins f ! i = settle n byId (?R ! i)" using iR by (simp add: fl M(1))
    have pr: "c_parentSid (sw_c (?R ! i)) = s_id s" "\<not> sw_placeholder (?R ! i)"
      using p unfolding wi by (auto simp: settle_def split: if_splits option.splits)
    have g: "obj_get byId (s_id s) = Some s" unfolding byId_def by (rule session_map_Some [OF assms(2) s])
    have ne: "s_id s \<noteq> []" by (rule ids_nonempty [OF assms(2) s])
    have "M ! i = s_approval s" using list_all2_nthD [OF M(3) iR] pr g ne by (auto simp: mode_of_def)
    then have m: "rw_approvalMode (rwins (h_rv f) ! i) = s_approval s" using M(2) i len unfolding modes_def fl by (metis nth_map)
    have "rv_parents (h_rv f) ! i = s_id s" using fi i p(1) by (simp add: wins_inv_def)
    then have "rw_parentSid (rwins (h_rv f) ! i) = s_id s" using i len by (simp add: rv_parents_def)
    moreover have "lock_is_on (rwins (h_rv f) ! i) = rw_approvalMode (rwins (h_rv f) ! i)"
      using fi i len by (simp add: wins_inv_def rv_inv_def win_ok_def)
    moreover have "\<not> s_running s \<longrightarrow> c_readOnly (sw_c (h_wins f ! i))"
      unfolding wi using pr g ne by (simp add: settle_def lockWindowReadonly_def setWindowDeadBadge_def)
    ultimately show ?thesis using m by simp
  qed
  then show ?thesis using M(1) by (simp add: fl byId_def)
qed

lemma sample_snapshot:
  "ids_ok [two_sessions ! 1]" "h_wins (applySessionsSnapshot (\<lambda>k p. k) (\<lambda>i. None) [two_sessions ! 1] sample_hub) = []"
  by code_simp+

theorem snapshot_reconciles_witness:
  "filter (\<lambda>w. \<not> gone (session_map [two_sessions ! 1]) w) (h_wins sample_hub) = [] \<and> length (h_wins sample_hub) = 1"
  using snapshot_reconciles [OF sample_hub_reach sample_snapshot(1) refl, of "\<lambda>i. None" idle_net] sample_snapshot(2)
    arg_cong [OF sample_hub_facts(4), of length] by simp

section \<open>Deleting in batches\<close>

lemma answer_next:
  assumes "h_batches g ! j = (key, i # i' # is)" and "j < length (h_batches g)" and "f = batch_answer t j None g"
  shows "h_requests f = h_requests g @ [delete_url i'] \<and> h_batches f = (h_batches g)[j := (key, i' # is)] \<and>
    h_selected f = set_del i (h_selected g) \<and> h_snapshot f = h_snapshot g"
proof -
  have "grid_part (close_sid i g) = grid_part g" "h_requests (close_sid i g) = h_requests g"
    by simp (simp add: close_sid_def close_win_def Let_def split: option.split)
  then show ?thesis using assms by (simp add: batch_answer_def Let_def grid_part_def)
qed

lemma batch_progress:
  assumes "h_batches h ! j = (key, ts)" and "j < length (h_batches h)" and "k < length ts" and "g = (batch_answer t j None ^^ k) h"
  shows "h_requests g = h_requests h @ map delete_url (take k (tl ts)) \<and> h_batches g = (h_batches h)[j := (key, drop k ts)] \<and>
    set (h_selected g) = set (h_selected h) - set (take k ts) \<and> h_snapshot g = h_snapshot h"
  using assms(3,4)
proof (induction k arbitrary: g)
  case 0
  have "(h_batches h)[j := (key, ts)] = h_batches h" using assms(1) by (metis list_update_id)
  then show ?case using 0 by simp
next
  case (Suc k)
  define e where "e = (batch_answer t j None ^^ k) h"
  have e: "h_requests e = h_requests h @ map delete_url (take k (tl ts))" "h_batches e = (h_batches h)[j := (key, drop k ts)]"
    "set (h_selected e) = set (h_selected h) - set (take k ts)" "h_snapshot e = h_snapshot h"
    using Suc.IH [OF _ e_def] Suc.prems(1) by simp_all
  have d: "drop k ts = ts ! k # ts ! Suc k # drop (Suc (Suc k)) ts" using Suc.prems(1) by (simp add: Cons_nth_drop_Suc)
  have "take (Suc k) (tl ts) = take k (tl ts) @ [ts ! Suc k]" using Suc.prems(1) by (cases ts) (simp_all add: take_Suc_conv_app_nth)
  moreover have "take (Suc k) ts = take k ts @ [ts ! k]" using Suc.prems(1) by (simp add: take_Suc_conv_app_nth)
  moreover have "drop (Suc k) ts = ts ! Suc k # drop (Suc (Suc k)) ts" using Suc.prems(1) by (simp add: Cons_nth_drop_Suc)
  moreover have "g = batch_answer t j None e" using Suc.prems(2) by (simp add: e_def)
  ultimately show ?case using answer_next [of e j key "ts ! k" "ts ! Suc k" "drop (Suc (Suc k)) ts" g t] e d assms(2) by auto
qed

lemma answer_last:
  assumes "h_batches g ! j = (key, [i])" and "j < length (h_batches g)" and "f = batch_answer t j None g"
  shows "h_requests f = h_requests g \<and> h_batches f = drop_at j (h_batches g) \<and> set (h_selected f) \<subseteq> set (h_selected g) - {i}"
proof -
  have "grid_part (close_sid i g) = grid_part g" "h_requests (close_sid i g) = h_requests g"
    by simp (simp add: close_sid_def close_win_def Let_def split: option.split)
  then show ?thesis using assms by (auto simp: batch_answer_def Let_def grid_part_def renderSessionGrid_def)
qed

lemma answer_failed:
  assumes "grid_inv g" and "f = batch_answer t j (Some msg) g"
  shows "h_requests f = h_requests g \<and> h_batches f = drop_at j (h_batches g) \<and> set (h_selected f) = set (h_selected g) \<and> h_banner f = []"
proof -
  have "set (h_selected g) \<subseteq> {i. i \<noteq> [] \<and> i \<in> s_id ` set (h_snapshot g)}"
    using grid_invD(4) [OF assms(1)] ids_nonempty [OF grid_invD(1) [OF assms(1)]] by fastforce
  then show ?thesis using assms(2) by (auto simp: batch_answer_def renderSessionGrid_def Let_def)
qed

lemma batch_started:
  assumes h: "grid_inv h" and sel: "h_selected h \<noteq> []"
    and ts: "ts = filter (\<lambda>i. i \<in> set (h_selected h)) (map s_id (h_snapshot h))" and b: "b = batch_delete t True h"
  shows "ts \<noteq> []" and "set ts = set (h_selected h)" and "h_batches b = h_batches h @ [(''toast.delete.failed'', ts)]"
    and "h_requests b = h_requests h @ [delete_url (hd ts)]" and "h_selected b = h_selected h" and "grid_inv b"
proof -
  show s: "set ts = set (h_selected h)" using grid_invD(4) [OF h] by (auto simp: ts)
  then show n: "ts \<noteq> []" using sel by auto
  have "filter (\<lambda>i. i \<noteq> [] \<and> i \<in> set (h_selected h)) (map s_id (h_snapshot h)) = ts"
    unfolding ts using ids_nonempty [OF grid_invD(1) [OF h]] by (intro filter_cong) auto
  then have e: "b = start_batch t ''banner.deleting'' ''toast.delete.failed'' ts h" by (simp add: b batch_delete_def)
  show "h_batches b = h_batches h @ [(''toast.delete.failed'', ts)]" "h_requests b = h_requests h @ [delete_url (hd ts)]" "h_selected b = h_selected h"
    using n by (auto simp: e start_batch_def split: list.split)
  show "grid_inv b" unfolding e by (rule start_grid [OF h])
qed

text \<open>C18: Deleting the selection asks the server to delete exactly the selected sessions, in the
  order of the grid and each only after the one before is gone. When all are, nothing is
  selected any more; when one fails, nothing further is asked and what was not deleted stays
  selected.\<close>

theorem batch_deletes_selection:
  assumes "hubm.reach n0 t h" and "h_selected h \<noteq> []"
    and "ts = filter (\<lambda>i. i \<in> set (h_selected h)) (map s_id (h_snapshot h))"
    and "j = length (h_batches h)" and "b = batch_delete t True h" and "f = (\<lambda>k. (batch_answer t j None ^^ k) b)"
  shows "set ts = set (h_selected h) \<and>
    h_requests (f (length ts)) = h_requests h @ map delete_url ts \<and> h_selected (f (length ts)) = [] \<and> h_batches (f (length ts)) = h_batches h \<and>
    (\<forall>k < length ts. h_requests (batch_answer t j (Some msg) (f k)) = h_requests h @ map delete_url (take (Suc k) ts) \<and>
       set (h_selected (batch_answer t j (Some msg) (f k))) = set ts - set (take k ts) \<and>
       h_batches (batch_answer t j (Some msg) (f k)) = h_batches h)"
proof -
  have h: "grid_inv h" using hubm.reach_inv [OF assms(1)] by (simp add: hub_inv_def)
  note s = batch_started [OF h assms(2,3,5)]
  have bj: "h_batches b ! j = (''toast.delete.failed'', ts)" "j < length (h_batches b)" using s(3) assms(4) by simp_all
  have p: "h_requests (f k) = h_requests h @ map delete_url (take (Suc k) ts)" "h_batches (f k) = (h_batches b)[j := (''toast.delete.failed'', drop k ts)]"
      "set (h_selected (f k)) = set ts - set (take k ts)" if "k < length ts" for k
    using batch_progress [OF bj that, of "f k" t] s(1,2,4,5) assms(6) by (cases ts; simp)+
  have gi: "grid_inv (f k)" if "k < length ts" for k
    using that
  proof (induction k)
    case (Suc k)
    then have "j < length (h_batches (f k))" using p(2) [of k] bj(2) by simp
    then show ?case using answer_grid [OF Suc.IH, of j t None] Suc.prems by (simp add: assms(6))
  qed (simp add: assms(6) s(6))
  have dj: "drop_at j ((h_batches b)[j := x]) = h_batches h" for x using s(3) assms(4) by (simp add: drop_at_def list_update_append)
  obtain k where k: "length ts = Suc k" using s(1) by (cases ts) auto
  have fk: "f (length ts) = batch_answer t j None (f k)" by (simp add: k assms(6))
  have "drop k ts = [ts ! k]" using k by (metis Cons_nth_drop_Suc drop_all le_refl lessI)
  then have last: "h_batches (f k) ! j = (''toast.delete.failed'', [ts ! k])" "j < length (h_batches (f k))" using p(2) [of k] k bj(2) by simp_all
  have "take (Suc k) ts = ts" "set ts - set (take k ts) \<subseteq> {ts ! k}" using k by (auto simp: take_Suc_conv_app_nth in_set_conv_nth less_Suc_eq)
  have kl: "k < length ts" using k by simp
  have "set (h_selected (f (length ts))) \<subseteq> (set ts - set (take k ts)) - {ts ! k}"
    using answer_last [OF last fk] unfolding p(3) [OF kl, symmetric] by (elim conjE)
  then have "set (h_selected (f (length ts))) = {}" using \<open>set ts - set (take k ts) \<subseteq> {ts ! k}\<close> by (metis Diff_eq_empty_iff subset_empty)
  moreover have "h_requests (f (length ts)) = h_requests h @ map delete_url ts" "h_batches (f (length ts)) = h_batches h"
    using answer_last [OF last fk] p(1,2) [OF kl] \<open>take (Suc k) ts = ts\<close> dj by simp_all
  ultimately have "h_requests (f (length ts)) = h_requests h @ map delete_url ts \<and> h_selected (f (length ts)) = [] \<and> h_batches (f (length ts)) = h_batches h"
    by simp
  moreover have "\<forall>k < length ts. h_requests (batch_answer t j (Some msg) (f k)) = h_requests h @ map delete_url (take (Suc k) ts) \<and>
       set (h_selected (batch_answer t j (Some msg) (f k))) = set ts - set (take k ts) \<and>
       h_batches (batch_answer t j (Some msg) (f k)) = h_batches h"
    using answer_failed [OF gi refl, of _ t j msg] p dj by auto
  ultimately show ?thesis using s(2) by simp
qed

theorem batch_deletes_selection_witness:
  "h_requests (batch_answer (\<lambda>k p. k) 0 None (batch_delete (\<lambda>k p. k) True sample_hub)) = [''/api/sessions/s2'']"
proof -
  have ts: "[''s2''] = filter (\<lambda>i. i \<in> set (h_selected sample_hub)) (map s_id (h_snapshot sample_hub))"
    unfolding sample_hub_facts by code_simp
  have j: "0 = length (h_batches sample_hub)" and r: "h_requests sample_hub = []" and u: "delete_url ''s2'' = ''/api/sessions/s2''"
    by code_simp+
  have "h_selected sample_hub \<noteq> []" by (simp add: sample_hub_facts)
  from batch_deletes_selection [OF sample_hub_reach this ts j refl refl, THEN conjunct2, THEN conjunct1]
  have "h_requests ((batch_answer (\<lambda>k p. k) 0 None ^^ 1) (batch_delete (\<lambda>k p. k) True sample_hub)) = h_requests sample_hub @ map delete_url [''s2'']"
    by simp
  then show ?thesis by (simp add: r u)
qed

text \<open>The failure message of a batch is wiped by the redraw that follows it.\<close>

lemma failed_batch_is_silent: "h_banner (batch_answer t j (Some msg) h) = []"
  by (simp add: batch_answer_def)

text \<open>Two notices about one session: dismissing one takes the highlight of the other.\<close>

lemma dismiss_clears_other:
  assumes "n_sid n \<noteq> []" and "h_cards h = []"
  shows "obj_get (h_highlights (dismissUiNotify 0 (showUiNotify n (showUiNotify n h)))) (n_sid n) = None"
proof -
  have hl: "h_highlights (set_win_notified s b g) = h_highlights g" "h_highlights (set_tile_notified s b g) = h_highlights g" for s b g
    by (simp_all add: set_win_notified_def set_tile_notified_def split: option.split)
  have c: "h_cards (set_win_notified s b g) = h_cards g" "h_cards (set_tile_notified s b g) = h_cards g" for s b g
    by (simp_all add: set_win_notified_def set_tile_notified_def split: option.split)
  show ?thesis using assms by (simp add: dismissUiNotify_def showUiNotify_def markSessNotified_def clearSessNotified_def hl c Let_def obj_get_del)
qed

section \<open>Markup\<close>

lemma badge_is_review: "html.render (badge_frags t counts sid) = reviewBadgeHtml t counts sid"
  by (simp add: badge_frags_def reviewBadgeHtml_def html.render_def Let_def)

lemma lock_markup: "markup SVG_LOCK_CLOSED = markup SVG_LOCK_OPEN" "markup '' is-on'' = []" "markup ''true'' = markup ''false''"
    "markup ''is-live'' = markup ''is-dead''" "markup '' checked'' = []"
  by code_simp+

text \<open>Whatever a session is called, and whatever it reports as the reason of its end, its tile has
  the markup of any other tile: the angle brackets and attribute quotes depend only on whether the
  session runs and whether requests wait.\<close>

theorem session_tile_markup_safe:
  assumes "s_running s = s_running s'" and "(count_of counts (s_id s) = 0) = (count_of counts' (s_id s') = 0)"
  shows "markup (sessTileHtml t emdash counts sel s) = markup (sessTileHtml t emdash' counts' sel' s')"
proof -
  have b: "markup (html.skeleton (badge_frags t counts (s_id s))) = markup (html.skeleton (badge_frags t counts' (s_id s')))"
    using assms(2) by (simp add: badge_frags_def Let_def html.skeleton_def)
  have l: "markup (html.skeleton (lock_frags t s)) = markup (html.skeleton (lock_frags t s'))"
    using assms(1)
    by (cases "s_running s'"; cases "s_approval s"; cases "s_approval s'") (simp_all only: lock_frags_def markup_frags if_True if_False markup_simps lock_markup)
  have st: "markup (html.skeleton (status_frags t s)) = markup (html.skeleton (status_frags t s'))"
    using lock_markup(4) by (cases "s_running s"; cases "s_running s'") (simp_all only: status_frags_def markup_frags if_True if_False)
  show ?thesis
    unfolding sessTileHtml_def html.markup_render tile_frags_def skeleton_append markup_simps b l st
    using lock_markup(5) by (cases sel; cases sel') (simp_all only: markup_frags if_True if_False markup_simps)
qed

theorem session_tile_markup_safe_witness:
  "markup (sessTileHtml (\<lambda>k p. k) [] [] False (two_sessions ! 0)) =
   markup (sessTileHtml (\<lambda>k p. k) [] [] True ((two_sessions ! 0)\<lparr>s_name := ''<b>''\<rparr>))"
  by (rule session_tile_markup_safe) code_simp+

end
