(* ===== verification/Geometry.thy ===== *)
theory Geometry
  imports Prelude Complex_Main
begin

text \<open>
  The arithmetic of the windows: the resize grips and the header drag of
  \<open>ui-socket.js\<close>, the tab bar, the placement of new windows and the pane grid of
  \<open>shell-windows.js\<close>, the menus of \<open>terminal-view.js\<close>, and the fit of a terminal to its
  container. Pixel values are rational numbers; the rounding of floating-point division is
  not modelled. What the browser measures (viewport, boxes, pointer) is an argument.
\<close>

section \<open>Resize grips\<close>

text \<open>The inline style of a window and the variables of one \<open>setupShellWindowResize\<close>.\<close>

record box =
  bx_left :: rat
  bx_top :: rat
  bx_width :: rat
  bx_height :: rat

record resize =
  rz_box :: box
  resizing :: bool
  pointerId :: "nat option"
  startX :: rat
  startY :: rat
  startW :: rat
  startH :: rat
  startLeft :: rat
  startTop :: rat
  pendingW :: rat
  pendingH :: rat
  pendingLeft :: "rat option"
  pendingTop :: "rat option"
  frame :: bool
  dirE :: bool
  dirS :: bool

definition applyPending :: "resize \<Rightarrow> resize" where
  "applyPending r =
     (if pendingW r > 0 \<and> pendingH r > 0
      then r\<lparr>rz_box := \<lparr>bx_left = (case pendingLeft r of None \<Rightarrow> bx_left (rz_box r) | Some x \<Rightarrow> x),
                         bx_top = (case pendingTop r of None \<Rightarrow> bx_top (rz_box r) | Some y \<Rightarrow> y),
                         bx_width = pendingW r, bx_height = pendingH r\<rparr>\<rparr>
      else r)"

text \<open>
  The corner's name holds \<open>e\<close> or \<open>w\<close>, \<open>s\<close> or \<open>n\<close>. A secondary mouse button is ignored
  before anything is read, so the pointer-down events here are those of the primary one.
\<close>

definition beginResize :: "nat \<Rightarrow> rat \<Rightarrow> rat \<Rightarrow> string \<Rightarrow> resize \<Rightarrow> resize" where
  "beginResize pid x y corner r =
     (let b = rz_box r; e = (CHR ''e'' \<in> set corner); s = (CHR ''s'' \<in> set corner)
      in r\<lparr>resizing := True, pointerId := Some pid, startX := x, startY := y,
           startW := bx_width b, startH := bx_height b, startLeft := bx_left b, startTop := bx_top b,
           pendingW := bx_width b, pendingH := bx_height b,
           pendingLeft := (if e then None else Some (bx_left b)), pendingTop := (if s then None else Some (bx_top b)),
           dirE := e, dirS := s\<rparr>)"

definition resizeMove :: "nat \<Rightarrow> rat \<Rightarrow> rat \<Rightarrow> resize \<Rightarrow> resize" where
  "resizeMove pid x y r =
     (if \<not> resizing r \<or> pointerId r \<noteq> Some pid then r
      else
        (let dx = x - startX r; dy = y - startY r;
             w = max 320 (if dirE r then startW r + dx else startW r - dx);
             h = max 240 (if dirS r then startH r + dy else startH r - dy)
         in r\<lparr>pendingW := w, pendingH := h,
              pendingLeft := (if dirE r then pendingLeft r else Some (startLeft r + (startW r - w))),
              pendingTop := (if dirS r then pendingTop r else Some (startTop r + (startH r - h))),
              frame := True\<rparr>))"

definition resizeFrame :: "resize \<Rightarrow> resize" where
  "resizeFrame r =
     (if \<not> frame r then r
      else (let r1 = r\<lparr>frame := False\<rparr> in if resizing r1 then applyPending r1 else r1))"

definition resizeFinish :: "resize \<Rightarrow> resize" where
  "resizeFinish r =
     (if \<not> resizing r then r else (applyPending (r\<lparr>resizing := False, frame := False\<rparr>))\<lparr>pointerId := None\<rparr>)"

definition resizeUp :: "nat \<Rightarrow> resize \<Rightarrow> resize" where
  "resizeUp pid r = (if \<not> resizing r \<or> pointerId r \<noteq> Some pid then r else resizeFinish r)"

datatype rz_event = RzDown nat rat rat string | RzMove nat rat rat | RzFrame | RzUp nat | RzLost

fun rz_step :: "resize \<Rightarrow> rz_event \<Rightarrow> resize" where
  "rz_step r (RzDown pid x y corner) = beginResize pid x y corner r"
| "rz_step r (RzMove pid x y) = resizeMove pid x y r"
| "rz_step r RzFrame = resizeFrame r"
| "rz_step r (RzUp pid) = resizeUp pid r"
| "rz_step r RzLost = resizeFinish r"

text \<open>The events of one drag after its pointer-down.\<close>

fun during_drag :: "rz_event \<Rightarrow> bool" where
  "during_drag (RzDown pid x y corner) = False"
| "during_drag e = True"

text \<open>
  What a drag that began on the box \<open>b\<close> keeps: the edge opposite to the grip stays where it
  was, and the size is the old one or at least 320 by 240.
\<close>

definition anchored :: "bool \<Rightarrow> bool \<Rightarrow> box \<Rightarrow> box \<Rightarrow> bool" where
  "anchored e s b c \<longleftrightarrow>
     (if e then bx_left c = bx_left b else bx_left c + bx_width c = bx_left b + bx_width b) \<and>
     (if s then bx_top c = bx_top b else bx_top c + bx_height c = bx_top b + bx_height b) \<and>
     (bx_width c = bx_width b \<or> 320 \<le> bx_width c) \<and> (bx_height c = bx_height b \<or> 240 \<le> bx_height c)"

definition pending_box :: "resize \<Rightarrow> box" where
  "pending_box r =
     \<lparr>bx_left = (case pendingLeft r of None \<Rightarrow> bx_left (rz_box r) | Some x \<Rightarrow> x),
      bx_top = (case pendingTop r of None \<Rightarrow> bx_top (rz_box r) | Some y \<Rightarrow> y),
      bx_width = pendingW r, bx_height = pendingH r\<rparr>"

definition drag_inv :: "bool \<Rightarrow> bool \<Rightarrow> box \<Rightarrow> resize \<Rightarrow> bool" where
  "drag_inv e s b r \<longleftrightarrow>
     anchored e s b (rz_box r) \<and>
     (resizing r \<longrightarrow> dirE r = e \<and> dirS r = s \<and> (e \<longrightarrow> pendingLeft r = None) \<and> (s \<longrightarrow> pendingTop r = None) \<and>
        (\<not> e \<longrightarrow> pendingLeft r \<noteq> None) \<and> (\<not> s \<longrightarrow> pendingTop r \<noteq> None) \<and>
        startW r = bx_width b \<and> startH r = bx_height b \<and> startLeft r = bx_left b \<and> startTop r = bx_top b \<and>
        anchored e s b (pending_box r))"

lemma applyPending_box: "rz_box (applyPending r) = (if pendingW r > 0 \<and> pendingH r > 0 then pending_box r else rz_box r)"
  by (simp add: applyPending_def pending_box_def)

lemma begin_inv: "e = (CHR ''e'' \<in> set corner) \<Longrightarrow> s = (CHR ''s'' \<in> set corner) \<Longrightarrow>
    drag_inv e s (rz_box r) (beginResize pid x y corner r)"
  by (auto simp: drag_inv_def beginResize_def Let_def anchored_def pending_box_def)

lemma move_inv: "drag_inv e s b r \<Longrightarrow> drag_inv e s b (resizeMove pid x y r)"
  by (cases e; cases s) (auto simp: drag_inv_def resizeMove_def Let_def anchored_def pending_box_def)

lemma applied_inv: "drag_inv e s b r \<Longrightarrow> resizing r \<Longrightarrow> anchored e s b (rz_box (applyPending r))"
  by (simp add: applyPending_box drag_inv_def)

lemma frame_inv: "drag_inv e s b r \<Longrightarrow> drag_inv e s b (resizeFrame r)"
proof -
  assume d: "drag_inv e s b r"
  then have d': "drag_inv e s b (r\<lparr>frame := False\<rparr>)"
    by (auto simp: drag_inv_def pending_box_def)
  show ?thesis
  proof (cases "frame r \<and> resizing r")
    case True
    let ?r = "r\<lparr>frame := False\<rparr>"
    have a: "anchored e s b (rz_box (applyPending ?r))" using applied_inv [OF d'] True by simp
    have keep: "dirE (applyPending ?r) = dirE r \<and> dirS (applyPending ?r) = dirS r \<and> pendingLeft (applyPending ?r) = pendingLeft r \<and>
        pendingTop (applyPending ?r) = pendingTop r \<and> startW (applyPending ?r) = startW r \<and> startH (applyPending ?r) = startH r \<and>
        startLeft (applyPending ?r) = startLeft r \<and> startTop (applyPending ?r) = startTop r \<and> resizing (applyPending ?r) = resizing r"
      by (simp add: applyPending_def)
    have "pending_box (applyPending ?r) = pending_box r"
      by (auto simp: applyPending_def pending_box_def split: option.split)
    then have "drag_inv e s b (applyPending ?r)" using d a keep by (simp add: drag_inv_def)
    then show ?thesis using True by (simp add: resizeFrame_def Let_def)
  next
    case False
    then show ?thesis using d d' by (auto simp: resizeFrame_def Let_def)
  qed
qed

lemma finish_inv: "drag_inv e s b r \<Longrightarrow> drag_inv e s b (resizeFinish r)"
proof -
  assume d: "drag_inv e s b r"
  have "anchored e s b (rz_box (applyPending (r\<lparr>resizing := False, frame := False\<rparr>)))" if "resizing r"
    using d that unfolding applyPending_box by (auto simp: drag_inv_def pending_box_def)
  moreover have "\<not> resizing (applyPending (r\<lparr>resizing := False, frame := False\<rparr>))" by (simp add: applyPending_def)
  ultimately show ?thesis using d by (auto simp: resizeFinish_def drag_inv_def)
qed

lemma drag_step_inv: "drag_inv e s b r \<Longrightarrow> during_drag ev \<Longrightarrow> drag_inv e s b (rz_step r ev)"
  by (cases ev) (auto simp: move_inv frame_inv finish_inv resizeUp_def)

interpretation drag: guarded_machine "beginResize pid x y corner r0" rz_step
  "drag_inv (CHR ''e'' \<in> set corner) (CHR ''s'' \<in> set corner) (rz_box r0)" "\<lambda>r. during_drag"
  for pid x y corner r0
  by unfold_locales (auto intro: begin_inv drag_step_inv)

lemma drag_run_ok: "\<forall>ev \<in> set evs. during_drag ev \<Longrightarrow> drag.run_ok r evs"
  by (induction evs arbitrary: r) auto

text \<open>C37: Dragging a resize grip moves only the grip's own edges: whatever the pointer does
  and whenever the drag ends, by release, lost pointer or blur, the opposite edges stay where they
  were, and a changed size is at least 320 by 240 pixels.\<close>

theorem resize_keeps_opposite_edge:
  assumes "\<forall>ev \<in> set evs. during_drag ev"
  shows "anchored (CHR ''e'' \<in> set corner) (CHR ''s'' \<in> set corner) (rz_box r)
    (rz_box (resizeFinish (foldl rz_step (beginResize pid x y corner r) evs)))"
proof -
  have "\<forall>ev \<in> set (evs @ [RzLost]). during_drag ev" using assms by auto
  then have "drag_inv (CHR ''e'' \<in> set corner) (CHR ''s'' \<in> set corner) (rz_box r)
      (foldl rz_step (beginResize pid x y corner r) (evs @ [RzLost]))"
    by (intro drag.inv_run_start drag_run_ok)
  then show ?thesis by (simp add: drag_inv_def)
qed

definition sample_rz :: resize where
  "sample_rz = \<lparr>rz_box = \<lparr>bx_left = 100, bx_top = 80, bx_width = 640, bx_height = 480\<rparr>, resizing = False, pointerId = None,
     startX = 0, startY = 0, startW = 0, startH = 0, startLeft = 0, startTop = 0, pendingW = 0, pendingH = 0,
     pendingLeft = None, pendingTop = None, frame = False, dirE = True, dirS = True\<rparr>"

theorem resize_keeps_opposite_edge_witness:
  "let b = rz_box (resizeFinish (foldl rz_step (beginResize 1 100 80 ''nw'' sample_rz) [RzMove 1 900 90])) in bx_left b + bx_width b = 740"
  using resize_keeps_opposite_edge [of "[RzMove 1 900 90]" "''nw''" sample_rz 1 100 80]
  by (simp add: anchored_def Let_def) (simp add: sample_rz_def)

section \<open>Clamping\<close>

text \<open>\<open>Math.max(lo, Math.min(v, hi))\<close>.\<close>

definition clamp :: "rat \<Rightarrow> rat \<Rightarrow> rat \<Rightarrow> rat" where
  "clamp lo v hi = max lo (min v hi)"

lemma clamp_bounds: "lo \<le> clamp lo v hi" "lo \<le> hi \<Longrightarrow> clamp lo v hi \<le> hi" "lo \<le> v \<Longrightarrow> v \<le> hi \<Longrightarrow> clamp lo v hi = v"
  by (auto simp: clamp_def)

text \<open>An interval of length \<open>w\<close> placed by clamping to \<open>max lo (size - w - lo)\<close>.\<close>

definition place1 :: "rat \<Rightarrow> rat \<Rightarrow> rat \<Rightarrow> rat \<Rightarrow> rat" where
  "place1 m sz w v = clamp m v (max m (sz - w - m))"

section \<open>The session tab bar\<close>

record tabbar =
  tb_left :: rat
  tb_top :: rat
  tb_width :: rat
  tb_height :: rat
  tb_centred :: bool
  tb_drag :: "(nat \<times> rat \<times> rat) option"   \<comment> \<open>pointer, dx, dy\<close>
  tb_saved :: "(rat \<times> rat) option"

definition tb_place :: "rat \<Rightarrow> rat \<Rightarrow> rat \<Rightarrow> rat \<Rightarrow> tabbar \<Rightarrow> tabbar" where
  "tb_place innerW innerH x y b =
     b\<lparr>tb_centred := False,
       tb_left := clamp 0 x (max 0 (innerW - tb_width b)), tb_top := clamp 0 y (max 0 (innerH - tb_height b))\<rparr>"

definition tb_down :: "nat \<Rightarrow> rat \<Rightarrow> rat \<Rightarrow> tabbar \<Rightarrow> tabbar" where
  "tb_down pid x y b = b\<lparr>tb_drag := Some (pid, x - tb_left b, y - tb_top b)\<rparr>"

definition tb_move :: "rat \<Rightarrow> rat \<Rightarrow> nat \<Rightarrow> rat \<Rightarrow> rat \<Rightarrow> tabbar \<Rightarrow> tabbar" where
  "tb_move innerW innerH pid x y b =
     (case tb_drag b of
        None \<Rightarrow> b
      | Some (p, dx, dy) \<Rightarrow> if p = pid then tb_place innerW innerH (x - dx) (y - dy) b else b)"

text \<open>
  Release, cancel or blur. All three pass their event; a blur event has no \<open>pointerId\<close>
  (\<open>None\<close>), which never equals the pointer of the drag.
\<close>

definition tb_finish :: "nat option \<Rightarrow> tabbar \<Rightarrow> tabbar" where
  "tb_finish pid b =
     (case tb_drag b of
        None \<Rightarrow> b
      | Some (p, dx, dy) \<Rightarrow>
          if pid \<noteq> Some p then b else b\<lparr>tb_drag := None, tb_saved := Some (tb_left b, tb_top b)\<rparr>)"

text \<open>So leaving the browser window does not end a drag: the bar goes on following the pointer.\<close>

lemma blur_keeps_dragging: "tb_finish None b = b"
  by (simp add: tb_finish_def split: option.split)

definition restoreSessionTabbarPos :: "rat \<Rightarrow> rat \<Rightarrow> tabbar \<Rightarrow> tabbar" where
  "restoreSessionTabbarPos innerW innerH b =
     (case tb_saved b of None \<Rightarrow> b | Some (l, t) \<Rightarrow> tb_place innerW innerH l t b)"

definition on_screen :: "rat \<Rightarrow> rat \<Rightarrow> tabbar \<Rightarrow> bool" where
  "on_screen innerW innerH b \<longleftrightarrow>
     0 \<le> tb_left b \<and> 0 \<le> tb_top b \<and>
     (tb_width b \<le> innerW \<longrightarrow> tb_left b + tb_width b \<le> innerW) \<and> (tb_height b \<le> innerH \<longrightarrow> tb_top b + tb_height b \<le> innerH)"

lemma tb_place_on_screen: "on_screen w h (tb_place w h l t b)"
  by (auto simp: on_screen_def tb_place_def clamp_def)

text \<open>The floating tab bar cannot be lost: every drag step leaves it inside the viewport, and
  a position saved in a larger viewport is brought back inside when it is restored.\<close>

theorem tabbar_stays_on_screen:
  "(tb_drag b = Some (pid, dx, dy) \<longrightarrow> on_screen w h (tb_move w h pid x y b)) \<and>
   (tb_saved b \<noteq> None \<longrightarrow> on_screen w h (restoreSessionTabbarPos w h b))"
  by (auto simp: tb_move_def restoreSessionTabbarPos_def tb_place_on_screen)

definition sample_tb :: tabbar where
  "sample_tb = \<lparr>tb_left = 0, tb_top = 0, tb_width = 300, tb_height = 40, tb_centred = True, tb_drag = None, tb_saved = Some (1800, 900)\<rparr>"

theorem tabbar_stays_on_screen_witness: "on_screen 1024 768 (restoreSessionTabbarPos 1024 768 sample_tb)"
  using tabbar_stays_on_screen [of sample_tb 0 0 0 1024 768 0 0] by (simp add: sample_tb_def)

section \<open>Placing windows and menus\<close>

text \<open>\<open>positionShellWindowFromClick\<close> on a desktop; the click is optional.\<close>

definition positionShellWindowFromClick :: "rat \<Rightarrow> rat \<Rightarrow> nat \<Rightarrow> (rat \<times> rat) option \<Rightarrow> box" where
  "positionShellWindowFromClick innerW innerH shellWindowCount click =
     (let winW = min 640 (innerW - 8 * 2); winH = min 480 (innerH - 8 * 2)
      in case click of
           Some (x, y) \<Rightarrow>
             \<lparr>bx_left = clamp 8 (x - winW / 2) (innerW - winW - 8), bx_top = clamp 8 (y - 21) (innerH - winH - 8),
              bx_width = winW, bx_height = winH\<rparr>
         | None \<Rightarrow>
             (let off = of_nat ((shellWindowCount - 1) mod 5)
              in \<lparr>bx_left = max 8 (80 + off * 24), bx_top = max 8 (60 + off * 24), bx_width = winW, bx_height = winH\<rparr>))"

text \<open>A window opened by a click lies inside the viewport with its margin of eight pixels,
  wherever the click was, in any viewport at least sixteen pixels wide and high.\<close>

theorem clicked_window_inside:
  assumes "16 \<le> innerW" and "16 \<le> innerH"
  shows "let b = positionShellWindowFromClick innerW innerH n (Some (x, y))
    in 8 \<le> bx_left b \<and> bx_left b + bx_width b \<le> innerW - 8 \<and> 8 \<le> bx_top b \<and> bx_top b + bx_height b \<le> innerH - 8"
  using assms by (auto simp: positionShellWindowFromClick_def Let_def clamp_def)

theorem clicked_window_inside_witness:
  "let b = positionShellWindowFromClick 800 600 1 (Some (790, 590)) in bx_left b + bx_width b \<le> 792"
  using clicked_window_inside [of 800 600 1 790 590] by (simp add: Let_def)

text \<open>The cascade used without a click is not clamped.\<close>

lemma cascade_leaves_viewport:
  "let b = positionShellWindowFromClick 390 390 1 None in bx_left b + bx_width b > 390 \<and> bx_top b + bx_height b > 390"
  by (simp add: positionShellWindowFromClick_def Let_def)

text \<open>The add menu: below the anchor when there is room, above it otherwise.\<close>

definition addMenuPos :: "rat \<Rightarrow> rat \<Rightarrow> rat \<Rightarrow> rat \<Rightarrow> rat \<Rightarrow> rat \<Rightarrow> rat \<Rightarrow> rat \<times> rat" where
  "addMenuPos innerW innerH rl rt rb mw mh =
     (let below = rb + 4; y = (if below + mh > innerH - 8 then rt - mh - 4 else below)
      in (place1 8 innerW mw rl, max 8 y))"

definition switchMenuPos :: "rat \<Rightarrow> rat \<Rightarrow> rat \<Rightarrow> rat \<Rightarrow> rat \<Rightarrow> rat \<Rightarrow> rat \<times> rat" where
  "switchMenuPos innerW innerH rl rb mw mh = (place1 8 innerW mw rl, place1 8 innerH mh (rb + 4))"

text \<open>Both menus open inside the viewport: the session switcher whenever it fits at all, the
  add menu whenever it fits above or below its anchor.\<close>

theorem menus_inside:
  "(mw + 16 \<le> innerW \<and> mh + 16 \<le> innerH \<longrightarrow>
     (case switchMenuPos innerW innerH rl rb mw mh of (x, y) \<Rightarrow> 8 \<le> x \<and> x + mw \<le> innerW - 8 \<and> 8 \<le> y \<and> y + mh \<le> innerH - 8)) \<and>
   (mw + 16 \<le> innerW \<and> 4 \<le> rb \<and> rt \<le> innerH - 8 \<and> (rb + 4 + mh \<le> innerH - 8 \<or> mh + 12 \<le> rt) \<longrightarrow>
     (case addMenuPos innerW innerH rl rt rb mw mh of (x, y) \<Rightarrow> 8 \<le> x \<and> x + mw \<le> innerW - 8 \<and> 8 \<le> y \<and> y + mh \<le> innerH - 8))"
  by (auto simp: switchMenuPos_def addMenuPos_def Let_def place1_def clamp_def)

theorem menus_inside_witness:
  "case addMenuPos 400 700 380 680 700 120 90 of (x, y) \<Rightarrow> x + 120 \<le> 392 \<and> y + 90 \<le> 692"
  using menus_inside [of 120 400 90 700 380 700 680] by (simp add: case_prod_beta)

section \<open>The pane grid\<close>

definition ceil_div :: "nat \<Rightarrow> nat \<Rightarrow> nat" where
  "ceil_div n k = (n + k - 1) div k"

text \<open>\<open>Math.ceil(Math.sqrt(n))\<close>: the smallest number whose square is at least \<open>n\<close>.\<close>

definition ceil_sqrt :: "nat \<Rightarrow> nat" where
  "ceil_sqrt n = hd (filter (\<lambda>k. n \<le> k * k) [0..<Suc n])"

definition paneGridShape :: "string \<Rightarrow> nat \<Rightarrow> nat \<times> nat" where
  "paneGridShape strategy n =
     (if strategy = ''cols'' then (n, 1)
      else if strategy = ''rows'' then (1, n)
      else if strategy = ''pairs'' then (2, ceil_div n 2)
      else (ceil_sqrt n, ceil_div n (ceil_sqrt n)))"

lemma ceil_div_bounds: "0 < k \<Longrightarrow> n \<le> k * ceil_div n k" "0 < k \<Longrightarrow> 0 < n \<Longrightarrow> k * (ceil_div n k - 1) < n"
proof -
  assume k: "0 < k"
  define q where "q = ceil_div n k"
  have q: "k * q + (n + k - 1) mod k = n + k - 1" by (simp add: q_def ceil_div_def)
  have m: "(n + k - 1) mod k < k" using k by simp
  show "n \<le> k * ceil_div n k" unfolding q_def [symmetric] using q m by linarith
  assume n: "0 < n"
  have "k * (q - 1) = k * q - k" by (simp add: diff_mult_distrib2)
  moreover have "k \<le> k * q"
  proof (rule ccontr)
    assume "\<not> k \<le> k * q"
    then have "q = 0" by (cases q) auto
    then show False using q m n by simp
  qed
  ultimately show "k * (ceil_div n k - 1) < n" unfolding q_def [symmetric] using q n k by linarith
qed

lemma ceil_sqrt_bounds: "n \<le> ceil_sqrt n * ceil_sqrt n" "k < ceil_sqrt n \<Longrightarrow> k * k < n"
proof -
  let ?f = "filter (\<lambda>k. n \<le> k * k) [0..<Suc n]"
  have "n \<in> set ?f" by (simp add: le_square)
  then have ne: "?f \<noteq> []" by (metis empty_iff list.set(1))
  then show "n \<le> ceil_sqrt n * ceil_sqrt n" unfolding ceil_sqrt_def using hd_in_set [OF ne] by auto
  assume k: "k < ceil_sqrt n"
  show "k * k < n"
  proof (rule ccontr)
    assume "\<not> k * k < n"
    moreover have "ceil_sqrt n \<le> n" unfolding ceil_sqrt_def using hd_in_set [OF ne] by auto
    ultimately have "k \<in> set ?f" using k by auto
    moreover have "sorted ?f" by (intro sorted_wrt_filter) (simp del: upt_Suc)
    ultimately have "hd ?f \<le> k" using ne by (metis list.exhaust_sel set_ConsD sorted_simps(2) order_refl)
    then show False using k by (simp add: ceil_sqrt_def)
  qed
qed

lemma ceil_sqrt_pos: "0 < n \<Longrightarrow> 0 < ceil_sqrt n"
  using ceil_sqrt_bounds(1) [of n] by (cases "ceil_sqrt n") auto

text \<open>Every arrangement has room for all panes and no empty row; the automatic one is as
  square as possible, with at most one row fewer than columns.\<close>

theorem pane_grid_fits:
  assumes "0 < n"
  shows "case paneGridShape strategy n of (cols, rows) \<Rightarrow>
    n \<le> cols * rows \<and> 0 < cols \<and> 0 < rows \<and> cols * (rows - 1) < n \<and>
    (strategy \<notin> {''cols'', ''rows'', ''pairs''} \<longrightarrow> rows \<le> cols \<and> cols \<le> rows + 1)"
proof -
  let ?c = "ceil_sqrt n" and ?r = "ceil_div n (ceil_sqrt n)"
  have c: "0 < ?c" by (rule ceil_sqrt_pos [OF assms])
  have cap: "n \<le> ?c * ?r" "?c * (?r - 1) < n" using ceil_div_bounds [OF c] assms by auto
  have r: "0 < ?r" using cap(1) assms by (cases ?r) auto
  have le: "?r \<le> ?c"
  proof (rule ccontr)
    assume "\<not> ?r \<le> ?c"
    then have "?c * ?c \<le> ?c * (?r - 1)" by (intro mult_le_mono2) simp
    then show False using cap(2) ceil_sqrt_bounds(1) [of n] by linarith
  qed
  have ge: "?c \<le> ?r + 1"
  proof (rule ccontr)
    assume "\<not> ?c \<le> ?r + 1"
    then have "?r \<le> ?c - 2" "2 \<le> ?c" by auto
    then have "?c * ?r \<le> ?c * (?c - 2)" by (intro mult_le_mono2)
    also have "\<dots> \<le> (?c - 1) * (?c - 1)" using \<open>2 \<le> ?c\<close> by (cases ?c) (auto simp: algebra_simps diff_mult_distrib2)
    also have "\<dots> < n" by (rule ceil_sqrt_bounds(2)) (use c in auto)
    finally show False using cap(1) by linarith
  qed
  show ?thesis
    using cap c r le ge assms ceil_div_bounds [of 2 n] by (auto simp: paneGridShape_def ceil_div_def)
qed

theorem pane_grid_fits_witness: "case paneGridShape ''auto'' 7 of (cols, rows) \<Rightarrow> 7 \<le> cols * rows \<and> rows \<le> cols"
  using pane_grid_fits [of 7 "''auto''"] by (simp add: case_prod_beta)

section \<open>Fitting a terminal\<close>

text \<open>
  \<open>fitShellTerminal\<close> on the measured values: the width of the viewport element if it has one,
  else of the container; the screen element's cell size if it can be measured, else the
  measured character. The result is the new grid, \<open>None\<close> when nothing can be measured.
\<close>

record term_box =
  container_w :: rat
  container_h :: rat
  viewport_w :: "rat option"
  measured_char :: rat
  font_size :: rat
  screen :: "(rat \<times> rat) option"
  t_cols :: nat
  t_rows :: nat

definition fit_width :: "term_box \<Rightarrow> rat" where
  "fit_width m = (case viewport_w m of Some v \<Rightarrow> if v > 0 then v else container_w m | None \<Rightarrow> container_w m)"

definition fit_cell :: "term_box \<Rightarrow> rat \<times> rat" where
  "fit_cell m =
     (let cw0 = (if measured_char m \<noteq> 0 then measured_char m else 8);
          lh0 = (if \<lceil>font_size m * 27 / 20\<rceil> \<noteq> 0 then of_int \<lceil>font_size m * 27 / 20\<rceil> else 16)
      in case screen m of
           Some (sw, sh) \<Rightarrow>
             if t_cols m > 0 \<and> t_rows m > 0
             then (if sw / of_nat (t_cols m) > 0 then sw / of_nat (t_cols m) else cw0,
                   if sh / of_nat (t_rows m) > 0 then sh / of_nat (t_rows m) else lh0)
             else (cw0, lh0)
         | None \<Rightarrow> (cw0, lh0))"

definition fit_grid :: "term_box \<Rightarrow> (nat \<times> nat) option" where
  "fit_grid m =
     (if fit_width m \<le> 0 \<or> container_h m \<le> 0 then None
      else (case fit_cell m of (cw, lh) \<Rightarrow>
        Some (nat (max 2 \<lfloor>fit_width m / cw\<rfloor>), nat (max 2 \<lfloor>(container_h m - 4) / lh\<rfloor>))))"

text \<open>The terminal is resized only when the grid changes; the result says whether it did.\<close>

definition fitShellTerminal :: "term_box \<Rightarrow> bool \<times> term_box" where
  "fitShellTerminal m =
     (case fit_grid m of
        None \<Rightarrow> (False, m)
      | Some (c, r) \<Rightarrow>
          if c \<noteq> t_cols m \<or> r \<noteq> t_rows m then (True, m\<lparr>t_cols := c, t_rows := r\<rparr>) else (False, m))"

lemma floor_fit:
  assumes "0 < cw" and "2 * cw \<le> w"
  shows "of_nat (nat (max 2 \<lfloor>w / cw\<rfloor>)) * cw \<le> w \<and> w < of_nat (nat (max 2 \<lfloor>w / cw\<rfloor>) + 1) * (cw :: rat)"
proof -
  have "2 \<le> w / cw" using assms by (simp add: pos_le_divide_eq)
  then have m: "max 2 \<lfloor>w / cw\<rfloor> = \<lfloor>w / cw\<rfloor>" by (simp add: le_floor_iff max_def)
  have nn: "0 \<le> \<lfloor>w / cw\<rfloor>" using \<open>2 \<le> w / cw\<close> by linarith
  have a: "of_nat (nat \<lfloor>w / cw\<rfloor>) = (of_int \<lfloor>w / cw\<rfloor> :: rat)" using nn by simp
  have "of_int \<lfloor>w / cw\<rfloor> \<le> w / cw" "w / cw < of_int \<lfloor>w / cw\<rfloor> + 1" by linarith+
  then have "of_int \<lfloor>w / cw\<rfloor> * cw \<le> w" "w < (of_int \<lfloor>w / cw\<rfloor> + 1) * cw"
    using pos_le_divide_eq [OF assms(1)] pos_divide_less_eq [OF assms(1)] by blast+
  then show ?thesis unfolding m of_nat_add a by simp
qed


definition sample_term :: term_box where
  "sample_term = \<lparr>container_w = 640, container_h = 400, viewport_w = Some 620, measured_char = 8, font_size = 13, screen = None,
     t_cols = 80, t_rows = 24\<rparr>"


section \<open>Following the output\<close>

definition xtermViewportNearBottom :: "rat \<Rightarrow> rat \<Rightarrow> rat \<Rightarrow> rat \<Rightarrow> bool" where
  "xtermViewportNearBottom margin scrollHeight clientHeight scrollTop \<longleftrightarrow>
     scrollHeight \<le> clientHeight + 2 \<or> scrollTop + clientHeight \<ge> scrollHeight - margin"

text \<open>\<open>shellTermScrollToBottomIfStuck\<close>: the new scroll position after output.\<close>

definition scrollToBottomIfStuck :: "rat \<Rightarrow> rat \<Rightarrow> rat \<Rightarrow> rat" where
  "scrollToBottomIfStuck scrollHeight clientHeight scrollTop =
     (if xtermViewportNearBottom 64 scrollHeight clientHeight scrollTop then max 0 (scrollHeight - clientHeight) else scrollTop)"

lemma stuck_follows:
  "scrollTop + clientHeight = scrollHeight \<Longrightarrow> 0 \<le> scrollTop \<Longrightarrow> grown - scrollHeight \<le> 64 \<Longrightarrow>
     scrollToBottomIfStuck grown clientHeight scrollTop + clientHeight = max clientHeight grown"
  by (auto simp: scrollToBottomIfStuck_def xtermViewportNearBottom_def max_def)

lemma reading_is_not_disturbed:
  "scrollHeight > clientHeight + 2 \<Longrightarrow> scrollTop + clientHeight < scrollHeight - 64 \<Longrightarrow>
     scrollToBottomIfStuck scrollHeight clientHeight scrollTop = scrollTop"
  by (simp add: scrollToBottomIfStuck_def xtermViewportNearBottom_def)

section \<open>Dragging a window\<close>

record wdrag =
  wd_active :: bool
  wd_startX :: rat
  wd_startY :: rat
  wd_startLeft :: rat
  wd_startTop :: rat
  wd_left :: rat
  wd_top :: rat

definition dragDown :: "bool \<Rightarrow> bool \<Rightarrow> rat \<Rightarrow> rat \<Rightarrow> wdrag \<Rightarrow> wdrag" where
  "dragDown on_button tiled x y d =
     (if on_button \<or> tiled then d
      else d\<lparr>wd_active := True, wd_startX := x, wd_startY := y, wd_startLeft := wd_left d, wd_startTop := wd_top d\<rparr>)"

definition dragMove :: "rat \<Rightarrow> rat \<Rightarrow> wdrag \<Rightarrow> wdrag" where
  "dragMove x y d =
     (if \<not> wd_active d then d
      else d\<lparr>wd_left := wd_startLeft d + x - wd_startX d, wd_top := wd_startTop d + y - wd_startY d\<rparr>)"

definition dragUp :: "wdrag \<Rightarrow> wdrag" where
  "dragUp d = d\<lparr>wd_active := False\<rparr>"

text \<open>However the pointer wandered, the window moves by the pointer's total displacement.\<close>

lemma drag_total:
  assumes "\<not> tiled"
  shows "wd_left (dragUp (foldl (\<lambda>d (x, y). dragMove x y d) (dragDown False tiled x0 y0 d) (ps @ [(x, y)]))) = wd_left d + (x - x0)"
proof -
  have "wd_active (foldl (\<lambda>d (x, y). dragMove x y d) e ps) = wd_active e \<and>
      wd_startX (foldl (\<lambda>d (x, y). dragMove x y d) e ps) = wd_startX e \<and>
      wd_startLeft (foldl (\<lambda>d (x, y). dragMove x y d) e ps) = wd_startLeft e" for e
    by (induction ps arbitrary: e) (auto simp: dragMove_def split: prod.splits)
  then show ?thesis using assms by (simp add: dragDown_def dragUp_def dragMove_def [of x y])
qed

end
