(* ===== verification/Windows.thy ===== *)
theory Windows
  imports Geometry
begin

text \<open>
  The window manager of the page: floating windows and the tiled pane grid, raising,
  minimizing, collapsing, maximizing, hiding all, the session tab bar, and the entry points
  that open or focus a session's window (\<open>shell-windows.js\<close>, \<open>bringShellWindowToFront\<close> of
  \<open>util.js\<close>, the window part of \<open>openShellWindow\<close> and \<open>openPendingShellWindow\<close> of
  \<open>terminal-view.js\<close>). Windows are named by the number in their id.
\<close>

section \<open>State\<close>

text \<open>The inline lengths the code writes; \<open>Unset\<close> is the empty string.\<close>

datatype css = Unset | Px rat | AutoLen | ViewportW | ViewportH

record rect =
  r_left :: css
  r_top :: css
  r_width :: css
  r_height :: css

abbreviation no_rect :: rect where
  "no_rect \<equiv> \<lparr>r_left = Unset, r_top = Unset, r_width = Unset, r_height = Unset\<rparr>"

text \<open>A window element: inline style, expando properties, and (with the prefix \<open>k_\<close>) its classes.\<close>

record wnode =
  wid :: nat
  wn_sid :: "string option"
  wn_rect :: rect
  wn_z :: "nat option"
  floatRect :: "rect option"
  maxed :: bool
  maxSavedRect :: "rect option"
  savedH :: css
  minimized :: bool
  k_tiled :: bool
  k_paneActive :: bool
  k_paneMaxed :: bool
  k_hidden :: bool
  k_minimized :: bool
  k_collapsed :: bool
  k_fullscreen :: bool

text \<open>
  \<open>floats\<close> and \<open>panes\<close> are the children of the two containers. \<open>paneActive\<close> and \<open>paneMaxed\<close>
  are references and may name a window that is gone. \<open>wm_tabs\<close> is the tab bar with its active
  marks; \<open>storedMode\<close> the saved layout; \<open>mobile\<close> what the media queries answer.
\<close>

record desk =
  floats :: "wnode list"
  panes :: "wnode list"
  layoutTile :: bool
  paneActive :: "nat option"
  paneMaxed :: "nat option"
  paneStrategy :: string
  paneColFr :: "nat list"
  grid_cols :: "nat list"
  grid_rows :: nat
  workspace_open :: bool
  winsHidden :: bool
  body_tile :: bool
  tile_btn :: bool
  autoTileArmed :: bool
  shellZSeq :: nat
  storedMode :: "bool option"
  wm_tabs :: "(nat \<times> bool) list"
  bar_hidden :: bool
  mobile :: bool
  wasMobile :: bool
  innerWidth :: rat
  innerHeight :: rat
  shellWindowCount :: nat

definition FULLSCREEN_Z :: nat where "FULLSCREEN_Z = 21000"
definition AUTO_TILE_THRESHOLD :: nat where "AUTO_TILE_THRESHOLD = 0"

definition allShellWins :: "desk \<Rightarrow> wnode list" where
  "allShellWins d = floats d @ panes d"

definition isTiledWin :: "nat \<Rightarrow> desk \<Rightarrow> bool" where
  "isTiledWin i d \<longleftrightarrow> i \<in> wid ` set (panes d)"

definition get_win :: "nat \<Rightarrow> desk \<Rightarrow> wnode option" where
  "get_win i d = find (\<lambda>w. wid w = i) (allShellWins d)"

definition upd_win :: "nat \<Rightarrow> (wnode \<Rightarrow> wnode) \<Rightarrow> desk \<Rightarrow> desk" where
  "upd_win i f d =
     d\<lparr>floats := map (\<lambda>w. if wid w = i then f w else w) (floats d), panes := map (\<lambda>w. if wid w = i then f w else w) (panes d)\<rparr>"

section \<open>The tab bar\<close>

definition z_of :: "wnode \<Rightarrow> nat" where
  "z_of w = (case wn_z w of None \<Rightarrow> FULLSCREEN_Z | Some z \<Rightarrow> z)"

text \<open>The scan for the topmost window; \<open>topZ\<close> starts at -1.\<close>

fun top_loop :: "wnode list \<Rightarrow> int \<Rightarrow> nat option \<Rightarrow> nat option" where
  "top_loop [] topZ topWin = topWin"
| "top_loop (w # ws) topZ topWin =
     (if k_minimized w then top_loop ws topZ topWin
      else if int (z_of w) \<ge> topZ then top_loop ws (int (z_of w)) (Some (wid w))
      else top_loop ws topZ topWin)"

definition topWin :: "desk \<Rightarrow> nat option" where
  "topWin d =
     (if layoutTile d
      then (case paneActive d of None \<Rightarrow> None | Some a \<Rightarrow> if isTiledWin a d then Some a else None)
      else top_loop (filter (\<lambda>w. \<not> isTiledWin (wid w) d) (allShellWins d)) (-1) None)"

definition refreshSessionTabbar :: "desk \<Rightarrow> desk" where
  "refreshSessionTabbar d =
     d\<lparr>bar_hidden := (allShellWins d = [] \<and> \<not> layoutTile d),
       wm_tabs := map (\<lambda>w. (wid w, topWin d = Some (wid w))) (allShellWins d)\<rparr>"

section \<open>Panes\<close>

definition setActivePane :: "nat option \<Rightarrow> desk \<Rightarrow> desk" where
  "setActivePane win d =
     refreshSessionTabbar
       (d\<lparr>panes := map (\<lambda>w. w\<lparr>k_paneActive := (win = Some (wid w))\<rparr>) (panes d), paneActive := win\<rparr>)"

definition bringShellWindowToFront :: "nat \<Rightarrow> desk \<Rightarrow> desk" where
  "bringShellWindowToFront i d =
     (case get_win i d of
        None \<Rightarrow> d
      | Some w \<Rightarrow>
          if isTiledWin i d then setActivePane (Some i) d
          else if k_fullscreen w then
            (let lower = (\<lambda>v. if wid v = i then v\<lparr>wn_z := Some FULLSCREEN_Z\<rparr>
                              else if k_fullscreen v then v\<lparr>wn_z := Some (FULLSCREEN_Z - 1)\<rparr> else v)
             in refreshSessionTabbar (d\<lparr>floats := map lower (floats d), panes := map lower (panes d)\<rparr>))
          else
            (let z = (if shellZSeq d = 0 then 10050 else shellZSeq d) + 1
             in refreshSessionTabbar (upd_win i (\<lambda>w. w\<lparr>wn_z := Some z\<rparr>) (d\<lparr>shellZSeq := z\<rparr>))))"

definition tileWindow :: "nat \<Rightarrow> desk \<Rightarrow> desk" where
  "tileWindow i d =
     (case find (\<lambda>w. wid w = i) (floats d) of
        None \<Rightarrow> d
      | Some w \<Rightarrow>
          setActivePane (Some i)
            (d\<lparr>floats := filter (\<lambda>v. wid v \<noteq> i) (floats d),
               panes := panes d @ [w\<lparr>floatRect := Some (wn_rect w), k_tiled := True\<rparr>]\<rparr>))"

definition untileWindow :: "nat \<Rightarrow> desk \<Rightarrow> desk" where
  "untileWindow i d =
     (case find (\<lambda>w. wid w = i) (panes d) of
        None \<Rightarrow> d
      | Some w \<Rightarrow>
          bringShellWindowToFront i
            (d\<lparr>paneMaxed := (if paneMaxed d = Some i then None else paneMaxed d),
               panes := filter (\<lambda>v. wid v \<noteq> i) (panes d),
               floats := floats d @
                 [w\<lparr>k_tiled := False, k_paneActive := False, k_paneMaxed := False,
                    wn_rect := (case floatRect w of None \<Rightarrow> no_rect | Some r \<Rightarrow> r)\<rparr>]\<rparr>))"

definition applyPaneGrid :: "desk \<Rightarrow> desk" where
  "applyPaneGrid d =
     (let wins = filter (\<lambda>w. \<not> k_minimized w) (panes d);
          shape = paneGridShape (paneStrategy d) (max 1 (length wins));
          cols = max 1 (fst shape);
          fr = (if length (paneColFr d) \<noteq> cols then replicate cols 1 else paneColFr d);
          d1 = d\<lparr>paneColFr := fr, grid_cols := fr, grid_rows := max 1 (snd shape),
                 panes := map (\<lambda>w. if k_minimized w then w else w\<lparr>k_paneMaxed := (paneMaxed d = Some (wid w))\<rparr>) (panes d)\<rparr>
      in if (\<exists>w \<in> set wins. paneActive d = Some (wid w)) then d1
         else setActivePane (case wins of [] \<Rightarrow> None | w # ws \<Rightarrow> Some (wid w)) d1)"

definition openPaneWorkspace :: "desk \<Rightarrow> desk" where
  "openPaneWorkspace d = applyPaneGrid (d\<lparr>workspace_open := True\<rparr>)"

definition setLayoutMode :: "bool \<Rightarrow> desk \<Rightarrow> desk" where
  "setLayoutMode tile d =
     (let d1 = d\<lparr>layoutTile := tile, storedMode := Some tile, body_tile := tile, tile_btn := tile\<rparr>
      in refreshSessionTabbar
           (if tile
            then openPaneWorkspace ((foldl (\<lambda>e i. tileWindow i e) d1 (map wid (floats d1)))\<lparr>paneColFr := []\<rparr>)
            else
              (applyPaneGrid (foldl (\<lambda>e i. untileWindow i e) (d1\<lparr>paneMaxed := None\<rparr>) (map wid (panes d1))))
                \<lparr>workspace_open := False\<rparr>))"

definition layoutMaybeAutoTile :: "desk \<Rightarrow> desk" where
  "layoutMaybeAutoTile d =
     (if AUTO_TILE_THRESHOLD \<le> 0 then d
      else if layoutTile d then applyPaneGrid d
      else if length (floats d) \<le> AUTO_TILE_THRESHOLD then d\<lparr>autoTileArmed := True\<rparr>
      else if autoTileArmed d then setLayoutMode True (d\<lparr>autoTileArmed := False\<rparr>)
      else d)"

text \<open>The two mutation observers run after the script that changed a container's children.\<close>

definition pane_observer :: "desk \<Rightarrow> desk" where
  "pane_observer d =
     (if \<not> layoutTile d then d
      else if panes d = [] then setLayoutMode False d
      else refreshSessionTabbar (applyPaneGrid d))"

definition observers :: "desk \<Rightarrow> desk \<Rightarrow> desk" where
  "observers old d =
     (let d1 = (if map wid (floats d) \<noteq> map wid (floats old) then refreshSessionTabbar d else d)
      in if map wid (panes d1) \<noteq> map wid (panes old) then pane_observer d1 else d1)"

section \<open>Hiding, minimizing, collapsing, maximizing\<close>

definition hideAllWindows :: "desk \<Rightarrow> desk" where
  "hideAllWindows d =
     (let d1 = (d\<lparr>winsHidden := True\<rparr>)\<lparr>workspace_open := (if layoutTile d then False else workspace_open d)\<rparr>
      in d1\<lparr>floats := map (\<lambda>w. if isTiledWin (wid w) d1 then w else w\<lparr>k_hidden := True\<rparr>) (floats d1)\<rparr>)"

definition showAllWindows :: "desk \<Rightarrow> desk" where
  "showAllWindows d =
     (let d1 = d\<lparr>winsHidden := False\<rparr>;
          d2 = (if layoutTile d1 then applyPaneGrid (d1\<lparr>workspace_open := True\<rparr>) else d1)
      in d2\<lparr>floats := map (\<lambda>w. w\<lparr>k_hidden := False\<rparr>) (floats d2), panes := map (\<lambda>w. w\<lparr>k_hidden := False\<rparr>) (panes d2)\<rparr>)"

definition toggleAllWindowsVisible :: "desk \<Rightarrow> desk" where
  "toggleAllWindowsVisible d = (if winsHidden d then showAllWindows d else hideAllWindows d)"

text \<open>A pane fills the grid, a floating window the viewport; a full-screen window has nothing to toggle.\<close>

definition max_rect :: rect where
  "max_rect = \<lparr>r_left = Px 8, r_top = Px 8, r_width = ViewportW, r_height = ViewportH\<rparr>"

definition toggle_max_node :: "wnode \<Rightarrow> wnode" where
  "toggle_max_node w =
     (if maxed w
      then w\<lparr>maxed := False, wn_rect := (case maxSavedRect w of None \<Rightarrow> no_rect | Some r \<Rightarrow> r)\<rparr>
      else w\<lparr>maxed := True, maxSavedRect := Some (wn_rect w), wn_rect := max_rect\<rparr>)"

definition toggleShellWindowMax :: "nat \<Rightarrow> desk \<Rightarrow> desk" where
  "toggleShellWindowMax i d =
     (case get_win i d of
        None \<Rightarrow> d
      | Some w \<Rightarrow>
          if isTiledWin i d
          then setActivePane (Some i) (applyPaneGrid (d\<lparr>paneMaxed := (if paneMaxed d = Some i then None else Some i)\<rparr>))
          else if k_fullscreen w \<or> mobile d then d
          else bringShellWindowToFront i (upd_win i toggle_max_node d))"

definition escapeKey :: "desk \<Rightarrow> desk" where
  "escapeKey d =
     (if (\<exists>w \<in> set (panes d). paneMaxed d = Some (wid w)) then applyPaneGrid (d\<lparr>paneMaxed := None\<rparr>)
      else (case find (\<lambda>w. maxed w \<and> \<not> isTiledWin (wid w) d) (allShellWins d) of
              None \<Rightarrow> d | Some w \<Rightarrow> toggleShellWindowMax (wid w) d))"

definition minimizeShellWindow :: "nat \<Rightarrow> desk \<Rightarrow> desk" where
  "minimizeShellWindow i d =
     (case get_win i d of
        None \<Rightarrow> d
      | Some w \<Rightarrow>
          if k_minimized w then d
          else
            (let d1 = upd_win i (\<lambda>w. w\<lparr>k_minimized := True, minimized := True\<rparr>) d
             in refreshSessionTabbar (if isTiledWin i d1 then applyPaneGrid d1 else d1)))"

definition restoreShellWindow :: "nat \<Rightarrow> desk \<Rightarrow> desk" where
  "restoreShellWindow i d =
     (case get_win i d of
        None \<Rightarrow> d
      | Some w \<Rightarrow>
          if \<not> minimized w then d
          else
            (let d1 = upd_win i (\<lambda>w. w\<lparr>k_minimized := False, minimized := False\<rparr>) d
             in if isTiledWin i d1 then applyPaneGrid d1 else d1))"

definition expand_node :: "wnode \<Rightarrow> wnode" where
  "expand_node w = (if k_collapsed w then w\<lparr>wn_rect := (wn_rect w)\<lparr>r_height := savedH w\<rparr>, k_collapsed := False\<rparr> else w)"

definition expandShellWindow :: "nat \<Rightarrow> desk \<Rightarrow> desk" where
  "expandShellWindow i d = upd_win i expand_node d"

text \<open>\<open>measured\<close> is the height of the window on screen.\<close>

definition collapse_node :: "rat \<Rightarrow> wnode \<Rightarrow> wnode" where
  "collapse_node measured w =
     (if k_collapsed w then w
      else w\<lparr>savedH := (if r_height (wn_rect w) \<noteq> Unset then r_height (wn_rect w) else Px measured),
             wn_rect := (wn_rect w)\<lparr>r_height := AutoLen\<rparr>, k_collapsed := True\<rparr>)"

definition collapseShellWindow :: "nat \<Rightarrow> rat \<Rightarrow> desk \<Rightarrow> desk" where
  "collapseShellWindow i measured d = upd_win i (collapse_node measured) d"

text \<open>The chevron in the header.\<close>

definition collapse_click :: "nat \<Rightarrow> rat \<Rightarrow> desk \<Rightarrow> desk" where
  "collapse_click i measured d =
     (case get_win i d of
        None \<Rightarrow> d
      | Some w \<Rightarrow> if k_collapsed w then expandShellWindow i d else collapseShellWindow i measured d)"

section \<open>The viewport\<close>

text \<open>\<open>applyWindowViewportMode\<close> on a window that is not tiled.\<close>

definition viewport_node :: "bool \<Rightarrow> wnode \<Rightarrow> wnode" where
  "viewport_node mob w =
     (if \<not> mob then w\<lparr>k_fullscreen := False\<rparr>
      else w\<lparr>k_fullscreen := True, wn_rect := no_rect, wn_z := None, maxSavedRect := None, maxed := False\<rparr>)"

definition box_rect :: "box \<Rightarrow> rect" where
  "box_rect b = \<lparr>r_left = Px (bx_left b), r_top = Px (bx_top b), r_width = Px (bx_width b), r_height = Px (bx_height b)\<rparr>"

definition position_node :: "desk \<Rightarrow> (rat \<times> rat) option \<Rightarrow> wnode \<Rightarrow> wnode" where
  "position_node d click w =
     (if mobile d then viewport_node True w
      else w\<lparr>wn_rect := box_rect (positionShellWindowFromClick (innerWidth d) (innerHeight d) (shellWindowCount d) click)\<rparr>)"

definition onViewportChange :: "bool \<Rightarrow> rat \<Rightarrow> rat \<Rightarrow> desk \<Rightarrow> desk" where
  "onViewportChange mob iw ih d =
     (let d0 = d\<lparr>mobile := mob, innerWidth := iw, innerHeight := ih\<rparr>;
          leave = (\<lambda>w. let v = w\<lparr>k_fullscreen := False\<rparr> in if maxed v then v else position_node d0 None v);
          d1 = (if mob \<noteq> wasMobile d0
                then d0\<lparr>wasMobile := mob, floats := map (if mob then viewport_node True else leave) (floats d0)\<rparr>
                else if mob then d0\<lparr>floats := map (viewport_node True) (floats d0)\<rparr>
                else d0)
      in refreshSessionTabbar d1)"

section \<open>Opening, focusing, closing\<close>

definition new_win :: "nat \<Rightarrow> string option \<Rightarrow> wnode" where
  "new_win n sid =
     \<lparr>wid = n, wn_sid = sid, wn_rect = no_rect, wn_z = None, floatRect = None, maxed = False, maxSavedRect = None, savedH = Unset,
      minimized = False, k_tiled = False, k_paneActive = False, k_paneMaxed = False, k_hidden = False, k_minimized = False,
      k_collapsed = False, k_fullscreen = False\<rparr>"

text \<open>
  The creation of a window in \<open>openShellWindow\<close> and \<open>openPendingShellWindow\<close>; a pending
  window has no session yet.
\<close>

definition create_win :: "string option \<Rightarrow> (rat \<times> rat) option \<Rightarrow> desk \<Rightarrow> desk" where
  "create_win sid click d =
     (let n = shellWindowCount d + 1;
          d1 = d\<lparr>shellWindowCount := n\<rparr>;
          d2 = d1\<lparr>floats := floats d1 @ [position_node d1 click (new_win n sid)]\<rparr>;
          d3 = bringShellWindowToFront n d2;
          d4 = (if layoutTile d3 then openPaneWorkspace (tileWindow n d3) else layoutMaybeAutoTile d3)
      in if winsHidden d4 then showAllWindows d4 else d4)"

definition getShellWindowBySid :: "string option \<Rightarrow> desk \<Rightarrow> nat option" where
  "getShellWindowBySid sid d = map_option wid (find (\<lambda>w. wn_sid w = sid) (allShellWins d))"

text \<open>The part of \<open>focusSessionWindow\<close> after the window was found.\<close>

definition raise_win :: "nat \<Rightarrow> desk \<Rightarrow> desk" where
  "raise_win i d =
     (let d1 = expandShellWindow i (restoreShellWindow i d);
          d2 = (if isTiledWin i d1 \<and> paneMaxed d1 \<noteq> None \<and> paneMaxed d1 \<noteq> Some i
                then applyPaneGrid (d1\<lparr>paneMaxed := None\<rparr>) else d1);
          d3 = bringShellWindowToFront i d2
      in if winsHidden d3 then showAllWindows d3 else d3)"

definition focusSessionWindow :: "string option \<Rightarrow> (rat \<times> rat) option \<Rightarrow> desk \<Rightarrow> desk" where
  "focusSessionWindow sid click d =
     (case getShellWindowBySid sid d of None \<Rightarrow> create_win sid click d | Some i \<Rightarrow> raise_win i d)"

text \<open>A dial that finished gives its pending window the session.\<close>

definition finalizePendingShellWindow :: "nat \<Rightarrow> string \<Rightarrow> desk \<Rightarrow> desk" where
  "finalizePendingShellWindow i sid d = refreshSessionTabbar (upd_win i (\<lambda>w. w\<lparr>wn_sid := Some sid\<rparr>) d)"

text \<open>\<open>win.remove()\<close> at the end of \<open>closeShellWindow\<close>; one script may close several windows before the
  observers run.\<close>

definition remove_win :: "nat \<Rightarrow> desk \<Rightarrow> desk" where
  "remove_win i d = d\<lparr>floats := filter (\<lambda>w. wid w \<noteq> i) (floats d), panes := filter (\<lambda>w. wid w \<noteq> i) (panes d)\<rparr>"

definition remove_wins :: "nat list \<Rightarrow> desk \<Rightarrow> desk" where
  "remove_wins ids d = foldl (\<lambda>e i. remove_win i e) d ids"

definition strategy_change :: "string \<Rightarrow> desk \<Rightarrow> desk" where
  "strategy_change s d = applyPaneGrid (d\<lparr>paneStrategy := s, paneColFr := []\<rparr>)"

section \<open>The desk as a machine\<close>

datatype wm_event =
    WPending "(rat \<times> rat) option" | WFinal nat string | WFocus string "(rat \<times> rat) option" | WTab nat | WClose "nat list"
  | WRaise nat | WMin nat | WMax nat | WCollapse nat rat | WEscape | WLayout | WStrategy string | WToggleAll
  | WViewport bool rat rat

text \<open>A click on a tab focuses by the session of its window.\<close>

definition tab_click :: "nat \<Rightarrow> desk \<Rightarrow> desk" where
  "tab_click i d = (case get_win i d of None \<Rightarrow> d | Some w \<Rightarrow> focusSessionWindow (wn_sid w) None d)"

fun wm_op :: "desk \<Rightarrow> wm_event \<Rightarrow> desk" where
  "wm_op d (WPending click) = create_win None click d"
| "wm_op d (WFinal i sid) = finalizePendingShellWindow i sid d"
| "wm_op d (WFocus sid click) = focusSessionWindow (Some sid) click d"
| "wm_op d (WTab i) = tab_click i d"
| "wm_op d (WClose ids) = remove_wins ids d"
| "wm_op d (WRaise i) = bringShellWindowToFront i d"
| "wm_op d (WMin i) = minimizeShellWindow i d"
| "wm_op d (WMax i) = toggleShellWindowMax i d"
| "wm_op d (WCollapse i h) = collapse_click i h d"
| "wm_op d WEscape = escapeKey d"
| "wm_op d WLayout = setLayoutMode (\<not> layoutTile d) d"
| "wm_op d (WStrategy s) = strategy_change s d"
| "wm_op d WToggleAll = toggleAllWindowsVisible d"
| "wm_op d (WViewport mob iw ih) = onViewportChange mob iw ih d"

definition wm_step :: "desk \<Rightarrow> wm_event \<Rightarrow> desk" where
  "wm_step d e = observers d (wm_op d e)"

definition win_shown :: "nat \<Rightarrow> desk \<Rightarrow> bool" where
  "win_shown i d = (case get_win i d of None \<Rightarrow> False | Some w \<Rightarrow> \<not> k_minimized w \<and> \<not> k_hidden w)"

text \<open>
  Windows are clicked only while they are on screen; on a touch device the tab bar with its
  layout buttons is displayed only under the body's \<open>tile-mode\<close> class, and the device stays
  what it is (\<open>leaving_touch_mode\<close> below shows what happens otherwise).
\<close>

fun wm_enabled :: "desk \<Rightarrow> wm_event \<Rightarrow> bool" where
  "wm_enabled d (WTab i) = (i \<in> wid ` set (allShellWins d) \<and> (mobile d \<longrightarrow> body_tile d))"
| "wm_enabled d (WRaise i) = win_shown i d"
| "wm_enabled d (WMin i) = win_shown i d"
| "wm_enabled d (WMax i) = win_shown i d"
| "wm_enabled d (WCollapse i h) = win_shown i d"
| "wm_enabled d WLayout = (mobile d \<longrightarrow> body_tile d)"
| "wm_enabled d (WStrategy s) = (mobile d \<longrightarrow> body_tile d)"
| "wm_enabled d WToggleAll = (mobile d \<longrightarrow> body_tile d)"
| "wm_enabled d (WViewport mob iw ih) = (mob = mobile d)"
| "wm_enabled d e = True"

text \<open>The page after its script has run: the saved layout is read into the variable only.\<close>

definition desk_start :: "bool option \<Rightarrow> string \<Rightarrow> bool \<Rightarrow> rat \<Rightarrow> rat \<Rightarrow> desk" where
  "desk_start st strategy mob iw ih =
     refreshSessionTabbar
       \<lparr>floats = [], panes = [], layoutTile = (st = Some True), paneActive = None, paneMaxed = None, paneStrategy = strategy,
        paneColFr = [], grid_cols = [], grid_rows = 0, workspace_open = False, winsHidden = False, body_tile = False,
        tile_btn = (st = Some True), autoTileArmed = True, shellZSeq = 0, storedMode = st, wm_tabs = [], bar_hidden = True,
        mobile = mob, wasMobile = mob, innerWidth = iw, innerHeight = ih, shellWindowCount = 0\<rparr>"

end
