(* ===== verification/Windows_Invariant.thy ===== *)
theory Windows_Invariant
  imports Windows
begin

text \<open>
  The invariant of the window manager (\<open>desk_inv\<close>) and that every event of the page keeps it;
  what raising, restoring, expanding, opening and showing do to the visibility of each window
  and to the window in front.
\<close>

section \<open>The invariant\<close>

text \<open>
  The parts of the invariant: identifiers and the flags of each window, z-indices, the class of
  the active pane, the class of the maximized pane, and the tab bar.
\<close>

definition node_ok :: "desk \<Rightarrow> wnode \<Rightarrow> bool" where
  "node_ok d w \<longleftrightarrow>
     minimized w = k_minimized w \<and> (\<not> winsHidden d \<longrightarrow> \<not> k_hidden w) \<and> (\<not> mobile d \<longrightarrow> \<not> k_fullscreen w) \<and>
     wid w \<le> shellWindowCount d"

definition nodes_ok :: "desk \<Rightarrow> bool" where
  "nodes_ok d \<longleftrightarrow>
     distinct (map wid (allShellWins d)) \<and> (\<forall>w \<in> set (allShellWins d). node_ok d w) \<and>
     (\<forall>w \<in> set (floats d). \<not> k_tiled w \<and> \<not> k_paneActive w \<and> \<not> k_paneMaxed w \<and> paneMaxed d \<noteq> Some (wid w) \<and>
        (mobile d \<longrightarrow> k_fullscreen w)) \<and>
     (\<forall>w \<in> set (panes d). k_tiled w \<and> floatRect w \<noteq> None) \<and> (\<forall>m. paneMaxed d = Some m \<longrightarrow> m \<le> shellWindowCount d)"

definition z_ok :: "nat set \<Rightarrow> desk \<Rightarrow> bool" where
  "z_ok X d \<longleftrightarrow> (\<not> mobile d \<longrightarrow> (\<forall>w \<in> set (allShellWins d). wid w \<notin> X \<longrightarrow> (\<exists>z. wn_z w = Some z \<and> z \<le> shellZSeq d)))"

definition active_class_ok :: "desk \<Rightarrow> bool" where
  "active_class_ok d \<longleftrightarrow> (\<forall>w \<in> set (panes d). k_paneActive w = (paneActive d = Some (wid w)))"

definition maxed_class_ok :: "desk \<Rightarrow> bool" where
  "maxed_class_ok d \<longleftrightarrow> (\<forall>w \<in> set (panes d). \<not> k_minimized w \<longrightarrow> k_paneMaxed w = (paneMaxed d = Some (wid w)))"

definition synced :: "desk \<Rightarrow> bool" where
  "synced d \<longleftrightarrow>
     bar_hidden d = (allShellWins d = [] \<and> \<not> layoutTile d) \<and>
     wm_tabs d = map (\<lambda>w. (wid w, topWin d = Some (wid w))) (allShellWins d)"

definition active_ok :: "desk \<Rightarrow> bool" where
  "active_ok d \<longleftrightarrow>
     ((\<exists>w \<in> set (panes d). \<not> k_minimized w) \<longrightarrow> (\<exists>w \<in> set (panes d). \<not> k_minimized w \<and> paneActive d = Some (wid w)))"

definition mode_ok :: "desk \<Rightarrow> bool" where
  "mode_ok d \<longleftrightarrow>
     (if layoutTile d then floats d = [] else panes d = []) \<and> tile_btn d = layoutTile d \<and> wasMobile d = mobile d \<and>
     (body_tile d \<longrightarrow> layoutTile d \<and> \<not> mobile d) \<and> (layoutTile d \<and> panes d \<noteq> [] \<and> \<not> winsHidden d \<longrightarrow> workspace_open d)"

lemmas wm_parts = nodes_ok_def z_ok_def active_class_ok_def maxed_class_ok_def active_ok_def

definition base_ok :: "desk \<Rightarrow> bool" where
  "base_ok d \<longleftrightarrow> nodes_ok d \<and> z_ok {} d \<and> active_class_ok d"

definition parts_ok :: "desk \<Rightarrow> bool" where
  "parts_ok d \<longleftrightarrow> base_ok d \<and> maxed_class_ok d"

definition desk_inv :: "desk \<Rightarrow> bool" where
  "desk_inv d \<longleftrightarrow> parts_ok d \<and> synced d \<and> active_ok d \<and> mode_ok d"

lemma refresh_parts [simp]:
  "nodes_ok (refreshSessionTabbar d) = nodes_ok d" "z_ok X (refreshSessionTabbar d) = z_ok X d"
  "active_class_ok (refreshSessionTabbar d) = active_class_ok d" "maxed_class_ok (refreshSessionTabbar d) = maxed_class_ok d"
  "active_ok (refreshSessionTabbar d) = active_ok d" "mode_ok (refreshSessionTabbar d) = mode_ok d"
  "base_ok (refreshSessionTabbar d) = base_ok d" "parts_ok (refreshSessionTabbar d) = parts_ok d"
  by (simp_all add: refreshSessionTabbar_def wm_parts base_ok_def parts_ok_def mode_ok_def node_ok_def allShellWins_def)

lemma refresh_synced [simp]: "synced (refreshSessionTabbar d)"
  by (simp add: synced_def refreshSessionTabbar_def allShellWins_def topWin_def isTiledWin_def cong: option.case_cong)

lemma refresh_fields [simp]:
  "floats (refreshSessionTabbar d) = floats d" "panes (refreshSessionTabbar d) = panes d"
  "layoutTile (refreshSessionTabbar d) = layoutTile d" "paneActive (refreshSessionTabbar d) = paneActive d"
  "paneMaxed (refreshSessionTabbar d) = paneMaxed d" "winsHidden (refreshSessionTabbar d) = winsHidden d"
  "workspace_open (refreshSessionTabbar d) = workspace_open d" "mobile (refreshSessionTabbar d) = mobile d"
  "wasMobile (refreshSessionTabbar d) = wasMobile d" "body_tile (refreshSessionTabbar d) = body_tile d"
  "tile_btn (refreshSessionTabbar d) = tile_btn d" "shellWindowCount (refreshSessionTabbar d) = shellWindowCount d"
  "shellZSeq (refreshSessionTabbar d) = shellZSeq d" "allShellWins (refreshSessionTabbar d) = allShellWins d"
  "isTiledWin i (refreshSessionTabbar d) = isTiledWin i d" "get_win i (refreshSessionTabbar d) = get_win i d"
  by (simp_all add: refreshSessionTabbar_def allShellWins_def isTiledWin_def get_win_def)

text \<open>The active pane.\<close>

lemma setActivePane_fields [simp]:
  "floats (setActivePane a d) = floats d" "layoutTile (setActivePane a d) = layoutTile d" "paneActive (setActivePane a d) = a"
  "panes (setActivePane a d) = map (\<lambda>w. w\<lparr>k_paneActive := (a = Some (wid w))\<rparr>) (panes d)"
  "paneMaxed (setActivePane a d) = paneMaxed d" "winsHidden (setActivePane a d) = winsHidden d"
  "workspace_open (setActivePane a d) = workspace_open d" "mobile (setActivePane a d) = mobile d"
  "wasMobile (setActivePane a d) = wasMobile d" "body_tile (setActivePane a d) = body_tile d"
  "tile_btn (setActivePane a d) = tile_btn d" "shellWindowCount (setActivePane a d) = shellWindowCount d"
  "shellZSeq (setActivePane a d) = shellZSeq d" "isTiledWin i (setActivePane a d) = isTiledWin i d"
  by (simp_all add: setActivePane_def isTiledWin_def image_image)

lemma setActivePane_parts [simp]:
  "nodes_ok d \<Longrightarrow> nodes_ok (setActivePane a d)" "z_ok X d \<Longrightarrow> z_ok X (setActivePane a d)"
  "active_class_ok (setActivePane a d)" "maxed_class_ok d \<Longrightarrow> maxed_class_ok (setActivePane a d)" "synced (setActivePane a d)"
      apply (auto simp: nodes_ok_def allShellWins_def node_ok_def o_def)[1]
     apply (auto simp: z_ok_def allShellWins_def)[1]
    apply (auto simp: active_class_ok_def)[1]
   apply (auto simp: maxed_class_ok_def)[1]
  apply (simp add: setActivePane_def)
  done

lemma get_win_cases:
  assumes "distinct (map wid (allShellWins d))" and "i \<in> wid ` set (allShellWins d)"
  obtains w where "w \<in> set (allShellWins d)" and "wid w = i" and "get_win i d = Some w"
proof -
  obtain w where w: "w \<in> set (allShellWins d)" "wid w = i" using assms(2) by auto
  then obtain v where v: "find (\<lambda>w. wid w = i) (allShellWins d) = Some v"
    by (cases "find (\<lambda>w. wid w = i) (allShellWins d)") (auto simp: find_None_iff)
  then have "v \<in> set (allShellWins d)" "wid v = i" by (auto simp: find_Some_iff)
  then show thesis using that v by (simp add: get_win_def)
qed

lemma get_win_Some: "get_win i d = Some w \<Longrightarrow> w \<in> set (allShellWins d) \<and> wid w = i"
  by (auto simp: get_win_def find_Some_iff)

lemma get_win_None: "get_win i d = None \<longleftrightarrow> i \<notin> wid ` set (allShellWins d)"
  by (auto simp: get_win_def find_None_iff)

lemma upd_win_fields [simp]:
  "layoutTile (upd_win i f d) = layoutTile d" "paneActive (upd_win i f d) = paneActive d"
  "paneMaxed (upd_win i f d) = paneMaxed d" "winsHidden (upd_win i f d) = winsHidden d"
  "workspace_open (upd_win i f d) = workspace_open d" "mobile (upd_win i f d) = mobile d"
  "wasMobile (upd_win i f d) = wasMobile d" "body_tile (upd_win i f d) = body_tile d"
  "tile_btn (upd_win i f d) = tile_btn d" "shellWindowCount (upd_win i f d) = shellWindowCount d"
  "shellZSeq (upd_win i f d) = shellZSeq d" "wm_tabs (upd_win i f d) = wm_tabs d" "bar_hidden (upd_win i f d) = bar_hidden d"
  "allShellWins (upd_win i f d) = map (\<lambda>w. if wid w = i then f w else w) (allShellWins d)"
  by (simp_all add: upd_win_def allShellWins_def)

lemma map_wid_upd: "(\<And>w. wid (f w) = wid w) \<Longrightarrow> map wid (map (\<lambda>w. if P w then f w else w) ws) = map wid ws"
  by (simp add: if_distrib o_def)

text \<open>An update that keeps the identifier, the classes and flags the parts speak about.\<close>

definition keeps :: "(wnode \<Rightarrow> wnode) \<Rightarrow> bool" where
  "keeps f \<longleftrightarrow>
     (\<forall>w. wid (f w) = wid w \<and> minimized (f w) = minimized w \<and> k_minimized (f w) = k_minimized w \<and> (k_hidden (f w) \<longrightarrow> k_hidden w) \<and>
        k_fullscreen (f w) = k_fullscreen w \<and> k_tiled (f w) = k_tiled w \<and> k_paneActive (f w) = k_paneActive w \<and>
        k_paneMaxed (f w) = k_paneMaxed w \<and> floatRect (f w) = floatRect w)"

lemma keepsD:
  assumes "keeps f"
  shows "wid (f w) = wid w" "minimized (f w) = minimized w" "k_minimized (f w) = k_minimized w" "k_hidden (f w) \<Longrightarrow> k_hidden w"
    "k_fullscreen (f w) = k_fullscreen w" "k_tiled (f w) = k_tiled w" "k_paneActive (f w) = k_paneActive w"
    "k_paneMaxed (f w) = k_paneMaxed w" "floatRect (f w) = floatRect w"
  using assms unfolding keeps_def by blast+

lemma keeps_node: "keeps f \<Longrightarrow> node_ok d w \<Longrightarrow> node_ok d (f w)"
  unfolding node_ok_def by (metis keepsD)

lemma node_ok_frame: "node_ok (d\<lparr>floats := fs, panes := ps\<rparr>) = node_ok d"
  by (simp add: node_ok_def fun_eq_iff)

lemma nodes_map:
  assumes d: "nodes_ok d" and i: "\<And>w. wid (f w) = wid w" "\<And>w. wid (g w) = wid w"
    and o: "\<And>w. node_ok d w \<Longrightarrow> node_ok d (f w)" "\<And>w. node_ok d w \<Longrightarrow> node_ok d (g w)"
    and f: "\<And>w. k_tiled (f w) = k_tiled w" "\<And>w. k_paneActive (f w) = k_paneActive w" "\<And>w. k_paneMaxed (f w) = k_paneMaxed w"
      "\<And>w. k_fullscreen w \<Longrightarrow> k_fullscreen (f w)"
    and g: "\<And>w. k_tiled (g w) = k_tiled w" "\<And>w. floatRect (g w) = floatRect w"
  shows "nodes_ok (d\<lparr>floats := map f (floats d), panes := map g (panes d)\<rparr>)"
proof -
  have "\<forall>w \<in> set (floats d). node_ok d (f w)" "\<forall>w \<in> set (panes d). node_ok d (g w)"
    using d o by (simp_all add: nodes_ok_def allShellWins_def)
  then show ?thesis using d by (simp add: nodes_ok_def allShellWins_def node_ok_frame i f g o_def ball_Un)
qed

lemma keeps_nodes:
  assumes f: "keeps f" and g: "keeps g" and d: "nodes_ok d"
  shows "nodes_ok (d\<lparr>floats := map f (floats d), panes := map g (panes d)\<rparr>)"
  by (rule nodes_map [OF d]) (simp_all add: keepsD(1,5-9) [OF f] keepsD(1,5-9) [OF g] keeps_node f g)

lemma keeps_if: "keeps f \<Longrightarrow> keeps (\<lambda>w. if P w then f w else w)"
  by (auto simp: keeps_def)

lemma upd_keeps_nodes: "keeps f \<Longrightarrow> nodes_ok d \<Longrightarrow> nodes_ok (upd_win i f d)"
  unfolding upd_win_def by (intro keeps_nodes keeps_if)

lemma keeps_classes:
  assumes "keeps g"
  shows "active_class_ok (d\<lparr>floats := fs, panes := map g (panes d)\<rparr>) = active_class_ok d"
    and "maxed_class_ok (d\<lparr>floats := fs, panes := map g (panes d)\<rparr>) = maxed_class_ok d"
    and "active_ok (d\<lparr>floats := fs, panes := map g (panes d)\<rparr>) = active_ok d"
  using assms by (simp_all add: active_class_ok_def maxed_class_ok_def active_ok_def keeps_def)

lemma upd_keeps_classes:
  assumes "keeps f"
  shows "active_class_ok (upd_win i f d) = active_class_ok d" and "maxed_class_ok (upd_win i f d) = maxed_class_ok d"
    and "active_ok (upd_win i f d) = active_ok d"
  unfolding upd_win_def by (simp_all add: keeps_classes [OF keeps_if [OF assms]])

text \<open>Raising a window; its own z-index may still be unset.\<close>

lemma isTiled_ids: "isTiledWin i d \<longleftrightarrow> i \<in> set (map wid (panes d))"
  by (simp add: isTiledWin_def)

lemma upd_ids:
  assumes "\<And>w. wid (f w) = wid w"
  shows "map wid (panes (upd_win i f d)) = map wid (panes d)" and "map wid (floats (upd_win i f d)) = map wid (floats d)"
  using assms by (simp_all add: upd_win_def)

lemma isTiled_upd [simp]: "(\<And>w. wid (f w) = wid w) \<Longrightarrow> isTiledWin j (upd_win i f d) = isTiledWin j d"
  unfolding isTiled_ids by (simp only: upd_ids)

lemma bring_fields [simp]:
  "layoutTile (bringShellWindowToFront i d) = layoutTile d" "paneMaxed (bringShellWindowToFront i d) = paneMaxed d"
  "winsHidden (bringShellWindowToFront i d) = winsHidden d" "workspace_open (bringShellWindowToFront i d) = workspace_open d"
  "mobile (bringShellWindowToFront i d) = mobile d" "wasMobile (bringShellWindowToFront i d) = wasMobile d"
  "body_tile (bringShellWindowToFront i d) = body_tile d" "tile_btn (bringShellWindowToFront i d) = tile_btn d"
  "shellWindowCount (bringShellWindowToFront i d) = shellWindowCount d"
  by (simp_all add: bringShellWindowToFront_def Let_def split: option.split)

lemma bring_ids [simp]:
  "map wid (floats (bringShellWindowToFront i d)) = map wid (floats d)" "map wid (panes (bringShellWindowToFront i d)) = map wid (panes d)"
  by (auto simp: bringShellWindowToFront_def Let_def upd_win_def split: option.split)

lemma bring_parts:
  assumes "nodes_ok d"
  shows "nodes_ok (bringShellWindowToFront i d)"
    and "active_class_ok d \<Longrightarrow> active_class_ok (bringShellWindowToFront i d)"
    and "maxed_class_ok d \<Longrightarrow> maxed_class_ok (bringShellWindowToFront i d)"
    and "synced d \<Longrightarrow> synced (bringShellWindowToFront i d)"
proof -
  have k: "keeps (\<lambda>v. if wid v = i then v\<lparr>wn_z := a\<rparr> else if k_fullscreen v then v\<lparr>wn_z := b\<rparr> else v)"
    "keeps (\<lambda>w. w\<lparr>wn_z := a\<rparr>)" for a b by (auto simp: keeps_def)
  have n: "nodes_ok (d\<lparr>shellZSeq := z\<rparr>)" "active_class_ok (d\<lparr>shellZSeq := z\<rparr>) = active_class_ok d"
    "maxed_class_ok (d\<lparr>shellZSeq := z\<rparr>) = maxed_class_ok d" for z
    using assms by (simp_all add: wm_parts allShellWins_def node_ok_def)
  show "nodes_ok (bringShellWindowToFront i d)"
    using assms by (auto simp: bringShellWindowToFront_def Let_def keeps_nodes [OF k(1) k(1)] upd_keeps_nodes [OF k(2)] n split: option.split)
  show "active_class_ok d \<Longrightarrow> active_class_ok (bringShellWindowToFront i d)"
    by (auto simp: bringShellWindowToFront_def Let_def keeps_classes [OF k(1)] upd_keeps_classes [OF k(2)] n split: option.split)
  show "maxed_class_ok d \<Longrightarrow> maxed_class_ok (bringShellWindowToFront i d)"
    by (auto simp: bringShellWindowToFront_def Let_def keeps_classes [OF k(1)] upd_keeps_classes [OF k(2)] n split: option.split)
  show "synced d \<Longrightarrow> synced (bringShellWindowToFront i d)"
    by (auto simp: bringShellWindowToFront_def Let_def split: option.split)
qed

lemma bring_z:
  assumes "nodes_ok d" and "z_ok X d" and "X \<subseteq> {i}" and "X \<noteq> {} \<Longrightarrow> i \<in> wid ` set (floats d)"
  shows "z_ok {} (bringShellWindowToFront i d)"
proof (cases "get_win i d")
  case None
  then have "X = {}" using assms(4) by (auto simp: get_win_None allShellWins_def)
  then show ?thesis using None assms(2) by (simp add: bringShellWindowToFront_def)
next
  case (Some w)
  have d: "distinct (map wid (allShellWins d))" using assms(1) by (simp add: nodes_ok_def)
  consider (tiled) "isTiledWin i d" | (full) "\<not> isTiledWin i d" "k_fullscreen w" | (plain) "\<not> isTiledWin i d" "\<not> k_fullscreen w" by blast
  then show ?thesis
  proof cases
    case tiled
    then have "i \<notin> wid ` set (floats d)" using d by (auto simp: isTiledWin_def allShellWins_def)
    then have "X = {}" using assms(4) by blast
    then show ?thesis using tiled Some assms(2) by (simp add: bringShellWindowToFront_def)
  next
    case full
    then have "mobile d" using assms(1) get_win_Some [OF Some] by (auto simp: nodes_ok_def node_ok_def)
    then show ?thesis by (simp add: z_ok_def)
  next
    case plain
    define z where "z = (if shellZSeq d = 0 then 10050 else shellZSeq d) + 1"
    have b: "bringShellWindowToFront i d = refreshSessionTabbar (upd_win i (\<lambda>w. w\<lparr>wn_z := Some z\<rparr>) (d\<lparr>shellZSeq := z\<rparr>))"
      using plain Some by (simp add: bringShellWindowToFront_def z_def)
    have "shellZSeq d \<le> z" by (simp add: z_def)
    then have "\<exists>y. wn_z w = Some y \<and> y \<le> z" if "w \<in> set (allShellWins d)" "\<not> mobile d" "wid w \<noteq> i" for w
      using assms(2,3) that unfolding z_ok_def by (meson insert_iff le_trans singletonD subset_iff)
    moreover have "allShellWins (d\<lparr>shellZSeq := z\<rparr>) = allShellWins d" by (simp add: allShellWins_def)
    ultimately show ?thesis unfolding b by (auto simp: z_ok_def)
  qed
qed

text \<open>Moving windows between the containers.\<close>

lemma tile_fields [simp]:
  "floats (tileWindow i d) = filter (\<lambda>w. wid w \<noteq> i) (floats d)"
  "layoutTile (tileWindow i d) = layoutTile d" "paneMaxed (tileWindow i d) = paneMaxed d"
  "winsHidden (tileWindow i d) = winsHidden d" "workspace_open (tileWindow i d) = workspace_open d"
  "mobile (tileWindow i d) = mobile d" "wasMobile (tileWindow i d) = wasMobile d" "body_tile (tileWindow i d) = body_tile d"
  "tile_btn (tileWindow i d) = tile_btn d" "shellWindowCount (tileWindow i d) = shellWindowCount d"
          apply (cases "find (\<lambda>w. wid w = i) (floats d)")
           apply (auto simp: tileWindow_def find_None_iff intro!: filter_True [symmetric])[2]
         apply (simp_all add: tileWindow_def split: option.split)
  done

lemma tile_parts:
  assumes n: "nodes_ok d"
  shows "nodes_ok (tileWindow i d)" and "z_ok {} d \<Longrightarrow> z_ok {} (tileWindow i d)"
    and "active_class_ok d \<Longrightarrow> active_class_ok (tileWindow i d)" and "maxed_class_ok d \<Longrightarrow> maxed_class_ok (tileWindow i d)"
    and "synced d \<Longrightarrow> synced (tileWindow i d)"
proof -
  have "nodes_ok (tileWindow i d) \<and> (z_ok {} d \<longrightarrow> z_ok {} (tileWindow i d)) \<and>
      (active_class_ok d \<longrightarrow> active_class_ok (tileWindow i d)) \<and> (maxed_class_ok d \<longrightarrow> maxed_class_ok (tileWindow i d)) \<and>
      (synced d \<longrightarrow> synced (tileWindow i d))"
  proof (cases "find (\<lambda>w. wid w = i) (floats d)")
    case None
    then show ?thesis using n by (simp add: tileWindow_def)
  next
    case (Some w)
    define e where "e = d\<lparr>floats := filter (\<lambda>v. wid v \<noteq> i) (floats d),
        panes := panes d @ [w\<lparr>floatRect := Some (wn_rect w), k_tiled := True\<rparr>]\<rparr>"
    have w: "w \<in> set (floats d)" "wid w = i" using Some by (auto simp: find_Some_iff)
    have m: "paneMaxed d \<noteq> Some i" "\<not> k_paneMaxed w" using n w by (auto simp: nodes_ok_def)
    have "distinct (map wid (allShellWins e))"
      using n w by (auto simp: nodes_ok_def allShellWins_def e_def distinct_map_filter)
    then have "nodes_ok e" using n w by (auto simp: nodes_ok_def allShellWins_def e_def node_ok_def)
    moreover have "z_ok {} d \<longrightarrow> z_ok {} e" using w by (auto simp: z_ok_def allShellWins_def e_def)
    moreover have "maxed_class_ok d \<longrightarrow> maxed_class_ok e" using m w by (auto simp: maxed_class_ok_def e_def)
    moreover have "tileWindow i d = setActivePane (Some i) e" using Some by (simp add: tileWindow_def e_def)
    ultimately show ?thesis by simp
  qed
  then show "nodes_ok (tileWindow i d)" "z_ok {} d \<Longrightarrow> z_ok {} (tileWindow i d)"
    "active_class_ok d \<Longrightarrow> active_class_ok (tileWindow i d)" "maxed_class_ok d \<Longrightarrow> maxed_class_ok (tileWindow i d)"
    "synced d \<Longrightarrow> synced (tileWindow i d)" by blast+
qed

lemma untile_fields [simp]:
  "layoutTile (untileWindow i d) = layoutTile d" "winsHidden (untileWindow i d) = winsHidden d"
  "workspace_open (untileWindow i d) = workspace_open d" "mobile (untileWindow i d) = mobile d"
  "wasMobile (untileWindow i d) = wasMobile d" "body_tile (untileWindow i d) = body_tile d"
  "tile_btn (untileWindow i d) = tile_btn d" "shellWindowCount (untileWindow i d) = shellWindowCount d"
  by (simp_all add: untileWindow_def split: option.split)

lemma untile_ids: "map wid (panes (untileWindow i d)) = filter (\<lambda>j. j \<noteq> i) (map wid (panes d))"
proof (cases "find (\<lambda>w. wid w = i) (panes d)")
  case None
  then have "filter (\<lambda>j. j \<noteq> i) (map wid (panes d)) = map wid (panes d)" by (auto simp: find_None_iff intro!: filter_True)
  then show ?thesis using None by (simp add: untileWindow_def)
next
  case (Some w)
  then show ?thesis by (simp add: untileWindow_def filter_map o_def)
qed

lemma untile_parts:
  assumes n: "nodes_ok d" and z: "z_ok {} d" and mob: "\<not> mobile d"
  shows "nodes_ok (untileWindow i d)" and "z_ok {} (untileWindow i d)"
    and "active_class_ok d \<Longrightarrow> active_class_ok (untileWindow i d)" and "maxed_class_ok d \<Longrightarrow> maxed_class_ok (untileWindow i d)"
proof -
  have "nodes_ok (untileWindow i d) \<and> z_ok {} (untileWindow i d) \<and> (active_class_ok d \<longrightarrow> active_class_ok (untileWindow i d)) \<and>
      (maxed_class_ok d \<longrightarrow> maxed_class_ok (untileWindow i d))"
  proof (cases "find (\<lambda>w. wid w = i) (panes d)")
    case None
    then show ?thesis using n z by (simp add: untileWindow_def)
  next
    case (Some w)
    define v where "v = w\<lparr>k_tiled := False, k_paneActive := False, k_paneMaxed := False,
        wn_rect := (case floatRect w of None \<Rightarrow> no_rect | Some r \<Rightarrow> r)\<rparr>"
    define e where "e = d\<lparr>paneMaxed := (if paneMaxed d = Some i then None else paneMaxed d),
        panes := filter (\<lambda>v. wid v \<noteq> i) (panes d), floats := floats d @ [v]\<rparr>"
    have w: "w \<in> set (panes d)" "wid w = i" using Some by (auto simp: find_Some_iff)
    have "distinct (map wid (allShellWins e))"
      using n w by (auto simp: nodes_ok_def allShellWins_def e_def v_def distinct_map_filter)
    moreover have "\<forall>u \<in> set (allShellWins e). node_ok e u"
    proof -
      have "node_ok e = node_ok d" by (simp add: node_ok_def fun_eq_iff e_def)
      moreover have "node_ok d w" using n w by (simp add: nodes_ok_def allShellWins_def)
      then have "node_ok d v" by (simp add: node_ok_def v_def)
      ultimately show ?thesis using n by (auto simp: allShellWins_def nodes_ok_def e_def)
    qed
    moreover have "\<forall>u \<in> set (floats e). \<not> k_tiled u \<and> \<not> k_paneActive u \<and> \<not> k_paneMaxed u \<and> paneMaxed e \<noteq> Some (wid u)"
      using n w by (auto simp: nodes_ok_def e_def v_def)
    moreover have "\<not> mobile e" "\<forall>u \<in> set (panes e). k_tiled u \<and> floatRect u \<noteq> None"
      using n mob by (auto simp: nodes_ok_def e_def)
    moreover have "\<forall>m. paneMaxed e = Some m \<longrightarrow> m \<le> shellWindowCount e" using n by (auto simp: nodes_ok_def e_def)
    ultimately have ne: "nodes_ok e" unfolding nodes_ok_def by blast
    have "z_ok {} e" using z w by (auto simp: z_ok_def allShellWins_def e_def v_def)
    then have "z_ok {} (bringShellWindowToFront i e)" by (intro bring_z [OF ne, of "{}"]) auto
    moreover have "untileWindow i d = bringShellWindowToFront i e" using Some by (simp add: untileWindow_def e_def v_def)
    moreover have "active_class_ok d \<longrightarrow> active_class_ok e" by (simp add: active_class_ok_def e_def)
    moreover have "maxed_class_ok d \<longrightarrow> maxed_class_ok e" by (auto simp: maxed_class_ok_def e_def)
    ultimately show ?thesis using bring_parts [OF ne] by simp
  qed
  then show "nodes_ok (untileWindow i d)" "z_ok {} (untileWindow i d)" "active_class_ok d \<Longrightarrow> active_class_ok (untileWindow i d)"
    "maxed_class_ok d \<Longrightarrow> maxed_class_ok (untileWindow i d)" by blast+
qed

lemma tile_all:
  assumes "parts_ok d"
  shows "parts_ok (foldl (\<lambda>e i. tileWindow i e) d ids)"
    and "floats (foldl (\<lambda>e i. tileWindow i e) d ids) = filter (\<lambda>w. wid w \<notin> set ids) (floats d)"
  using assms by (induction ids arbitrary: d) (simp_all add: base_ok_def parts_ok_def tile_parts conj_commute)

lemma untile_all:
  assumes "base_ok d" and "\<not> mobile d"
  shows "base_ok (foldl (\<lambda>e i. untileWindow i e) d ids)"
    and "map wid (panes (foldl (\<lambda>e i. untileWindow i e) d ids)) = filter (\<lambda>j. j \<notin> set ids) (map wid (panes d))"
  using assms by (induction ids arbitrary: d) (simp_all add: base_ok_def untile_parts untile_ids conj_commute)

lemma tile_all_fields [simp]:
  "layoutTile (foldl (\<lambda>e i. tileWindow i e) d ids) = layoutTile d" "winsHidden (foldl (\<lambda>e i. tileWindow i e) d ids) = winsHidden d"
  "mobile (foldl (\<lambda>e i. tileWindow i e) d ids) = mobile d" "wasMobile (foldl (\<lambda>e i. tileWindow i e) d ids) = wasMobile d"
  "body_tile (foldl (\<lambda>e i. tileWindow i e) d ids) = body_tile d" "tile_btn (foldl (\<lambda>e i. tileWindow i e) d ids) = tile_btn d"
  by (induction ids arbitrary: d) simp_all

lemma untile_all_fields [simp]:
  "layoutTile (foldl (\<lambda>e i. untileWindow i e) d ids) = layoutTile d" "winsHidden (foldl (\<lambda>e i. untileWindow i e) d ids) = winsHidden d"
  "mobile (foldl (\<lambda>e i. untileWindow i e) d ids) = mobile d" "wasMobile (foldl (\<lambda>e i. untileWindow i e) d ids) = wasMobile d"
  "body_tile (foldl (\<lambda>e i. untileWindow i e) d ids) = body_tile d" "tile_btn (foldl (\<lambda>e i. untileWindow i e) d ids) = tile_btn d"
  by (induction ids arbitrary: d) simp_all

text \<open>What the tab bar shows, in terms of identifiers.\<close>

lemma topWin_eq:
  assumes "nodes_ok d"
  shows "topWin d =
    (if layoutTile d then (case paneActive d of None \<Rightarrow> None | Some a \<Rightarrow> if a \<in> set (map wid (panes d)) then Some a else None)
     else top_loop (floats d) (-1) None)"
proof -
  have "filter (\<lambda>w. \<not> isTiledWin (wid w) d) (floats d) = floats d"
    using assms by (intro filter_True) (auto simp: nodes_ok_def allShellWins_def isTiledWin_def)
  moreover have "filter (\<lambda>w. \<not> isTiledWin (wid w) d) (panes d) = []" by (intro filter_False) (auto simp: isTiledWin_def)
  ultimately show ?thesis by (simp add: topWin_def allShellWins_def isTiledWin_def cong: option.case_cong)
qed

lemma synced_ids:
  "synced d \<longleftrightarrow>
     bar_hidden d = (map wid (floats d) @ map wid (panes d) = [] \<and> \<not> layoutTile d) \<and>
     wm_tabs d = map (\<lambda>i. (i, topWin d = Some i)) (map wid (floats d) @ map wid (panes d))"
  by (simp add: synced_def allShellWins_def o_def)

lemma synced_cong:
  assumes "nodes_ok d" and "nodes_ok e" and "top_loop (floats e) (-1) None = top_loop (floats d) (-1) None \<or> layoutTile d"
    and "map wid (floats e) = map wid (floats d)"
    and "map wid (panes e) = map wid (panes d)" and "layoutTile e = layoutTile d" and "paneActive e = paneActive d"
    and "wm_tabs e = wm_tabs d" and "bar_hidden e = bar_hidden d" and "synced d"
  shows "synced e"
proof -
  have "topWin e = topWin d" using assms(1-7) by (auto simp: topWin_eq simp del: set_map cong: option.case_cong)
  then show ?thesis using assms(4-6,8-10) unfolding synced_ids by (simp only:)
qed

lemma top_loop_map:
  assumes "\<And>w. wid (f w) = wid w" "\<And>w. k_minimized (f w) = k_minimized w" "\<And>w. wn_z (f w) = wn_z w"
  shows "top_loop (map f ws) z b = top_loop ws z b"
  using assms by (induction ws arbitrary: z b) (simp_all add: z_of_def)

text \<open>Laying out the grid repairs the classes and the active pane.\<close>

definition grid_paint :: "desk \<Rightarrow> desk" where
  "grid_paint d =
     (let n = max 1 (length (filter (\<lambda>w. \<not> k_minimized w) (panes d)));
          cols = max 1 (fst (paneGridShape (paneStrategy d) n));
          fr = (if length (paneColFr d) \<noteq> cols then replicate cols 1 else paneColFr d)
      in d\<lparr>paneColFr := fr, grid_cols := fr, grid_rows := max 1 (snd (paneGridShape (paneStrategy d) n)),
           panes := map (\<lambda>w. if k_minimized w then w else w\<lparr>k_paneMaxed := (paneMaxed d = Some (wid w))\<rparr>) (panes d)\<rparr>)"

lemma applyPaneGrid_eq:
  "applyPaneGrid d =
     (if (\<exists>w \<in> set (filter (\<lambda>w. \<not> k_minimized w) (panes d)). paneActive d = Some (wid w)) then grid_paint d
      else setActivePane (case filter (\<lambda>w. \<not> k_minimized w) (panes d) of [] \<Rightarrow> None | w # ws \<Rightarrow> Some (wid w)) (grid_paint d))"
  unfolding applyPaneGrid_def grid_paint_def Let_def by (rule refl)

lemma grid_paint_fields [simp]:
  "floats (grid_paint d) = floats d" "layoutTile (grid_paint d) = layoutTile d" "paneActive (grid_paint d) = paneActive d"
  "paneMaxed (grid_paint d) = paneMaxed d" "winsHidden (grid_paint d) = winsHidden d" "workspace_open (grid_paint d) = workspace_open d"
  "mobile (grid_paint d) = mobile d" "wasMobile (grid_paint d) = wasMobile d" "body_tile (grid_paint d) = body_tile d"
  "tile_btn (grid_paint d) = tile_btn d" "shellWindowCount (grid_paint d) = shellWindowCount d" "shellZSeq (grid_paint d) = shellZSeq d"
  "wm_tabs (grid_paint d) = wm_tabs d" "bar_hidden (grid_paint d) = bar_hidden d"
  "panes (grid_paint d) = map (\<lambda>w. if k_minimized w then w else w\<lparr>k_paneMaxed := (paneMaxed d = Some (wid w))\<rparr>) (panes d)"
  by (simp_all add: grid_paint_def Let_def)

lemma grid_paint_ids [simp]: "map wid (panes (grid_paint d)) = map wid (panes d)"
  by simp

lemma grid_paint_nodes: "nodes_ok d \<Longrightarrow> nodes_ok (grid_paint d)"
proof -
  assume n: "nodes_ok d"
  have i: "map wid (allShellWins (grid_paint d)) = map wid (allShellWins d)" by (simp add: allShellWins_def)
  have "node_ok (grid_paint d) = node_ok d" by (simp add: node_ok_def fun_eq_iff)
  moreover have "node_ok d w \<Longrightarrow> node_ok d (w\<lparr>k_paneMaxed := b\<rparr>)" for w b by (simp add: node_ok_def)
  ultimately have "\<forall>w \<in> set (allShellWins (grid_paint d)). node_ok (grid_paint d) w"
    using n by (auto simp: nodes_ok_def allShellWins_def)
  then show ?thesis using n i unfolding nodes_ok_def by auto
qed

lemma grid_fields [simp]:
  "floats (applyPaneGrid d) = floats d" "layoutTile (applyPaneGrid d) = layoutTile d" "paneMaxed (applyPaneGrid d) = paneMaxed d"
  "winsHidden (applyPaneGrid d) = winsHidden d" "workspace_open (applyPaneGrid d) = workspace_open d"
  "mobile (applyPaneGrid d) = mobile d" "wasMobile (applyPaneGrid d) = wasMobile d" "body_tile (applyPaneGrid d) = body_tile d"
  "tile_btn (applyPaneGrid d) = tile_btn d" "shellWindowCount (applyPaneGrid d) = shellWindowCount d"
  by (simp_all add: applyPaneGrid_eq)

lemma grid_ids [simp]: "map wid (panes (applyPaneGrid d)) = map wid (panes d)"
  by (simp add: applyPaneGrid_eq)

lemma grid_nil [simp]: "panes (applyPaneGrid d) = [] \<longleftrightarrow> panes d = []"
  by (simp add: applyPaneGrid_eq)

lemma grid_base:
  assumes "base_ok d"
  shows "parts_ok (applyPaneGrid d)" and "active_ok (applyPaneGrid d)" and "synced d \<Longrightarrow> synced (applyPaneGrid d)"
proof -
  have n: "nodes_ok d" "z_ok {} d" "active_class_ok d" using assms by (simp_all add: base_ok_def)
  have p: "nodes_ok (grid_paint d)" "z_ok {} (grid_paint d)" "active_class_ok (grid_paint d)" "maxed_class_ok (grid_paint d)"
    using n grid_paint_nodes by (auto simp: z_ok_def allShellWins_def active_class_ok_def maxed_class_ok_def)
  then show "parts_ok (applyPaneGrid d)" by (auto simp: applyPaneGrid_eq parts_ok_def base_ok_def)
  show "active_ok (applyPaneGrid d)"
  proof (cases "\<exists>w \<in> set (filter (\<lambda>w. \<not> k_minimized w) (panes d)). paneActive d = Some (wid w)")
    case True
    then have e: "applyPaneGrid d = grid_paint d" by (simp add: applyPaneGrid_eq)
    from True obtain w where "w \<in> set (panes d)" "\<not> k_minimized w" "paneActive d = Some (wid w)" by auto
    then show ?thesis unfolding e active_ok_def
      by (intro impI bexI [of _ "w\<lparr>k_paneMaxed := (paneMaxed d = Some (wid w))\<rparr>"]) (auto intro!: image_eqI [of _ _ w])
  next
    case False
    then have e: "applyPaneGrid d =
        setActivePane (case filter (\<lambda>w. \<not> k_minimized w) (panes d) of [] \<Rightarrow> None | w # ws \<Rightarrow> Some (wid w)) (grid_paint d)"
      unfolding applyPaneGrid_eq by (simp only: if_False)
    show ?thesis
    proof (cases "filter (\<lambda>w. \<not> k_minimized w) (panes d)")
      case Nil
      then have "\<forall>w \<in> set (panes d). k_minimized w" by (simp add: filter_empty_conv)
      then show ?thesis unfolding e active_ok_def by auto
    next
      case (Cons v vs)
      then have "v \<in> set (panes d)" "\<not> k_minimized v" by (auto simp: filter_eq_Cons_iff)
      then show ?thesis unfolding e active_ok_def Cons by force
    qed
  qed
  show "synced d \<Longrightarrow> synced (applyPaneGrid d)"
  proof (cases "\<exists>w \<in> set (filter (\<lambda>w. \<not> k_minimized w) (panes d)). paneActive d = Some (wid w)")
    case True
    then have e: "applyPaneGrid d = grid_paint d" by (simp add: applyPaneGrid_eq)
    assume "synced d"
    then show ?thesis unfolding e using n(1) p(1) by (intro synced_cong [of d "grid_paint d"]) simp_all
  qed (auto simp: applyPaneGrid_eq)
qed

lemma grid_inv: "base_ok d \<Longrightarrow> synced d \<Longrightarrow> mode_ok d \<Longrightarrow> desk_inv (applyPaneGrid d)"
  using grid_base [of d] by (simp add: desk_inv_def mode_ok_def)

lemma base_frame [simp]:
  "base_ok (d\<lparr>workspace_open := b\<rparr>) = base_ok d" "base_ok (d\<lparr>paneColFr := fr\<rparr>) = base_ok d"
  "base_ok (d\<lparr>paneStrategy := st\<rparr>) = base_ok d"
  "parts_ok (d\<lparr>workspace_open := b\<rparr>) = parts_ok d" "parts_ok (d\<lparr>paneColFr := fr\<rparr>) = parts_ok d"
  "active_ok (d\<lparr>workspace_open := b\<rparr>) = active_ok d"
  "parts_ok (d\<lparr>layoutTile := t, storedMode := st', body_tile := bt, tile_btn := tb\<rparr>) = parts_ok d"
  by (simp_all add: base_ok_def parts_ok_def wm_parts node_ok_def allShellWins_def)

lemma base_unmax: "base_ok d \<Longrightarrow> base_ok (d\<lparr>paneMaxed := None\<rparr>)"
  by (auto simp: base_ok_def wm_parts node_ok_def allShellWins_def)

lemma layout_tile_inv:
  assumes "parts_ok d" and "\<not> mobile d" and "wasMobile d = mobile d"
  shows "desk_inv (setLayoutMode True d)"
proof -
  define d1 where "d1 = d\<lparr>layoutTile := True, storedMode := Some True, body_tile := True, tile_btn := True\<rparr>"
  define e where "e = foldl (\<lambda>e i. tileWindow i e) d1 (map wid (floats d1))"
  have "parts_ok d1" using assms(1) by (simp add: d1_def)
  then have p: "parts_ok e" and f: "floats e = []" unfolding e_def by (simp_all add: tile_all filter_empty_conv)
  have s: "setLayoutMode True d = refreshSessionTabbar (applyPaneGrid ((e\<lparr>paneColFr := []\<rparr>)\<lparr>workspace_open := True\<rparr>))"
    by (simp add: setLayoutMode_def openPaneWorkspace_def Let_def e_def d1_def)
  have "base_ok ((e\<lparr>paneColFr := []\<rparr>)\<lparr>workspace_open := True\<rparr>)" using p by (simp add: parts_ok_def)
  from grid_base(1,2) [OF this] show ?thesis
    unfolding s desk_inv_def using assms(2,3) f by (simp add: mode_ok_def e_def d1_def)
qed

lemma layout_float_inv:
  assumes "base_ok d" and "\<not> mobile d \<or> panes d = []" and "wasMobile d = mobile d"
  shows "desk_inv (setLayoutMode False d)"
proof -
  define d1 where "d1 = (d\<lparr>layoutTile := False, storedMode := Some False, body_tile := False, tile_btn := False\<rparr>)\<lparr>paneMaxed := None\<rparr>"
  define e where "e = foldl (\<lambda>e i. untileWindow i e) d1 (map wid (panes d))"
  have b: "base_ok d1" using base_unmax [OF assms(1)] by (simp add: d1_def base_ok_def wm_parts node_ok_def allShellWins_def)
  have "base_ok e \<and> panes e = []"
  proof (cases "panes d = []")
    case True
    then show ?thesis using b by (simp add: e_def d1_def)
  next
    case False
    then have m: "\<not> mobile d1" using assms(2) by (simp add: d1_def)
    have "map wid (panes e) = []" unfolding e_def untile_all(2) [OF b m] by (simp add: d1_def filter_empty_conv)
    then show ?thesis using untile_all(1) [OF b m] by (simp add: e_def)
  qed
  then have "base_ok e" and pe: "panes e = []" by auto
  from grid_base(1,2) [OF this(1)] have g: "parts_ok (applyPaneGrid e)" "active_ok (applyPaneGrid e)" .
  have s: "setLayoutMode False d = refreshSessionTabbar ((applyPaneGrid e)\<lparr>workspace_open := False\<rparr>)"
    by (simp add: setLayoutMode_def Let_def e_def d1_def)
  show ?thesis unfolding s desk_inv_def using g pe assms(3) by (simp add: mode_ok_def e_def d1_def)
qed

section \<open>Every event keeps the invariant\<close>

text \<open>An update that the tab bar does not see either.\<close>

definition neutral :: "(wnode \<Rightarrow> wnode) \<Rightarrow> bool" where
  "neutral f \<longleftrightarrow> keeps f \<and> (\<forall>w. wn_z (f w) = wn_z w)"

lemma neutral_if: "neutral f \<Longrightarrow> neutral (\<lambda>w. if P w then f w else w)"
  by (auto simp: neutral_def keeps_if)

lemma neutral_z: "neutral f \<Longrightarrow> neutral g \<Longrightarrow> z_ok X (d\<lparr>floats := map f (floats d), panes := map g (panes d)\<rparr>) = z_ok X d"
  by (simp add: neutral_def z_ok_def allShellWins_def keepsD ball_Un)

lemma neutral_inv:
  assumes f: "neutral f" and g: "neutral g" and d: "desk_inv d"
  shows "desk_inv (d\<lparr>floats := map f (floats d), panes := map g (panes d)\<rparr>)" (is "desk_inv ?e")
proof -
  have k: "keeps f" "keeps g" using f g by (simp_all add: neutral_def)
  have n: "nodes_ok d" "nodes_ok ?e" using d k keeps_nodes by (simp_all add: desk_inv_def parts_ok_def base_ok_def)
  have "top_loop (map f (floats d)) (-1) None = top_loop (floats d) (-1) None"
    using f k(1) by (intro top_loop_map) (simp_all add: neutral_def keepsD)
  then have "synced ?e" using d n by (intro synced_cong [of d ?e]) (simp_all add: desk_inv_def keepsD k)
  then show ?thesis using d n neutral_z [OF f g] keeps_classes [OF k(2)]
    by (simp add: desk_inv_def parts_ok_def base_ok_def mode_ok_def)
qed

lemma neutral_upd: "neutral f \<Longrightarrow> desk_inv d \<Longrightarrow> desk_inv (upd_win i f d)"
  unfolding upd_win_def by (intro neutral_inv neutral_if)

lemma desk_invD:
  assumes "desk_inv d"
  shows "base_ok d" "nodes_ok d" "z_ok {} d" "active_class_ok d" "maxed_class_ok d" "synced d" "active_ok d" "mode_ok d" "parts_ok d"
  using assms by (simp_all add: desk_inv_def parts_ok_def base_ok_def)

lemma refresh_inv: "desk_inv d \<Longrightarrow> desk_inv (refreshSessionTabbar d)"
  by (simp add: desk_inv_def)

lemma no_panes_ok: "panes d = [] \<Longrightarrow> active_class_ok d \<and> maxed_class_ok d \<and> active_ok d"
  by (simp add: active_class_ok_def maxed_class_ok_def active_ok_def)

text \<open>Raising a floating window needs no more than the flags and z-indices of the others.\<close>

lemma bring_found_synced: "get_win i d \<noteq> None \<Longrightarrow> synced (bringShellWindowToFront i d)"
  by (auto simp: bringShellWindowToFront_def Let_def)

lemma bring_float_inv:
  assumes "nodes_ok d" and "z_ok {i} d" and "mode_ok d" and "\<not> layoutTile d" and "i \<in> wid ` set (floats d)"
  shows "desk_inv (bringShellWindowToFront i d)"
proof -
  have "panes d = []" using assms(3,4) by (simp add: mode_ok_def)
  then have "panes (bringShellWindowToFront i d) = []" using bring_ids(2) [of i d] by (simp add: map_is_Nil_conv del: bring_ids)
  moreover have "get_win i d \<noteq> None" using assms(5) by (auto simp: get_win_None allShellWins_def)
  ultimately show ?thesis
    using assms bring_parts(1) [OF assms(1)] bring_z [OF assms(1,2)] no_panes_ok [of "bringShellWindowToFront i d"] bring_found_synced
    by (simp add: desk_inv_def parts_ok_def base_ok_def mode_ok_def)
qed

text \<open>A pane may become the active one when it is not minimized.\<close>

lemma activate_inv:
  assumes d: "desk_inv d" and w: "w \<in> set (panes d)" "\<not> k_minimized w"
  shows "desk_inv (setActivePane (Some (wid w)) d)"
proof -
  have "active_ok (setActivePane (Some (wid w)) d)" using w by (force simp: active_ok_def)
  then show ?thesis using desk_invD [OF d] by (simp add: desk_inv_def parts_ok_def base_ok_def mode_ok_def)
qed

lemma bring_inv:
  assumes d: "desk_inv d" and w: "w \<in> set (allShellWins d)" "\<not> k_minimized w"
  shows "desk_inv (bringShellWindowToFront (wid w) d)"
proof (cases "layoutTile d")
  case True
  then have "floats d = []" using desk_invD(8) [OF d] by (simp add: mode_ok_def)
  then have p: "w \<in> set (panes d)" using w by (simp add: allShellWins_def)
  then obtain v where "get_win (wid w) d = Some v" using get_win_None [of "wid w" d] w(1) by fastforce
  then have "bringShellWindowToFront (wid w) d = setActivePane (Some (wid w)) d"
    using p by (simp add: bringShellWindowToFront_def isTiledWin_def)
  then show ?thesis using activate_inv [OF d p w(2)] by simp
next
  case False
  then have "panes d = []" using desk_invD(8) [OF d] by (simp add: mode_ok_def)
  then have "wid w \<in> wid ` set (floats d)" using w by (auto simp: allShellWins_def)
  moreover have "z_ok {wid w} d" using desk_invD(3) [OF d] by (simp add: z_ok_def)
  ultimately show ?thesis using bring_float_inv desk_invD [OF d] False by blast
qed

text \<open>Showing and hiding all windows.\<close>

lemma wins_frame [simp]: "allShellWins (d\<lparr>winsHidden := b\<rparr>) = allShellWins d" "allShellWins (d\<lparr>workspace_open := b\<rparr>) = allShellWins d"
  by (simp_all add: allShellWins_def)

lemma topWin_frame [simp]: "topWin (d\<lparr>winsHidden := b\<rparr>) = topWin d" "topWin (d\<lparr>workspace_open := b\<rparr>) = topWin d"
  by (simp_all add: topWin_def isTiledWin_def split: option.split)

lemma hidden_frame [simp]:
  "z_ok X (d\<lparr>winsHidden := b\<rparr>) = z_ok X d" "active_class_ok (d\<lparr>winsHidden := b\<rparr>) = active_class_ok d"
  "maxed_class_ok (d\<lparr>winsHidden := b\<rparr>) = maxed_class_ok d" "active_ok (d\<lparr>winsHidden := b\<rparr>) = active_ok d"
  "synced (d\<lparr>winsHidden := b\<rparr>) = synced d"
  by (simp_all add: z_ok_def active_class_ok_def maxed_class_ok_def active_ok_def synced_def)

lemma workspace_frame [simp]:
  "nodes_ok (d\<lparr>workspace_open := b\<rparr>) = nodes_ok d" "z_ok X (d\<lparr>workspace_open := b\<rparr>) = z_ok X d"
  "active_class_ok (d\<lparr>workspace_open := b\<rparr>) = active_class_ok d" "maxed_class_ok (d\<lparr>workspace_open := b\<rparr>) = maxed_class_ok d"
  "synced (d\<lparr>workspace_open := b\<rparr>) = synced d"
  by (simp_all add: z_ok_def active_class_ok_def maxed_class_ok_def synced_def nodes_ok_def node_ok_def)

lemma refresh_winsHidden: "refreshSessionTabbar (d\<lparr>winsHidden := b\<rparr>) = (refreshSessionTabbar d)\<lparr>winsHidden := b\<rparr>"
  by (simp add: refreshSessionTabbar_def)

lemma active_winsHidden: "setActivePane a (d\<lparr>winsHidden := b\<rparr>) = (setActivePane a d)\<lparr>winsHidden := b\<rparr>"
  unfolding setActivePane_def refresh_winsHidden [symmetric] by (intro arg_cong [of _ _ refreshSessionTabbar]) simp

lemma grid_winsHidden: "applyPaneGrid (d\<lparr>winsHidden := b\<rparr>) = (applyPaneGrid d)\<lparr>winsHidden := b\<rparr>"
proof -
  have "grid_paint (d\<lparr>winsHidden := b\<rparr>) = (grid_paint d)\<lparr>winsHidden := b\<rparr>" by (simp add: grid_paint_def Let_def)
  then show ?thesis by (auto simp: applyPaneGrid_eq active_winsHidden)
qed

lemma unhide_inv:
  assumes d: "desk_inv d" and ws: "layoutTile d \<and> panes d \<noteq> [] \<longrightarrow> workspace_open d"
  shows "desk_inv ((d\<lparr>winsHidden := False\<rparr>)\<lparr>floats := map (\<lambda>w. w\<lparr>k_hidden := False\<rparr>) (floats d), panes := map (\<lambda>w. w\<lparr>k_hidden := False\<rparr>) (panes d)\<rparr>)"
proof -
  let ?f = "\<lambda>w::wnode. w\<lparr>k_hidden := False\<rparr>"
  define e where "e = d\<lparr>floats := map ?f (floats d), panes := map ?f (panes d)\<rparr>"
  have "neutral ?f" by (simp add: neutral_def keeps_def)
  then have e: "desk_inv e" unfolding e_def by (intro neutral_inv d)
  have "\<forall>w \<in> set (allShellWins e). \<not> k_hidden w" by (auto simp: e_def allShellWins_def)
  then have "nodes_ok (e\<lparr>winsHidden := False\<rparr>)"
    using desk_invD(2) [OF e] by (simp add: nodes_ok_def node_ok_def)
  moreover have "mode_ok (e\<lparr>winsHidden := False\<rparr>)" using desk_invD(8) [OF d] ws by (simp add: mode_ok_def e_def)
  ultimately have "desk_inv (e\<lparr>winsHidden := False\<rparr>)" using e by (simp add: desk_inv_def parts_ok_def base_ok_def)
  moreover have "(d\<lparr>winsHidden := False\<rparr>)\<lparr>floats := map ?f (floats d), panes := map ?f (panes d)\<rparr> = e\<lparr>winsHidden := False\<rparr>"
    by (simp add: e_def)
  ultimately show ?thesis by (simp only:)
qed

lemma show_inv:
  assumes d: "desk_inv d"
  shows "desk_inv (showAllWindows d)"
proof (cases "layoutTile d")
  case True
  define g where "g = applyPaneGrid (d\<lparr>workspace_open := True\<rparr>)"
  have g: "desk_inv g" unfolding g_def using desk_invD [OF d] by (intro grid_inv) (simp_all add: mode_ok_def)
  have "(d\<lparr>winsHidden := False\<rparr>)\<lparr>workspace_open := True\<rparr> = (d\<lparr>workspace_open := True\<rparr>)\<lparr>winsHidden := False\<rparr>" by simp
  then have "applyPaneGrid ((d\<lparr>winsHidden := False\<rparr>)\<lparr>workspace_open := True\<rparr>) = g\<lparr>winsHidden := False\<rparr>"
    unfolding g_def grid_winsHidden [symmetric] by (simp only:)
  then have "showAllWindows d = (g\<lparr>winsHidden := False\<rparr>)\<lparr>floats := map (\<lambda>w. w\<lparr>k_hidden := False\<rparr>) (floats g), panes := map (\<lambda>w. w\<lparr>k_hidden := False\<rparr>) (panes g)\<rparr>"
    using True by (simp add: showAllWindows_def Let_def)
  then show ?thesis using unhide_inv [OF g] by (simp add: g_def)
next
  case False
  then show ?thesis using unhide_inv [OF d] by (simp add: showAllWindows_def Let_def)
qed

lemma hide_inv:
  assumes d: "desk_inv d"
  shows "desk_inv (hideAllWindows d)"
proof -
  let ?f = "\<lambda>w::wnode. w\<lparr>k_hidden := True\<rparr>"
  define e where "e = (d\<lparr>winsHidden := True\<rparr>)\<lparr>workspace_open := (if layoutTile d then False else workspace_open d)\<rparr>"
  define h where "h = e\<lparr>floats := map ?f (floats e), panes := map (\<lambda>w. w) (panes e)\<rparr>"
  have ne: "nodes_ok e" using desk_invD(2) [OF d] unfolding e_def by (simp add: nodes_ok_def node_ok_def)
  then have nh: "nodes_ok h" unfolding h_def by (rule nodes_map) (simp_all add: node_ok_def e_def)
  have "synced e" using desk_invD(6) [OF d] unfolding e_def by (simp only: workspace_frame hidden_frame)
  moreover have "top_loop (map ?f (floats e)) (-1) None = top_loop (floats e) (-1) None" by (intro top_loop_map) simp_all
  ultimately have sh: "synced h" using ne nh by (intro synced_cong [of e h]) (simp_all add: h_def)
  have "z_ok {} e" using desk_invD(3) [OF d] unfolding e_def by (simp only: workspace_frame hidden_frame)
  then have "z_ok {} h" by (simp add: z_ok_def h_def allShellWins_def ball_Un)
  moreover have "active_class_ok h" "maxed_class_ok h" "active_ok h"
    using desk_invD(4,5,7) [OF d] by (simp_all add: active_class_ok_def maxed_class_ok_def active_ok_def h_def e_def)
  moreover have "mode_ok h" using desk_invD(8) [OF d] by (simp add: mode_ok_def h_def e_def)
  ultimately have h: "desk_inv h" using nh sh by (simp add: desk_inv_def parts_ok_def base_ok_def)
  have "\<not> isTiledWin (wid w) e" if "w \<in> set (floats d)" for w
    using desk_invD(2) [OF d] that by (auto simp: nodes_ok_def allShellWins_def isTiledWin_def e_def)
  then have "hideAllWindows d = h" by (simp add: hideAllWindows_def h_def e_def Let_def cong: map_cong)
  then show ?thesis using h by simp
qed

text \<open>Minimizing and restoring; both leave a tab bar that is repainted or, in the grid, unchanged.\<close>

lemma set_minimized:
  fixes i :: nat and b :: bool
  assumes d: "desk_inv d"
  defines "e \<equiv> upd_win i (\<lambda>w. w\<lparr>k_minimized := b, minimized := b\<rparr>) d"
  shows "nodes_ok e" and "z_ok {} e" and "active_class_ok e" and "mode_ok e" and "layoutTile d \<Longrightarrow> desk_inv (applyPaneGrid e)"
    and "\<not> layoutTile d \<Longrightarrow> desk_inv (refreshSessionTabbar e)"
proof -
  let ?f = "\<lambda>w::wnode. w\<lparr>k_minimized := b, minimized := b\<rparr>"
  have ids: "map wid (floats e) = map wid (floats d)" "map wid (panes e) = map wid (panes d)"
    unfolding e_def by (simp_all add: upd_ids)
  show n: "nodes_ok e"
    unfolding e_def upd_win_def by (rule nodes_map [OF desk_invD(2) [OF d]]) (simp_all add: node_ok_def)
  show z: "z_ok {} e" using desk_invD(3) [OF d] by (auto simp: e_def z_ok_def)
  show a: "active_class_ok e" using desk_invD(4) [OF d] by (auto simp: e_def active_class_ok_def upd_win_def)
  have "(floats e = []) = (floats d = [])" "(panes e = []) = (panes d = [])" by (simp_all add: e_def upd_win_def)
  then show m: "mode_ok e" using desk_invD(8) [OF d] by (simp add: mode_ok_def e_def)
  show "desk_inv (applyPaneGrid e)" if t: "layoutTile d"
  proof (rule grid_inv)
    show "base_ok e" using n z a by (simp add: base_ok_def)
    show "synced e" using n desk_invD(2,6) [OF d] ids t by (intro synced_cong [of d e]) (simp_all add: e_def)
  qed (rule m)
  show "desk_inv (refreshSessionTabbar e)" if t: "\<not> layoutTile d"
  proof -
    have "panes e = []" using m t by (simp add: mode_ok_def e_def)
    then show ?thesis using n z m no_panes_ok [of e] by (simp add: desk_inv_def parts_ok_def base_ok_def)
  qed
qed

lemma tiled_iff_mode:
  assumes "desk_inv d" and "i \<in> wid ` set (allShellWins d)"
  shows "isTiledWin i d = layoutTile d"
  using desk_invD(8) [OF assms(1)] assms(2) by (auto simp: mode_ok_def isTiledWin_def allShellWins_def split: if_splits)

lemma minimize_inv:
  assumes d: "desk_inv d"
  shows "desk_inv (minimizeShellWindow i d)"
proof (cases "get_win i d")
  case None
  then show ?thesis using d by (simp add: minimizeShellWindow_def)
next
  case (Some w)
  then have "isTiledWin i d = layoutTile d" using get_win_Some [OF Some] by (intro tiled_iff_mode [OF d]) auto
  then show ?thesis using Some d set_minimized(5,6) [OF d, of i True] refresh_inv
    by (simp add: minimizeShellWindow_def Let_def)
qed

lemma grid_panes:
  obtains h where "panes (applyPaneGrid d) = map h (panes d)"
    and "\<And>w. wid (h w) = wid w \<and> wn_sid (h w) = wn_sid w \<and> k_minimized (h w) = k_minimized w \<and>
      k_hidden (h w) = k_hidden w \<and> k_collapsed (h w) = k_collapsed w"
proof -
  let ?g = "\<lambda>w. if k_minimized w then w else w\<lparr>k_paneMaxed := (paneMaxed d = Some (wid w))\<rparr>"
  show thesis
  proof (cases "\<exists>w \<in> set (filter (\<lambda>w. \<not> k_minimized w) (panes d)). paneActive d = Some (wid w)")
    case True
    then show thesis by (intro that [of ?g]) (auto simp: applyPaneGrid_eq)
  next
    case False
    define a where "a = (case filter (\<lambda>w. \<not> k_minimized w) (panes d) of [] \<Rightarrow> None | w # ws \<Rightarrow> Some (wid w))"
    have "applyPaneGrid d = setActivePane a (grid_paint d)" using False unfolding applyPaneGrid_eq a_def by (simp only: if_False)
    then show thesis by (intro that [of "\<lambda>w. ?g w\<lparr>k_paneActive := (a = Some (wid (?g w)))\<rparr>"]) simp_all
  qed
qed

lemma grid_tile_inv:
  assumes d: "desk_inv d" and e: "e = d\<lparr>paneMaxed := m\<rparr>" and m: "m = None \<or> (layoutTile d \<and> (\<exists>i. m = Some i \<and> i \<le> shellWindowCount d))"
  shows "desk_inv (applyPaneGrid e)"
proof (rule grid_inv)
  have "layoutTile d \<longrightarrow> floats d = []" using desk_invD(8) [OF d] by (simp add: mode_ok_def)
  then have "nodes_ok e" using desk_invD(2) [OF d] m unfolding e by (auto simp: nodes_ok_def allShellWins_def node_ok_def)
  then show "base_ok e" using desk_invD(3,4) [OF d] unfolding e
    by (simp add: base_ok_def z_ok_def active_class_ok_def allShellWins_def)
  show "mode_ok e" using desk_invD(8) [OF d] unfolding e by (simp add: mode_ok_def)
  show "synced e" using desk_invD(6) [OF d] unfolding e
    by (simp add: synced_def topWin_def allShellWins_def isTiledWin_def cong: option.case_cong)
qed

lemma win_in: "get_win i d = Some w \<Longrightarrow> i \<in> wid ` set (allShellWins d)"
  using get_win_Some by fastforce

lemma toggle_max_inv:
  assumes d: "desk_inv d" and sh: "layoutTile d \<longrightarrow> win_shown i d"
  shows "desk_inv (toggleShellWindowMax i d)"
proof (cases "get_win i d")
  case None
  then show ?thesis using d by (simp add: toggleShellWindowMax_def)
next
  case (Some w)
  note w = get_win_Some [OF Some]
  have t: "isTiledWin i d = layoutTile d" by (rule tiled_iff_mode [OF d win_in [OF Some]])
  show ?thesis
  proof (cases "layoutTile d")
    case True
    define e where "e = d\<lparr>paneMaxed := (if paneMaxed d = Some i then None else Some i)\<rparr>"
    have "i \<le> shellWindowCount d" using desk_invD(2) [OF d] w by (auto simp: nodes_ok_def node_ok_def)
    then have g: "desk_inv (applyPaneGrid e)" using True by (intro grid_tile_inv [OF d e_def]) auto
    have "w \<in> set (panes d)" using desk_invD(8) [OF d] True w by (simp add: mode_ok_def allShellWins_def)
    moreover have "\<not> k_minimized w" using sh True Some by (simp add: win_shown_def)
    moreover obtain h where "panes (applyPaneGrid e) = map h (panes e)" "\<And>w. wid (h w) = wid w \<and> k_minimized (h w) = k_minimized w"
      by (rule grid_panes [of e]) blast
    ultimately have "h w \<in> set (panes (applyPaneGrid e))" "wid (h w) = i" "\<not> k_minimized (h w)" using w by (simp_all add: e_def)
    then have "desk_inv (setActivePane (Some i) (applyPaneGrid e))" using activate_inv [OF g] by blast
    then show ?thesis using Some t True by (simp add: toggleShellWindowMax_def e_def)
  next
    case False
    have "neutral toggle_max_node" by (simp add: neutral_def keeps_def toggle_max_node_def)
    then have u: "desk_inv (upd_win i toggle_max_node d)" by (rule neutral_upd [OF _ d])
    have "i \<in> wid ` set (floats d)" using desk_invD(8) [OF d] False win_in [OF Some] by (simp add: mode_ok_def allShellWins_def)
    moreover have "map wid (floats (upd_win i toggle_max_node d)) = map wid (floats d)"
      by (rule upd_ids) (simp add: toggle_max_node_def)
    ultimately have "i \<in> wid ` set (floats (upd_win i toggle_max_node d))" by (metis set_map)
    moreover have "z_ok {i} (upd_win i toggle_max_node d)" using desk_invD(3) [OF u] unfolding z_ok_def by blast
    ultimately have "desk_inv (bringShellWindowToFront i (upd_win i toggle_max_node d))"
      using bring_float_inv desk_invD [OF u] False by simp
    then show ?thesis using Some t False d by (simp add: toggleShellWindowMax_def)
  qed
qed

lemma escape_inv:
  assumes d: "desk_inv d"
  shows "desk_inv (escapeKey d)"
proof (cases "find (\<lambda>w. maxed w \<and> \<not> isTiledWin (wid w) d) (allShellWins d)")
  case None
  then show ?thesis using d grid_tile_inv [OF d refl, of None] by (simp add: escapeKey_def)
next
  case (Some w)
  then have w: "w \<in> set (allShellWins d)" "\<not> isTiledWin (wid w) d" by (auto simp: find_Some_iff)
  then have "\<not> layoutTile d" using tiled_iff_mode [OF d, of "wid w"] by auto
  then show ?thesis using Some d grid_tile_inv [OF d refl, of None] toggle_max_inv [OF d, of "wid w"] by (simp add: escapeKey_def)
qed

lemma collapse_inv: "desk_inv d \<Longrightarrow> desk_inv (collapse_click i h d)"
proof -
  assume d: "desk_inv d"
  have "neutral expand_node" "neutral (collapse_node h)" by (simp_all add: neutral_def keeps_def expand_node_def collapse_node_def)
  then show ?thesis using d neutral_upd [OF _ d]
    by (simp add: collapse_click_def expandShellWindow_def collapseShellWindow_def split: option.split)
qed

text \<open>Focusing an open window.\<close>

definition vis_of :: "wnode \<Rightarrow> nat \<times> string option \<times> bool \<times> bool \<times> bool" where
  "vis_of w = (wid w, wn_sid w, k_minimized w, k_collapsed w, k_hidden w)"

definition visibility :: "desk \<Rightarrow> (nat \<times> string option \<times> bool \<times> bool \<times> bool) list" where
  "visibility d = map vis_of (allShellWins d)"

lemma vis_active [simp]: "visibility (setActivePane a d) = visibility d"
  by (simp add: visibility_def vis_of_def allShellWins_def)

lemma vis_grid [simp]: "visibility (applyPaneGrid d) = visibility d"
proof -
  have "visibility (grid_paint d) = visibility d" by (simp add: visibility_def vis_of_def allShellWins_def)
  then show ?thesis by (simp add: applyPaneGrid_eq)
qed

lemma vis_refresh [simp]: "visibility (refreshSessionTabbar d) = visibility d"
  by (simp add: visibility_def)

lemma vis_bring [simp]: "visibility (bringShellWindowToFront i d) = visibility d"
proof (cases "get_win i d")
  case (Some w)
  have "visibility (upd_win i (\<lambda>w. w\<lparr>wn_z := z\<rparr>) (d\<lparr>shellZSeq := y\<rparr>)) = visibility d" for z y
    by (simp add: visibility_def) (simp add: allShellWins_def vis_of_def)
  moreover have "visibility (d\<lparr>floats := map f (floats d), panes := map f (panes d)\<rparr>) = visibility d" if "\<And>w. vis_of (f w) = vis_of w" for f
    using that by (simp add: visibility_def allShellWins_def)
  ultimately show ?thesis using Some by (simp add: bringShellWindowToFront_def Let_def vis_of_def)
qed (simp add: bringShellWindowToFront_def)

lemma vis_ids: "wid ` set (allShellWins d) = fst ` set (visibility d)"
  by (force simp: visibility_def vis_of_def)

lemma vis_restore:
  assumes "\<forall>w \<in> set (allShellWins d). minimized w = k_minimized w" and "distinct (map wid (allShellWins d))"
  shows "visibility (restoreShellWindow i d) = map (\<lambda>(j, s, m, c, h). (j, s, m \<and> j \<noteq> i, c, h)) (visibility d)"
proof (cases "get_win i d")
  case None
  then have "\<forall>w \<in> set (allShellWins d). wid w \<noteq> i" by (auto simp: get_win_None)
  then show ?thesis using None by (auto simp: restoreShellWindow_def visibility_def vis_of_def)
next
  case (Some w)
  let ?e = "upd_win i (\<lambda>w. w\<lparr>k_minimized := False, minimized := False\<rparr>) d"
  have e: "visibility ?e = map (\<lambda>(j, s, m, c, h). (j, s, m \<and> j \<noteq> i, c, h)) (visibility d)"
    by (auto simp: visibility_def vis_of_def)
  show ?thesis
  proof (cases "minimized w")
    case True
    then show ?thesis using Some e by (simp add: restoreShellWindow_def Let_def)
  next
    case False
    have "v = w" if "v \<in> set (allShellWins d)" "wid v = i" for v
      using that get_win_Some [OF Some] assms(2) by (metis distinct_map inj_onD)
    then have "map (\<lambda>(j, s, m, c, h). (j, s, m \<and> j \<noteq> i, c, h)) (visibility d) = visibility d"
      using False assms(1) get_win_Some [OF Some] by (auto simp: visibility_def vis_of_def)
    then show ?thesis using Some False by (simp add: restoreShellWindow_def)
  qed
qed

lemma vis_expand: "visibility (expandShellWindow i d) = map (\<lambda>(j, s, m, c, h). (j, s, m, c \<and> j \<noteq> i, h)) (visibility d)"
  by (auto simp: expandShellWindow_def visibility_def vis_of_def expand_node_def)

lemma restore_inv:
  assumes d: "desk_inv d" and i: "i \<in> wid ` set (allShellWins d)"
  shows "layoutTile d \<Longrightarrow> desk_inv (restoreShellWindow i d)"
    and "\<not> layoutTile d \<Longrightarrow> nodes_ok (restoreShellWindow i d) \<and> z_ok {} (restoreShellWindow i d) \<and> mode_ok (restoreShellWindow i d)"
    and "layoutTile (restoreShellWindow i d) = layoutTile d"
    and "\<exists>w \<in> set (allShellWins (restoreShellWindow i d)). wid w = i"
proof -
  obtain w where w: "w \<in> set (allShellWins d)" "wid w = i" "get_win i d = Some w"
    using get_win_cases i desk_invD(2) [OF d] by (metis nodes_ok_def)
  have t: "isTiledWin i d = layoutTile d" by (rule tiled_iff_mode [OF d i])
  show "layoutTile d \<Longrightarrow> desk_inv (restoreShellWindow i d)"
    using w t d set_minimized(5) [OF d, of i False] by (simp add: restoreShellWindow_def Let_def)
  show "\<not> layoutTile d \<Longrightarrow> nodes_ok (restoreShellWindow i d) \<and> z_ok {} (restoreShellWindow i d) \<and> mode_ok (restoreShellWindow i d)"
    using w t desk_invD [OF d] set_minimized(1,2,4) [OF d, of i False] by (simp add: restoreShellWindow_def Let_def)
  show "layoutTile (restoreShellWindow i d) = layoutTile d" using w by (simp add: restoreShellWindow_def Let_def)
  have "map wid (allShellWins (restoreShellWindow i d)) = map wid (allShellWins d)"
    using w(3) upd_ids [of "\<lambda>w. w\<lparr>k_minimized := False, minimized := False\<rparr>" i d]
    by (simp add: restoreShellWindow_def Let_def allShellWins_def)
  then show "\<exists>w \<in> set (allShellWins (restoreShellWindow i d)). wid w = i" using i by (metis image_iff set_map)
qed

text \<open>The state before the last step of a focus: the window is restored and expanded, and no other pane is maximized.\<close>

lemma raise_prepared:
  assumes d: "desk_inv d" and i: "i \<in> wid ` set (allShellWins d)"
  obtains m where
    "raise_win i d =
      (if winsHidden (bringShellWindowToFront i m) then showAllWindows (bringShellWindowToFront i m) else bringShellWindowToFront i m)"
    and "nodes_ok m" and "z_ok {} m" and "mode_ok m" and "layoutTile m \<longrightarrow> desk_inv m"
    and "visibility m = map (\<lambda>(j, s, mi, c, h). (j, s, mi \<and> j \<noteq> i, c \<and> j \<noteq> i, h)) (visibility d)"
    and "layoutTile m \<longrightarrow> paneMaxed m = None \<or> paneMaxed m = Some i"
    and "winsHidden m = winsHidden d"
proof -
  define r where "r = expandShellWindow i (restoreShellWindow i d)"
  define m where "m = (if isTiledWin i r \<and> paneMaxed r \<noteq> None \<and> paneMaxed r \<noteq> Some i then applyPaneGrid (r\<lparr>paneMaxed := None\<rparr>) else r)"
  have n: "neutral expand_node" by (simp add: neutral_def keeps_def expand_node_def)
  have k: "keeps expand_node" using n by (simp add: neutral_def)
  have lt: "layoutTile r = layoutTile d" using restore_inv(3) [OF d i] by (simp add: r_def expandShellWindow_def)
  have hid: "winsHidden r = winsHidden d"
    by (simp add: r_def expandShellWindow_def restoreShellWindow_def Let_def split: option.split)
  have vr: "visibility r = map (\<lambda>(j, s, mi, c, h). (j, s, mi \<and> j \<noteq> i, c \<and> j \<noteq> i, h)) (visibility d)"
    using desk_invD(2) [OF d] unfolding r_def vis_expand by (subst vis_restore) (auto simp: nodes_ok_def node_ok_def)
  have vm: "visibility m = visibility r" by (simp add: m_def) (simp add: visibility_def allShellWins_def)
  have ri: "i \<in> wid ` set (allShellWins r)" using i unfolding vis_ids vr by (simp add: image_image case_prod_beta)
  have e: "raise_win i d =
      (if winsHidden (bringShellWindowToFront i m) then showAllWindows (bringShellWindowToFront i m) else bringShellWindowToFront i m)"
    unfolding raise_win_def Let_def m_def r_def by (rule refl)
  show thesis
  proof (cases "layoutTile d")
    case True
    have r: "desk_inv r" unfolding r_def expandShellWindow_def by (rule neutral_upd [OF n restore_inv(1) [OF d i True]])
    then have m: "desk_inv m" using grid_tile_inv [OF r refl, of None] by (simp add: m_def)
    have "paneMaxed m = None \<or> paneMaxed m = Some i" using tiled_iff_mode [OF r ri] lt True by (simp add: m_def)
    then show thesis using that [OF e] desk_invD [OF m] m vm vr hid by (simp add: m_def)
  next
    case False
    have o: "nodes_ok (restoreShellWindow i d)" "z_ok {} (restoreShellWindow i d)" "mode_ok (restoreShellWindow i d)"
      using restore_inv(2) [OF d i False] by auto
    have "nodes_ok r" unfolding r_def expandShellWindow_def by (rule upd_keeps_nodes [OF k o(1)])
    moreover have "z_ok {} r" unfolding r_def expandShellWindow_def upd_win_def neutral_z [OF neutral_if [OF n] neutral_if [OF n]] by (rule o(2))
    moreover have md: "mode_ok r" using o(3) by (simp add: r_def expandShellWindow_def mode_ok_def upd_win_def)
    moreover have "m = r" using md lt False by (simp add: m_def isTiledWin_def mode_ok_def)
    ultimately show thesis using that [OF e] vm vr hid lt False by simp
  qed
qed

lemma prepared_shown:
  assumes "visibility m = map (\<lambda>(j, s, mi, c, h). (j, s, mi \<and> j \<noteq> i, c \<and> j \<noteq> i, h)) (visibility d)" and "i \<in> wid ` set (allShellWins d)"
  obtains w where "w \<in> set (allShellWins m)" "wid w = i" "\<not> k_minimized w"
proof -
  have "i \<in> wid ` set (allShellWins m)" using assms unfolding vis_ids by (simp add: image_image case_prod_beta)
  then obtain w where w: "w \<in> set (allShellWins m)" "wid w = i" by auto
  then have "vis_of w \<in> set (visibility m)" by (simp add: visibility_def)
  then have "\<not> k_minimized w" using w(2) unfolding assms(1) by (auto simp: vis_of_def)
  then show thesis using that w by blast
qed

lemma raise_inv:
  assumes d: "desk_inv d" and i: "i \<in> wid ` set (allShellWins d)"
  shows "desk_inv (raise_win i d)"
proof -
  obtain m where m: "raise_win i d =
      (if winsHidden (bringShellWindowToFront i m) then showAllWindows (bringShellWindowToFront i m) else bringShellWindowToFront i m)"
    "nodes_ok m" "z_ok {} m" "mode_ok m" "layoutTile m \<longrightarrow> desk_inv m"
    "visibility m = map (\<lambda>(j, s, mi, c, h). (j, s, mi \<and> j \<noteq> i, c \<and> j \<noteq> i, h)) (visibility d)"
    by (rule raise_prepared [OF d i]) blast
  obtain w where w: "w \<in> set (allShellWins m)" "wid w = i" "\<not> k_minimized w" by (rule prepared_shown [OF m(6) i])
  have "desk_inv (bringShellWindowToFront i m)"
  proof (cases "layoutTile m")
    case True
    then show ?thesis using bring_inv [OF m(5) [rule_format] w(1)] w(2,3) by simp
  next
    case False
    moreover have "i \<in> wid ` set (floats m)" using m(4) w(1,2) False by (auto simp: mode_ok_def allShellWins_def)
    ultimately show ?thesis using m(2-4) by (intro bring_float_inv) (auto simp: z_ok_def)
  qed
  then show ?thesis using m(1) show_inv by simp
qed

text \<open>Opening a window.\<close>

definition created :: "string option \<Rightarrow> (rat \<times> rat) option \<Rightarrow> desk \<Rightarrow> desk" where
  "created sid click d =
     (let n = shellWindowCount d + 1;
          d1 = d\<lparr>shellWindowCount := n\<rparr>;
          d3 = bringShellWindowToFront n (d1\<lparr>floats := floats d1 @ [position_node d1 click (new_win n sid)]\<rparr>)
      in if layoutTile d3 then openPaneWorkspace (tileWindow n d3) else d3)"

lemma create_created: "create_win sid click d = (if winsHidden (created sid click d) then showAllWindows (created sid click d) else created sid click d)"
  by (simp add: create_win_def created_def Let_def layoutMaybeAutoTile_def AUTO_TILE_THRESHOLD_def)

lemma created_parts:
  assumes d: "desk_inv d" and n: "n = shellWindowCount d + 1"
    and d2: "d2 = (d\<lparr>shellWindowCount := n\<rparr>)\<lparr>floats := floats d @ [position_node (d\<lparr>shellWindowCount := n\<rparr>) click (new_win n sid)]\<rparr>"
  shows "nodes_ok d2" and "z_ok {n} d2" and "n \<in> wid ` set (floats d2)" and "\<not> layoutTile d \<Longrightarrow> mode_ok d2"
proof -
  define w where "w = position_node (d\<lparr>shellWindowCount := n\<rparr>) click (new_win n sid)"
  have e: "d2 = d\<lparr>shellWindowCount := n, floats := floats d @ [w]\<rparr>" by (simp add: d2 w_def)
  have w: "wid w = n" "minimized w = k_minimized w" "\<not> k_hidden w" "k_fullscreen w = mobile d" "\<not> k_tiled w" "\<not> k_paneActive w" "\<not> k_paneMaxed w"
    by (simp_all add: w_def position_node_def new_win_def viewport_node_def)
  have le: "\<forall>v \<in> set (allShellWins d). wid v < n" using desk_invD(2) [OF d] by (auto simp: nodes_ok_def node_ok_def n)
  have pm: "\<forall>m. paneMaxed d = Some m \<longrightarrow> m < n" using desk_invD(2) [OF d] by (auto simp: nodes_ok_def n)
  have "distinct (map wid (allShellWins d2))" using desk_invD(2) [OF d] le w(1) by (auto simp: nodes_ok_def allShellWins_def e)
  moreover have "node_ok d v \<Longrightarrow> node_ok d2 v" for v by (simp add: node_ok_def e n)
  moreover have "node_ok d2 w" using w by (simp add: node_ok_def e)
  ultimately show "nodes_ok d2" using desk_invD(2) [OF d] w pm by (auto simp: nodes_ok_def allShellWins_def e)
  show "z_ok {n} d2" using desk_invD(3) [OF d] w(1) by (auto simp: z_ok_def allShellWins_def e)
  show "n \<in> wid ` set (floats d2)" using w(1) by (simp add: e)
  show "\<not> layoutTile d \<Longrightarrow> mode_ok d2" using desk_invD(8) [OF d] by (simp add: mode_ok_def e)
qed

lemma created_inv:
  assumes d: "desk_inv d"
  shows "desk_inv (created sid click d)"
proof -
  define n where "n = shellWindowCount d + 1"
  define d1 where "d1 = d\<lparr>shellWindowCount := n\<rparr>"
  define w where "w = position_node d1 click (new_win n sid)"
  define d2 where "d2 = d1\<lparr>floats := floats d @ [w]\<rparr>"
  have w: "wid w = n" by (simp add: w_def position_node_def new_win_def viewport_node_def)
  have n2: "nodes_ok d2" "z_ok {n} d2" "n \<in> wid ` set (floats d2)" "\<not> layoutTile d \<Longrightarrow> mode_ok d2"
    using created_parts [OF d n_def, of d2 click sid] by (simp_all add: d2_def d1_def w_def)
  define d3 where "d3 = bringShellWindowToFront n d2"
  define d4 where "d4 = (if layoutTile d3 then openPaneWorkspace (tileWindow n d3) else d3)"
  have lt: "layoutTile d3 = layoutTile d" by (simp add: d3_def d2_def d1_def)
  have "desk_inv d4"
  proof (cases "layoutTile d")
    case False
    then have "desk_inv d3" unfolding d3_def using n2 by (intro bring_float_inv) (simp_all add: d2_def d1_def)
    then show ?thesis using lt False by (simp add: d4_def)
  next
    case True
    have f: "floats d = []" using desk_invD(8) [OF d] True by (simp add: mode_ok_def)
    have c: "active_class_ok d2" "maxed_class_ok d2"
      using desk_invD(4,5) [OF d] by (simp_all add: active_class_ok_def maxed_class_ok_def d2_def d1_def)
    have p3: "nodes_ok d3" "z_ok {} d3" "active_class_ok d3" "maxed_class_ok d3" "synced d3"
      unfolding d3_def using bring_parts [OF n2(1)] bring_z [OF n2(1,2)] n2(3) c bring_found_synced [of n d2]
      by (auto simp: get_win_None allShellWins_def)
    have p4: "base_ok (tileWindow n d3)" "synced (tileWindow n d3)" using tile_parts [OF p3(1), of n] p3 by (simp_all add: base_ok_def)
    have "map wid (floats d3) = [n]" unfolding d3_def bring_ids by (simp add: d2_def f w)
    then have "floats (tileWindow n d3) = []" by (auto simp: filter_empty_conv)
    then have "mode_ok ((tileWindow n d3)\<lparr>workspace_open := True\<rparr>)"
      using desk_invD(8) [OF d] True by (simp add: mode_ok_def d3_def d2_def d1_def)
    then have "desk_inv (openPaneWorkspace (tileWindow n d3))" unfolding openPaneWorkspace_def using p4 by (intro grid_inv) simp_all
    then show ?thesis using lt True by (simp add: d4_def)
  qed
  moreover have "created sid click d = d4" by (simp add: created_def Let_def d4_def d3_def d2_def d1_def w_def n_def)
  ultimately show ?thesis by simp
qed

lemma create_win_inv: "desk_inv d \<Longrightarrow> desk_inv (create_win sid click d)"
  using created_inv show_inv by (simp add: create_created)

text \<open>The viewport of the same device, a finished dial, and the end of a window.\<close>

lemma viewport_inv:
  assumes d: "desk_inv d" and m: "mob = mobile d"
  shows "desk_inv (onViewportChange mob iw ih d)"
proof -
  define e where "e = d\<lparr>mobile := mob, innerWidth := iw, innerHeight := ih\<rparr>"
  define f where "f = (if mob then viewport_node True else (\<lambda>w. w))"
  define h where "h = e\<lparr>floats := map f (floats e), panes := map (\<lambda>w. w) (panes e)\<rparr>"
  have wm: "wasMobile d = mobile d" using desk_invD(8) [OF d] by (simp add: mode_ok_def)
  have ne: "nodes_ok e" using desk_invD(2) [OF d] m by (simp add: e_def nodes_ok_def node_ok_def allShellWins_def)
  have "nodes_ok h" unfolding h_def
    by (rule nodes_map [OF ne]) (use m in \<open>auto simp: f_def e_def viewport_node_def node_ok_def split: if_splits\<close>)
  moreover have "z_ok {} h" using desk_invD(3) [OF d] m by (cases mob) (simp_all add: z_ok_def h_def e_def f_def allShellWins_def)
  moreover have "active_class_ok h" "maxed_class_ok h" "active_ok h" "mode_ok h"
    using desk_invD(4,5,7,8) [OF d] m by (simp_all add: active_class_ok_def maxed_class_ok_def active_ok_def mode_ok_def h_def e_def)
  ultimately have "desk_inv (refreshSessionTabbar h)" by (simp add: desk_inv_def parts_ok_def base_ok_def)
  moreover have "onViewportChange mob iw ih d = refreshSessionTabbar h"
    using m wm by (cases mob) (simp_all add: onViewportChange_def Let_def h_def e_def f_def)
  ultimately show ?thesis by simp
qed

lemma finalize_inv: "desk_inv d \<Longrightarrow> desk_inv (finalizePendingShellWindow i sid d)"
  unfolding finalizePendingShellWindow_def by (intro refresh_inv neutral_upd) (simp add: neutral_def keeps_def)

lemma observers_inv: "desk_inv d \<Longrightarrow> desk_inv (observers old d)"
proof -
  assume d: "desk_inv d"
  have p: "desk_inv (pane_observer e)" if e: "desk_inv e" for e
    unfolding pane_observer_def
    using e layout_float_inv [OF desk_invD(1) [OF e]] grid_inv [OF desk_invD(1,6,8) [OF e]] desk_invD(8) [OF e] refresh_inv
    by (simp add: mode_ok_def)
  show ?thesis using d p refresh_inv by (simp add: observers_def Let_def)
qed

lemma focus_inv: "desk_inv d \<Longrightarrow> desk_inv (focusSessionWindow sid click d)"
  by (auto simp: focusSessionWindow_def getShellWindowBySid_def find_Some_iff intro!: create_win_inv raise_inv split: option.split)

lemma filter_same: "map wid (filter P ws) = map wid ws \<Longrightarrow> filter P ws = ws"
proof -
  assume "map wid (filter P ws) = map wid ws"
  then have "length (filter P ws) = length ws" by (metis length_map)
  then have "\<forall>w \<in> set ws. P w" using length_filter_less [of _ ws P] by fastforce
  then show ?thesis by simp
qed

lemma remove_wins_filter:
  "remove_wins ids d = d\<lparr>floats := filter (\<lambda>w. wid w \<notin> set ids) (floats d), panes := filter (\<lambda>w. wid w \<notin> set ids) (panes d)\<rparr>"
proof (induction ids arbitrary: d)
  case (Cons i ids)
  have "remove_wins (i # ids) d = remove_wins ids (remove_win i d)" by (simp add: remove_wins_def)
  then show ?case using Cons by (simp add: remove_win_def conj_commute)
qed (simp add: remove_wins_def)

lemma remove_wins_inv:
  assumes d: "desk_inv d"
  shows "desk_inv (observers d (remove_wins ids d))"
proof -
  define e where "e = remove_wins ids d"
  have f: "floats e = filter (\<lambda>w. wid w \<notin> set ids) (floats d)" "panes e = filter (\<lambda>w. wid w \<notin> set ids) (panes d)"
    by (simp_all add: e_def remove_wins_filter)
  have n: "nodes_ok e" using desk_invD(2) [OF d] by (auto simp: nodes_ok_def allShellWins_def e_def remove_wins_filter node_ok_def distinct_map_filter)
  have z: "z_ok {} e" "active_class_ok e" "maxed_class_ok e"
    using desk_invD(3-5) [OF d] by (auto simp: z_ok_def active_class_ok_def maxed_class_ok_def allShellWins_def e_def remove_wins_filter)
  have m: "mode_ok e" using desk_invD(8) [OF d] by (auto simp: mode_ok_def e_def remove_wins_filter)
  have b: "base_ok e" using n z by (simp add: base_ok_def)
  consider (none) "map wid (floats e) = map wid (floats d)" "map wid (panes e) = map wid (panes d)"
    | (float) "map wid (floats e) \<noteq> map wid (floats d)" | (pane) "map wid (floats e) = map wid (floats d)" "map wid (panes e) \<noteq> map wid (panes d)"
    by blast
  then have "desk_inv (observers d e)"
  proof cases
    case none
    then have "floats e = floats d" "panes e = panes d" unfolding f by (simp_all add: filter_same)
    then have "e = d" unfolding f by (simp add: e_def remove_wins_filter)
    then show ?thesis using observers_inv [OF d] by simp
  next
    case float
    then have "floats d \<noteq> []" by (auto simp: f)
    then have "panes d = []" using desk_invD(8) [OF d] by (simp add: mode_ok_def split: if_splits)
    then have "panes e = []" by (simp add: f)
    then have "desk_inv (refreshSessionTabbar e)" using b z m no_panes_ok [of e] by (simp add: desk_inv_def parts_ok_def)
    then show ?thesis using float \<open>panes d = []\<close> \<open>panes e = []\<close> by (simp add: observers_def Let_def)
  next
    case pane
    then have "panes d \<noteq> []" by (auto simp: f)
    then have t: "layoutTile e" using desk_invD(8) [OF d] by (simp add: mode_ok_def e_def remove_wins_filter split: if_splits)
    have "desk_inv (pane_observer e)"
    proof (cases "panes e = []")
      case True
      then show ?thesis using t layout_float_inv [OF b] m by (simp add: pane_observer_def mode_ok_def)
    next
      case False
      then show ?thesis using t grid_base(1,2) [OF b] m by (simp add: pane_observer_def desk_inv_def mode_ok_def)
    qed
    then show ?thesis using pane by (simp add: observers_def)
  qed
  then show ?thesis by (simp add: e_def)
qed

lemma wm_step_inv:
  assumes d: "desk_inv d" and e: "wm_enabled d ev"
  shows "desk_inv (wm_step d ev)"
proof (cases ev)
  case (WClose ids)
  then show ?thesis using remove_wins_inv [OF d] by (simp add: wm_step_def)
next
  case (WTab i)
  have "desk_inv (tab_click i d)" using focus_inv [OF d] d by (simp add: tab_click_def split: option.split)
  then show ?thesis using WTab observers_inv by (simp add: wm_step_def)
next
  case (WRaise i)
  then obtain w where "get_win i d = Some w" "\<not> k_minimized w" using e by (auto simp: win_shown_def split: option.splits)
  then have "desk_inv (bringShellWindowToFront i d)" using bring_inv [OF d] get_win_Some by metis
  then show ?thesis using WRaise observers_inv by (simp add: wm_step_def)
next
  case WLayout
  then have "\<not> mobile d" using e desk_invD(8) [OF d] by (auto simp: mode_ok_def)
  then have "desk_inv (setLayoutMode (\<not> layoutTile d) d)"
    using layout_tile_inv [OF desk_invD(9) [OF d]] layout_float_inv [OF desk_invD(1) [OF d]] desk_invD(8) [OF d]
    by (cases "layoutTile d") (simp_all add: mode_ok_def)
  then show ?thesis using WLayout observers_inv by (simp add: wm_step_def)
next
  case (WStrategy s)
  have "synced (d\<lparr>paneStrategy := s, paneColFr := []\<rparr>)" using desk_invD(6) [OF d]
    by (simp add: synced_def topWin_def allShellWins_def isTiledWin_def cong: option.case_cong)
  then have "desk_inv (strategy_change s d)" unfolding strategy_change_def
    using desk_invD(1,8) [OF d] by (intro grid_inv) (simp_all add: mode_ok_def)
  then show ?thesis using WStrategy observers_inv by (simp add: wm_step_def)
qed (use d e in \<open>auto simp: wm_step_def toggleAllWindowsVisible_def intro!: observers_inv create_win_inv finalize_inv focus_inv minimize_inv
    toggle_max_inv collapse_inv escape_inv show_inv hide_inv viewport_inv\<close>)

section \<open>What is in front\<close>

lemma top_loop_le:
  assumes "\<forall>v \<in> set pre. \<not> k_minimized v \<longrightarrow> int (z_of v) \<le> int (z_of w)" and "z \<le> int (z_of w)" and "\<not> k_minimized w"
  shows "top_loop (pre @ w # post) z b = top_loop post (int (z_of w)) (Some (wid w))"
  using assms by (induction pre arbitrary: z b) simp_all

lemma top_loop_lt: "\<forall>v \<in> set post. \<not> k_minimized v \<longrightarrow> int (z_of v) < z \<Longrightarrow> top_loop post z b = b"
  by (induction post) auto

lemma top_loop_front:
  assumes "w \<in> set ws" and "\<not> k_minimized w" and "\<And>v. v \<in> set ws \<Longrightarrow> wid v \<noteq> wid w \<Longrightarrow> z_of v < z_of w" and "distinct (map wid ws)"
  shows "top_loop ws (-1) None = Some (wid w)"
proof -
  obtain pre post where ws: "ws = pre @ w # post" using assms(1) by (metis split_list)
  then have "\<forall>v \<in> set pre \<union> set post. z_of v < z_of w" using assms(3,4) by (auto simp: image_iff)
  then show ?thesis unfolding ws using assms(2) by (subst top_loop_le) (auto simp: top_loop_lt less_imp_le)
qed

lemma top_loop_mem: "top_loop ws z b = Some a \<Longrightarrow> b = Some a \<or> a \<in> wid ` set ws"
proof (induction ws arbitrary: z b)
  case (Cons w ws)
  then show ?case using Cons.IH [of z b] Cons.IH [of "int (z_of w)" "Some (wid w)"]
    by (cases "k_minimized w"; cases "z \<le> int (z_of w)") auto
qed simp

lemma bring_top:
  assumes n: "nodes_ok d" and z: "z_ok {i} d" and m: "mode_ok d" and w: "w \<in> set (allShellWins d)" "wid w = i" "\<not> k_minimized w"
  shows "topWin (bringShellWindowToFront i d) = Some i"
proof -
  define b where "b = bringShellWindowToFront i d"
  have dist: "distinct (map wid (allShellWins d))" using n by (simp add: nodes_ok_def)
  have nb: "nodes_ok b" unfolding b_def by (rule bring_parts(1) [OF n])
  obtain v where v: "get_win i d = Some v" using w get_win_None [of i d] by (cases "get_win i d") auto
  have "v = w" using get_win_Some [OF v] w dist by (metis distinct_map inj_onD)
  show ?thesis
  proof (cases "layoutTile d")
    case True
    then have "w \<in> set (panes d)" using w m by (simp add: mode_ok_def allShellWins_def)
    then have t: "isTiledWin i d" using w(2) by (auto simp: isTiledWin_def)
    then have "paneActive b = Some i" using v by (simp add: b_def bringShellWindowToFront_def)
    moreover have "i \<in> set (map wid (panes b))" using t by (simp only: b_def bring_ids isTiled_ids)
    ultimately show ?thesis using topWin_eq [OF nb] True by (simp add: b_def)
  next
    case False
    then have p: "panes d = []" using m by (simp add: mode_ok_def)
    then have wf: "w \<in> set (floats d)" using w(1) by (simp add: allShellWins_def)
    have t: "\<not> isTiledWin i d" using p by (simp add: isTiledWin_def)
    obtain f where f: "floats b = map f (floats d)" "\<And>u. wid (f u) = wid u" "\<And>u. k_minimized (f u) = k_minimized u"
      and front: "\<And>u. u \<in> set (floats d) \<Longrightarrow> wid u \<noteq> i \<Longrightarrow> z_of (f u) < z_of (f w)"
    proof (cases "k_fullscreen w")
      case True
      then have "mobile d" using n w(1) by (auto simp: nodes_ok_def node_ok_def)
      then have full: "\<forall>u \<in> set (floats d). k_fullscreen u" using n by (simp add: nodes_ok_def)
      let ?f = "\<lambda>v. if wid v = i then v\<lparr>wn_z := Some FULLSCREEN_Z\<rparr> else if k_fullscreen v then v\<lparr>wn_z := Some (FULLSCREEN_Z - 1)\<rparr> else v"
      show thesis
        by (rule that [of ?f])
          (use True t v w full \<open>v = w\<close> in \<open>auto simp: b_def bringShellWindowToFront_def Let_def z_of_def FULLSCREEN_Z_def\<close>)
    next
      case full: False
      define y where "y = (if shellZSeq d = 0 then 10050 else shellZSeq d) + 1"
      let ?f = "\<lambda>w. if wid w = i then w\<lparr>wn_z := Some y\<rparr> else w"
      have "\<not> mobile d" using n wf full by (auto simp: nodes_ok_def)
      then have "\<forall>u \<in> set (floats d). wid u \<noteq> i \<longrightarrow> z_of u < y" using z by (fastforce simp: z_ok_def allShellWins_def z_of_def y_def)
      moreover have "floats b = map ?f (floats d)"
        using full t v \<open>v = w\<close> by (simp add: b_def bringShellWindowToFront_def upd_win_def y_def Let_def)
      ultimately show thesis by (intro that [of ?f]) (use w(2) in \<open>auto simp: z_of_def\<close>)
    qed
    have "top_loop (floats b) (-1) None = Some (wid (f w))"
    proof (rule top_loop_front)
      show "f w \<in> set (floats b)" "\<not> k_minimized (f w)" using wf w(3) by (simp_all add: f)
      show "z_of u < z_of (f w)" if "u \<in> set (floats b)" "wid u \<noteq> wid (f w)" for u using that front f(2) w(2) by (auto simp: f(1))
      show "distinct (map wid (floats b))" using nb by (simp add: nodes_ok_def allShellWins_def)
    qed
    then show ?thesis using topWin_eq [OF nb] False w(2) f(2) by (simp add: b_def)
  qed
qed

text \<open>Showing all windows keeps the one in front.\<close>

lemma vis_show: "visibility (showAllWindows d) = map (\<lambda>(j, s, m, c, h). (j, s, m, c, False)) (visibility d)"
proof -
  have u: "visibility (e\<lparr>floats := map (\<lambda>w. w\<lparr>k_hidden := False\<rparr>) (floats e), panes := map (\<lambda>w. w\<lparr>k_hidden := False\<rparr>) (panes e)\<rparr>) =
      map (\<lambda>(j, s, m, c, h). (j, s, m, c, False)) (visibility e)" for e
    by (simp add: visibility_def allShellWins_def vis_of_def)
  have "visibility (d\<lparr>winsHidden := False\<rparr>) = visibility d" "visibility (d\<lparr>winsHidden := False, workspace_open := True\<rparr>) = visibility d"
    by (simp_all add: visibility_def allShellWins_def)
  then show ?thesis by (simp add: showAllWindows_def Let_def u)
qed

lemma show_fields [simp]:
  "layoutTile (showAllWindows d) = layoutTile d" "paneMaxed (showAllWindows d) = paneMaxed d" "\<not> winsHidden (showAllWindows d)"
  by (simp_all add: showAllWindows_def Let_def)

lemma show_top:
  assumes d: "desk_inv d" and w: "w \<in> set (allShellWins d)" "\<not> k_minimized w" and t: "topWin d = Some (wid w)"
  shows "topWin (showAllWindows d) = Some (wid w)"
proof -
  have ns: "nodes_ok (showAllWindows d)" by (rule desk_invD(2) [OF show_inv [OF d]])
  show ?thesis
  proof (cases "layoutTile d")
    case True
    then have "w \<in> set (panes d)" using w(1) desk_invD(8) [OF d] by (simp add: mode_ok_def allShellWins_def)
    moreover have a: "paneActive d = Some (wid w)"
      using t topWin_eq [OF desk_invD(2) [OF d]] True by (auto split: option.splits if_splits)
    ultimately have "\<exists>w \<in> set (filter (\<lambda>w. \<not> k_minimized w) (panes d)). paneActive d = Some (wid w)" using w(2) by auto
    then have "paneActive (showAllWindows d) = Some (wid w)" using True a by (simp add: showAllWindows_def Let_def applyPaneGrid_eq)
    moreover have ids: "map wid (panes (showAllWindows d)) = map wid (panes d)"
      using grid_ids [of "d\<lparr>winsHidden := False, workspace_open := True\<rparr>"] True by (simp add: showAllWindows_def Let_def o_def del: grid_ids)
    have "wid w \<in> set (map wid (panes (showAllWindows d)))" unfolding ids using \<open>w \<in> set (panes d)\<close> by simp
    ultimately show ?thesis unfolding topWin_eq [OF ns] using True by (simp del: set_map)
  next
    case False
    have "top_loop (map (\<lambda>w. w\<lparr>k_hidden := False\<rparr>) (floats d)) (-1) None = top_loop (floats d) (-1) None" by (rule top_loop_map) simp_all
    then show ?thesis using topWin_eq [OF ns] topWin_eq [OF desk_invD(2) [OF d]] False t by (simp add: showAllWindows_def Let_def)
  qed
qed

lemma desk_start_inv: "desk_inv (desk_start st strategy mob iw ih)"
  unfolding desk_start_def desk_inv_def
  by (simp add: parts_ok_def base_ok_def wm_parts mode_ok_def allShellWins_def)

interpretation wm: guarded_machine "desk_start st strategy mob iw ih" wm_step desk_inv wm_enabled for st strategy mob iw ih
  by unfold_locales (rule desk_start_inv, rule wm_step_inv)

end
