(* ===== verification/Windows_Shown.thy ===== *)
theory Windows_Shown
  imports Windows_Invariant
begin

text \<open>
  The properties of the window manager: the tab bar and the pane marks follow the windows, a
  picked session is always shown, a change of layout and back keeps every window, and concrete
  runs that show where the page does not keep its windows reachable.
\<close>

lemma topWin_mem: "nodes_ok d \<Longrightarrow> topWin d = Some a \<Longrightarrow> a \<in> set (map wid (allShellWins d))"
  using top_loop_mem [of "floats d" "-1" None a]
  by (auto simp: topWin_eq allShellWins_def split: if_splits option.splits)

lemma marked_tab:
  assumes "distinct ids" and "\<And>a. t = Some a \<Longrightarrow> a \<in> set ids"
  shows "map fst (filter snd (map (\<lambda>i. (i, t = Some i)) ids)) = (case t of None \<Rightarrow> [] | Some a \<Rightarrow> [a])"
proof (cases t)
  case (Some a)
  have "filter (\<lambda>i. t = Some i) ids = [a]" using assms Some by (induction ids) (auto simp: filter_empty_conv)
  then show ?thesis using Some by (simp add: filter_map o_def)
qed (simp add: filter_map o_def)

lemma raise_shows:
  assumes d: "desk_inv d" and w: "w \<in> set (allShellWins d)" and f: "f = raise_win (wid w) d"
  shows "\<exists>v \<in> set (allShellWins f). wid v = wid w \<and> wn_sid v = wn_sid w \<and> \<not> k_minimized v \<and> \<not> k_collapsed v \<and> \<not> k_hidden v"
    and "topWin f = Some (wid w)" and "layoutTile f \<Longrightarrow> paneMaxed f = None \<or> paneMaxed f = Some (wid w)" and "\<not> winsHidden f"
proof -
  let ?i = "wid w"
  have i: "?i \<in> wid ` set (allShellWins d)" using w by simp
  obtain m where m: "raise_win ?i d =
      (if winsHidden (bringShellWindowToFront ?i m) then showAllWindows (bringShellWindowToFront ?i m) else bringShellWindowToFront ?i m)"
    "nodes_ok m" "z_ok {} m" "mode_ok m" "layoutTile m \<longrightarrow> desk_inv m"
    "visibility m = map (\<lambda>(j, s, mi, c, h). (j, s, mi \<and> j \<noteq> ?i, c \<and> j \<noteq> ?i, h)) (visibility d)"
    "layoutTile m \<longrightarrow> paneMaxed m = None \<or> paneMaxed m = Some ?i" "winsHidden m = winsHidden d"
    by (rule raise_prepared [OF d i]) blast
  define b where "b = bringShellWindowToFront ?i m"
  have fb: "f = (if winsHidden b then showAllWindows b else b)" using m(1) by (simp add: f b_def)
  have hb: "winsHidden b = winsHidden d" using m(8) by (simp add: b_def)
  obtain u where u: "u \<in> set (allShellWins m)" "wid u = ?i" "\<not> k_minimized u" by (rule prepared_shown [OF m(6) i])
  have zi: "z_ok {?i} m" using m(3) by (simp add: z_ok_def)
  have tb: "topWin b = Some ?i" unfolding b_def by (rule bring_top [OF m(2) zi m(4) u])
  have ib: "desk_inv b"
  proof (cases "layoutTile m")
    case True
    then show ?thesis unfolding b_def using bring_inv [OF m(5) [rule_format] u(1,3)] u(2) by simp
  next
    case False
    moreover have "?i \<in> wid ` set (floats m)" using m(4) u(1) False unfolding u(2) [symmetric] by (simp add: mode_ok_def allShellWins_def)
    ultimately show ?thesis unfolding b_def using m(2,4) zi by (intro bring_float_inv)
  qed
  have vb: "visibility b = map (\<lambda>(j, s, mi, c, h). (j, s, mi \<and> j \<noteq> ?i, c \<and> j \<noteq> ?i, h)) (visibility d)" using m(6) by (simp add: b_def)
  have "vis_of w \<in> set (visibility d)" using w by (simp add: visibility_def)
  then have "(?i, wn_sid w, False, False, k_hidden w) \<in> set (visibility b)" unfolding vb by (force simp: vis_of_def)
  moreover have "\<not> winsHidden d \<longrightarrow> \<not> k_hidden w" using desk_invD(2) [OF d] w by (simp add: nodes_ok_def node_ok_def)
  ultimately have "(?i, wn_sid w, False, False, False) \<in> set (visibility f)"
    using hb unfolding fb by (cases "winsHidden d") (force simp: vis_show)+
  then show "\<exists>v \<in> set (allShellWins f). wid v = ?i \<and> wn_sid v = wn_sid w \<and> \<not> k_minimized v \<and> \<not> k_collapsed v \<and> \<not> k_hidden v"
    by (force simp: visibility_def vis_of_def)
  have "(?i, wn_sid w, False, False, k_hidden w) \<in> set (visibility b)"
    using \<open>vis_of w \<in> set (visibility d)\<close> unfolding vb by (force simp: vis_of_def)
  then obtain v where v: "v \<in> set (allShellWins b)" "wid v = ?i" "\<not> k_minimized v" by (force simp: visibility_def vis_of_def)
  show "topWin f = Some ?i" using show_top [OF ib v(1,3)] tb v(2) by (simp add: fb)
  show "layoutTile f \<Longrightarrow> paneMaxed f = None \<or> paneMaxed f = Some ?i" using m(7) by (simp add: fb b_def split: if_splits)
  show "\<not> winsHidden f" by (simp add: fb)
qed


lemma tile_single:
  assumes "floats d = [w]" and "wid w = i"
  shows "visibility (tileWindow i d) = map vis_of (panes d) @ [vis_of w]" and "paneActive (tileWindow i d) = Some i"
    and "\<not> k_minimized w \<Longrightarrow> \<exists>v \<in> set (panes (tileWindow i d)). \<not> k_minimized v \<and> wid v = i"
  using assms by (simp_all add: tileWindow_def visibility_def allShellWins_def vis_of_def)

lemma created_shows:
  assumes d: "desk_inv d" and f: "f = created sid click d" and n: "n = shellWindowCount d + 1"
  shows "(n, sid, False, False, False) \<in> set (visibility f)" and "topWin f = Some n"
proof -
  define d1 where "d1 = d\<lparr>shellWindowCount := n\<rparr>"
  define w where "w = position_node d1 click (new_win n sid)"
  define d2 where "d2 = d1\<lparr>floats := floats d @ [w]\<rparr>"
  define d3 where "d3 = bringShellWindowToFront n d2"
  have w: "vis_of w = (n, sid, False, False, False)" "k_fullscreen w = mobile d" "\<not> k_tiled w" "\<not> k_paneActive w" "\<not> k_paneMaxed w" "minimized w = k_minimized w"
    by (simp_all add: w_def d1_def vis_of_def position_node_def new_win_def viewport_node_def)
  have fe: "f = (if layoutTile d then openPaneWorkspace (tileWindow n d3) else d3)"
    by (simp add: f created_def Let_def d3_def d2_def d1_def w_def n)
  have v3: "visibility d3 = map vis_of (floats d) @ vis_of w # map vis_of (panes d)"
    by (simp add: d3_def d2_def d1_def) (simp add: visibility_def allShellWins_def)
  have fi: "desk_inv f" unfolding f by (rule created_inv [OF d])
  have "(n, sid, False, False, False) \<in> set (visibility f) \<and> topWin f = Some n"
  proof (cases "layoutTile d")
    case False
    have n2: "nodes_ok d2" "z_ok {n} d2" "mode_ok d2"
      using created_parts [OF d n, of d2 click sid] False by (simp_all add: d2_def d1_def w_def)
    have "topWin d3 = Some n" unfolding d3_def
      by (rule bring_top [OF n2, of w]) (use w(1) in \<open>simp_all add: d2_def allShellWins_def vis_of_def\<close>)
    then show ?thesis using False v3 w(1) by (simp add: fe)
  next
    case True
    then have "floats d = []" using desk_invD(8) [OF d] by (simp add: mode_ok_def)
    have "map wid (floats d3) = [n]" unfolding d3_def bring_ids using w(1) by (simp add: d2_def \<open>floats d = []\<close> vis_of_def)
    then obtain u where u: "floats d3 = [u]" "wid u = n" by auto
    then have "vis_of u = vis_of w" using v3 \<open>floats d = []\<close> by (simp add: visibility_def allShellWins_def)
    then have vu: "vis_of u = (n, sid, False, False, False)" using w(1) by simp
    define e where "e = (tileWindow n d3)\<lparr>workspace_open := True\<rparr>"
    have fg: "f = applyPaneGrid e" using True by (simp add: fe e_def openPaneWorkspace_def)
    have e: "visibility e = map vis_of (panes d3) @ [vis_of u]" "paneActive e = Some n" "\<exists>v \<in> set (panes e). \<not> k_minimized v \<and> wid v = n"
      using tile_single [OF u] vu by (simp_all add: e_def visibility_def allShellWins_def vis_of_def)
    then have "f = grid_paint e" unfolding fg applyPaneGrid_eq by auto
    then have "paneActive f = Some n" "n \<in> set (map wid (panes f))" using e(2,3) grid_ids [of e] by (auto simp: image_iff fg)
    then have "topWin f = Some n" using topWin_eq [OF desk_invD(2) [OF fi]] True by (simp add: fg e_def d3_def d2_def d1_def)
    then show ?thesis using e(1) vu by (simp add: fg)
  qed
  then show "(n, sid, False, False, False) \<in> set (visibility f)" and "topWin f = Some n" by auto
qed


lemmas wm_eval = wm_step_def observers_def Let_def focusSessionWindow_def getShellWindowBySid_def create_win_def new_win_def
  bringShellWindowToFront_def get_win_def allShellWins_def isTiledWin_def refreshSessionTabbar_def topWin_def z_of_def upd_win_def
  position_node_def box_rect_def layoutMaybeAutoTile_def AUTO_TILE_THRESHOLD_def desk_start_def viewport_node_def
  setLayoutMode_def tileWindow_def setActivePane_def openPaneWorkspace_def applyPaneGrid_def minimizeShellWindow_def pane_observer_def
  win_shown_def raise_win_def expandShellWindow_def restoreShellWindow_def expand_node_def hideAllWindows_def toggleAllWindowsVisible_def
  onViewportChange_def FULLSCREEN_Z_def tab_click_def

definition sample_desk :: desk where
  "sample_desk = foldl wm_step (desk_start None ''auto'' False 1000 800) [WFocus ''a'' None, WFocus ''b'' None, WRaise 1]"

lemma two_windows_reach: "wm.reach None ''auto'' False 1000 800 sample_desk"
proof -
  have "wm.run_ok (desk_start None ''auto'' False 1000 800) [WFocus ''a'' None, WFocus ''b'' None, WRaise 1]"
    by (simp add: wm_eval)
  then show ?thesis unfolding sample_desk_def by (rule wm.reach_run [OF wm.reach.init])
qed

lemma sample_desk_facts: "map wid (floats sample_desk) = [1, 2]" "topWin sample_desk = Some 1" "panes sample_desk = []" "\<not> layoutTile sample_desk"
  "map wn_sid (floats sample_desk) = [Some ''a'', Some ''b'']" "\<not> mobile sample_desk"
  unfolding sample_desk_def by (simp_all add: wm_eval)


lemma create_shows:
  assumes d: "desk_inv d" and f: "f = create_win sid click d" and n: "n = shellWindowCount d + 1"
  shows "\<exists>v \<in> set (allShellWins f). wid v = n \<and> wn_sid v = sid \<and> \<not> k_minimized v \<and> \<not> k_collapsed v \<and> \<not> k_hidden v"
    and "topWin f = Some n" and "\<not> winsHidden f"
proof -
  define c where "c = created sid click d"
  have fc: "f = (if winsHidden c then showAllWindows c else c)" by (simp add: f c_def create_created)
  have c: "(n, sid, False, False, False) \<in> set (visibility c)" "topWin c = Some n" by (rule created_shows [OF d c_def n])+
  then have "(n, sid, False, False, False) \<in> set (visibility f)" unfolding fc by (force simp: vis_show)
  then show "\<exists>v \<in> set (allShellWins f). wid v = n \<and> wn_sid v = sid \<and> \<not> k_minimized v \<and> \<not> k_collapsed v \<and> \<not> k_hidden v"
    by (force simp: visibility_def vis_of_def)
  obtain v where v: "v \<in> set (allShellWins c)" "wid v = n" "\<not> k_minimized v" using c(1) by (force simp: visibility_def vis_of_def)
  have "desk_inv c" unfolding c_def by (rule created_inv [OF d])
  then show "topWin f = Some n" using show_top [OF _ v(1,3)] c(2) v(2) by (simp add: fc)
  show "\<not> winsHidden f" by (simp add: fc)
qed

text \<open>Picking a session always shows it: whatever was minimized, collapsed, hidden, maximized or
  covered before, afterwards it has a window that is neither minimized nor collapsed nor hidden, that
  window is in front, in the grid the workspace is open, and no other pane fills the grid unless the
  window had to be created.\<close>

theorem focus_shows_session:
  assumes "wm.reach st strategy mob iw ih d" and "f = focusSessionWindow (Some s) click d"
  shows "\<exists>w \<in> set (allShellWins f). wn_sid w = Some s \<and> \<not> k_minimized w \<and> \<not> k_collapsed w \<and> \<not> k_hidden w \<and>
    topWin f = Some (wid w) \<and> (layoutTile f \<longrightarrow> workspace_open f) \<and>
    (layoutTile f \<and> (\<exists>v \<in> set (allShellWins d). wn_sid v = Some s) \<longrightarrow> paneMaxed f = None \<or> paneMaxed f = Some (wid w))"
proof -
  have d: "desk_inv d" by (rule wm.reach_inv [OF assms(1)])
  have fi: "desk_inv f" unfolding assms(2) by (rule focus_inv [OF d])
  have ws: "workspace_open f" if "w \<in> set (allShellWins f)" "layoutTile f" "\<not> winsHidden f" for w
    using desk_invD(8) [OF fi] that by (auto simp: mode_ok_def allShellWins_def)
  show ?thesis
  proof (cases "find (\<lambda>w. wn_sid w = Some s) (allShellWins d)")
    case None
    then have f: "f = create_win (Some s) click d" by (simp add: assms(2) focusSessionWindow_def getShellWindowBySid_def)
    from create_shows [OF d f refl] ws None show ?thesis by (fastforce simp: find_None_iff)
  next
    case (Some v)
    then have v: "v \<in> set (allShellWins d)" "wn_sid v = Some s" by (auto simp: find_Some_iff)
    have f: "f = raise_win (wid v) d" using Some by (simp add: assms(2) focusSessionWindow_def getShellWindowBySid_def)
    from raise_shows [OF d v(1) f] ws v(2) show ?thesis by fastforce
  qed
qed

theorem focus_shows_session_witness:
  "\<exists>w \<in> set (allShellWins (focusSessionWindow (Some ''b'') None sample_desk)). wn_sid w = Some ''b'' \<and> \<not> k_minimized w"
  using focus_shows_session [OF two_windows_reach refl, of "''b''" None] by blast

section \<open>Changing the layout\<close>

text \<open>What a change of layout has to keep of a window: identity, place, and what it was folded into.\<close>

definition keep_of :: "wnode \<Rightarrow> nat \<times> string option \<times> bool \<times> rect option \<times> css \<times> bool \<times> bool" where
  "keep_of w = (wid w, wn_sid w, maxed w, maxSavedRect w, savedH w, k_minimized w, k_collapsed w)"

definition float_view :: "wnode \<Rightarrow> rect option \<times> nat \<times> string option \<times> bool \<times> rect option \<times> css \<times> bool \<times> bool" where
  "float_view w = (Some (wn_rect w), keep_of w)"

definition pane_view :: "wnode \<Rightarrow> rect option \<times> nat \<times> string option \<times> bool \<times> rect option \<times> css \<times> bool \<times> bool" where
  "pane_view w = (floatRect w, keep_of w)"

lemma active_view [simp]: "map pane_view (panes (setActivePane a d)) = map pane_view (panes d)"
  by (simp add: pane_view_def keep_of_def)

lemma grid_view [simp]: "map pane_view (panes (applyPaneGrid d)) = map pane_view (panes d)"
  by (simp add: applyPaneGrid_eq) (simp add: pane_view_def keep_of_def)

lemma bring_view:
  "map float_view (floats (bringShellWindowToFront i d)) = map float_view (floats d)"
  "map pane_view (panes (bringShellWindowToFront i d)) = map pane_view (panes d)"
  by (simp_all add: bringShellWindowToFront_def upd_win_def Let_def float_view_def pane_view_def keep_of_def split: option.split)

lemma tile_all_view:
  assumes "floats d = ws" and "distinct (map wid ws)"
  shows "map pane_view (panes (foldl (\<lambda>e i. tileWindow i e) d (map wid ws))) = map pane_view (panes d) @ map float_view ws"
  using assms
proof (induction ws arbitrary: d)
  case (Cons w ws)
  have "floats (tileWindow (wid w) d) = ws" using Cons.prems by (auto intro!: filter_True simp: image_iff)
  moreover have "map pane_view (panes (tileWindow (wid w) d)) = map pane_view (panes d) @ [float_view w]"
    using Cons.prems by (simp add: tileWindow_def pane_view_def float_view_def keep_of_def)
  ultimately show ?case using Cons by simp
qed simp

lemma untile_view:
  assumes "panes d = w # ws" and "distinct (map wid (panes d))" and "floatRect w \<noteq> None"
  shows "map float_view (floats (untileWindow (wid w) d)) = map float_view (floats d) @ [pane_view w]"
    and "map pane_view (panes (untileWindow (wid w) d)) = map pane_view ws"
proof -
  have "filter (\<lambda>v. wid v \<noteq> wid w) ws = ws" using assms by (auto intro!: filter_True simp: image_iff)
  then show "map float_view (floats (untileWindow (wid w) d)) = map float_view (floats d) @ [pane_view w]"
    and "map pane_view (panes (untileWindow (wid w) d)) = map pane_view ws"
    using assms by (simp_all add: untileWindow_def bring_view) (auto simp: float_view_def pane_view_def keep_of_def)
qed

lemma view_ids: "map pane_view ws = map pane_view vs \<Longrightarrow> map wid ws = map wid vs"
  by (drule arg_cong [of _ _ "map (fst \<circ> snd)"]) (simp add: pane_view_def keep_of_def o_def)

lemma view_rects: "map pane_view ws = map pane_view vs \<Longrightarrow> \<forall>v \<in> set vs. floatRect v \<noteq> None \<Longrightarrow> \<forall>w \<in> set ws. floatRect w \<noteq> None"
proof -
  assume v: "map pane_view ws = map pane_view vs" and "\<forall>v \<in> set vs. floatRect v \<noteq> None"
  moreover have "floatRect ` set ws = floatRect ` set vs"
    using arg_cong [OF v, of "\<lambda>xs. set (map fst xs)"] by (simp add: pane_view_def image_image)
  ultimately show ?thesis by (metis (no_types) image_iff)
qed

lemma untile_all_view:
  assumes "map pane_view (panes d) = map pane_view ws" and "distinct (map wid ws)" and "\<forall>w \<in> set ws. floatRect w \<noteq> None"
  shows "map float_view (floats (foldl (\<lambda>e i. untileWindow i e) d (map wid ws))) = map float_view (floats d) @ map pane_view ws"
  using assms
proof (induction ws arbitrary: d)
  case (Cons w ws)
  obtain v vs where v: "panes d = v # vs" "pane_view v = pane_view w" "map pane_view vs = map pane_view ws"
    using Cons.prems(1) by (auto simp: Cons_eq_map_conv map_eq_Cons_conv)
  have w: "wid v = wid w" "floatRect v \<noteq> None" using v(2) Cons.prems(3) by (auto simp: pane_view_def keep_of_def)
  have "distinct (map wid (panes d))" using view_ids [OF Cons.prems(1)] Cons.prems(2) by simp
  note u = untile_view [OF v(1) this w(2), unfolded w(1)]
  show ?case using Cons.IH [of "untileWindow (wid w) d"] u v Cons.prems(2,3) by simp
qed simp

lemma layout_view:
  assumes d: "desk_inv d" and fl: "\<not> layoutTile d" and mob: "\<not> mobile d" and f: "f = setLayoutMode False (setLayoutMode True d)"
  shows "map float_view (floats f) = map float_view (floats d)"
proof -
  define t where "t = setLayoutMode True d"
  have ti: "desk_inv t" unfolding t_def
    using layout_tile_inv [OF desk_invD(9) [OF d] mob] desk_invD(8) [OF d] by (simp add: mode_ok_def)
  have p: "panes d = []" using desk_invD(8) [OF d] fl by (simp add: mode_ok_def)
  have "distinct (map wid (floats d))" using desk_invD(2) [OF d] by (simp add: nodes_ok_def allShellWins_def)
  then have pt: "map pane_view (panes t) = map float_view (floats d)"
    unfolding t_def setLayoutMode_def Let_def openPaneWorkspace_def
    using tile_all_view [of "d\<lparr>layoutTile := True, storedMode := Some True, body_tile := True, tile_btn := True\<rparr>" "floats d"] p by simp
  have ft: "floats t = []" using desk_invD(8) [OF ti] by (simp add: mode_ok_def t_def setLayoutMode_def Let_def openPaneWorkspace_def)
  have "distinct (map wid (panes t))" "\<forall>w \<in> set (panes t). floatRect w \<noteq> None"
    using desk_invD(2) [OF ti] by (simp_all add: nodes_ok_def allShellWins_def)
  moreover have ff: "f = setLayoutMode False t" by (simp add: f t_def)
  ultimately have "map float_view (floats f) = map pane_view (panes t)"
    unfolding ff setLayoutMode_def Let_def using ft
    by (simp add: untile_all_view [where ws = "panes t"])
  then show ?thesis using pt by simp
qed


lemma stored_keep:
  "storedMode (setActivePane a d) = storedMode d" "storedMode (bringShellWindowToFront i d) = storedMode d"
  by (simp_all add: setActivePane_def refreshSessionTabbar_def bringShellWindowToFront_def upd_win_def Let_def split: option.split)

lemma stored_float: "storedMode (setLayoutMode False d) = Some False"
proof -
  have "storedMode (untileWindow i e) = storedMode e" for i e by (simp add: untileWindow_def stored_keep split: option.split)
  then have "storedMode (foldl (\<lambda>e i. untileWindow i e) e ids) = storedMode e" for e ids by (induction ids arbitrary: e) simp_all
  moreover have "storedMode (applyPaneGrid e) = storedMode e" for e by (simp add: applyPaneGrid_eq stored_keep grid_paint_def Let_def)
  ultimately show ?thesis by (simp add: setLayoutMode_def Let_def refreshSessionTabbar_def)
qed

text \<open>C14: Tiling the floating windows and floating them again gives every window back: the same
  windows in the same order, each at the position and size it had, with its session, its
  maximized state and saved geometry, minimized or collapsed as it was.\<close>

theorem layout_roundtrip:
  assumes "wm.reach st strategy mob iw ih d" and "\<not> layoutTile d" and "\<not> mobile d"
    and "f = setLayoutMode False (setLayoutMode True d)"
  shows "map (\<lambda>w. (wid w, wn_sid w, wn_rect w)) (floats f) = map (\<lambda>w. (wid w, wn_sid w, wn_rect w)) (floats d) \<and>
    map (\<lambda>w. (maxed w, maxSavedRect w, savedH w, k_minimized w, k_collapsed w)) (floats f) =
      map (\<lambda>w. (maxed w, maxSavedRect w, savedH w, k_minimized w, k_collapsed w)) (floats d) \<and>
    panes f = [] \<and> \<not> layoutTile f \<and> storedMode f = Some False"
proof -
  have d: "desk_inv d" by (rule wm.reach_inv [OF assms(1)])
  have v: "map float_view (floats f) = map float_view (floats d)" by (rule layout_view [OF d assms(2-4)])
  define t where "t = setLayoutMode True d"
  have wm: "wasMobile d = mobile d" using desk_invD(8) [OF d] by (simp add: mode_ok_def)
  have ti: "desk_inv t" unfolding t_def by (rule layout_tile_inv [OF desk_invD(9) [OF d] assms(3) wm])
  have mt: "\<not> mobile t" using assms(3) by (simp add: t_def setLayoutMode_def Let_def openPaneWorkspace_def)
  have "wasMobile t = mobile t" using desk_invD(8) [OF ti] by (simp add: mode_ok_def)
  then have "desk_inv f" unfolding assms(4) t_def [symmetric] using layout_float_inv [OF desk_invD(1) [OF ti]] mt by blast
  moreover have "\<not> layoutTile f" by (simp add: assms(4) setLayoutMode_def Let_def)
  ultimately have "panes f = []" using desk_invD(8) by (simp add: mode_ok_def)
  moreover have "storedMode f = Some False" unfolding assms(4) by (rule stored_float)
  ultimately show ?thesis using \<open>\<not> layoutTile f\<close>
      arg_cong [OF v, of "map (\<lambda>(r, i, s, m). (i, s, the r))"] arg_cong [OF v, of "map (\<lambda>(r, i, s, m). m)"]
    by (simp add: float_view_def keep_of_def o_def)
qed

theorem layout_roundtrip_witness:
  "\<not> layoutTile sample_desk \<and> map wid (floats (setLayoutMode False (setLayoutMode True sample_desk))) = [1, 2]"
proof -
  have "map (\<lambda>w. (wid w, wn_sid w, wn_rect w)) (floats (setLayoutMode False (setLayoutMode True sample_desk))) =
      map (\<lambda>w. (wid w, wn_sid w, wn_rect w)) (floats sample_desk)"
    using layout_roundtrip [OF two_windows_reach _ _ refl] sample_desk_facts by blast
  from arg_cong [OF this, of "map fst"] show ?thesis using sample_desk_facts by (simp add: o_def)
qed

section \<open>Concrete runs\<close>

text \<open>Windows hidden while floating stay hidden as panes of the open workspace.\<close>

lemma hidden_then_tiled:
  "map k_hidden (panes (foldl wm_step (desk_start None ''auto'' False 1000 800) [WFocus ''a'' None, WToggleAll, WLayout])) = [True]"
  by (simp add: wm_eval)

text \<open>A device that stops being touch-first (a mouse was attached) leaves its windows the z-indices
  of full-screen windows, and the counter a raise draws from starts far below them.\<close>

lemma leaving_touch_mode:
  "topWin (foldl wm_step (desk_start None ''auto'' True 400 800)
     [WFocus ''a'' None, WFocus ''b'' None, WViewport False 1000 800, WRaise 1]) = Some 2"
  by (simp add: wm_eval)

text \<open>Two windows that wait for their sessions: a click on the second tab raises the first.\<close>

lemma second_pending_tab:
  "topWin (foldl wm_step (desk_start None ''auto'' False 1000 800) [WPending None, WPending None, WTab 2]) = Some 1"
  by (simp add: wm_eval)

text \<open>The saved layout is restored into the variable, not into the class of the body.\<close>

lemma saved_tile_layout: "layoutTile (desk_start (Some True) strategy mob iw ih)" "\<not> body_tile (desk_start (Some True) strategy mob iw ih)"
  by (simp_all add: wm_eval)

end
