(* ===== verification/History.thy ===== *)
theory History
  imports Text_Helpers
begin

text \<open>
  Restoring a shell's output into a terminal (\<open>bootstrapShellFullHistory\<close> of
  \<open>ui-socket.js\<close>), against the byte-range endpoint of the server: \<open>Buffer.ByteRange\<close> of
  \<open>internal/buffer/buffer.go\<close> behind \<open>writeOutputRange\<close> of \<open>internal/webui/handler.go\<close>.
  The loop of the client may run for ever against a server that moves the offset back and
  forth, so it is a partial function; that it returns is proved from the server's contract.
\<close>

section \<open>The server's answer\<close>

record reply =
  rp_end :: nat
  rp_total :: nat
  rp_d :: string

text \<open>
  \<open>Buffer.ByteRange\<close>: the bounds of the slice of the retained bytes that is copied, if any,
  and the total. Offsets are absolute; \<open>base\<close> is the offset of the first retained byte.
\<close>

definition byteRange_bounds :: "nat \<Rightarrow> nat \<Rightarrow> nat \<Rightarrow> int \<Rightarrow> (nat \<times> nat) option \<times> nat" where
  "byteRange_bounds base len start mx =
     (let tot = base + len; s = start - base; n = (if int s + mx > int tot then int tot - int s else mx)
      in if s \<ge> tot \<or> mx \<le> 0 then (None, tot)
         else if n \<le> 0 then (None, tot) else (Some (s, s + nat n), tot))"

definition byteRange :: "nat \<Rightarrow> nat list \<Rightarrow> nat \<Rightarrow> int \<Rightarrow> nat list \<times> nat" where
  "byteRange base master start mx =
     (case byteRange_bounds base (length master) start mx of
        (None, tot) \<Rightarrow> ([], tot)
      | (Some (lo, hi), tot) \<Rightarrow> (take (hi - lo) (drop lo master), tot))"

text \<open>\<open>writeOutputRange\<close> for a live shell; the text of the answer is the bytes, for output in ASCII.\<close>

definition writeOutputRange :: "nat \<Rightarrow> nat list \<Rightarrow> nat \<Rightarrow> nat \<Rightarrow> reply" where
  "writeOutputRange base master start mx =
     (let m = (if mx = 0 then 256 * 1024 else min mx (512 * 1024));
          r = byteRange base master start (int m); dat = fst r; tot = snd r;
          s = min (max start base) tot
      in \<lparr>rp_end = s + length dat, rp_total = tot, rp_d = map char_of dat\<rparr>)"

section \<open>The client's loop\<close>

definition SHELL_HISTORY_CHUNK :: nat where "SHELL_HISTORY_CHUNK = 512 * 1024"
definition SHELL_HISTORY_DISPLAY_CAP :: nat where "SHELL_HISTORY_DISPLAY_CAP = 32 * 1024 * 1024"

datatype hist_out = Bytes "nat list" | CapNote | OmittedNote

text \<open>One call of \<open>one()\<close> per unfolding; the server maps a start and a maximum to its answer,
  \<open>None\<close> when the request failed. A \<open>total\<close> of -1 is \<open>None\<close>.\<close>

partial_function (option) history_loop ::
  "nat \<Rightarrow> nat \<Rightarrow> (nat \<Rightarrow> nat \<Rightarrow> reply option) \<Rightarrow> nat \<Rightarrow> nat option \<Rightarrow> nat \<Rightarrow> hist_out list \<Rightarrow> hist_out list option" where
  "history_loop cap chunk srv off tot shown acc =
     (if cap \<le> shown then Some (acc @ [CapNote])
      else
        (let m1 = (case tot of None \<Rightarrow> chunk | Some tt \<Rightarrow> min chunk (tt - off)); mx = min m1 (cap - shown)
         in if mx = 0 then Some acc
            else
              (case srv off mx of
                 None \<Rightarrow> Some acc
               | Some j \<Rightarrow>
                   (let u = textToBytes (rp_d j);
                        acc' = (if rp_d j = [] then acc else acc @ [Bytes u]);
                        shown' = (if rp_d j = [] then shown else shown + length u)
                    in if rp_end j = off \<or> rp_total j = 0 \<or> rp_end j \<ge> rp_total j then Some acc'
                       else if shown' \<ge> cap then Some (acc' @ [OmittedNote])
                       else history_loop cap chunk srv (rp_end j) (Some (rp_total j)) shown' acc'))))"

definition bootstrapShellFullHistory :: "(nat \<Rightarrow> nat \<Rightarrow> reply option) \<Rightarrow> hist_out list option" where
  "bootstrapShellFullHistory srv =
     history_loop SHELL_HISTORY_DISPLAY_CAP SHELL_HISTORY_CHUNK srv 0 None 0 []"

definition shown_bytes :: "hist_out list \<Rightarrow> nat list" where
  "shown_bytes os = concat (map (\<lambda>x. case x of Bytes b \<Rightarrow> b | _ \<Rightarrow> []) os)"

definition hist_notes :: "hist_out list \<Rightarrow> hist_out list" where
  "hist_notes os = filter (\<lambda>x. x = CapNote \<or> x = OmittedNote) os"

section \<open>The contract between them\<close>

text \<open>
  What the loop relies on: for the stream \<open>dat\<close>, an answer carries the bytes from the offset
  up to the maximum, the offset after them and the length of the stream.
\<close>

locale history_server =
  fixes ok :: "nat list \<Rightarrow> bool" and srv :: "nat list \<Rightarrow> nat \<Rightarrow> nat \<Rightarrow> reply option" and chunk :: nat
  assumes serve: "ok dat \<Longrightarrow> off \<le> length dat \<Longrightarrow> 0 < mx \<Longrightarrow> mx \<le> chunk \<Longrightarrow>
      \<exists>j. srv dat off mx = Some j \<and> rp_total j = length dat \<and> rp_end j = min (off + mx) (length dat) \<and>
          textToBytes (rp_d j) = take mx (drop off dat)"
    and chunk_pos: "0 < chunk"
begin

lemma loop_result:
  assumes "ok dat" and "off = shown" and "shown < cap"
    and "off < length dat \<or> off = 0" and "shown_bytes acc = take off dat" and "hist_notes acc = []"
    and "tot = None \<or> tot = Some (length dat)"
  shows "\<exists>os. history_loop cap chunk (srv dat) off tot shown acc = Some os \<and>
    shown_bytes os = take cap dat \<and> hist_notes os = (if length dat \<le> cap then [] else [OmittedNote])"
  using assms
proof (induction "length dat - off" arbitrary: off tot shown acc rule: less_induct)
  case less
  define mx where "mx = min (case tot of None \<Rightarrow> chunk | Some tt \<Rightarrow> min chunk (tt - off)) (cap - shown)"
  show ?case
  proof (cases "mx = 0")
    case True
    then have "length dat \<le> off" using less.prems chunk_pos by (auto simp: mx_def min_def split: option.splits if_splits)
    then have "off = 0" "dat = []" using less.prems by auto
    moreover have "history_loop cap chunk (srv dat) off tot shown acc = Some acc"
      using less.prems(3) True by (subst history_loop.simps) (simp add: Let_def mx_def [symmetric])
    ultimately show ?thesis using less.prems by simp
  next
    case False
    have "mx \<le> chunk" by (auto simp: mx_def split: option.split)
    then obtain j where j: "srv dat off mx = Some j" "rp_total j = length dat" "rp_end j = min (off + mx) (length dat)"
      "textToBytes (rp_d j) = take mx (drop off dat)"
      using serve [of dat off mx] less.prems False by auto
    define acc' where "acc' = (if rp_d j = [] then acc else acc @ [Bytes (textToBytes (rp_d j))])"
    have len: "length (take mx (drop off dat)) = rp_end j - off" "off \<le> rp_end j" using j(3) less.prems by auto
    have empty: "rp_d j = [] \<Longrightarrow> take mx (drop off dat) = []" using j(4) by (simp add: textToBytes_def)
    have sb: "shown_bytes acc' = take (rp_end j) dat"
    proof -
      have "shown_bytes acc' = take off dat @ take mx (drop off dat)"
        using less.prems(5) j(4) empty by (auto simp: acc'_def shown_bytes_def)
      also have "\<dots> = take (off + mx) dat" by (simp add: take_add)
      finally show ?thesis by (simp add: j(3) min_def)
    qed
    have nt: "hist_notes acc' = []" using less.prems(6) by (simp add: acc'_def hist_notes_def)
    have shown': "(if rp_d j = [] then shown else shown + length (textToBytes (rp_d j))) = rp_end j"
      using less.prems(2) len j(4) empty by auto
    have step: "history_loop cap chunk (srv dat) off tot shown acc =
        (if rp_end j = off \<or> length dat = 0 \<or> rp_end j \<ge> length dat then Some acc'
         else if rp_end j \<ge> cap then Some (acc' @ [OmittedNote])
         else history_loop cap chunk (srv dat) (rp_end j) (Some (length dat)) (rp_end j) acc')"
      using less.prems(3) False j(1,2) shown'
      by (subst history_loop.simps) (simp add: mx_def [symmetric] Let_def acc'_def [symmetric])
    have cap: "rp_end j \<le> cap" using j(3) less.prems(2,3) by (auto simp: mx_def)
    consider (fin) "rp_end j \<ge> length dat" | (full) "rp_end j < length dat" "rp_end j = cap"
      | (more) "rp_end j < length dat" "rp_end j < cap" using cap by linarith
    then show ?thesis
    proof cases
      case fin
      then have "rp_end j = length dat" using j(3) by simp
      then show ?thesis using step fin sb nt cap by auto
    next
      case full
      have "rp_end j \<noteq> off" using full less.prems(2,3) by simp
      then show ?thesis using step full sb nt by (auto simp: shown_bytes_def hist_notes_def)
    next
      case more
      have grow: "off < rp_end j" using j(3) False more by simp
      then have "\<exists>os. history_loop cap chunk (srv dat) (rp_end j) (Some (length dat)) (rp_end j) acc' = Some os \<and>
          shown_bytes os = take cap dat \<and> hist_notes os = (if length dat \<le> cap then [] else [OmittedNote])"
        using more less.prems sb nt by (intro less.hyps) auto
      then show ?thesis using step more grow by auto
    qed
  qed
qed

end

section \<open>The endpoint satisfies it\<close>

definition ascii :: "nat list \<Rightarrow> bool" where
  "ascii bs \<longleftrightarrow> (\<forall>b \<in> set bs. b < 128)"

lemma textToBytes_ascii: "ascii bs \<Longrightarrow> textToBytes (map char_of bs) = bs"
  by (induction bs) (auto simp: ascii_def textToBytes_def utf8_char_def Let_def)

lemma byteRange_base0: "0 < mx \<Longrightarrow> byteRange 0 dat off (int mx) = (take mx (drop off dat), length dat)"
  by (auto simp: byteRange_def byteRange_bounds_def Let_def)

lemma writeOutputRange_base0:
  "0 < mx \<Longrightarrow> mx \<le> 512 * 1024 \<Longrightarrow> off \<le> length dat \<Longrightarrow>
     writeOutputRange 0 dat off mx =
       \<lparr>rp_end = min (off + mx) (length dat), rp_total = length dat, rp_d = map char_of (take mx (drop off dat))\<rparr>"
  by (auto simp: writeOutputRange_def Let_def byteRange_base0)

lemma endpoint_serves:
  assumes "ascii dat" and "off \<le> length dat" and "0 < mx" and "mx \<le> SHELL_HISTORY_CHUNK"
  shows "\<exists>j. Some (writeOutputRange 0 dat off mx) = Some j \<and> rp_total j = length dat \<and> rp_end j = min (off + mx) (length dat) \<and>
    textToBytes (rp_d j) = take mx (drop off dat)"
proof -
  have "ascii (take mx (drop off dat))" using assms(1) by (auto simp: ascii_def dest!: in_set_takeD in_set_dropD)
  then show ?thesis
    using assms writeOutputRange_base0 [of mx off dat] textToBytes_ascii by (simp add: SHELL_HISTORY_CHUNK_def)
qed

interpretation hs: history_server ascii "\<lambda>dat off mx. Some (writeOutputRange 0 dat off mx)" SHELL_HISTORY_CHUNK
  by unfold_locales (use endpoint_serves in \<open>auto simp: SHELL_HISTORY_CHUNK_def\<close>)



text \<open>Once the buffer has dropped its oldest bytes, \<open>ByteRange\<close> compares a position in the retained
  bytes with the absolute length: a read that asks for more than is retained takes a slice that
  ends past the retained bytes.\<close>

theorem byteRange_past_retained:
  assumes "0 < base" and "start \<le> base" and "int len < mx"
  shows "\<exists>hi. fst (byteRange_bounds base len start mx) = Some (0, hi) \<and> len < hi"
  using assms by (auto simp: byteRange_bounds_def Let_def)

theorem byteRange_past_retained_witness: "\<exists>hi. fst (byteRange_bounds 100 50 100 80) = Some (0, hi) \<and> 50 < hi"
  using byteRange_past_retained [of 100 100 50 80] by simp

end
