(* ===== verification/Socket.thy ===== *)
theory Socket
  imports Channels
begin

text \<open>
  The page's single WebSocket (\<open>ui-socket.js\<close>): connecting, reconnecting with a growing
  delay, and renewing the watches of all open windows. Sockets are numbered in the order
  they are created; a socket the page has replaced may still deliver its close event.
\<close>

datatype ready = Connecting | Opened | Closing | Done

record page =
  pg_net :: net
  pg_wins :: "cwin list"
  uiWS :: "nat option"
  sockets :: "ready list"
  retryTimer :: "nat option"
  backoff :: nat
  banner_wait :: "nat option"

text \<open>\<open>resubscribeAllTerminalWatches\<close>.\<close>

definition resubscribeAllTerminalWatches :: "cwin list \<Rightarrow> net \<Rightarrow> net" where
  "resubscribeAllTerminalWatches ws n = foldl (\<lambda>m w. resubscribe_win w m) n ws"

definition close_sock :: "nat option \<Rightarrow> ready list \<Rightarrow> ready list" where
  "close_sock old ss =
     (case old of None \<Rightarrow> ss | Some i \<Rightarrow> if i < length ss \<and> ss ! i \<noteq> Done then ss[i := Closing] else ss)"

definition connectUIWebSocket :: "page \<Rightarrow> page" where
  "connectUIWebSocket p =
     (let ss = close_sock (uiWS p) (sockets p)
      in p\<lparr>retryTimer := None, uiWS := Some (length ss), sockets := ss @ [Connecting], pg_net := (pg_net p)\<lparr>ws_open := False\<rparr>\<rparr>)"

definition startUIWebSocket :: "page \<Rightarrow> page" where
  "startUIWebSocket p = connectUIWebSocket (p\<lparr>backoff := 1000\<rparr>)"

text \<open>\<open>onopen\<close> of socket \<open>i\<close>: a fresh connection carries no messages and no watches yet.\<close>

definition ws_onopen :: "nat \<Rightarrow> page \<Rightarrow> page" where
  "ws_onopen i p =
     (let n1 = (pg_net p)\<lparr>ws_open := True, sent := []\<rparr>;
          n2 = resubscribeAllTerminalWatches (pg_wins p) (flushPendingTerminalWatches n1)
      in p\<lparr>sockets := (sockets p)[i := Opened], backoff := 1000, banner_wait := None, pg_net := n2\<rparr>)"

definition ws_onclose :: "nat \<Rightarrow> page \<Rightarrow> page" where
  "ws_onclose i p =
     (let p1 = p\<lparr>sockets := (sockets p)[i := Done]\<rparr>
      in if uiWS p1 \<noteq> Some i then p1
         else
           (let p2 = p1\<lparr>uiWS := None, pg_net := (pg_net p1)\<lparr>ws_open := False\<rparr>\<rparr>
            in if retryTimer p2 \<noteq> None then p2
               else
                 (let delay = (if backoff p2 = 0 then 1000 else backoff p2)
                  in p2\<lparr>backoff := sseBackoffNext delay, banner_wait := Some ((delay + 999) div 1000), retryTimer := Some delay\<rparr>)))"

definition retry_fires :: "page \<Rightarrow> page" where
  "retry_fires p = connectUIWebSocket (p\<lparr>retryTimer := None\<rparr>)"

text \<open>Everything the windows do (their channel events) and queueing a watch in between.\<close>

definition win_event :: "nat \<Rightarrow> ch_event \<Rightarrow> page \<Rightarrow> page" where
  "win_event k ev p =
     (case ch_step (pg_wins p ! k, pg_net p) ev of (w, n) \<Rightarrow> p\<lparr>pg_wins := (pg_wins p)[k := w], pg_net := n\<rparr>)"

datatype sock_event = SStart | SOpen nat | SClose nat | SRetry | SWin nat ch_event

fun sock_step :: "page \<Rightarrow> sock_event \<Rightarrow> page" where
  "sock_step p SStart = startUIWebSocket p"
| "sock_step p (SOpen i) = ws_onopen i p"
| "sock_step p (SClose i) = ws_onclose i p"
| "sock_step p SRetry = retry_fires p"
| "sock_step p (SWin k ev) = win_event k ev p"

text \<open>A socket opens only while it is connecting and closes at most once; the timer fires only
  when it is set; connection events of the channels are those of the page.\<close>

fun sock_enabled :: "page \<Rightarrow> sock_event \<Rightarrow> bool" where
  "sock_enabled p SStart = True"
| "sock_enabled p (SOpen i) = (i < length (sockets p) \<and> sockets p ! i = Connecting)"
| "sock_enabled p (SClose i) = (i < length (sockets p) \<and> sockets p ! i \<noteq> Done)"
| "sock_enabled p SRetry = (retryTimer p \<noteq> None)"
| "sock_enabled p (SWin k ev) = (k < length (pg_wins p) \<and> ev \<noteq> ChUp \<and> ev \<noteq> ChDown)"

text \<open>The page after its script has run: the first connection is under way.\<close>

definition page_start :: "cwin list \<Rightarrow> page" where
  "page_start ws =
     startUIWebSocket
       \<lparr>pg_net = \<lparr>ws_open = False, sent = [], pendingWatch = [], deletes = []\<rparr>, pg_wins = ws, uiWS = None, sockets = [],
        retryTimer = None, backoff = 0, banner_wait = None\<rparr>"

definition sock_inv :: "page \<Rightarrow> bool" where
  "sock_inv p \<longleftrightarrow>
     (case uiWS p of
        None \<Rightarrow> retryTimer p \<noteq> None \<and> \<not> ws_open (pg_net p)
      | Some i \<Rightarrow> i < length (sockets p) \<and> retryTimer p = None \<and> sockets p ! i \<in> {Connecting, Opened} \<and>
          ws_open (pg_net p) = (sockets p ! i = Opened)) \<and>
     (\<forall>j < length (sockets p). uiWS p \<noteq> Some j \<longrightarrow> sockets p ! j \<in> {Closing, Done}) \<and>
     1000 \<le> backoff p \<and> backoff p \<le> 30000 \<and>
     (case retryTimer p of None \<Rightarrow> True | Some d \<Rightarrow> 1000 \<le> d \<and> d \<le> 30000)"

lemma backoff_next: "1000 \<le> sseBackoffNext d \<and> sseBackoffNext d \<le> 30000"
  by (auto simp: sseBackoffNext_def Let_def)

lemma close_sock_length [simp]: "length (close_sock old ss) = length ss"
  by (simp add: close_sock_def split: option.split)

lemma connect_inv:
  assumes "\<forall>j < length (sockets p). uiWS p \<noteq> Some j \<longrightarrow> sockets p ! j \<in> {Closing, Done}"
    and "1000 \<le> backoff p" and "backoff p \<le> 30000"
  shows "sock_inv (connectUIWebSocket p)"
proof -
  have "close_sock (uiWS p) (sockets p) ! j \<in> {Closing, Done}" if "j < length (sockets p)" for j
    using assms(1) that by (auto simp: close_sock_def nth_list_update split: option.split)
  then show ?thesis using assms(2,3) by (auto simp: sock_inv_def connectUIWebSocket_def Let_def nth_append)
qed

lemma watch_net [simp]:
  "ws_open (foldl (\<lambda>m sid. sendTerminalWatch sid True m) n sids) = ws_open n"
  "pendingWatch (foldl (\<lambda>m sid. sendTerminalWatch sid True m) n sids) = pendingWatch n"
  by (induction sids arbitrary: n) simp_all

lemma resubscribe_net [simp]: "ws_open (resubscribe_win w n) = ws_open n" "pendingWatch (resubscribe_win w n) = pendingWatch n"
  by (simp_all add: resubscribe_win_def)

lemma resubscribe_all_net [simp]: "ws_open (resubscribeAllTerminalWatches ws n) = ws_open n"
  "pendingWatch (resubscribeAllTerminalWatches ws n) = pendingWatch n"
  unfolding resubscribeAllTerminalWatches_def by (induction ws arbitrary: n) simp_all

lemma flush_net [simp]: "ws_open (flushPendingTerminalWatches n) = ws_open n" "pendingWatch (flushPendingTerminalWatches n) = []"
  by (simp_all add: flushPendingTerminalWatches_def)

text \<open>No channel event opens or closes the socket.\<close>

lemma close_ws [simp]: "ws_open (snd (closeChannelTab sid w n)) = ws_open n"
  by (simp add: closeChannelTab_def Let_def)

lemma prune_ws [simp]: "ws_open (snd (prune_tabs listed keys w n)) = ws_open n"
proof (induction keys arbitrary: w n)
  case (Cons k keys)
  obtain v m where c: "closeChannelTab k w n = (v, m)" by (cases "closeChannelTab k w n")
  have "ws_open m = ws_open n" using close_ws [of k w n] c by simp
  moreover have "prune_tabs listed (k # keys) w n = prune_tabs listed keys w n \<or>
      prune_tabs listed (k # keys) w n = prune_tabs listed keys v m" by (auto simp: prune_tabs_def c)
  ultimately show ?case using Cons.IH [of w n] Cons.IH [of v m] by auto
qed (simp add: prune_tabs_def)

lemma ch_step_ws: "ev \<noteq> ChUp \<Longrightarrow> ev \<noteq> ChDown \<Longrightarrow> ws_open (snd (ch_step (w, n) ev)) = ws_open n"
proof (cases ev)
  case (ChOpenTabs r la shells)
  then show ?thesis by (simp add: openTabs_def lockWindowReadonly_def Let_def)
qed (simp_all add: historyDone_def queueTerminalWatch_def onData_def wsUiSend_def lockWindowReadonly_def syncWindowTabs_def Let_def
    split: option.split)

lemma sock_step_inv: "sock_inv p \<Longrightarrow> sock_enabled p e \<Longrightarrow> sock_inv (sock_step p e)"
proof -
  assume p: "sock_inv p" and e: "sock_enabled p e"
  have others: "\<forall>j < length (sockets p). uiWS p \<noteq> Some j \<longrightarrow> sockets p ! j \<in> {Closing, Done}"
    and b: "1000 \<le> backoff p" "backoff p \<le> 30000" using p by (auto simp: sock_inv_def)
  show ?thesis
  proof (cases e)
    case SStart
    then show ?thesis using others connect_inv [of "p\<lparr>backoff := 1000\<rparr>"] by (simp add: startUIWebSocket_def)
  next
    case (SOpen i)
    then have "uiWS p = Some i" using others e by auto
    then show ?thesis using p SOpen e by (auto simp: sock_inv_def ws_onopen_def Let_def nth_list_update)
  next
    case (SClose i)
    show ?thesis
    proof (cases "uiWS p = Some i")
      case True
      then have "retryTimer p = None" using p by (simp add: sock_inv_def)
      then show ?thesis
        using True SClose e others b backoff_next by (auto simp: sock_inv_def ws_onclose_def Let_def nth_list_update)
    next
      case False
      then show ?thesis using p SClose e by (auto simp: sock_inv_def ws_onclose_def Let_def nth_list_update split: option.splits)
    qed
  next
    case SRetry
    then show ?thesis using others b connect_inv [of "p\<lparr>retryTimer := None\<rparr>"] by (simp add: retry_fires_def)
  next
    case (SWin k ev)
    obtain w n where c: "ch_step (pg_wins p ! k, pg_net p) ev = (w, n)" by (cases "ch_step (pg_wins p ! k, pg_net p) ev")
    then have "ws_open n = ws_open (pg_net p)" using ch_step_ws [of ev "pg_wins p ! k" "pg_net p"] SWin e by simp
    then show ?thesis using p SWin c by (auto simp: win_event_def sock_inv_def split: option.splits)
  qed
qed

interpretation sk: guarded_machine "page_start ws" sock_step sock_inv sock_enabled for ws
proof unfold_locales
  show "sock_inv (page_start ws)" unfolding page_start_def startUIWebSocket_def by (rule connect_inv) simp_all
qed (rule sock_step_inv)

text \<open>C5: The page never holds two live sockets and is never stuck without one: in every reachable
  state either a socket is connecting or open and no retry is scheduled, or none is held and a retry
  is scheduled with a delay between one and thirty seconds; every replaced socket is closing or closed.\<close>

theorem single_socket_or_retry:
  assumes "sk.reach ws p"
  shows "(uiWS p = None \<longleftrightarrow> retryTimer p \<noteq> None) \<and>
    (\<forall>d. retryTimer p = Some d \<longrightarrow> 1000 \<le> d \<and> d \<le> 30000) \<and>
    length (filter (\<lambda>s. s = Connecting \<or> s = Opened) (sockets p)) = (if uiWS p = None then 0 else 1)"
proof -
  have p: "sock_inv p" by (rule sk.reach_inv [OF assms])
  have "length (filter (\<lambda>s. s = Connecting \<or> s = Opened) (sockets p)) = (if uiWS p = None then 0 else 1)"
  proof (cases "uiWS p")
    case None
    then have "\<forall>j < length (sockets p). sockets p ! j \<in> {Closing, Done}" using p by (simp add: sock_inv_def)
    then have "\<forall>s \<in> set (sockets p). \<not> (s = Connecting \<or> s = Opened)" by (fastforce simp: in_set_conv_nth)
    then show ?thesis using None by (simp add: filter_empty_conv)
  next
    case (Some i)
    then have i: "i < length (sockets p)" "sockets p ! i \<in> {Connecting, Opened}" using p by (auto simp: sock_inv_def)
    have o: "{j. j < length (sockets p) \<and> (sockets p ! j = Connecting \<or> sockets p ! j = Opened)} = {i}"
      using p Some i by (auto simp: sock_inv_def)
    have "length (filter (\<lambda>s. s = Connecting \<or> s = Opened) (sockets p)) = card {i}"
      unfolding length_filter_conv_card o by simp
    then show ?thesis using Some by simp
  qed
  then show ?thesis using p by (auto simp: sock_inv_def split: option.splits)
qed

lemma dropped_reach: "sk.reach [] (ws_onclose 0 (page_start []))"
  using sk.reach.next_step [OF sk.reach.init, of "[]" "SClose 0"]
  by (simp add: page_start_def startUIWebSocket_def connectUIWebSocket_def close_sock_def)

theorem single_socket_or_retry_witness:
  "uiWS (ws_onclose 0 (page_start [])) = None \<and> retryTimer (ws_onclose 0 (page_start [])) \<noteq> None"
proof -
  have "uiWS (ws_onclose 0 (page_start [])) = None"
    by (simp add: page_start_def startUIWebSocket_def connectUIWebSocket_def close_sock_def ws_onclose_def Let_def)
  then show ?thesis using single_socket_or_retry [OF dropped_reach] by simp
qed

section \<open>Renewing the watches\<close>

definition live_sids :: "cwin \<Rightarrow> string set" where
  "live_sids w =
     (if c_hasChannels w then fst ` {(k, ch) \<in> set (channels w). \<not> streamDone ch}
      else if c_sid w \<noteq> [] \<and> \<not> c_streamDone w then {c_sid w} else {})"

lemma watched_add_all:
  "ws_open n \<Longrightarrow> [] \<notin> set sids \<Longrightarrow> watched (sent (foldl (\<lambda>m sid. sendTerminalWatch sid True m) n sids)) = watched (sent n) \<union> set sids"
  by (induction sids arbitrary: n) (auto simp: watched_send)

lemma resubscribe_watched:
  assumes "ws_open n" and "[] \<notin> set (obj_keys (channels w))"
  shows "watched (sent (resubscribe_win w n)) = watched (sent n) \<union> live_sids w"
proof -
  let ?l = "map fst (filter (\<lambda>(k, ch). \<not> streamDone ch) (channels w))"
  have l: "set ?l = fst ` {(k, ch) \<in> set (channels w). \<not> streamDone ch}" by auto
  have "[] \<notin> set ?l" using assms(2) by (auto simp: obj_keys_def)
  then show ?thesis
    using assms(1) watched_add_all [of n ?l] unfolding resubscribe_win_def live_sids_def l by (auto simp: watched_send)
qed

lemma resubscribe_all_watched:
  "ws_open n \<Longrightarrow> \<forall>w \<in> set ws. [] \<notin> set (obj_keys (channels w)) \<Longrightarrow>
     watched (sent (resubscribeAllTerminalWatches ws n)) = watched (sent n) \<union> (\<Union>w \<in> set ws. live_sids w)"
  unfolding resubscribeAllTerminalWatches_def
  by (induction ws arbitrary: n) (auto simp: resubscribe_watched)



end
