(* ===== verification/Files.thy ===== *)
theory Files
  imports Approval
begin

text \<open>
  The file browser of a shell window (\<open>terminal-view.js\<close>, inside \<open>_initShellWindowUI\<close>): the path
  input, the listing, the context menu, the detail view of a file, renaming, deleting, downloading
  and uploading. The browser is a machine of the user's events and the server's answers; what it
  sends, asks and receives is kept as a trace, newest first. Dialogs block the page, so their answer
  is part of the event that opened them. A click that reaches the document also closes the menu
  (\<open>FOutside\<close>).

  The glyphs outside the model's alphabet (the two icons) are parameters of the markup, and so is
  \<open>toLocaleString\<close>, whose result is up to the browser.
\<close>

section \<open>Paths and requests\<close>

definition SL :: char where "SL = CHR ''/''"

text \<open>\<open>s.replace(/\/+$/, '')\<close>.\<close>

definition strip_slashes :: "string \<Rightarrow> string" where
  "strip_slashes s = rev (dropWhile (\<lambda>c. c = SL) (rev s))"

definition path_up :: "string \<Rightarrow> string" where
  "path_up p = js_join [SL] (butlast (js_split SL p))"

definition child_path :: "string \<Rightarrow> string \<Rightarrow> string" where
  "child_path dir name = strip_slashes dir @ [SL] @ name"

definition rename_target :: "string \<Rightarrow> string \<Rightarrow> string" where
  "rename_target path newName = path_up (strip_slashes path) @ [SL] @ newName"

definition upload_target :: "string \<Rightarrow> string \<Rightarrow> string" where
  "upload_target input name = strip_slashes (js_trim input) @ [SL] @ name"

definition files_api :: "string \<Rightarrow> string \<Rightarrow> string" where
  "files_api sid rest = ''/api/sessions/'' @ encodeURIComponent sid @ ''/files'' @ rest"

definition files_url :: "string \<Rightarrow> string \<Rightarrow> string" where
  "files_url sid path = files_api sid (''?path='' @ encodeURIComponent path)"

definition download_url :: "string \<Rightarrow> string \<Rightarrow> string" where
  "download_url sid path = files_api sid (''/download?path='' @ encodeURIComponent path)"

definition upload_url :: "string \<Rightarrow> string \<Rightarrow> string" where
  "upload_url sid path = files_api sid (''/upload?path='' @ encodeURIComponent path)"

definition rename_url :: "string \<Rightarrow> string \<Rightarrow> string \<Rightarrow> string" where
  "rename_url sid path to = files_api sid (''?from='' @ encodeURIComponent path @ ''&to='' @ encodeURIComponent to)"

section \<open>State\<close>

text \<open>What the server answers; a missing number is 0 and a missing name empty, as \<open>||\<close> treats them.\<close>

record file_entry =
  fe_name :: string
  fe_is_dir :: bool
  fe_size :: nat

record file_data =
  fd_is_dir :: bool
  fd_name :: string
  fd_size :: nat
  fd_mod_time :: nat
  fd_children :: "file_entry list"

text \<open>A row carries its path and kind as attributes; the handlers read them from there.\<close>

record file_row =
  fr_path :: string
  fr_isdir :: bool
  fr_entry :: file_entry

datatype listing = Blank | Loading | LoadError string | NoFiles | FileRows "file_row list" | FileDetail string file_data

text \<open>What leaves and enters the browser. \<open>Prompted pre r\<close> is a prompt filled with \<open>pre\<close>; \<open>None\<close> is cancel.\<close>

datatype file_io =
  Fetch string string
| OpenTab string
| Confirmed string bool
| Prompted string "string option"
| Alerted string
| Got string file_data

text \<open>A request that is on its way: a listing of a path, or a change with the kind of its failure.\<close>

datatype change = Deleting | Renaming | Uploading
datatype waiting = Listing string | Changing change

record fbrowser =
  fb_sid :: string
  fb_input :: string
  fb_listing :: listing
  fb_menu :: bool
  fb_ctx :: string
  fb_noDownload :: bool
  fb_at :: "int \<times> int"
  fb_press :: "(string \<times> bool \<times> int \<times> int) option"
  fb_wait :: "waiting list"
  fb_io :: "file_io list"

definition fb_start :: "string \<Rightarrow> fbrowser" where
  "fb_start sid = \<lparr>fb_sid = sid, fb_input = [], fb_listing = Blank, fb_menu = False, fb_ctx = [], fb_noDownload = False,
     fb_at = (0, 0), fb_press = None, fb_wait = [], fb_io = []\<rparr>"

definition emit :: "file_io \<Rightarrow> fbrowser \<Rightarrow> fbrowser" where
  "emit x b = b\<lparr>fb_io := x # fb_io b\<rparr>"

definition send :: "string \<Rightarrow> string \<Rightarrow> waiting \<Rightarrow> fbrowser \<Rightarrow> fbrowser" where
  "send meth url w b = emit (Fetch meth url) (b\<lparr>fb_wait := fb_wait b @ [w]\<rparr>)"

section \<open>Operations\<close>

definition shellFileBrowse :: "fbrowser \<Rightarrow> fbrowser" where
  "shellFileBrowse b =
     (let path = or_str (js_trim (fb_input b)) [SL]
      in send ''GET'' (files_url (fb_sid b) path) (Listing path) (b\<lparr>fb_listing := Loading, fb_menu := False\<rparr>))"

datatype file_action = ADownload | ADelete | ARename

definition do_download :: "string \<Rightarrow> fbrowser \<Rightarrow> fbrowser" where
  "do_download path b = emit (OpenTab (download_url (fb_sid b) path)) b"

definition do_delete :: "string \<Rightarrow> bool \<Rightarrow> fbrowser \<Rightarrow> fbrowser" where
  "do_delete path yes b =
     (let b1 = emit (Confirmed path yes) b
      in if \<not> yes then b1 else send ''DELETE'' (files_url (fb_sid b) path) (Changing Deleting) b1)"

definition do_rename :: "string \<Rightarrow> string \<Rightarrow> string option \<Rightarrow> fbrowser \<Rightarrow> fbrowser" where
  "do_rename path pre ans b =
     (let b1 = emit (Prompted pre ans) b
      in case ans of
           None \<Rightarrow> b1
         | Some nm \<Rightarrow>
             if nm = [] \<or> nm = pre then b1
             else send ''PUT'' (rename_url (fb_sid b) path (rename_target path nm)) (Changing Renaming) b1)"

definition fileMenuAction :: "file_action \<Rightarrow> bool \<Rightarrow> string option \<Rightarrow> fbrowser \<Rightarrow> fbrowser" where
  "fileMenuAction a yes ans b0 =
     (let b = b0\<lparr>fb_menu := False\<rparr>; path = fb_ctx b; name = last (js_split SL (strip_slashes path))
      in if path = [] then b
         else (case a of
                 ADownload \<Rightarrow> do_download path b
               | ADelete \<Rightarrow> do_delete path yes b
               | ARename \<Rightarrow> do_rename path name ans b))"

text \<open>The menu near the pointer: \<open>x\<close>, \<open>y\<close> are the client coordinates, 0 counts as missing.\<close>

definition menu_coord :: "int \<Rightarrow> int \<Rightarrow> int \<Rightarrow> int \<Rightarrow> int" where
  "menu_coord client pg len inner =
     (let x = (if client \<noteq> 0 then client else if pg \<noteq> 0 then pg else 100);
          x' = (if x + len > inner then inner - len - 4 else x)
      in max 0 x')"

text \<open>The pointer and the sizes when the menu opens: client and page position, menu, viewport.\<close>

record pointer =
  pt_client :: "int \<times> int"
  pt_page :: "int \<times> int"
  pt_menu :: "int \<times> int"
  pt_inner :: "int \<times> int"

definition showFileMenu :: "pointer \<Rightarrow> string \<Rightarrow> bool \<Rightarrow> fbrowser \<Rightarrow> fbrowser" where
  "showFileMenu p path isDir b =
     b\<lparr>fb_ctx := path, fb_noDownload := isDir, fb_menu := True,
       fb_at := (menu_coord (fst (pt_client p)) (fst (pt_page p)) (if fst (pt_menu p) \<noteq> 0 then fst (pt_menu p) else 150) (fst (pt_inner p)),
                 menu_coord (snd (pt_client p)) (snd (pt_page p)) (if snd (pt_menu p) \<noteq> 0 then snd (pt_menu p) else 120) (snd (pt_inner p)))\<rparr>"

text \<open>The buttons of the detail view; their attributes hold the path and the name that is shown.\<close>

definition detail_name :: "string \<Rightarrow> file_data \<Rightarrow> string" where
  "detail_name path d = or_str (fd_name d) path"

definition detail_click :: "file_action \<Rightarrow> bool \<Rightarrow> string option \<Rightarrow> string \<Rightarrow> file_data \<Rightarrow> fbrowser \<Rightarrow> fbrowser" where
  "detail_click a yes ans path d b =
     (if path = [] then b
      else (case a of
              ADownload \<Rightarrow> do_download path b
            | ADelete \<Rightarrow> do_delete path yes b
            | ARename \<Rightarrow> do_rename path (or_str (detail_name path d) (last (js_split SL path))) ans b))"

definition file_rows :: "string \<Rightarrow> file_entry list \<Rightarrow> file_row list" where
  "file_rows path cs = map (\<lambda>c. \<lparr>fr_path = child_path path (fe_name c), fr_isdir = fe_is_dir c, fr_entry = c\<rparr>) cs"

definition renderShellFileList :: "file_data \<Rightarrow> string \<Rightarrow> fbrowser \<Rightarrow> fbrowser" where
  "renderShellFileList d path b =
     b\<lparr>fb_input := path,
       fb_listing := (if \<not> fd_is_dir d then FileDetail path d
                      else if fd_children d = [] then NoFiles
                      else FileRows (file_rows path (fd_children d)))\<rparr>"

definition up_click :: "fbrowser \<Rightarrow> fbrowser" where
  "up_click b =
     (let p = or_str (strip_slashes (js_trim (fb_input b))) [SL]
      in if p = [SL] then b else shellFileBrowse (b\<lparr>fb_input := or_str (path_up p) [SL]\<rparr>))"

definition upload_change :: "string \<Rightarrow> fbrowser \<Rightarrow> fbrowser" where
  "upload_change name b =
     send ''POST'' (upload_url (fb_sid b) (upload_target (fb_input b) name)) (Changing Uploading) b"

text \<open>The answer to a waiting request: \<open>Inl\<close> an error message, \<open>Inr\<close> the body.\<close>

definition file_answer :: "translate \<Rightarrow> waiting \<Rightarrow> string + file_data \<Rightarrow> fbrowser \<Rightarrow> fbrowser" where
  "file_answer t w r b =
     (case w of
        Listing path \<Rightarrow>
          (case r of Inl msg \<Rightarrow> b\<lparr>fb_listing := LoadError msg\<rparr>
                   | Inr d \<Rightarrow> renderShellFileList d path (emit (Got path d) b))
      | Changing k \<Rightarrow>
          (case r of Inr d \<Rightarrow> shellFileBrowse b
                   | Inl msg \<Rightarrow>
                       (case k of Deleting \<Rightarrow> emit (Alerted (t ''toast.delete.failed'' (Some [(''msg'', msg)]))) b
                                | Renaming \<Rightarrow> emit (Alerted (t ''toast.rename.failed'' (Some [(''msg'', msg)]))) b
                                | Uploading \<Rightarrow> b)))"

section \<open>Markup\<close>

definition info_html :: "string \<Rightarrow> string" where
  \<open>info_html s = ''<div style="padding:8px;color:#8b949e">'' @ escapeHtml s @ ''</div>''\<close>

definition file_row_frags :: "translate \<Rightarrow> (bool \<Rightarrow> string) \<Rightarrow> file_row \<Rightarrow> string frag list" where
  \<open>file_row_frags t icon r =
     [Lit ''<div class="shell-file-row" data-path="'', Hole (fr_path r), Lit ''" data-isdir="'', Lit (if fr_isdir r then ''1'' else ''0''),
      Lit ''" data-name="'', Hole (fe_name (fr_entry r)),
      Lit ''" style="display:flex;align-items:center;gap:6px;padding:4px 8px;cursor:pointer;border-bottom:1px solid #30363d;white-space:nowrap">'',
      Lit ''<span style="flex-shrink:0">'', Lit (icon (fr_isdir r)), Lit ''</span><span style="flex:1;min-width:0;overflow:hidden;text-overflow:ellipsis">'',
      Hole (fe_name (fr_entry r)), Lit ''</span>''] @
     (if fr_isdir r then []
      else [Lit ''<span style="flex-shrink:0;color:#8b949e;font-size:0.7rem;margin-right:2px">'', Lit (formatSize (int (fe_size (fr_entry r)))), Lit ''</span>'']) @
     [Lit ''<button class="shell-file-menu-btn" title="'', Hole (t ''file.menu'' None), Lit ''" style="flex-shrink:0">&vellip;</button>'', Lit ''</div>'']\<close>

definition fmtTime :: "(nat \<Rightarrow> string) \<Rightarrow> nat \<Rightarrow> string" where
  "fmtTime toLocaleString ms = (if ms = 0 then [] else toLocaleString ms)"

definition detail_frags :: "translate \<Rightarrow> (bool \<Rightarrow> string) \<Rightarrow> (nat \<Rightarrow> string) \<Rightarrow> string \<Rightarrow> file_data \<Rightarrow> string frag list" where
  \<open>detail_frags t icon locale_time path d =
     [Lit ''<div class="shell-file-detail" data-file-path="'', Hole path, Lit ''">'',
      Lit ''<div style="font-size:0.85rem;font-weight:600;margin-bottom:4px;display:flex;align-items:center;gap:6px"><span>'', Lit (icon False),
      Lit ''</span><span style="word-break:break-all">'', Hole (detail_name path d), Lit ''</span></div>'',
      Lit ''<div style="font-size:0.75rem;color:#8b949e;margin-bottom:2px">'', Hole (t ''file.size'' (Some [(''size'', formatSize (int (fd_size d)))])), Lit ''</div>''] @
     (if fd_mod_time d = 0 then []
      else [Lit ''<div style="font-size:0.75rem;color:#8b949e;margin-bottom:2px">'',
            Hole (t ''file.modified'' (Some [(''time'', fmtTime locale_time (fd_mod_time d))])), Lit ''</div>'']) @
     [Lit ''<div class="shell-file-detail-actions">'',
      Lit ''<button class="sf-dl" data-file-action="download" data-file-path="'', Hole path, Lit ''">'', Hole (t ''common.download'' None), Lit ''</button>'',
      Lit ''<button data-file-action="rename" data-file-path="'', Hole path, Lit ''" data-file-name="'', Hole (detail_name path d), Lit ''">'', Hole (t ''common.rename'' None), Lit ''</button>'',
      Lit ''<button class="sf-del" data-file-action="delete" data-file-path="'', Hole path, Lit ''">'', Hole (t ''common.delete'' None), Lit ''</button>'',
      Lit ''</div></div>'']\<close>

definition listing_html :: "translate \<Rightarrow> (bool \<Rightarrow> string) \<Rightarrow> (nat \<Rightarrow> string) \<Rightarrow> listing \<Rightarrow> string" where
  \<open>listing_html t icon locale_time l =
     (case l of
        Blank \<Rightarrow> []
      | Loading \<Rightarrow> info_html (t ''common.loading'' None)
      | LoadError msg \<Rightarrow> ''<div style="padding:8px;color:#f85149">'' @ escapeHtml (t ''file.loadFailed'' (Some [(''msg'', msg)])) @ ''</div>''
      | NoFiles \<Rightarrow> info_html (t ''file.empty'' None)
      | FileRows rs \<Rightarrow> concat (map (\<lambda>r. html.render (file_row_frags t icon r)) rs)
      | FileDetail path d \<Rightarrow> html.render (detail_frags t icon locale_time path d))\<close>

section \<open>Events\<close>

datatype file_event =
  FType string
| FGo
| FUp
| FRow nat
| FMenu nat pointer
| FTouch nat "int \<times> int"
| FTouchStop
| FLongPress pointer
| FItem file_action bool "string option"
| FDetail file_action bool "string option"
| FOutside
| FUpload string
| FLang
| FAnswer nat "string + file_data"

fun shown_rows :: "listing \<Rightarrow> file_row list" where
  "shown_rows (FileRows rs) = rs"
| "shown_rows l = []"

definition file_enabled :: "fbrowser \<Rightarrow> file_event \<Rightarrow> bool" where
  "file_enabled b e =
     (case e of
        FRow i \<Rightarrow> i < length (shown_rows (fb_listing b))
      | FMenu i p \<Rightarrow> i < length (shown_rows (fb_listing b))
      | FTouch i p \<Rightarrow> i < length (shown_rows (fb_listing b))
      | FLongPress p \<Rightarrow> fb_press b \<noteq> None
      | FItem a yes ans \<Rightarrow> fb_menu b \<and> \<not> (a = ADownload \<and> fb_noDownload b)
      | FDetail a yes ans \<Rightarrow> (case fb_listing b of FileDetail path d \<Rightarrow> True | _ \<Rightarrow> False)
      | FAnswer i r \<Rightarrow> i < length (fb_wait b)
      | _ \<Rightarrow> True)"

definition file_step :: "translate \<Rightarrow> fbrowser \<Rightarrow> file_event \<Rightarrow> fbrowser" where
  "file_step t b e =
     (case e of
        FType s \<Rightarrow> b\<lparr>fb_input := s\<rparr>
      | FGo \<Rightarrow> shellFileBrowse b
      | FUp \<Rightarrow> up_click b
      | FRow i \<Rightarrow> shellFileBrowse (b\<lparr>fb_input := fr_path (shown_rows (fb_listing b) ! i)\<rparr>)
      | FMenu i p \<Rightarrow> (let r = shown_rows (fb_listing b) ! i in showFileMenu p (fr_path r) (fr_isdir r) b)
      | FTouch i at \<Rightarrow> (let r = shown_rows (fb_listing b) ! i in b\<lparr>fb_press := Some (fr_path r, fr_isdir r, at)\<rparr>)
      | FTouchStop \<Rightarrow> b\<lparr>fb_press := None\<rparr>
      | FLongPress p \<Rightarrow>
          (case fb_press b of None \<Rightarrow> b
           | Some (path, isDir, at) \<Rightarrow> showFileMenu (p\<lparr>pt_client := at\<rparr>) path isDir (b\<lparr>fb_press := None\<rparr>))
      | FItem a yes ans \<Rightarrow> fileMenuAction a yes ans b
      | FDetail a yes ans \<Rightarrow> (case fb_listing b of FileDetail path d \<Rightarrow> detail_click a yes ans path d b | _ \<Rightarrow> b)
      | FOutside \<Rightarrow> b\<lparr>fb_menu := False\<rparr>
      | FUpload name \<Rightarrow> upload_change name b
      | FLang \<Rightarrow> shellFileBrowse b
      | FAnswer i r \<Rightarrow> file_answer t (fb_wait b ! i) r (b\<lparr>fb_wait := drop_at i (fb_wait b)\<rparr>))"

section \<open>Paths: lemmas\<close>

lemma strip_slashes_Nil [simp]: "strip_slashes [] = []"
  by (simp add: strip_slashes_def)

lemma strip_slashes_name [simp]: "name \<noteq> [] \<Longrightarrow> SL \<notin> set name \<Longrightarrow> strip_slashes (x @ name) = x @ name"
  by (cases name rule: rev_cases) (auto simp: strip_slashes_def)

lemma strip_slashes_last: "strip_slashes p \<noteq> [] \<Longrightarrow> last (strip_slashes p) \<noteq> SL"
  using hd_dropWhile [of "\<lambda>c. c = SL" "rev p"] by (auto simp: strip_slashes_def last_rev)

lemma strip_slashes_idem [simp]: "strip_slashes (strip_slashes p) = strip_slashes p"
  by (simp add: strip_slashes_def)

lemma strip_slashes_prefix: "\<exists>n. p = strip_slashes p @ replicate n SL"
proof -
  have "rev p = takeWhile (\<lambda>c. c = SL) (rev p) @ dropWhile (\<lambda>c. c = SL) (rev p)" by simp
  moreover have "takeWhile (\<lambda>c. c = SL) (rev p) = replicate (length (takeWhile (\<lambda>c. c = SL) (rev p))) SL"
    by (metis (mono_tags, lifting) replicate_length_same set_takeWhileD)
  ultimately have "p = strip_slashes p @ rev (replicate (length (takeWhile (\<lambda>c. c = SL) (rev p))) SL)"
    by (metis rev_append rev_rev_ident strip_slashes_def)
  then show ?thesis by (metis rev_replicate)
qed

lemma path_up_child: "SL \<notin> set name \<Longrightarrow> path_up (d @ SL # name) = d"
  by (simp add: path_up_def js_split_append2 js_join_split)

lemma path_up_plain: "SL \<notin> set p \<Longrightarrow> path_up p = []"
  by (simp add: path_up_def)

lemma last_segment: "SL \<notin> set name \<Longrightarrow> last (js_split SL (d @ SL # name)) = name"
  by (simp add: js_split_append2)

definition file_name :: "string \<Rightarrow> bool" where
  "file_name s \<longleftrightarrow> s \<noteq> [] \<and> SL \<notin> set s"

lemma strip_child: "file_name n \<Longrightarrow> strip_slashes (child_path p n) = child_path p n"
  using strip_slashes_name [of n "strip_slashes p @ [SL]"] by (simp add: child_path_def file_name_def)

lemma rename_child: "file_name n \<Longrightarrow> rename_target (child_path p n) nm = child_path p nm"
  by (simp add: rename_target_def strip_child) (simp add: child_path_def path_up_child file_name_def)

lemma trim_child:
  assumes "js_trim (strip_slashes p) = strip_slashes p" and "file_name n" and "\<not> js_ws (last n)"
  shows "js_trim (child_path p n) = child_path p n"
proof (rule js_trim_id, rule disjI2, rule conjI)
  have sl: "\<not> js_ws SL" by (simp add: SL_def js_ws_def)
  show "\<not> js_ws (hd (child_path p n))"
    using js_trim_ends [of "strip_slashes p"] assms(1) sl by (cases "strip_slashes p = []") (simp_all add: child_path_def)
  show "\<not> js_ws (last (child_path p n))" using assms(2,3) by (simp add: child_path_def file_name_def)
qed

section \<open>The server reads the same names\<close>

text \<open>The server's reading of a query: the pairs after the question mark, plus signs as blanks.\<close>

definition url_decode :: "string \<Rightarrow> string" where
  "url_decode s = utf8_decode (percent_decode (replace_char (CHR ''+'') '' '' s))"

definition query_pairs :: "string \<Rightarrow> (string \<times> string) list" where
  "query_pairs url =
     (case js_split (CHR ''?'') url of
        [path, q] \<Rightarrow> map (\<lambda>p. case js_split (CHR ''='') p of [k, v] \<Rightarrow> (k, url_decode v) | _ \<Rightarrow> (p, [])) (js_split (CHR ''&'') q)
      | _ \<Rightarrow> [])"

definition path_segments :: "string \<Rightarrow> string list" where
  "path_segments url = map (\<lambda>s. utf8_decode (percent_decode s)) (js_split SL (hd (js_split (CHR ''?'') url)))"

lemma encoded_plain:
  "CHR ''?'' \<notin> set (encodeURIComponent s)" "CHR ''&'' \<notin> set (encodeURIComponent s)" "CHR ''='' \<notin> set (encodeURIComponent s)"
  "CHR ''+'' \<notin> set (encodeURIComponent s)" "SL \<notin> set (encodeURIComponent s)"
  by (auto simp: SL_def uri_unreserved_def is_digit_def is_lower_def is_upper_def dest!: encodeURIComponent_chars)

lemma url_decode_encode [simp]: "url_decode (encodeURIComponent s) = s"
  by (simp add: url_decode_def encoded_plain percent_decode_encode utf8_decode_text)

lemma decode_ascii: "\<forall>c \<in> set s. c \<noteq> CHR ''%'' \<and> (of_char c :: nat) < 128 \<Longrightarrow> utf8_decode (percent_decode s) = s"
  by (induction s) (simp_all add: percent_decode_plain)

lemma split_head: "c \<notin> set a \<Longrightarrow> c \<notin> set b \<Longrightarrow> js_split c (a @ c # b) = [a, b]"
  by (simp add: js_split_append)

lemma query_one:
  assumes "CHR ''?'' \<notin> set a" and "set k \<inter> {CHR ''?'', CHR ''&'', CHR ''=''} = {}"
  shows "query_pairs (a @ CHR ''?'' # k @ CHR ''='' # encodeURIComponent v) = [(k, v)]"
  using assms by (simp add: query_pairs_def split_head encoded_plain)

lemma query_two:
  assumes "CHR ''?'' \<notin> set a" and "set k \<inter> {CHR ''?'', CHR ''&'', CHR ''=''} = {}" and "set j \<inter> {CHR ''?'', CHR ''&'', CHR ''=''} = {}"
  shows "query_pairs (a @ CHR ''?'' # k @ CHR ''='' # encodeURIComponent v @ CHR ''&'' # j @ CHR ''='' # encodeURIComponent u) = [(k, v), (j, u)]"
proof -
  let ?l = "k @ CHR ''='' # encodeURIComponent v" and ?r = "j @ CHR ''='' # encodeURIComponent u"
  have "js_split (CHR ''?'') (a @ CHR ''?'' # ?l @ CHR ''&'' # ?r) = [a, ?l @ CHR ''&'' # ?r]"
    using assms by (intro split_head) (simp_all add: encoded_plain)
  moreover have "js_split (CHR ''&'') (?l @ CHR ''&'' # ?r) = [?l, ?r]"
    using assms by (intro split_head) (simp_all add: encoded_plain)
  moreover have "js_split (CHR ''='') ?l = [k, encodeURIComponent v]" "js_split (CHR ''='') ?r = [j, encodeURIComponent u]"
    using assms by (auto intro!: split_head simp: encoded_plain)
  ultimately show ?thesis unfolding query_pairs_def by (simp only: append_assoc append_Cons) simp
qed

lemma segments_before_query:
  assumes "CHR ''?'' \<notin> set a"
  shows "path_segments (a @ CHR ''?'' # q) = map (\<lambda>s. utf8_decode (percent_decode s)) (js_split SL a)"
proof -
  have "js_split (CHR ''?'') (a @ CHR ''?'' # q) = a # js_split (CHR ''?'') q" using assms by (rule js_split_append)
  then show ?thesis by (simp add: path_segments_def)
qed

lemma api_segments:
  assumes "\<forall>c \<in> set rest. c \<noteq> CHR ''%'' \<and> (of_char c :: nat) < 128 \<and> c \<noteq> SL"
  shows "map (\<lambda>s. utf8_decode (percent_decode s)) (js_split SL (''/api/sessions/'' @ encodeURIComponent sid @ ''/'' @ rest)) =
    [[], ''api'', ''sessions'', sid, rest]"
proof -
  have f: "''/api/sessions/'' @ encodeURIComponent sid @ ''/'' @ rest = [] @ SL # ''api'' @ SL # ''sessions'' @ SL # encodeURIComponent sid @ SL # rest"
    by (simp add: SL_def)
  have n: "SL \<notin> set []" "SL \<notin> set ''api''" "SL \<notin> set ''sessions''" "SL \<notin> set rest" using assms by (auto simp: SL_def)
  have "js_split SL (''/api/sessions/'' @ encodeURIComponent sid @ ''/'' @ rest) = [[], ''api'', ''sessions'', encodeURIComponent sid, rest]"
    unfolding f by (simp only: js_split_append n encoded_plain(5) js_split_no_sep not_False_eq_True)
  moreover have "utf8_decode (percent_decode ''api'') = ''api''" "utf8_decode (percent_decode ''sessions'') = ''sessions''" by code_simp+
  moreover have "utf8_decode (percent_decode rest) = rest" using assms by (intro decode_ascii) blast
  moreover have "utf8_decode (percent_decode []) = []" by simp
  ultimately show ?thesis by (simp only: list.map percent_decode_encode utf8_decode_text)
qed

section \<open>What a request is allowed to name\<close>

text \<open>The paths the server has listed so far, with their kind.\<close>

definition listed :: "file_io list \<Rightarrow> (string \<times> bool) list" where
  "listed io = concat (map (\<lambda>x. case x of
       Got q d \<Rightarrow> if fd_is_dir d then map (\<lambda>c. (child_path q (fe_name c), fe_is_dir c)) (fd_children d) else [(q, False)]
     | _ \<Rightarrow> []) io)"

text \<open>
  A trace, newest first, is justified when every download is of a listed file, every deletion directly
  follows the confirmation of the same listed path, and every renaming directly follows a prompt
  that was answered with a new name and moves a listed path to that name in its own directory.
\<close>

definition justified_by :: "string \<Rightarrow> file_io list \<Rightarrow> file_io \<Rightarrow> bool" where
  "justified_by sid past x =
     (case x of
        OpenTab url \<Rightarrow> \<exists>(p, isDir) \<in> set (listed past). \<not> isDir \<and> url = download_url sid p
      | Fetch meth url \<Rightarrow>
          if meth = ''DELETE''
          then (case past of Confirmed p yes # _ \<Rightarrow> yes \<and> p \<in> fst ` set (listed past) \<and> url = files_url sid p | _ \<Rightarrow> False)
          else if meth = ''PUT''
          then (case past of
                  Prompted pre (Some nm) # _ \<Rightarrow>
                    nm \<noteq> [] \<and> nm \<noteq> pre \<and> (\<exists>p \<in> fst ` set (listed past). url = rename_url sid p (rename_target p nm))
                | _ \<Rightarrow> False)
          else True
      | _ \<Rightarrow> True)"

fun justified :: "string \<Rightarrow> file_io list \<Rightarrow> bool" where
  "justified sid [] = True"
| "justified sid (x # past) = (justified_by sid past x \<and> justified sid past)"

text \<open>Everything a click can name has been listed.\<close>

definition fb_inv :: "fbrowser \<Rightarrow> bool" where
  "fb_inv b \<longleftrightarrow> justified (fb_sid b) (fb_io b) \<and>
     (\<forall>r \<in> set (shown_rows (fb_listing b)). (fr_path r, fr_isdir r) \<in> set (listed (fb_io b))) \<and>
     (\<forall>p d. fb_listing b = FileDetail p d \<longrightarrow> (p, False) \<in> set (listed (fb_io b))) \<and>
     (fb_menu b \<longrightarrow> (fb_ctx b, fb_noDownload b) \<in> set (listed (fb_io b))) \<and>
     (\<forall>p d at. fb_press b = Some (p, d, at) \<longrightarrow> (p, d) \<in> set (listed (fb_io b)))"

lemma listed_Cons:
  "set (listed io) \<subseteq> set (listed (x # io))"
  "listed (Fetch m u # io) = listed io" "listed (OpenTab u # io) = listed io" "listed (Confirmed p y # io) = listed io"
  "listed (Prompted pre r # io) = listed io" "listed (Alerted s # io) = listed io"
  by (auto simp: listed_def)

lemma inv_emit: "fb_inv b \<Longrightarrow> justified_by (fb_sid b) (fb_io b) x \<Longrightarrow> fb_inv (emit x b)"
  unfolding fb_inv_def emit_def using listed_Cons(1) [of "fb_io b" x] by (simp; blast)

lemma inv_wait [simp]: "fb_inv (b\<lparr>fb_wait := w\<rparr>) = fb_inv b"
  by (simp add: fb_inv_def)

lemma inv_input [simp]: "fb_inv (b\<lparr>fb_input := s\<rparr>) = fb_inv b"
  by (simp add: fb_inv_def)

lemma emit_fields [simp]:
  "fb_sid (emit x b) = fb_sid b" "fb_io (emit x b) = x # fb_io b" "fb_listing (emit x b) = fb_listing b" "fb_input (emit x b) = fb_input b"
  "fb_wait (emit x b) = fb_wait b"
  by (simp_all add: emit_def)

lemma inv_send: "fb_inv b \<Longrightarrow> justified_by (fb_sid b) (fb_io b) (Fetch meth url) \<Longrightarrow> fb_inv (send meth url w b)"
  unfolding send_def by (intro inv_emit) simp_all

lemma inv_closed: "fb_inv b \<Longrightarrow> fb_inv (b\<lparr>fb_menu := False\<rparr>)"
  by (simp add: fb_inv_def)

lemma inv_message: "fb_inv b \<Longrightarrow> shown_rows l = [] \<Longrightarrow> \<forall>p d. l \<noteq> FileDetail p d \<Longrightarrow> fb_inv (b\<lparr>fb_listing := l\<rparr>)"
  by (simp add: fb_inv_def)

lemma inv_browse: "fb_inv b \<Longrightarrow> fb_inv (shellFileBrowse b)"
proof -
  assume "fb_inv b"
  then have "fb_inv ((b\<lparr>fb_listing := Loading\<rparr>)\<lparr>fb_menu := False\<rparr>)" by (intro inv_closed inv_message) simp_all
  then show ?thesis unfolding shellFileBrowse_def Let_def by (intro inv_send) (simp_all add: justified_by_def)
qed

lemma inv_download: "fb_inv b \<Longrightarrow> (p, False) \<in> set (listed (fb_io b)) \<Longrightarrow> fb_inv (do_download p b)"
  unfolding do_download_def by (intro inv_emit) (force simp: justified_by_def)+

lemma inv_delete: "fb_inv b \<Longrightarrow> (p, k) \<in> set (listed (fb_io b)) \<Longrightarrow> fb_inv (do_delete p yes b)"
  unfolding do_delete_def Let_def
  by (cases yes) (force intro!: inv_send inv_emit simp: justified_by_def listed_Cons)+

lemma inv_rename: "fb_inv b \<Longrightarrow> (p, k) \<in> set (listed (fb_io b)) \<Longrightarrow> fb_inv (do_rename p pre ans b)"
  unfolding do_rename_def Let_def
  by (cases ans) (force intro!: inv_send inv_emit simp: justified_by_def listed_Cons)+

lemmas inv_actions = inv_download inv_delete inv_rename

lemma inv_menu_action:
  assumes "fb_inv b" and "fb_menu b" and "\<not> (a = ADownload \<and> fb_noDownload b)"
  shows "fb_inv (fileMenuAction a yes ans b)"
proof -
  have "(fb_ctx b, fb_noDownload b) \<in> set (listed (fb_io (b\<lparr>fb_menu := False\<rparr>)))" using assms(1,2) by (simp add: fb_inv_def)
  then show ?thesis
    unfolding fileMenuAction_def Let_def using assms(3) inv_closed [OF assms(1)]
    by (cases a) (auto intro: inv_actions)
qed

lemma inv_detail:
  assumes "fb_inv b" and "fb_listing b = FileDetail p d"
  shows "fb_inv (detail_click a yes ans p d b)"
proof -
  have "(p, False) \<in> set (listed (fb_io b))" using assms by (simp add: fb_inv_def)
  then show ?thesis unfolding detail_click_def by (cases a) (auto intro: inv_actions assms(1))
qed

lemma inv_show_menu: "fb_inv b \<Longrightarrow> (p, k) \<in> set (listed (fb_io b)) \<Longrightarrow> fb_inv (showFileMenu pt p k b)"
  by (simp add: fb_inv_def showFileMenu_def)

lemma inv_render: "fb_inv b \<Longrightarrow> fb_inv (renderShellFileList d p (emit (Got p d) b))"
proof -
  assume "fb_inv b"
  then have e: "fb_inv (emit (Got p d) b)" by (intro inv_emit) (simp_all add: justified_by_def)
  have l: "set (listed (Got p d # io)) =
      (if fd_is_dir d then (\<lambda>c. (child_path p (fe_name c), fe_is_dir c)) ` set (fd_children d) else {(p, False)}) \<union> set (listed io)" for io
    by (auto simp: listed_def)
  show ?thesis using e unfolding fb_inv_def renderShellFileList_def by (auto simp: l file_rows_def)
qed

lemma inv_answer: "fb_inv b \<Longrightarrow> fb_inv (file_answer t w r b)"
  unfolding file_answer_def
  by (cases w; cases r) (auto intro!: inv_message inv_render inv_browse inv_emit split: change.split simp: justified_by_def)

lemma row_listed: "fb_inv b \<Longrightarrow> i < length (shown_rows (fb_listing b)) \<Longrightarrow>
    (fr_path (shown_rows (fb_listing b) ! i), fr_isdir (shown_rows (fb_listing b) ! i)) \<in> set (listed (fb_io b))"
  by (simp add: fb_inv_def)

lemma inv_press: "fb_inv b \<Longrightarrow> fb_press b = Some (p, k, at) \<Longrightarrow> fb_inv (showFileMenu pt p k (b\<lparr>fb_press := None\<rparr>))"
  by (simp add: fb_inv_def showFileMenu_def)

lemma file_step_inv: "fb_inv b \<Longrightarrow> file_enabled b e \<Longrightarrow> fb_inv (file_step t b e)"
proof (cases e)
  case (FTouch i at)
  then show "fb_inv b \<Longrightarrow> file_enabled b e \<Longrightarrow> ?thesis"
    using row_listed [of b i] by (auto simp: file_step_def file_enabled_def fb_inv_def Let_def)
qed (auto simp: file_step_def file_enabled_def Let_def up_click_def upload_change_def justified_by_def row_listed
    intro: inv_browse inv_show_menu inv_menu_action inv_detail inv_closed inv_answer inv_press inv_send
    split: listing.splits option.splits, simp add: fb_inv_def)

lemma file_sid:
  "fb_sid (send m u w b) = fb_sid b" "fb_sid (shellFileBrowse b) = fb_sid b" "fb_sid (do_download p b) = fb_sid b"
  "fb_sid (do_delete p yes b) = fb_sid b" "fb_sid (do_rename p pre ans b) = fb_sid b"
  by (simp_all add: send_def shellFileBrowse_def do_download_def do_delete_def do_rename_def Let_def split: option.split)

lemma file_step_sid: "fb_sid (file_step t b e) = fb_sid b"
  by (cases e) (auto simp: file_step_def file_sid Let_def up_click_def upload_change_def fileMenuAction_def detail_click_def
      showFileMenu_def file_answer_def renderShellFileList_def
      split: listing.split option.split file_action.split waiting.split sum.split change.split)

lemma file_start_inv: "fb_inv (fb_start sid)"
  by (simp add: fb_inv_def fb_start_def)

interpretation fs: guarded_machine "fb_start sid" "file_step t" "\<lambda>b. fb_inv b \<and> fb_sid b = sid" file_enabled for sid t
  by unfold_locales (auto intro: file_start_inv file_step_inv simp: file_step_sid, simp add: fb_start_def)

section \<open>Properties\<close>

text \<open>C20: The file browser only asks for what was shown and agreed to. In every run, each deletion
  directly follows the user's confirmation of the same path, each renaming directly follows a prompt
  answered with a new name and keeps the directory of what it renames, each download is of something
  listed as a file, and all of them name paths the server has listed before.\<close>

theorem file_requests_justified:
  assumes "fs.run_ok t (fb_start sid) evs"
  shows "justified sid (fb_io (foldl (file_step t) (fb_start sid) evs))"
  using fs.inv_run_start [OF assms] unfolding fb_inv_def by metis

definition sample_dir :: file_data where
  "sample_dir = \<lparr>fd_is_dir = True, fd_name = ''etc'', fd_size = 0, fd_mod_time = 0,
     fd_children = [\<lparr>fe_name = ''ssh'', fe_is_dir = True, fe_size = 0\<rparr>, \<lparr>fe_name = ''hosts'', fe_is_dir = False, fe_size = 7\<rparr>]\<rparr>"

definition sample_pointer :: pointer where
  "sample_pointer = \<lparr>pt_client = (10, 20), pt_page = (10, 20), pt_menu = (150, 90), pt_inner = (800, 600)\<rparr>"

definition sample_files :: "file_event list" where
  "sample_files = [FType ''/etc'', FGo, FAnswer 0 (Inr sample_dir), FMenu 1 sample_pointer, FItem ADelete True None]"

lemmas file_eval = file_step_def file_enabled_def Let_def shellFileBrowse_def send_def emit_def file_answer_def renderShellFileList_def
  showFileMenu_def fileMenuAction_def do_delete_def do_rename_def do_download_def up_click_def file_rows_def drop_at_def or_str_def
  fb_start_def sample_dir_def sample_files_def

theorem file_requests_justified_witness:
  "justified ''s'' (fb_io (foldl (file_step (\<lambda>k p. k)) (fb_start ''s'') sample_files)) \<and>
   hd (fb_io (foldl (file_step (\<lambda>k p. k)) (fb_start ''s'') sample_files)) = Fetch ''DELETE'' (files_url ''s'' ''/etc/hosts'')"
proof -
  have t: "js_trim ''/etc'' = ''/etc''" "child_path ''/etc'' ''hosts'' = ''/etc/hosts''" by code_simp+
  have "fs.run_ok (\<lambda>k p. k) (fb_start ''s'') sample_files" by (simp add: file_eval)
  then have "justified ''s'' (fb_io (foldl (file_step (\<lambda>k p. k)) (fb_start ''s'') sample_files))"
    by (rule file_requests_justified)
  then show ?thesis by (simp add: file_eval t)
qed

text \<open>Opening an entry of a directory and going up again leads back: the entry's own path is asked
  for, and the button then asks for the directory that was listed, whatever the server answers in
  between.\<close>

lemma browse_io:
  "fb_io (shellFileBrowse b) = Fetch ''GET'' (files_url (fb_sid b) (or_str (js_trim (fb_input b)) [SL])) # fb_io b"
  "fb_wait (shellFileBrowse b) = fb_wait b @ [Listing (or_str (js_trim (fb_input b)) [SL])]"
  by (simp_all add: shellFileBrowse_def Let_def send_def)

text \<open>Opening an entry of a directory and going up again leads back: the entry's own path is asked
  for, and the button then asks for the directory that was listed, whatever the server answers in
  between.\<close>

theorem child_and_back:
  assumes rows: "fb_listing b = FileRows (file_rows dir cs)" and i: "i < length cs" and n: "fe_name (cs ! i) = n"
    and dir: "js_trim (strip_slashes dir) = strip_slashes dir" and nm: "file_name n" "\<not> js_ws (last n)"
    and b1: "b1 = file_step t b (FRow i)" and b2: "b2 = file_step t b1 (FAnswer (length (fb_wait b)) (Inr d))"
    and b3: "b3 = file_step t b2 FUp"
  shows "fb_io b1 = Fetch ''GET'' (files_url (fb_sid b) (child_path dir n)) # fb_io b \<and>
    fb_input b2 = child_path dir n \<and>
    fb_io b3 = Fetch ''GET'' (files_url (fb_sid b) (or_str (strip_slashes dir) [SL])) # fb_io b2"
proof -
  have tr: "js_trim (child_path dir n) = child_path dir n" by (rule trim_child [OF dir nm])
  have ne: "child_path dir n \<noteq> []" "child_path dir n \<noteq> [SL]" using nm(1) by (auto simp: child_path_def file_name_def append_eq_Cons_conv)
  have f1: "b1 = shellFileBrowse (b\<lparr>fb_input := child_path dir n\<rparr>)"
    using i n by (simp add: b1 file_step_def rows file_rows_def)
  have io1: "fb_io b1 = Fetch ''GET'' (files_url (fb_sid b) (child_path dir n)) # fb_io b"
    and w1: "fb_wait b1 = fb_wait b @ [Listing (child_path dir n)]"
    by (simp_all add: f1 browse_io tr or_str_def ne)
  then have f2: "b2 = renderShellFileList d (child_path dir n) (emit (Got (child_path dir n) d) (b1\<lparr>fb_wait := drop_at (length (fb_wait b)) (fb_wait b1)\<rparr>))"
    by (simp add: b2 file_step_def file_answer_def)
  then have in2: "fb_input b2 = child_path dir n" by (simp add: renderShellFileList_def)
  have "strip_slashes (js_trim (fb_input b2)) = child_path dir n" by (simp add: in2 tr strip_child nm(1))
  moreover have "path_up (child_path dir n) = strip_slashes dir" using nm(1) by (simp add: child_path_def path_up_child file_name_def)
  ultimately have f3: "b3 = shellFileBrowse (b2\<lparr>fb_input := or_str (strip_slashes dir) [SL]\<rparr>)"
    by (simp add: b3 file_step_def up_click_def or_str_def ne)
  have "js_trim (or_str (strip_slashes dir) [SL]) = or_str (strip_slashes dir) [SL]"
    using dir by (auto simp: or_str_def SL_def js_trim_def js_ws_def)
  moreover have "fb_sid b2 = fb_sid b" by (simp add: b2 b1 file_step_sid)
  ultimately have "fb_io b3 = Fetch ''GET'' (files_url (fb_sid b) (or_str (strip_slashes dir) [SL])) # fb_io b2"
    by (simp add: f3 browse_io or_str_def)
  then show ?thesis using io1 in2 by blast
qed

definition listed_etc :: fbrowser where
  "listed_etc = (fb_start ''s'')\<lparr>fb_input := ''/etc/'', fb_listing := FileRows (file_rows ''/etc/'' (fd_children sample_dir))\<rparr>"

theorem child_and_back_witness:
  "fb_io (file_step (\<lambda>k p. k) (file_step (\<lambda>k p. k) (file_step (\<lambda>k p. k) listed_etc (FRow 0)) (FAnswer 0 (Inr sample_dir))) FUp) =
   [Fetch ''GET'' (files_url ''s'' ''/etc''), Got ''/etc/ssh'' sample_dir, Fetch ''GET'' (files_url ''s'' ''/etc/ssh'')]"
proof -
  have f: "fb_wait listed_etc = []" "fb_sid listed_etc = ''s''" "fb_io listed_etc = []" by (simp_all add: listed_etc_def fb_start_def)
  have g: "strip_slashes ''/etc/'' = ''/etc''" "child_path ''/etc/'' ''ssh'' = ''/etc/ssh''" "or_str ''/etc'' [SL] = ''/etc''" by code_simp+
  have r: "fb_listing listed_etc = FileRows (file_rows ''/etc/'' (fd_children sample_dir))" by (simp add: listed_etc_def)
  have "fb_io (file_step (\<lambda>k p. k) (file_step (\<lambda>k p. k) listed_etc (FRow 0)) (FAnswer 0 (Inr sample_dir))) =
      Got ''/etc/ssh'' sample_dir # fb_io (file_step (\<lambda>k p. k) listed_etc (FRow 0))"
    using f g r by (simp add: file_step_def browse_io file_answer_def renderShellFileList_def file_rows_def sample_dir_def or_str_def)
      (simp add: js_trim_def js_ws_def)
  moreover have "0 < length (fd_children sample_dir)" "fe_name (fd_children sample_dir ! 0) = ''ssh''" "file_name ''ssh''"
    "\<not> js_ws (last ''ssh'')" "js_trim (strip_slashes ''/etc/'') = strip_slashes ''/etc/''" by code_simp+
  ultimately show ?thesis
    using child_and_back [OF r _ _ _ _ _ refl refl refl, of 0 "''ssh''" "\<lambda>k p. k" sample_dir] f g by simp
qed



text \<open>The context menu opens inside the viewport whenever it fits with its margin.\<close>

lemma menu_inside:
  "0 \<le> len \<Longrightarrow> len + 4 \<le> inner \<Longrightarrow> 0 \<le> menu_coord client pg len inner \<and> menu_coord client pg len inner + len \<le> inner"
  by (auto simp: menu_coord_def Let_def max_def)

lemma skeleton_rows:
  "length rs = length rs' \<Longrightarrow> \<forall>i < length rs. markup (html.render (f (rs ! i))) = markup (html.render (f' (rs' ! i))) \<Longrightarrow>
   markup (concat (map (\<lambda>r. html.render (f r)) rs)) = markup (concat (map (\<lambda>r. html.render (f' r)) rs'))"
proof (induction rs rs' rule: list_induct2)
  case (Cons x xs y ys)
  have "markup (html.render (f x)) = markup (html.render (f' y))" using Cons.prems by force
  moreover have "\<forall>i < length xs. markup (html.render (f (xs ! i))) = markup (html.render (f' (ys ! i)))" using Cons.prems by force
  ultimately show ?case using Cons.IH by simp
qed simp

lemma digits_markup: "\<forall>c \<in> set s. is_digit c \<Longrightarrow> markup s = []"
  unfolding markup_def by (subst filter_empty_conv) (auto simp: is_digit_def DQ_def)

lemma unit_markup: "i < 4 \<Longrightarrow> markup (size_units ! i) = []"
  by (auto simp: size_units_def markup_def DQ_def less_Suc_eq numeral_eq_Suc)

lemma formatSize_markup: "markup (formatSize n) = []"
proof -
  have d: "markup (show_nat k) = []" for k using show_nat_digits by (intro digits_markup) blast
  have "size_loop 3 (nat n) 0 < 4" using size_loop_bounds [of 0 3 "nat n"] by simp
  then have "markup (size_units ! size_loop (length size_units - 1) (nat n) 0) = []" by (intro unit_markup) (simp add: size_units_def)
  moreover have "markup '' '' = []" "markup ''.'' = []" "markup ''0 B'' = []" by code_simp+
  ultimately show ?thesis using d unfolding formatSize_def Let_def
    by (cases "n \<le> 0"; cases "size_loop (length size_units - 1) (nat n) 0 = 0") (simp_all only: if_True if_False markup_simps simp_thms append_Nil)
qed

text \<open>No name or path of a file can add markup to the listing.\<close>

lemma file_row_markup:
  assumes "fr_isdir r = fr_isdir r'"
  shows "markup (html.render (file_row_frags t icon r)) = markup (html.render (file_row_frags t icon r'))"
  proof -
  have "markup ''1'' = markup ''0''" by code_simp
  then show ?thesis
    unfolding html.markup_render file_row_frags_def skeleton_append markup_simps assms
    by (cases "fr_isdir r'") (simp_all only: markup_frags formatSize_markup if_True if_False)
qed

text \<open>The findings. A file opened by a relative path is renamed into the root directory, and the button
  up leads from a relative directory to the root as well.\<close>

lemma relative_rename_to_root:
  "SL \<notin> set path \<Longrightarrow> path \<noteq> [] \<Longrightarrow> rename_target path nm = SL # nm"
  using strip_slashes_name [of path "[]"] by (simp add: rename_target_def path_up_plain)

lemma relative_up_to_root:
  assumes "SL \<notin> set path" and "path \<noteq> []" and "js_trim path = path" and "fb_input b = path"
  shows "fb_input (up_click b) = [SL]"
proof -
  have "or_str (strip_slashes (js_trim (fb_input b))) [SL] = path" using strip_slashes_name [of path "[]"] assms by (simp add: or_str_def)
  moreover have "path \<noteq> [SL]" using assms(1) by auto
  ultimately show ?thesis
    using path_up_plain [OF assms(1)] by (simp add: up_click_def Let_def or_str_def shellFileBrowse_def send_def)
qed

text \<open>An entry whose name ends in a blank cannot be opened: the click asks for the name without it.\<close>

lemma blank_name_not_opened:
  "fb_listing b = FileRows (file_rows ''/'' [c]) \<Longrightarrow> fe_name c = ''a '' \<Longrightarrow>
   fb_io (file_step t b (FRow 0)) = Fetch ''GET'' (files_url (fb_sid b) ''/a'') # fb_io b"
proof -
  assume a: "fb_listing b = FileRows (file_rows ''/'' [c])" "fe_name c = ''a ''"
  have "or_str (js_trim (child_path ''/'' ''a '')) [SL] = ''/a''" by code_simp
  then show ?thesis using a by (simp add: file_step_def file_rows_def browse_io)
qed

text \<open>A listing that arrives late replaces the newer one and its path.\<close>

lemma late_listing_wins:
  assumes "fb_wait b = [Listing p, Listing q]" and "fd_is_dir d" and "fd_children d \<noteq> []"
  shows "fb_listing (foldl (file_step t) b [FAnswer 1 (Inr e), FAnswer 0 (Inr d)]) = FileRows (file_rows p (fd_children d))"
    and "fb_input (foldl (file_step t) b [FAnswer 1 (Inr e), FAnswer 0 (Inr d)]) = p"
  using assms by (simp_all add: file_step_def file_answer_def renderShellFileList_def drop_at_def emit_def)

text \<open>A change of language navigates: it lists what stands in the path input, loaded or not.\<close>

lemma language_change_navigates:
  "fb_io (foldl (file_step t) b [FType s, FLang]) = Fetch ''GET'' (files_url (fb_sid b) (or_str (js_trim s) [SL])) # fb_io b"
  by (simp add: file_step_def browse_io)

end
