(* ===== verification/Panels.thy ===== *)
theory Panels
  imports Approval
begin

text \<open>
  The panels of a shell window (\<open>terminal-view.js\<close>, inside \<open>_initShellWindowUI\<close>) and the dialog that
  creates a port forward (\<open>forward-modal.js\<close>): the four tabs of a window, its lists of port forwards
  and of notification rules, both drawn from lists the page keeps (\<open>dialogs.js\<close>), and the form with
  its validation. One machine holds the two lists, all windows and the form; requests wait until
  they are answered. The dialog's port inputs have type number, so their text never carries a base
  prefix and \<open>parseInt\<close> reads decimal digits.
\<close>

section \<open>Data\<close>

record forward =
  fw_id :: string
  fw_direction :: string
  fw_config :: string
  fw_listen :: string
  fw_target :: string

record rule =
  ru_id :: string
  ru_session :: string
  ru_shell :: string
  ru_event :: string
  ru_silence :: nat
  ru_channel :: string

record fwd_body =
  bd_direction :: string
  bd_remote_host :: string
  bd_remote_port :: int
  bd_local_host :: string
  bd_local_port :: int

text \<open>The dialog: what it is bound to, its fields, and what of it is visible.\<close>

record fwd_form =
  ff_session :: string
  ff_config :: string
  ff_shown :: bool
  ff_err :: "string option"
  ff_remoteHost :: string
  ff_remotePort :: string
  ff_localHost :: string
  ff_localPort :: string
  ff_direction :: string
  ff_hints :: "string list"
  ff_targets :: bool
  ff_listenHost :: bool
  ff_portLabel :: string

text \<open>A window with its tab buttons and panels; \<open>None\<close> is a list that was never drawn.\<close>

record pwin =
  pw_sid :: string
  pw_label :: string
  pw_buttons :: "(string \<times> bool) list"
  pw_term :: bool
  pw_panels :: "(string \<times> bool) list"
  pw_fw :: "forward list option"
  pw_ntf :: "rule list option"

datatype pn_request =
  GetForwards
| GetRules
| PostForward string fwd_body
| DelForward string
| DelRule string

record panels =
  pn_forwards :: "forward list"
  pn_rules :: "rule list"
  pn_wins :: "pwin list"
  pn_form :: fwd_form
  pn_wait :: "pn_request list"
  pn_sent :: "pn_request list"

section \<open>Tabs\<close>

text \<open>A window is made with the terminal in front; the last button is added by the script.\<close>

definition new_pwin :: "string \<Rightarrow> string \<Rightarrow> pwin" where
  "new_pwin sid label =
     \<lparr>pw_sid = sid, pw_label = label,
      pw_buttons = [(''term'', True), (''fw'', False), (''file'', False), (''notify'', False)], pw_term = True,
      pw_panels = [(''fw'', False), (''file'', False), (''notify'', False)], pw_fw = None, pw_ntf = None\<rparr>"

definition forwardMatchesConfig :: "forward \<Rightarrow> string \<Rightarrow> bool" where
  "forwardMatchesConfig f sshConfig =
     (if sshConfig = [] then True
      else (let cfg = fw_config f
            in cfg = sshConfig \<or> index_of sshConfig cfg \<noteq> None \<or> index_of cfg sshConfig \<noteq> None))"

definition refreshShellFwList :: "forward list \<Rightarrow> pwin \<Rightarrow> pwin" where
  "refreshShellFwList fs w = w\<lparr>pw_fw := Some (filter (\<lambda>f. forwardMatchesConfig f (or_str (pw_label w) ''internal'')) fs)\<rparr>"

definition refreshShellNtfList :: "rule list \<Rightarrow> pwin \<Rightarrow> pwin" where
  "refreshShellNtfList rs w = w\<lparr>pw_ntf := Some (filter (\<lambda>n. ru_session n = pw_sid w) rs)\<rparr>"

definition panel_click :: "forward list \<Rightarrow> rule list \<Rightarrow> nat \<Rightarrow> pwin \<Rightarrow> pwin" where
  "panel_click fs rs i w =
     (let tab = fst (pw_buttons w ! i);
          w1 = w\<lparr>pw_buttons := map (\<lambda>(j, b). (fst b, j = i)) (enumerate 0 (pw_buttons w)), pw_term := (tab = ''term''),
                 pw_panels := map (\<lambda>(s, v). (s, s = tab)) (pw_panels w)\<rparr>;
          w2 = (if tab = ''fw'' then refreshShellFwList fs w1 else w1)
      in if tab = ''notify'' then refreshShellNtfList rs w2 else w2)"

section \<open>The dialog\<close>

definition fw_direction_change :: "translate \<Rightarrow> string \<Rightarrow> fwd_form \<Rightarrow> fwd_form" where
  "fw_direction_change t v f =
     (let isDynamic = (v = ''dynamic'')
      in f\<lparr>ff_direction := v, ff_hints := filter (\<lambda>h. h = v) [''local'', ''remote'', ''dynamic''],
           ff_targets := \<not> isDynamic, ff_listenHost := \<not> isDynamic,
           ff_portLabel := (if isDynamic then t ''modal.forward.socksPort'' None else t ''modal.forward.listenPort'' None)\<rparr>)"

definition openForwardModal :: "translate \<Rightarrow> string \<Rightarrow> string \<Rightarrow> fwd_form \<Rightarrow> fwd_form" where
  "openForwardModal t sid sshConfig f =
     (if sid = [] then f\<lparr>ff_err := Some (t ''modal.forward.err.noSession'' None), ff_shown := True\<rparr>
      else (fw_direction_change t ''local''
              (f\<lparr>ff_err := None, ff_session := sid, ff_config := or_str sshConfig ''internal'', ff_remoteHost := [], ff_remotePort := [],
                 ff_localHost := ''127.0.0.1'', ff_localPort := ''0''\<rparr>))\<lparr>ff_shown := True\<rparr>)"

text \<open>\<open>parseInt(s) || 0\<close>.\<close>

definition port_of :: "string \<Rightarrow> int" where
  "port_of s = (case parse_int s of None \<Rightarrow> 0 | Some n \<Rightarrow> n)"

definition fwd_body_of :: "fwd_form \<Rightarrow> fwd_body" where
  "fwd_body_of f =
     \<lparr>bd_direction = ff_direction f, bd_remote_host = js_trim (ff_remoteHost f), bd_remote_port = port_of (ff_remotePort f),
      bd_local_host = or_str (js_trim (ff_localHost f)) ''127.0.0.1'', bd_local_port = port_of (ff_localPort f)\<rparr>"

definition send_req :: "pn_request \<Rightarrow> panels \<Rightarrow> panels" where
  "send_req r p = p\<lparr>pn_wait := pn_wait p @ [r], pn_sent := pn_sent p @ [r]\<rparr>"

definition form_err :: "string option \<Rightarrow> panels \<Rightarrow> panels" where
  "form_err e p = p\<lparr>pn_form := (pn_form p)\<lparr>ff_err := e\<rparr>\<rparr>"

text \<open>The button: \<open>createForward\<close> rejects at once without a session, else the body is posted.\<close>

definition fw_create :: "translate \<Rightarrow> panels \<Rightarrow> panels" where
  "fw_create t p0 =
     (let p = form_err None p0; f = pn_form p; b = fwd_body_of f
      in if bd_direction b \<noteq> ''dynamic'' \<and> (bd_remote_host b = [] \<or> bd_remote_port b = 0)
         then form_err (Some (t ''modal.forward.err.required'' None)) p
         else if ff_session f = [] then form_err (Some (t ''modal.forward.err.noSession'' None)) p
         else send_req (PostForward (sessionAPI (ff_session f) ''/forwards'') b) p)"

section \<open>Answers\<close>

text \<open>The lists as the server sends them, a success without one, or an error message. The status of an
  answer to the two list requests is not looked at, so an error in JSON is a success without a list.\<close>

datatype pn_answer = Forwards "forward list" | Rules "rule list" | Done | Failed string

definition forwards_answer :: "forward list option \<Rightarrow> panels \<Rightarrow> panels" where
  "forwards_answer r p =
     (case r of None \<Rightarrow> p\<lparr>pn_forwards := []\<rparr>
      | Some fs \<Rightarrow> p\<lparr>pn_forwards := fs, pn_wins := map (refreshShellFwList fs) (pn_wins p)\<rparr>)"

definition rules_answer :: "rule list option \<Rightarrow> panels \<Rightarrow> panels" where
  "rules_answer r p =
     (case r of None \<Rightarrow> p\<lparr>pn_rules := []\<rparr>
      | Some rs \<Rightarrow> p\<lparr>pn_rules := rs, pn_wins := map (refreshShellNtfList rs) (pn_wins p)\<rparr>)"

definition pn_answered :: "pn_request \<Rightarrow> pn_answer \<Rightarrow> panels \<Rightarrow> panels" where
  "pn_answered q a p =
     (case q of
        GetForwards \<Rightarrow> forwards_answer (case a of Forwards fs \<Rightarrow> Some fs | Failed msg \<Rightarrow> None | _ \<Rightarrow> Some []) p
      | GetRules \<Rightarrow> rules_answer (case a of Rules rs \<Rightarrow> Some rs | Failed msg \<Rightarrow> None | _ \<Rightarrow> Some []) p
      | PostForward url b \<Rightarrow>
          (case a of Failed msg \<Rightarrow> form_err (Some msg) p
           | _ \<Rightarrow> send_req GetForwards (p\<lparr>pn_form := (pn_form p)\<lparr>ff_shown := False\<rparr>\<rparr>))
      | DelForward fid \<Rightarrow> (case a of Failed msg \<Rightarrow> p | _ \<Rightarrow> send_req GetForwards p)
      | DelRule rid \<Rightarrow> (case a of Failed msg \<Rightarrow> p | _ \<Rightarrow> send_req GetRules p))"

section \<open>Markup\<close>

definition fw_row_frags :: "string \<Rightarrow> string \<Rightarrow> forward \<Rightarrow> string frag list" where
  \<open>fw_row_frags arrow cross f =
     (let dirColor = (if fw_direction f = ''local'' then ''#3fb950'' else if fw_direction f = ''dynamic'' then ''#58a6ff'' else ''#d29922'')
      in [Lit ''<div style="display:flex;align-items:center;gap:10px;padding:10px 12px;border-bottom:1px solid #21262d;transition:background .1s" onmouseover="this.style.background='#161b22'" onmouseout="this.style.background='', Lit [CHR 0x27, CHR 0x27], Lit ''">'',
          Lit ''<span style="font-size:0.65rem;font-weight:600;text-transform:uppercase;padding:1px 5px;border-radius:3px;color:'', Lit dirColor,
          Lit '';border:1px solid '', Lit dirColor, Lit '';flex-shrink:0;min-width:42px;text-align:center">'', Hole (fw_direction f), Lit ''</span>'',
          Lit ''<span style="flex:1;min-width:0;overflow:hidden;text-overflow:ellipsis;white-space:nowrap;font-size:0.78rem"><span style="color:#8b949e">'',
          Hole (fw_listen f), Lit ''</span> <span style="color:#484f58">'', Lit arrow, Lit ''</span> <span style="color:#c9d1d9">'', Hole (fw_target f), Lit ''</span></span>'',
          Lit ''<button class="shell-fw-del-btn" data-fwid="'', Hole (fw_id f),
          Lit ''" style="padding:2px 6px;font-size:0.68rem;border:1px solid transparent;border-radius:3px;background:transparent;color:#484f58;cursor:pointer;flex-shrink:0" onmouseover="this.style.borderColor='#f85149';this.style.color='#f85149'" onmouseout="this.style.borderColor='transparent';this.style.color='#484f58'">'',
          Lit cross, Lit ''</button>'', Lit ''</div>''])\<close>

definition ntf_row_frags :: "translate \<Rightarrow> string \<Rightarrow> rule \<Rightarrow> string frag list" where
  \<open>ntf_row_frags t cross n =
     (let evColor = (if ru_event n = ''exit'' then ''#f85149'' else if ru_event n = ''silence'' then ''#d29922'' else ''#3fb950'');
          extra = (if ru_event n = ''silence'' \<and> ru_silence n \<noteq> 0 then '' '' @ show_nat (ru_silence n) @ ''s'' else []);
          chLabel = (if ru_channel n = ''sampling'' then t ''ntf.channel.sampling'' None else t ''ntf.channel.resource'' None)
      in [Lit ''<div style="display:flex;align-items:center;gap:10px;padding:10px 12px;border-bottom:1px solid #21262d" onmouseover="this.style.background='#161b22'" onmouseout="this.style.background='', Lit [CHR 0x27, CHR 0x27], Lit ''">'',
          Lit ''<span style="font-size:0.65rem;font-weight:600;text-transform:uppercase;padding:1px 5px;border-radius:3px;color:'', Lit evColor,
          Lit '';border:1px solid '', Lit evColor, Lit '';flex-shrink:0;min-width:56px;text-align:center">'', Hole (ru_event n), Hole extra, Lit ''</span>'',
          Lit ''<span style="flex:1;min-width:0;overflow:hidden;text-overflow:ellipsis;white-space:nowrap;font-size:0.78rem"><span style="color:#8b949e">'',
          Hole chLabel, Lit ''</span> <span style="color:#484f58">'', Lit [CHR 0xB7], Lit ''</span> <span style="color:#c9d1d9">'', Hole (ru_shell n), Lit ''</span></span>'',
          Lit ''<button class="shell-ntf-del-btn" data-ntfid="'', Hole (ru_id n), Lit ''" title="'', Lit (t ''ntf.unregister'' None),
          Lit ''" style="padding:2px 6px;font-size:0.68rem;border:1px solid transparent;border-radius:3px;background:transparent;color:#484f58;cursor:pointer;flex-shrink:0" onmouseover="this.style.borderColor='#f85149';this.style.color='#f85149'" onmouseout="this.style.borderColor='transparent';this.style.color='#484f58'">'',
          Lit cross, Lit ''</button>'', Lit ''</div>''])\<close>

section \<open>Events\<close>

datatype fwd_field = RemoteHost | RemotePort | LocalHost | LocalPort

definition type_field :: "fwd_field \<Rightarrow> string \<Rightarrow> fwd_form \<Rightarrow> fwd_form" where
  "type_field k s f =
     (case k of RemoteHost \<Rightarrow> f\<lparr>ff_remoteHost := s\<rparr> | RemotePort \<Rightarrow> f\<lparr>ff_remotePort := s\<rparr>
              | LocalHost \<Rightarrow> f\<lparr>ff_localHost := s\<rparr> | LocalPort \<Rightarrow> f\<lparr>ff_localPort := s\<rparr>)"

datatype pn_event =
  POpen string string
| PTab nat nat
| PAdd nat
| PType fwd_field string
| PDirection string
| PCreate
| PCloseForm
| PRefreshFw
| PRefreshNtf
| PDelFw nat nat
| PDelRule nat nat
| PAnswer nat pn_answer
| PClosed nat

definition rows_of :: "'a list option \<Rightarrow> 'a list" where
  "rows_of l = (case l of None \<Rightarrow> [] | Some xs \<Rightarrow> xs)"

definition pn_enabled :: "panels \<Rightarrow> pn_event \<Rightarrow> bool" where
  "pn_enabled p e =
     (case e of
        POpen sid label \<Rightarrow> sid \<noteq> []
      | PTab i j \<Rightarrow> i < length (pn_wins p) \<and> j < length (pw_buttons (pn_wins p ! i))
      | PAdd i \<Rightarrow> i < length (pn_wins p)
      | PDirection v \<Rightarrow> v \<in> {''local'', ''remote'', ''dynamic''} \<and> ff_shown (pn_form p)
      | PCreate \<Rightarrow> ff_shown (pn_form p)
      | PDelFw i j \<Rightarrow> i < length (pn_wins p) \<and> j < length (rows_of (pw_fw (pn_wins p ! i)))
      | PDelRule i j \<Rightarrow> i < length (pn_wins p) \<and> j < length (rows_of (pw_ntf (pn_wins p ! i)))
      | PAnswer i a \<Rightarrow> i < length (pn_wait p)
      | PClosed i \<Rightarrow> i < length (pn_wins p)
      | _ \<Rightarrow> True)"

definition pn_step :: "translate \<Rightarrow> panels \<Rightarrow> pn_event \<Rightarrow> panels" where
  "pn_step t p e =
     (case e of
        POpen sid label \<Rightarrow> p\<lparr>pn_wins := pn_wins p @ [new_pwin sid label]\<rparr>
      | PTab i j \<Rightarrow> p\<lparr>pn_wins := (pn_wins p)[i := panel_click (pn_forwards p) (pn_rules p) j (pn_wins p ! i)]\<rparr>
      | PAdd i \<Rightarrow> p\<lparr>pn_form := openForwardModal t (pw_sid (pn_wins p ! i)) (or_str (pw_label (pn_wins p ! i)) ''internal'') (pn_form p)\<rparr>
      | PType k s \<Rightarrow> p\<lparr>pn_form := type_field k s (pn_form p)\<rparr>
      | PDirection v \<Rightarrow> p\<lparr>pn_form := fw_direction_change t v (pn_form p)\<rparr>
      | PCreate \<Rightarrow> fw_create t p
      | PCloseForm \<Rightarrow> p\<lparr>pn_form := (pn_form p)\<lparr>ff_shown := False\<rparr>\<rparr>
      | PRefreshFw \<Rightarrow> send_req GetForwards p
      | PRefreshNtf \<Rightarrow> send_req GetRules p
      | PDelFw i j \<Rightarrow> send_req (DelForward (fw_id (rows_of (pw_fw (pn_wins p ! i)) ! j))) p
      | PDelRule i j \<Rightarrow> send_req (DelRule (ru_id (rows_of (pw_ntf (pn_wins p ! i)) ! j))) p
      | PAnswer i a \<Rightarrow> pn_answered (pn_wait p ! i) a (p\<lparr>pn_wait := take i (pn_wait p) @ drop (Suc i) (pn_wait p)\<rparr>)
      | PClosed i \<Rightarrow> p\<lparr>pn_wins := take i (pn_wins p) @ drop (Suc i) (pn_wins p)\<rparr>)"

text \<open>The page before any window: the dialog as the markup has it.\<close>

definition pn_start :: "translate \<Rightarrow> panels" where
  "pn_start t =
     \<lparr>pn_forwards = [], pn_rules = [], pn_wins = [],
      pn_form = \<lparr>ff_session = [], ff_config = [], ff_shown = False, ff_err = None, ff_remoteHost = [], ff_remotePort = [], ff_localHost = [],
        ff_localPort = ''0'', ff_direction = ''local'', ff_hints = [''local''], ff_targets = True, ff_listenHost = True,
        ff_portLabel = t ''modal.forward.listenPort'' None\<rparr>,
      pn_wait = [], pn_sent = []\<rparr>"

section \<open>Invariant\<close>

definition tab_names :: "string list" where
  "tab_names = [''term'', ''fw'', ''file'', ''notify'']"

definition tabs_ok :: "pwin \<Rightarrow> bool" where
  "tabs_ok w \<longleftrightarrow> (\<exists>j < 4. pw_buttons w = map (\<lambda>k. (tab_names ! k, k = j)) [0..<4] \<and> pw_term w = (tab_names ! j = ''term'') \<and>
     pw_panels w = map (\<lambda>s. (s, s = tab_names ! j)) [''fw'', ''file'', ''notify''])"

definition lists_ok :: "pwin \<Rightarrow> bool" where
  "lists_ok w \<longleftrightarrow> (\<forall>f \<in> set (rows_of (pw_fw w)). forwardMatchesConfig f (or_str (pw_label w) ''internal'')) \<and>
     (\<forall>n \<in> set (rows_of (pw_ntf w)). ru_session n = pw_sid w)"

definition form_ok :: "fwd_form \<Rightarrow> bool" where
  "form_ok f \<longleftrightarrow> ff_direction f \<in> {''local'', ''remote'', ''dynamic''} \<and> ff_hints f = [ff_direction f] \<and>
     ff_targets f = (ff_direction f \<noteq> ''dynamic'') \<and> ff_listenHost f = (ff_direction f \<noteq> ''dynamic'')"

definition request_ok :: "pn_request \<Rightarrow> bool" where
  "request_ok q = (case q of PostForward url b \<Rightarrow>
       bd_direction b \<in> {''local'', ''remote'', ''dynamic''} \<and> bd_local_host b \<noteq> [] \<and>
       (bd_direction b \<noteq> ''dynamic'' \<longrightarrow> bd_remote_host b \<noteq> [] \<and> bd_remote_port b \<noteq> 0)
     | _ \<Rightarrow> True)"

definition pn_inv :: "panels \<Rightarrow> bool" where
  "pn_inv p \<longleftrightarrow> (\<forall>w \<in> set (pn_wins p). tabs_ok w \<and> lists_ok w) \<and> form_ok (pn_form p) \<and> (\<forall>q \<in> set (pn_sent p). request_ok q)"

lemma four: "k < 4 \<longleftrightarrow> k = 0 \<or> k = 1 \<or> k = 2 \<or> k = (3 :: nat)"
  by arith

lemma tabs_new: "tabs_ok (new_pwin sid label)"
  unfolding tabs_ok_def by (rule exI [of _ 0]) (simp add: new_pwin_def tab_names_def upt_conv_Cons)

lemma tabs_refresh [simp]: "tabs_ok (refreshShellFwList fs w) = tabs_ok w" "tabs_ok (refreshShellNtfList rs w) = tabs_ok w"
  by (simp_all add: tabs_ok_def refreshShellFwList_def refreshShellNtfList_def)

lemma lists_new: "lists_ok (new_pwin sid label)"
  by (simp add: lists_ok_def new_pwin_def rows_of_def)

lemma lists_refresh: "lists_ok w \<Longrightarrow> lists_ok (refreshShellFwList fs w)" "lists_ok w \<Longrightarrow> lists_ok (refreshShellNtfList rs w)"
  by (simp_all add: lists_ok_def refreshShellFwList_def refreshShellNtfList_def rows_of_def)

lemma buttons_click: "map (\<lambda>(j, b). (fst b, j = i)) (enumerate 0 (map (\<lambda>k. (g k, k = j0)) [0..<n])) = map (\<lambda>k. (g k, k = i)) [0..<n]"
  by (rule nth_equalityI) (auto simp: nth_enumerate_eq)

lemma tabs_click:
  assumes "tabs_ok w" and "i < length (pw_buttons w)"
  shows "tabs_ok (panel_click fs rs i w)"
proof -
  obtain j where j: "pw_buttons w = map (\<lambda>k. (tab_names ! k, k = j)) [0..<4]" "pw_panels w = map (\<lambda>s. (s, s = tab_names ! j)) [''fw'', ''file'', ''notify'']"
    using assms(1) unfolding tabs_ok_def by blast
  have i: "i < 4" using assms(2) j(1) by simp
  define w1 where "w1 = w\<lparr>pw_buttons := map (\<lambda>(j, b). (fst b, j = i)) (enumerate 0 (pw_buttons w)), pw_term := (tab_names ! i = ''term''),
      pw_panels := map (\<lambda>(s, v). (s, s = tab_names ! i)) (pw_panels w)\<rparr>"
  have "pw_buttons w1 = map (\<lambda>k. (tab_names ! k, k = i)) [0..<4]" unfolding w1_def j(1) buttons_click by simp
  then have "tabs_ok w1" unfolding tabs_ok_def using i j(2) by (intro exI [of _ i]) (simp add: w1_def)
  moreover have "fst (pw_buttons w ! i) = tab_names ! i" using i by (simp add: j(1))
  then have "panel_click fs rs i w =
      (let w2 = if tab_names ! i = ''fw'' then refreshShellFwList fs w1 else w1 in if tab_names ! i = ''notify'' then refreshShellNtfList rs w2 else w2)"
    by (simp only: panel_click_def Let_def w1_def)
  ultimately show ?thesis by (simp add: Let_def)
qed

lemma lists_click: "lists_ok w \<Longrightarrow> lists_ok (panel_click fs rs i w)"
  by (simp add: panel_click_def Let_def lists_ok_def refreshShellFwList_def refreshShellNtfList_def rows_of_def)

lemma form_change: "v \<in> {''local'', ''remote'', ''dynamic''} \<Longrightarrow> form_ok (fw_direction_change t v f)"
  by (auto simp: form_ok_def fw_direction_change_def)

lemma form_shown [simp]: "form_ok (f\<lparr>ff_shown := b\<rparr>) = form_ok f" "form_ok (f\<lparr>ff_err := e\<rparr>) = form_ok f"
  by (simp_all add: form_ok_def)

lemma form_open: "form_ok f \<Longrightarrow> form_ok (openForwardModal t sid cfg f)"
  by (simp add: openForwardModal_def form_change)

lemma form_type: "form_ok (type_field k s f) = form_ok f"
  by (cases k) (simp_all add: form_ok_def type_field_def)

lemma pn_inv_form: "pn_inv p \<Longrightarrow> form_ok f \<Longrightarrow> pn_inv (p\<lparr>pn_form := f\<rparr>)"
  by (simp add: pn_inv_def)

lemma pn_inv_err [simp]: "pn_inv (form_err e p) = pn_inv p"
  by (simp add: pn_inv_def form_err_def)

lemma pn_inv_send: "pn_inv p \<Longrightarrow> request_ok q \<Longrightarrow> pn_inv (send_req q p)"
  by (auto simp: pn_inv_def send_req_def)

lemma pn_inv_wait [simp]: "pn_inv (p\<lparr>pn_wait := ws\<rparr>) = pn_inv p"
  by (simp add: pn_inv_def)

lemma body_ok: "form_ok f \<Longrightarrow> \<not> (bd_direction (fwd_body_of f) \<noteq> ''dynamic'' \<and> (bd_remote_host (fwd_body_of f) = [] \<or> bd_remote_port (fwd_body_of f) = 0)) \<Longrightarrow>
    request_ok (PostForward url (fwd_body_of f))"
  by (auto simp: request_ok_def fwd_body_of_def form_ok_def or_str_def)

lemma pn_inv_create: "pn_inv p \<Longrightarrow> pn_inv (fw_create t p)"
proof -
  assume p: "pn_inv p"
  then have "pn_inv (form_err None p)" by simp
  moreover from this have "form_ok (pn_form (form_err None p))" by (simp add: pn_inv_def)
  ultimately show ?thesis unfolding fw_create_def Let_def using body_ok p by (auto intro: pn_inv_send)
qed

lemma other_requests: "request_ok GetForwards" "request_ok GetRules" "request_ok (DelForward i)" "request_ok (DelRule i)"
  by (simp_all add: request_ok_def)

lemma pn_inv_answered: "pn_inv p \<Longrightarrow> pn_inv (pn_answered q a p)"
proof (cases q)
  case GetForwards
  then show "pn_inv p \<Longrightarrow> ?thesis"
    by (auto simp: pn_answered_def forwards_answer_def pn_inv_def lists_refresh split: option.split)
next
  case GetRules
  then show "pn_inv p \<Longrightarrow> ?thesis"
    by (auto simp: pn_answered_def rules_answer_def pn_inv_def lists_refresh split: option.split)
next
  case (PostForward url b)
  then show "pn_inv p \<Longrightarrow> ?thesis"
    using pn_inv_form [of p "(pn_form p)\<lparr>ff_shown := False\<rparr>"]
    by (auto simp: pn_answered_def pn_inv_def [of p] intro!: pn_inv_send other_requests split: pn_answer.split)
qed (auto simp: pn_answered_def intro!: pn_inv_send other_requests split: pn_answer.split)

lemma pn_step_inv: "pn_inv p \<Longrightarrow> pn_enabled p e \<Longrightarrow> pn_inv (pn_step t p e)"
proof (cases e)
  case (PTab i j)
  assume a: "pn_inv p" "pn_enabled p e"
  then have "pn_wins p ! i \<in> set (pn_wins p)" "j < length (pw_buttons (pn_wins p ! i))" by (simp_all add: PTab pn_enabled_def)
  with a(1) have "tabs_ok (panel_click (pn_forwards p) (pn_rules p) j (pn_wins p ! i)) \<and> lists_ok (panel_click (pn_forwards p) (pn_rules p) j (pn_wins p ! i))"
    by (auto simp: pn_inv_def intro: tabs_click lists_click)
  then show ?thesis using a(1) by (auto simp: PTab pn_step_def pn_inv_def dest!: set_update_subset_insert [THEN subsetD])
next
  case (PClosed i)
  assume "pn_inv p"
  then show ?thesis using set_take_subset [of i "pn_wins p"] set_drop_subset [of "Suc i" "pn_wins p"]
    by (auto simp: PClosed pn_step_def pn_inv_def)
next
  case (POpen sid label)
  assume "pn_inv p"
  then show ?thesis by (auto simp: POpen pn_step_def pn_inv_def tabs_new lists_new)
qed (auto simp: pn_step_def pn_enabled_def intro!: pn_inv_form pn_inv_send pn_inv_create pn_inv_answered other_requests form_open form_change,
    auto simp: pn_inv_def form_type)

lemma pn_start_inv: "pn_inv (pn_start t)"
  by (simp add: pn_inv_def pn_start_def form_ok_def)

interpretation pn: guarded_machine "pn_start t" "pn_step t" pn_inv pn_enabled for t
  by unfold_locales (auto intro: pn_start_inv pn_step_inv)

section \<open>Properties\<close>

text \<open>The panels stay in step with what is selected. In every reachable state each window has exactly
  one active tab and shows exactly that tab's panel (or the terminal), lists only notification
  rules of its own session, and the forward dialog shows the one hint and the fields of the chosen
  direction.\<close>

theorem panels_consistent:
  assumes "pn.reach t p"
  shows "(\<forall>w \<in> set (pn_wins p). \<exists>tab. map fst (filter snd (pw_buttons w)) = [tab] \<and>
       (if pw_term w then [''term''] else []) @ map fst (filter snd (pw_panels w)) = [tab] \<and>
       (\<forall>n \<in> set (rows_of (pw_ntf w)). ru_session n = pw_sid w)) \<and>
    ff_hints (pn_form p) = [ff_direction (pn_form p)] \<and> ff_targets (pn_form p) = (ff_direction (pn_form p) \<noteq> ''dynamic'')"
proof -
  have i: "pn_inv p" by (rule pn.reach_inv [OF assms])
  have "\<exists>tab. map fst (filter snd (pw_buttons w)) = [tab] \<and>
      (if pw_term w then [''term''] else []) @ map fst (filter snd (pw_panels w)) = [tab]" if w: "tabs_ok w" for w
  proof -
    obtain j where j: "j = 0 \<or> j = 1 \<or> j = 2 \<or> j = 3" "pw_buttons w = map (\<lambda>k. (tab_names ! k, k = j)) [0..<4]"
      "pw_term w = (tab_names ! j = ''term'')" "pw_panels w = map (\<lambda>s. (s, s = tab_names ! j)) [''fw'', ''file'', ''notify'']"
      using w by (auto simp: tabs_ok_def four)
    have "[0..<4] = [0, 1, 2, 3 :: nat]" by (simp add: upt_rec)
    then show ?thesis using j(1) unfolding j(2-4) by (elim disjE) (simp_all add: tab_names_def)
  qed
  then show ?thesis using i by (auto simp: pn_inv_def lists_ok_def form_ok_def)
qed

lemma sample_panels_reach: "pn.reach (\<lambda>k q. k) (foldl (pn_step (\<lambda>k q. k)) (pn_start (\<lambda>k q. k)) [POpen ''s1'' ''web'', PTab 0 3])"
  by (rule pn.reach_run [OF pn.reach.init]) (simp add: pn_enabled_def pn_step_def pn_start_def new_pwin_def)

theorem panels_consistent_witness:
  "map fst (filter snd (pw_panels (pn_wins (foldl (pn_step (\<lambda>k q. k)) (pn_start (\<lambda>k q. k)) [POpen ''s1'' ''web'', PTab 0 3]) ! 0))) = [''notify'']"
  using panels_consistent [OF sample_panels_reach]
  by (simp add: pn_step_def pn_start_def new_pwin_def panel_click_def enumerate_eq_zip refreshShellNtfList_def Let_def)

text \<open>What was typed last into a field, and the direction chosen last.\<close>

definition form_event :: "pn_event \<Rightarrow> bool" where
  "form_event e = (case e of PType k s \<Rightarrow> True | PDirection v \<Rightarrow> True | _ \<Rightarrow> False)"

definition last_typed :: "fwd_field \<Rightarrow> string \<Rightarrow> pn_event list \<Rightarrow> string" where
  "last_typed k d evs = foldl (\<lambda>v e. case e of PType j s \<Rightarrow> if j = k then s else v | _ \<Rightarrow> v) d evs"

definition last_direction :: "string \<Rightarrow> pn_event list \<Rightarrow> string" where
  "last_direction d evs = foldl (\<lambda>v e. case e of PDirection w \<Rightarrow> w | _ \<Rightarrow> v) d evs"

definition field_of :: "fwd_field \<Rightarrow> fwd_form \<Rightarrow> string" where
  "field_of k f = (case k of RemoteHost \<Rightarrow> ff_remoteHost f | RemotePort \<Rightarrow> ff_remotePort f | LocalHost \<Rightarrow> ff_localHost f | LocalPort \<Rightarrow> ff_localPort f)"

lemma field_type: "field_of k (type_field j s f) = (if j = k then s else field_of k f)"
  by (cases k; cases j) (simp_all add: field_of_def type_field_def)

lemma field_change: "field_of k (fw_direction_change t v f) = field_of k f"
  by (cases k) (simp_all add: field_of_def fw_direction_change_def Let_def)

lemma keep_fields:
  "ff_session (type_field j s f) = ff_session f" "ff_direction (type_field j s f) = ff_direction f"
  "ff_session (fw_direction_change t v f) = ff_session f" "ff_direction (fw_direction_change t v f) = v"
  by (cases j; simp add: type_field_def fw_direction_change_def Let_def)+

lemma form_run:
  "\<forall>e \<in> set evs. form_event e \<Longrightarrow>
   ff_session (pn_form (foldl (pn_step t) p evs)) = ff_session (pn_form p) \<and> pn_sent (foldl (pn_step t) p evs) = pn_sent p \<and>
   ff_direction (pn_form (foldl (pn_step t) p evs)) = last_direction (ff_direction (pn_form p)) evs \<and>
   field_of k (pn_form (foldl (pn_step t) p evs)) = last_typed k (field_of k (pn_form p)) evs"
proof (induction evs arbitrary: p)
  case (Cons e evs)
  then have "form_event e" "\<forall>e \<in> set evs. form_event e" by simp_all
  then show ?case
    using Cons.IH [of "pn_step t p e"]
    by (cases e) (simp_all add: form_event_def pn_step_def last_direction_def last_typed_def field_type field_change keep_fields)
qed (simp add: last_typed_def last_direction_def)

lemma body_fields:
  "fwd_body_of f = \<lparr>bd_direction = ff_direction f, bd_remote_host = js_trim (field_of RemoteHost f), bd_remote_port = port_of (field_of RemotePort f),
     bd_local_host = or_str (js_trim (field_of LocalHost f)) ''127.0.0.1'', bd_local_port = port_of (field_of LocalPort f)\<rparr>"
  by (simp add: fwd_body_of_def field_of_def)

text \<open>C26: A port forward is requested for the window whose button opened the dialog, with what was typed
  last: after any edits, pressing create posts exactly one request, to that window's session, with
  the last values (trimmed, the listen host never empty), or, when a direction that needs a target
  has none, posts nothing and shows an error.\<close>

theorem forward_request_of_window:
  assumes i: "i < length (pn_wins p)" and sid: "pw_sid (pn_wins p ! i) \<noteq> []" and evs: "\<forall>e \<in> set evs. form_event e"
    and p1: "p1 = foldl (pn_step t) (pn_step t p (PAdd i)) evs"
    and b: "b = \<lparr>bd_direction = last_direction ''local'' evs, bd_remote_host = js_trim (last_typed RemoteHost [] evs),
      bd_remote_port = port_of (last_typed RemotePort [] evs), bd_local_host = or_str (js_trim (last_typed LocalHost ''127.0.0.1'' evs)) ''127.0.0.1'',
      bd_local_port = port_of (last_typed LocalPort ''0'' evs)\<rparr>"
  shows "if bd_direction b \<noteq> ''dynamic'' \<and> (bd_remote_host b = [] \<or> bd_remote_port b = 0)
    then pn_sent (pn_step t p1 PCreate) = pn_sent p \<and> ff_err (pn_form (pn_step t p1 PCreate)) \<noteq> None
    else pn_sent (pn_step t p1 PCreate) = pn_sent p @ [PostForward (sessionAPI (pw_sid (pn_wins p ! i)) ''/forwards'') b]"
proof -
  let ?q = "pn_step t p (PAdd i)"
  have f: "pn_form ?q = openForwardModal t (pw_sid (pn_wins p ! i)) (or_str (pw_label (pn_wins p ! i)) ''internal'') (pn_form p)"
    and s: "pn_sent ?q = pn_sent p" by (simp_all add: pn_step_def)
  note run = form_run [OF evs, of t ?q, folded p1]
  have "ff_session (pn_form ?q) = pw_sid (pn_wins p ! i)" "ff_direction (pn_form ?q) = ''local''" "field_of RemoteHost (pn_form ?q) = []"
    "field_of RemotePort (pn_form ?q) = []" "field_of LocalHost (pn_form ?q) = ''127.0.0.1''" "field_of LocalPort (pn_form ?q) = ''0''"
    using sid by (simp_all add: f openForwardModal_def fw_direction_change_def field_of_def Let_def)
  then have d: "ff_session (pn_form p1) = pw_sid (pn_wins p ! i)" "fwd_body_of (pn_form p1) = b" "pn_sent p1 = pn_sent p"
    unfolding body_fields b using run s by simp_all
  have e: "fwd_body_of (pn_form (form_err None p1)) = b" "ff_session (pn_form (form_err None p1)) = pw_sid (pn_wins p ! i)"
    using d by (simp_all add: form_err_def fwd_body_of_def)
  show ?thesis using e d(3) sid by (simp add: pn_step_def fw_create_def Let_def send_req_def) (simp add: form_err_def)
qed

theorem forward_request_of_window_witness:
  "pn_sent (foldl (pn_step (\<lambda>k q. k)) (pn_start (\<lambda>k q. k)) [POpen ''s1'' ''web'', PAdd 0, PType RemoteHost '' db '', PType RemotePort ''5432'', PCreate]) =
   [PostForward (sessionAPI ''s1'' ''/forwards'')
     \<lparr>bd_direction = ''local'', bd_remote_host = ''db'', bd_remote_port = 5432, bd_local_host = ''127.0.0.1'', bd_local_port = 0\<rparr>]"
proof -
  let ?p = "pn_step (\<lambda>k q. k) (pn_start (\<lambda>k q. k)) (POpen ''s1'' ''web'')"
  have w: "pn_wins ?p = [new_pwin ''s1'' ''web'']" "pn_sent ?p = []" by (simp_all add: pn_step_def pn_start_def)
  have v: "js_trim '' db '' = ''db''" "port_of ''5432'' = 5432" "port_of ''0'' = 0" "or_str (js_trim ''127.0.0.1'') ''127.0.0.1'' = ''127.0.0.1''"
    by (simp_all add: port_of_def parse_int_def js_trim_def js_ws_def is_digit_def digits_val_def or_str_def)
  show ?thesis
    using forward_request_of_window [OF _ _ _ refl refl, of 0 ?p "[PType RemoteHost '' db '', PType RemotePort ''5432'']" "\<lambda>k q. k"] v
    by (simp add: w new_pwin_def form_event_def last_typed_def last_direction_def)
qed

text \<open>The findings. A window lists the forwards of every profile whose name contains its own or is
  contained in it, with their delete buttons, and a forward without a profile is listed everywhere.\<close>

lemma other_profile_listed:
  "cfg = a @ label @ c \<or> label = a @ cfg @ c \<Longrightarrow> forwardMatchesConfig (f\<lparr>fw_config := cfg\<rparr>) label"
  using index_of_None_iff by (fastforce simp: forwardMatchesConfig_def Let_def)

text \<open>A list of forwards that could not be loaded is taken for an empty one the next time the tab is opened.\<close>

lemma failed_load_is_empty:
  "pn_wait p = [GetForwards] \<Longrightarrow> pn_wins p = [new_pwin sid label] \<Longrightarrow>
   pw_fw (pn_wins (foldl (pn_step t) p [PAnswer 0 (Failed msg), PTab 0 1]) ! 0) = Some []"
  by (simp add: pn_step_def pn_answered_def forwards_answer_def panel_click_def new_pwin_def refreshShellFwList_def Let_def)

text \<open>Ports outside 1 to 65535 pass the form's own check.\<close>

lemma port_range_unchecked: "port_of ''-1'' = -1 \<and> port_of ''70000'' = 70000 \<and> port_of ''1e5'' = 1"
  by (simp add: port_of_def parse_int_def js_ws_def is_digit_def digits_val_def)

end
