(* ===== verification/Launch.thy ===== *)
theory Launch
  imports Approval "HOL-Library.Multiset"
begin

text \<open>
  The entry grid and the start of a session: the sorted cards of \<open>renderConnGrid\<close> with their banner
  (\<open>dialogs.js\<close>), the launch dialog (\<open>conn-form.js\<close>), and \<open>startSessionAndOpenShell\<close> with the window
  that waits for its session (\<open>terminal-view.js\<close>, \<open>ui-socket.js\<close>). The machine holds the cards, the
  banner and what it remembers, the windows and the requests on their way; what the server answers
  and an aborted request are events. Windows are in the order they were made; where they are shown
  is the concern of the window manager.

  Parameters: \<open>msgs\<close> gives the messages of each language, \<open>lc\<close> is \<open>localeCompare\<close>, \<open>abort\<close> the text of
  the browser's abort error.
\<close>

section \<open>Cards\<close>

record conn_entry =
  ce_name :: string
  ce_kind :: string
  ce_user :: string
  ce_host :: string
  ce_port :: nat
  ce_approval :: bool

definition conn_cmp :: "(string \<Rightarrow> string \<Rightarrow> int) \<Rightarrow> conn_entry \<Rightarrow> conn_entry \<Rightarrow> int" where
  "conn_cmp lc a b =
     (if ce_kind a = ''internal'' then -1 else if ce_kind b = ''internal'' then 1 else lc (ce_name a) (ce_name b))"

text \<open>\<open>Array.prototype.sort\<close> is stable, so for a consistent comparison its result is that of insertion.\<close>

fun conn_insert :: "(string \<Rightarrow> string \<Rightarrow> int) \<Rightarrow> conn_entry \<Rightarrow> conn_entry list \<Rightarrow> conn_entry list" where
  "conn_insert lc x [] = [x]"
| "conn_insert lc x (y # ys) = (if conn_cmp lc x y \<le> 0 then x # y # ys else y # conn_insert lc x ys)"

definition conn_sort :: "(string \<Rightarrow> string \<Rightarrow> int) \<Rightarrow> conn_entry list \<Rightarrow> conn_entry list" where
  "conn_sort lc cs = foldr (conn_insert lc) cs []"

definition host_line :: "conn_entry \<Rightarrow> string" where
  "host_line c = js_trim (ce_user c @ ''@'' @ ce_host c @ (if ce_port c \<noteq> 0 \<and> ce_port c \<noteq> 22 then '':'' @ show_nat (ce_port c) else []))"

definition card_title :: "translate \<Rightarrow> string \<Rightarrow> conn_entry \<Rightarrow> string" where
  "card_title t emdash c =
     (if ce_kind c = ''internal'' then t ''conn.tip.connect'' None @ [CHR '' '', CHR 0xB7, CHR '' ''] @ t ''conn.tip.internal'' None
      else if host_line c \<noteq> [] then t ''conn.tip.connect'' None @ '' '' @ emdash @ '' '' @ host_line c
      else t ''conn.tip.connect'' None)"

text \<open>The markup of a card; the pictures are parameters.\<close>

record card_art =
  art_icon :: "bool \<Rightarrow> string"
  art_edit :: string
  art_quick :: string
  art_lock :: string
  art_copy :: string

definition card_frags :: "card_art \<Rightarrow> conn_entry \<Rightarrow> string frag list" where
  \<open>card_frags art c =
     [Lit ''<div class="entry-card-inner">'', Lit ''<div class="conn-tile-stack">'',
      Lit ''<div class="icon-wrap">'', Lit (art_icon art (ce_kind c = ''internal'')), Lit ''</div>'', Lit ''</div>'',
      Lit ''<div class="entry-card-main">'', Lit ''<div class="conn-nm-row">'', Lit ''<span class="conn-nm-cluster">'',
      Lit ''<span class="conn-nm" title="Connect" data-i18n-title="conn.title.connect">'', Hole (ce_name c), Lit ''</span>'',
      Lit ''<button type="button" class="sess-copy-btn" title="Copy URL" data-i18n-title="common.copyUrl" aria-label="Copy URL" data-i18n-aria="common.copyUrl">'',
      Lit (art_copy art), Lit ''</button>'', Lit ''</span>'',
      Lit ''<button type="button" class="conn-quick-btn" title="Launch options (session name, command)" data-i18n-title="conn.title.launchOptions" aria-label="Launch options" data-i18n-aria="conn.aria.launchOptions">'',
      Lit (art_quick art), Lit ''</button>''] @
     (if ce_approval c
      then [Lit ''<span class="conn-approval" title="Sessions from this profile start with review mode on" data-i18n-title="conn.approval.mark" aria-label="Reviews by default" data-i18n-aria="conn.approval.markAria">'',
            Lit (art_lock art), Lit ''</span>'']
      else []) @
     [Lit ''<button type="button" class="conn-edit-btn" title="Edit profile" data-i18n-title="conn.aria.editProfile" aria-label="Edit profile" data-i18n-aria="conn.aria.editProfile">'',
      Lit (art_edit art), Lit ''</button>'', Lit ''</div>'', Lit ''</div>'', Lit ''</div>'']\<close>

section \<open>State\<close>

text \<open>A card on the page; a later drawing of the grid makes new ones.\<close>

record entry_card =
  ec_id :: nat
  ec_entry :: conn_entry
  ec_connecting :: bool

record lwin =
  lw_id :: nat
  lw_conn :: string
  lw_placeholder :: bool
  lw_sid :: string

record start_body =
  sb_command :: string
  sb_args :: "string list"
  sb_mode :: string
  sb_config :: string
  sb_name :: "string option"

record start_dialog =
  sd_shown :: bool
  sd_err :: "string option"
  sd_conn :: string
  sd_config :: string
  sd_name :: string
  sd_cmd :: string
  sd_mode :: string

text \<open>Who started a session: a card (with its number) or the dialog.\<close>

datatype origin = FromCard nat | FromDialog

record launch =
  la_term :: bool
  la_lang :: string
  la_wins :: "lwin list"
  la_count :: nat
  la_front :: "nat option"
  la_waiting :: "(nat \<times> string \<times> origin) list"
  la_posts :: "start_body list"
  la_conns :: "conn_entry list"
  la_cards :: "entry_card list"
  la_drawn :: nat
  la_banner :: string
  la_mem :: "(string \<times> string) option"
  la_dialog :: start_dialog

section \<open>The grid and its banner\<close>

definition rememberConnBanner :: "(string \<times> string) option \<Rightarrow> launch \<Rightarrow> launch" where
  "rememberConnBanner m l = l\<lparr>la_mem := m\<rparr>"

definition connBannerText :: "(string \<Rightarrow> translate) \<Rightarrow> launch \<Rightarrow> string" where
  "connBannerText msgs l =
     (if la_banner l = [] then []
      else (case la_mem l of None \<Rightarrow> [] | Some (k, msg) \<Rightarrow> msgs (la_lang l) k (Some [(''msg'', msg)])))"

definition setLoadBanner :: "string \<Rightarrow> launch \<Rightarrow> launch" where
  "setLoadBanner msg l = l\<lparr>la_banner := msg\<rparr>"

definition new_cards :: "nat \<Rightarrow> conn_entry list \<Rightarrow> entry_card list" where
  "new_cards n cs = map (\<lambda>(i, c). \<lparr>ec_id = i, ec_entry = c, ec_connecting = False\<rparr>) (enumerate n cs)"

definition renderConnGrid :: "(string \<Rightarrow> string \<Rightarrow> int) \<Rightarrow> conn_entry list \<Rightarrow> string \<Rightarrow> launch \<Rightarrow> launch" where
  "renderConnGrid lc cs msg l =
     (let sorted = conn_sort lc cs
      in (setLoadBanner msg l)\<lparr>la_cards := new_cards (la_drawn l) sorted, la_drawn := la_drawn l + length sorted\<rparr>)"

text \<open>The list the page keeps is the array that was drawn, so it is sorted in place. Entries pushed with a
  list of sessions are drawn without being kept.\<close>

definition loadConnections :: "(string \<Rightarrow> translate) \<Rightarrow> (string \<Rightarrow> string \<Rightarrow> int) \<Rightarrow> string + conn_entry list \<Rightarrow> launch \<Rightarrow> launch" where
  "loadConnections msgs lc r l =
     (case r of
        Inr cs \<Rightarrow> renderConnGrid lc cs [] (rememberConnBanner None (l\<lparr>la_conns := conn_sort lc cs\<rparr>))
      | Inl msg \<Rightarrow> renderConnGrid lc [] (msgs (la_lang l) ''banner.entries.failed'' (Some [(''msg'', msg)]))
                     (rememberConnBanner (Some (''banner.entries.failed'', msg)) (l\<lparr>la_conns := []\<rparr>)))"

definition connections_pushed :: "(string \<Rightarrow> string \<Rightarrow> int) \<Rightarrow> conn_entry list \<Rightarrow> launch \<Rightarrow> launch" where
  "connections_pushed lc cs l = renderConnGrid lc cs [] l"

definition entries_lang :: "(string \<Rightarrow> translate) \<Rightarrow> (string \<Rightarrow> string \<Rightarrow> int) \<Rightarrow> string \<Rightarrow> launch \<Rightarrow> launch" where
  "entries_lang msgs lc lang l0 = (let l = l0\<lparr>la_lang := lang\<rparr>
      in (renderConnGrid lc (la_conns l) (connBannerText msgs l) l)\<lparr>la_conns := conn_sort lc (la_conns l)\<rparr>)"

definition set_connecting :: "nat \<Rightarrow> bool \<Rightarrow> launch \<Rightarrow> launch" where
  "set_connecting n b l = l\<lparr>la_cards := map (\<lambda>c. if ec_id c = n then c\<lparr>ec_connecting := b\<rparr> else c) (la_cards l)\<rparr>"

section \<open>Starting a session\<close>

definition getPendingShellWindowForConn :: "string \<Rightarrow> launch \<Rightarrow> lwin option" where
  "getPendingShellWindowForConn conn l =
     (if conn = [] then None else find (\<lambda>w. lw_placeholder w \<and> lw_conn w = conn) (la_wins l))"

definition openPendingShellWindow :: "string \<Rightarrow> launch \<Rightarrow> launch" where
  "openPendingShellWindow conn l =
     l\<lparr>la_count := Suc (la_count l), la_front := Some (Suc (la_count l)),
       la_wins := la_wins l @ [\<lparr>lw_id = Suc (la_count l), lw_conn = conn, lw_placeholder = True, lw_sid = []\<rparr>]\<rparr>"

text \<open>A session that has a window already is only raised.\<close>

definition openShellWindow :: "string \<Rightarrow> launch \<Rightarrow> launch" where
  "openShellWindow sid l =
     (if \<not> la_term l then l
      else (case find (\<lambda>w. lw_sid w = sid) (la_wins l) of
              Some w \<Rightarrow> l\<lparr>la_front := Some (lw_id w)\<rparr>
            | None \<Rightarrow>
                l\<lparr>la_count := Suc (la_count l), la_front := Some (Suc (la_count l)),
                  la_wins := la_wins l @ [\<lparr>lw_id = Suc (la_count l), lw_conn = [], lw_placeholder = False, lw_sid = sid\<rparr>]\<rparr>))"

definition finalizePending :: "nat \<Rightarrow> string \<Rightarrow> launch \<Rightarrow> launch" where
  "finalizePending n sid l =
     l\<lparr>la_wins := map (\<lambda>w. if lw_id w = n then w\<lparr>lw_placeholder := False, lw_conn := [], lw_sid := sid\<rparr> else w) (la_wins l)\<rparr>"

definition remove_lwin :: "nat \<Rightarrow> launch \<Rightarrow> launch" where
  "remove_lwin n l = l\<lparr>la_wins := filter (\<lambda>w. lw_id w \<noteq> n) (la_wins l)\<rparr>"

text \<open>The two callers' handlers of a promise that was kept or broken; a card ignores an abort.\<close>

definition start_kept :: "origin \<Rightarrow> launch \<Rightarrow> launch" where
  "start_kept g l = (case g of FromCard n \<Rightarrow> set_connecting n False l | FromDialog \<Rightarrow> l)"

definition start_broken :: "(string \<Rightarrow> translate) \<Rightarrow> origin \<Rightarrow> bool \<Rightarrow> string \<Rightarrow> launch \<Rightarrow> launch" where
  "start_broken msgs g aborted msg l =
     (case g of
        FromCard n \<Rightarrow>
          set_connecting n False
            (if aborted then l
             else setLoadBanner (msgs (la_lang l) ''banner.conn.failed'' (Some [(''msg'', msg)])) (rememberConnBanner (Some (''banner.conn.failed'', msg)) l))
      | FromDialog \<Rightarrow> l\<lparr>la_dialog := (la_dialog l)\<lparr>sd_err := Some msg, sd_shown := True\<rparr>\<rparr>)"

definition start_request :: "string \<Rightarrow> string \<Rightarrow> string \<Rightarrow> string option \<Rightarrow> start_body" where
  "start_request conn command mode name =
     \<lparr>sb_command = command, sb_args = [], sb_mode = mode, sb_config = conn,
      sb_name = (case name of Some n \<Rightarrow> if n \<noteq> [] then Some n else if conn \<noteq> [] then Some conn else None
                 | None \<Rightarrow> if conn \<noteq> [] then Some conn else None)\<rparr>"

definition startSessionAndOpenShell ::
    "(string \<Rightarrow> translate) \<Rightarrow> string \<Rightarrow> origin \<Rightarrow> string \<Rightarrow> string \<Rightarrow> string option \<Rightarrow> launch \<Rightarrow> launch" where
  "startSessionAndOpenShell msgs conn g command mode name l =
     (case getPendingShellWindowForConn conn l of
        Some w \<Rightarrow> start_kept g (l\<lparr>la_front := Some (lw_id w)\<rparr>)
      | None \<Rightarrow>
          if \<not> la_term l then start_broken msgs g False ''Could not open terminal window'' l
          else (openPendingShellWindow conn l)
                 \<lparr>la_waiting := la_waiting l @ [(Suc (la_count l), conn, g)], la_posts := la_posts l @ [start_request conn command mode name]\<rparr>)"

definition has_win :: "nat \<Rightarrow> launch \<Rightarrow> bool" where
  "has_win n l = list_ex (\<lambda>w. lw_id w = n) (la_wins l)"

definition start_failed :: "(string \<Rightarrow> translate) \<Rightarrow> nat \<Rightarrow> origin \<Rightarrow> string \<Rightarrow> launch \<Rightarrow> launch" where
  "start_failed msgs n g msg l =
     start_broken msgs g False msg
       (if list_ex (\<lambda>w. lw_id w = n \<and> lw_placeholder w) (la_wins l) then remove_lwin n l else l)"

text \<open>The answer: \<open>Inr\<close> the new session's identifier (empty when it is missing), \<open>Inl\<close> the error text.\<close>

definition start_answer :: "(string \<Rightarrow> translate) \<Rightarrow> nat \<Rightarrow> string + string \<Rightarrow> launch \<Rightarrow> launch" where
  "start_answer msgs i r l0 =
     (case la_waiting l0 ! i of (n, conn, g) \<Rightarrow>
        (let l = l0\<lparr>la_waiting := take i (la_waiting l0) @ drop (Suc i) (la_waiting l0)\<rparr>
         in case r of
              Inl msg \<Rightarrow> start_failed msgs n g msg l
            | Inr sid \<Rightarrow>
                if sid = [] then start_failed msgs n g ''No session_id in response'' l
                else start_kept g (if has_win n l then finalizePending n sid l else openShellWindow sid l)))"

text \<open>Closing a window that waits aborts its request; the promise is broken with the abort error.\<close>

definition close_pending :: "(string \<Rightarrow> translate) \<Rightarrow> string \<Rightarrow> nat \<Rightarrow> launch \<Rightarrow> launch" where
  "close_pending msgs abort n l =
     (let l1 = (remove_lwin n l)\<lparr>la_waiting := filter (\<lambda>(m, c, g). m \<noteq> n) (la_waiting l)\<rparr>
      in foldl (\<lambda>k (m, c, g). start_broken msgs g True abort k) l1 (filter (\<lambda>(m, c, g). m = n) (la_waiting l)))"

section \<open>Cards and dialog\<close>

definition card_connect :: "(string \<Rightarrow> translate) \<Rightarrow> entry_card \<Rightarrow> launch \<Rightarrow> launch" where
  "card_connect msgs c l =
     startSessionAndOpenShell msgs (ce_name (ec_entry c)) (FromCard (ec_id c)) [] [] None
       (set_connecting (ec_id c) True (rememberConnBanner None (setLoadBanner [] l)))"

definition openStartModal :: "string \<Rightarrow> launch \<Rightarrow> launch" where
  "openStartModal conn l =
     l\<lparr>la_dialog := \<lparr>sd_shown = True, sd_err = None, sd_conn = conn, sd_config = conn, sd_name = conn, sd_cmd = [], sd_mode = ''pty''\<rparr>\<rparr>"

definition start_run :: "(string \<Rightarrow> translate) \<Rightarrow> launch \<Rightarrow> launch" where
  "start_run msgs l =
     (let d = la_dialog l; nm = js_trim (sd_name d)
      in startSessionAndOpenShell msgs (or_str (sd_config d) (sd_conn d)) FromDialog (js_trim (sd_cmd d)) (sd_mode d)
           (if nm = [] then None else Some nm) (l\<lparr>la_dialog := d\<lparr>sd_err := None, sd_shown := False\<rparr>\<rparr>))"

datatype la_event =
  LLoad "string + conn_entry list"
| LPushed "conn_entry list"
| LLang string
| LDismiss
| LCard nat
| LQuick nat
| LName string
| LCmd string
| LMode string
| LCloseDialog
| LRun
| LAnswer nat "string + string"
| LClosePending nat
| LGone nat
| LShow string

definition la_enabled :: "launch \<Rightarrow> la_event \<Rightarrow> bool" where
  "la_enabled l e =
     (case e of
        LCard i \<Rightarrow> i < length (la_cards l)
      | LQuick i \<Rightarrow> i < length (la_cards l)
      | LRun \<Rightarrow> sd_shown (la_dialog l)
      | LAnswer i r \<Rightarrow> i < length (la_waiting l)
      | LClosePending n \<Rightarrow> list_ex (\<lambda>w. lw_id w = n \<and> lw_placeholder w) (la_wins l)
      | LGone n \<Rightarrow> list_all (\<lambda>w. lw_id w = n \<longrightarrow> \<not> lw_placeholder w) (la_wins l)
      | LShow sid \<Rightarrow> sid \<noteq> []
      | _ \<Rightarrow> True)"

definition la_step :: "(string \<Rightarrow> translate) \<Rightarrow> (string \<Rightarrow> string \<Rightarrow> int) \<Rightarrow> string \<Rightarrow> launch \<Rightarrow> la_event \<Rightarrow> launch" where
  "la_step msgs lc abort l e =
     (case e of
        LLoad r \<Rightarrow> loadConnections msgs lc r l
      | LPushed cs \<Rightarrow> connections_pushed lc cs l
      | LLang lang \<Rightarrow> entries_lang msgs lc lang l
      | LDismiss \<Rightarrow> setLoadBanner [] l
      | LCard i \<Rightarrow> card_connect msgs (la_cards l ! i) l
      | LQuick i \<Rightarrow> openStartModal (ce_name (ec_entry (la_cards l ! i))) l
      | LName s \<Rightarrow> l\<lparr>la_dialog := (la_dialog l)\<lparr>sd_name := s\<rparr>\<rparr>
      | LCmd s \<Rightarrow> l\<lparr>la_dialog := (la_dialog l)\<lparr>sd_cmd := s\<rparr>\<rparr>
      | LMode s \<Rightarrow> l\<lparr>la_dialog := (la_dialog l)\<lparr>sd_mode := s\<rparr>\<rparr>
      | LCloseDialog \<Rightarrow> l\<lparr>la_dialog := (la_dialog l)\<lparr>sd_shown := False\<rparr>\<rparr>
      | LRun \<Rightarrow> start_run msgs l
      | LAnswer i r \<Rightarrow> start_answer msgs i r l
      | LClosePending n \<Rightarrow> close_pending msgs abort n l
      | LGone n \<Rightarrow> remove_lwin n l
      | LShow sid \<Rightarrow> openShellWindow sid l)"

definition la_start :: "bool \<Rightarrow> string \<Rightarrow> launch" where
  "la_start xterm lang =
     \<lparr>la_term = xterm, la_lang = lang, la_wins = [], la_count = 0, la_front = None, la_waiting = [], la_posts = [], la_conns = [],
      la_cards = [], la_drawn = 0, la_banner = [], la_mem = None,
      la_dialog = \<lparr>sd_shown = False, sd_err = None, sd_conn = [], sd_config = [], sd_name = [], sd_cmd = [], sd_mode = ''pty''\<rparr>\<rparr>"

section \<open>Invariant\<close>

definition pending :: "lwin list \<Rightarrow> (nat \<times> string) list" where
  "pending ws = map (\<lambda>w. (lw_id w, lw_conn w)) (filter lw_placeholder ws)"

definition awaited :: "(nat \<times> string \<times> origin) list \<Rightarrow> (nat \<times> string) list" where
  "awaited q = map (\<lambda>(n, c, g). (n, c)) q"

definition lwins_ok :: "launch \<Rightarrow> bool" where
  "lwins_ok l \<longleftrightarrow> distinct (map lw_id (la_wins l)) \<and> (\<forall>w \<in> set (la_wins l). lw_id w \<le> la_count l \<and> lw_placeholder w = (lw_sid w = [])) \<and>
     awaited (la_waiting l) = pending (la_wins l) \<and> distinct (filter (\<lambda>c. c \<noteq> []) (map snd (pending (la_wins l))))"

definition banner_ok :: "(string \<Rightarrow> translate) \<Rightarrow> launch \<Rightarrow> bool" where
  "banner_ok msgs l \<longleftrightarrow> la_banner l = [] \<or> (\<exists>k m. la_mem l = Some (k, m) \<and> la_banner l = msgs (la_lang l) k (Some [(''msg'', m)]))"

lemma lwins_cong: "la_wins m = la_wins l \<Longrightarrow> la_waiting m = la_waiting l \<Longrightarrow> la_count m = la_count l \<Longrightarrow> lwins_ok m = lwins_ok l"
  by (simp add: lwins_ok_def)

lemma banner_cong: "la_banner m = la_banner l \<Longrightarrow> la_mem m = la_mem l \<Longrightarrow> la_lang m = la_lang l \<Longrightarrow> banner_ok msgs m = banner_ok msgs l"
  by (simp add: banner_ok_def)

lemma win_frame [simp]:
  "la_wins (set_connecting n b l) = la_wins l" "la_waiting (set_connecting n b l) = la_waiting l" "la_count (set_connecting n b l) = la_count l"
  "la_wins (rememberConnBanner m l) = la_wins l" "la_waiting (rememberConnBanner m l) = la_waiting l" "la_count (rememberConnBanner m l) = la_count l"
  "la_wins (setLoadBanner s l) = la_wins l" "la_waiting (setLoadBanner s l) = la_waiting l" "la_count (setLoadBanner s l) = la_count l"
  "la_wins (renderConnGrid lc cs s l) = la_wins l" "la_waiting (renderConnGrid lc cs s l) = la_waiting l" "la_count (renderConnGrid lc cs s l) = la_count l"
  by (simp_all add: set_connecting_def rememberConnBanner_def setLoadBanner_def renderConnGrid_def Let_def)

lemma settle_frame [simp]:
  "la_wins (start_kept g l) = la_wins l" "la_waiting (start_kept g l) = la_waiting l" "la_count (start_kept g l) = la_count l"
  "la_wins (start_broken msgs g a m l) = la_wins l" "la_waiting (start_broken msgs g a m l) = la_waiting l" "la_count (start_broken msgs g a m l) = la_count l"
  by (simp_all add: start_kept_def start_broken_def split: origin.split)

lemma banner_frame [simp]:
  "la_banner (set_connecting n b l) = la_banner l" "la_mem (set_connecting n b l) = la_mem l" "la_lang (set_connecting n b l) = la_lang l"
  "la_banner (remove_lwin n l) = la_banner l" "la_mem (remove_lwin n l) = la_mem l" "la_lang (remove_lwin n l) = la_lang l"
  "la_banner (start_kept g l) = la_banner l" "la_mem (start_kept g l) = la_mem l" "la_lang (start_kept g l) = la_lang l"
  by (simp_all add: set_connecting_def remove_lwin_def start_kept_def split: origin.split)

lemma banner_broken: "banner_ok msgs l \<Longrightarrow> banner_ok msgs (start_broken msgs g a m l)"
  by (auto simp: start_broken_def banner_ok_def setLoadBanner_def rememberConnBanner_def split: origin.split)

lemma filter_other: "distinct (map f (a @ x # b)) \<Longrightarrow> filter (\<lambda>y. f y \<noteq> f x) (a @ x # b) = a @ b"
proof -
  assume "distinct (map f (a @ x # b))"
  then have "\<forall>y \<in> set a. f y \<noteq> f x" "\<forall>y \<in> set b. f y \<noteq> f x" by (auto simp: image_iff)
  then have "filter (\<lambda>y. f y \<noteq> f x) a = a" "filter (\<lambda>y. f y \<noteq> f x) b = b" by (simp_all add: filter_id_conv)
  then show ?thesis by simp
qed

lemma drop_filter:
  assumes "distinct (map f xs)" and "i < length xs"
  shows "take i xs @ drop (Suc i) xs = filter (\<lambda>x. f x \<noteq> f (xs ! i)) xs"
  using filter_other [of f "take i xs" "xs ! i" "drop (Suc i) xs"] assms by (simp only: id_take_nth_drop [OF assms(2), symmetric])

lemma pending_ids: "distinct (map lw_id ws) \<Longrightarrow> distinct (map fst (pending ws))"
  by (simp add: pending_def o_def distinct_map inj_on_def)

lemma pending_remove: "pending (filter (\<lambda>w. lw_id w \<noteq> n) ws) = filter (\<lambda>x. fst x \<noteq> n) (pending ws)"
  by (induction ws) (auto simp: pending_def)

lemma pending_finalize:
  "sid \<noteq> [] \<Longrightarrow> pending (map (\<lambda>w. if lw_id w = n then w\<lparr>lw_placeholder := False, lw_conn := [], lw_sid := sid\<rparr> else w) ws) = filter (\<lambda>x. fst x \<noteq> n) (pending ws)"
  by (induction ws) (auto simp: pending_def)

lemma awaited_filter: "awaited (filter (\<lambda>x. fst x \<noteq> n) q) = filter (\<lambda>x. fst x \<noteq> n) (awaited q)"
  by (induction q) (auto simp: awaited_def)

lemma distinct_sub: "distinct (filter P (map snd xs)) \<Longrightarrow> distinct (filter P (map snd (filter Q xs)))"
  by (induction xs) force+

lemma awaited_fst: "map fst (awaited q) = map fst q"
  by (induction q) (auto simp: awaited_def)

lemma drop_waiting:
  assumes "lwins_ok l" and "i < length (la_waiting l)"
  shows "take i (la_waiting l) @ drop (Suc i) (la_waiting l) = filter (\<lambda>x. fst x \<noteq> fst (la_waiting l ! i)) (la_waiting l)"
proof (rule drop_filter [OF _ assms(2)])
  have "map fst (la_waiting l) = map fst (pending (la_wins l))" using assms(1) by (metis awaited_fst lwins_ok_def)
  then show "distinct (map fst (la_waiting l))" using assms(1) pending_ids by (metis lwins_ok_def)
qed

text \<open>The window of a request is gone or settled together with the request.\<close>

lemma lwins_removed:
  assumes "lwins_ok l"
  shows "lwins_ok (l\<lparr>la_wins := filter (\<lambda>w. lw_id w \<noteq> n) (la_wins l), la_waiting := filter (\<lambda>x. fst x \<noteq> n) (la_waiting l)\<rparr>)"
  using assms unfolding lwins_ok_def by (auto simp: pending_remove awaited_filter distinct_map_filter distinct_sub)

lemma lwins_finalized:
  assumes "lwins_ok l" and "sid \<noteq> []"
  shows "lwins_ok (l\<lparr>la_wins := map (\<lambda>w. if lw_id w = n then w\<lparr>lw_placeholder := False, lw_conn := [], lw_sid := sid\<rparr> else w) (la_wins l),
      la_waiting := filter (\<lambda>x. fst x \<noteq> n) (la_waiting l)\<rparr>)"
proof -
  let ?g = "\<lambda>w. if lw_id w = n then w\<lparr>lw_placeholder := False, lw_conn := [], lw_sid := sid\<rparr> else w"
  have "map lw_id (map ?g (la_wins l)) = map lw_id (la_wins l)" by simp
  then show ?thesis using assms unfolding lwins_ok_def
    by (auto simp: pending_finalize [OF assms(2)] awaited_filter distinct_sub simp del: map_map)
qed

lemma lwins_pending:
  assumes "lwins_ok l" and "getPendingShellWindowForConn conn l = None"
  shows "lwins_ok ((openPendingShellWindow conn l)\<lparr>la_waiting := la_waiting l @ [(Suc (la_count l), conn, g)]\<rparr>)"
proof -
  have "conn \<noteq> [] \<longrightarrow> conn \<notin> set (map snd (pending (la_wins l)))"
    using assms(2) by (auto simp: getPendingShellWindowForConn_def find_None_iff pending_def)
  moreover have "Suc (la_count l) \<notin> set (map lw_id (la_wins l))" using assms(1) by (auto simp: lwins_ok_def)
  ultimately show ?thesis using assms(1) unfolding lwins_ok_def
    by (auto simp: openPendingShellWindow_def pending_def awaited_def)
qed

lemma lwins_opened: "lwins_ok l \<Longrightarrow> sid \<noteq> [] \<Longrightarrow> lwins_ok (openShellWindow sid l)"
  unfolding lwins_ok_def by (auto simp: openShellWindow_def pending_def split: option.split)

lemma awaited_placeholder:
  assumes "lwins_ok l" and "i < length (la_waiting l)" and "la_waiting l ! i = (n, conn, g)"
  shows "\<exists>w \<in> set (la_wins l). lw_id w = n \<and> lw_placeholder w \<and> lw_conn w = conn"
proof -
  have "(n, conn) \<in> set (awaited (la_waiting l))" using assms(2,3) by (force simp: awaited_def in_set_conv_nth)
  then show ?thesis using assms(1) by (auto simp: lwins_ok_def pending_def)
qed

text \<open>What an answer makes of the windows, with the request looked up once.\<close>

lemma start_answer_ok:
  assumes "lwins_ok l" and "i < length (la_waiting l)" and "la_waiting l ! i = (n, conn, g)" and "sid \<noteq> []"
  shows "start_answer msgs i (Inr sid) l = start_kept g (finalizePending n sid (l\<lparr>la_waiting := filter (\<lambda>x. fst x \<noteq> n) (la_waiting l)\<rparr>))"
proof -
  have "has_win n (l\<lparr>la_waiting := filter (\<lambda>x. fst x \<noteq> n) (la_waiting l)\<rparr>)"
    using awaited_placeholder [OF assms(1-3)] by (auto simp: has_win_def list_ex_iff)
  then show ?thesis using drop_waiting [OF assms(1,2)] assms(3,4) by (simp add: start_answer_def)
qed

definition start_error :: "string + string \<Rightarrow> string" where
  "start_error r = (case r of Inl msg \<Rightarrow> msg | Inr sid \<Rightarrow> ''No session_id in response'')"

lemma start_answer_failed:
  assumes "lwins_ok l" and "i < length (la_waiting l)" and "la_waiting l ! i = (n, conn, g)" and "r = Inr [] \<or> r = Inl msg"
  shows "start_answer msgs i r l =
    start_broken msgs g False (start_error r) (l\<lparr>la_waiting := filter (\<lambda>x. fst x \<noteq> n) (la_waiting l), la_wins := filter (\<lambda>w. lw_id w \<noteq> n) (la_wins l)\<rparr>)"
proof -
  have "list_ex (\<lambda>w. lw_id w = n \<and> lw_placeholder w) (la_wins l)"
    using awaited_placeholder [OF assms(1-3)] by (auto simp: list_ex_iff)
  then show ?thesis using drop_waiting [OF assms(1,2)] assms(3,4)
    by (auto simp: start_answer_def start_failed_def start_error_def remove_lwin_def)
qed

lemma broken_fold: "la_wins (foldl (\<lambda>k (m, c, g). start_broken msgs g a s k) l xs) = la_wins l"
  "la_waiting (foldl (\<lambda>k (m, c, g). start_broken msgs g a s k) l xs) = la_waiting l"
  "la_count (foldl (\<lambda>k (m, c, g). start_broken msgs g a s k) l xs) = la_count l"
  by (induction xs arbitrary: l) auto

lemma banner_fold: "banner_ok msgs l \<Longrightarrow> banner_ok msgs (foldl (\<lambda>k (m, c, g). start_broken msgs g a s k) l xs)"
  by (induction xs arbitrary: l) (auto intro: banner_broken)

lemma lwins_start: "lwins_ok l \<Longrightarrow> lwins_ok (startSessionAndOpenShell msgs conn g c m nm l)"
proof (cases "getPendingShellWindowForConn conn l")
  case None
  assume l: "lwins_ok l"
  have "lwins_ok ((openPendingShellWindow conn l)\<lparr>la_waiting := la_waiting l @ [(Suc (la_count l), conn, g)], la_posts := ps\<rparr>)" for ps
    using lwins_pending [OF l None, of g] by (simp add: lwins_ok_def)
  moreover have "lwins_ok (start_broken msgs g False s l)" for s using l lwins_cong [of "start_broken msgs g False s l" l] by simp
  ultimately show ?thesis by (simp add: startSessionAndOpenShell_def None)
next
  case (Some w)
  assume "lwins_ok l"
  then show ?thesis using lwins_cong [of "start_kept g (l\<lparr>la_front := Some (lw_id w)\<rparr>)" l] by (simp add: startSessionAndOpenShell_def Some)
qed

lemma banner_start: "banner_ok msgs l \<Longrightarrow> banner_ok msgs (startSessionAndOpenShell msgs conn g c m nm l)"
proof (cases "getPendingShellWindowForConn conn l")
  case None
  assume l: "banner_ok msgs l"
  have "banner_ok msgs ((openPendingShellWindow conn l)\<lparr>la_waiting := q, la_posts := ps\<rparr>)" for q ps
    using l by (simp add: openPendingShellWindow_def banner_ok_def)
  then show ?thesis using banner_broken [OF l] by (simp add: startSessionAndOpenShell_def None)
next
  case (Some w)
  assume "banner_ok msgs l"
  then show ?thesis by (simp add: startSessionAndOpenShell_def Some banner_ok_def)
qed

lemma lwins_answer: "lwins_ok l \<Longrightarrow> i < length (la_waiting l) \<Longrightarrow> lwins_ok (start_answer msgs i r l)"
proof -
  assume l: "lwins_ok l" and i: "i < length (la_waiting l)"
  obtain n conn g where q: "la_waiting l ! i = (n, conn, g)" by (cases "la_waiting l ! i") auto
  show ?thesis
  proof (cases "r = Inr [] \<or> (\<exists>msg. r = Inl msg)")
    case True
    then obtain msg where r: "r = Inr [] \<or> r = Inl msg" by blast
    show ?thesis unfolding start_answer_failed [OF l i q r] using lwins_removed [OF l, of n] by (simp add: lwins_ok_def)
  next
    case False
    then obtain sid where r: "r = Inr sid" "sid \<noteq> []" by (cases r) auto
    show ?thesis unfolding r(1) start_answer_ok [OF l i q r(2)] using lwins_finalized [OF l r(2), of n] by (simp add: lwins_ok_def finalizePending_def)
  qed
qed

lemma banner_answer: "banner_ok msgs l \<Longrightarrow> banner_ok msgs (start_answer msgs i r l)"
proof -
  assume l: "banner_ok msgs l"
  then have f: "banner_ok msgs (start_failed msgs n g m (l\<lparr>la_waiting := q\<rparr>))" for n g m q
    unfolding start_failed_def by (intro banner_broken) (simp add: banner_ok_def)
  show ?thesis using l f
    by (auto simp: start_answer_def Let_def banner_ok_def start_kept_def finalizePending_def openShellWindow_def split: prod.split sum.split origin.split option.split)
qed

lemma lwins_gone:
  assumes "lwins_ok l" and "\<forall>w \<in> set (la_wins l). lw_id w = n \<longrightarrow> \<not> lw_placeholder w"
  shows "lwins_ok (remove_lwin n l)"
proof -
  have "\<forall>x \<in> set (pending (la_wins l)). fst x \<noteq> n" using assms(2) by (auto simp: pending_def)
  then have "pending (filter (\<lambda>w. lw_id w \<noteq> n) (la_wins l)) = pending (la_wins l)" by (simp add: pending_remove filter_id_conv)
  then show ?thesis using assms(1) by (simp add: lwins_ok_def remove_lwin_def distinct_map_filter)
qed

lemma lwins_close: "lwins_ok l \<Longrightarrow> lwins_ok (close_pending msgs abort n l)"
proof -
  have e: "filter (\<lambda>(m, c, g). m \<noteq> n) q = filter (\<lambda>x. fst x \<noteq> n) q" for q :: "(nat \<times> string \<times> origin) list" by (simp add: case_prod_beta')
  assume "lwins_ok l"
  from lwins_removed [OF this, of n] show ?thesis
    by (simp add: close_pending_def Let_def lwins_ok_def broken_fold remove_lwin_def e)
qed

lemma lwins_grid: "lwins_ok (renderConnGrid lc cs s l) = lwins_ok l" "lwins_ok (rememberConnBanner m l) = lwins_ok l"
  "lwins_ok (setLoadBanner s l) = lwins_ok l" "lwins_ok (set_connecting n b l) = lwins_ok l" "lwins_ok (l\<lparr>la_dialog := d\<rparr>) = lwins_ok l"
  "lwins_ok (l\<lparr>la_lang := g\<rparr>) = lwins_ok l" "lwins_ok (l\<lparr>la_conns := cs\<rparr>) = lwins_ok l"
  by (simp_all add: lwins_ok_def)

lemma lwins_step: "lwins_ok l \<Longrightarrow> la_enabled l e \<Longrightarrow> lwins_ok (la_step msgs lc abort l e)"
  by (cases e) (auto simp: la_step_def la_enabled_def loadConnections_def connections_pushed_def entries_lang_def card_connect_def openStartModal_def start_run_def
      Let_def lwins_grid list_all_iff split: sum.split intro!: lwins_start lwins_answer lwins_close lwins_gone lwins_opened)

lemma banner_remember:
  "banner_ok msgs (renderConnGrid lc cs [] l)" "banner_ok msgs (setLoadBanner [] l)"
  "banner_ok msgs (l\<lparr>la_dialog := d\<rparr>) = banner_ok msgs l" "banner_ok msgs (set_connecting n b l) = banner_ok msgs l"
  "banner_ok msgs (rememberConnBanner None (setLoadBanner [] l))"
  "banner_ok msgs (remove_lwin n l) = banner_ok msgs l" "banner_ok msgs (openShellWindow sid l) = banner_ok msgs l"
  by (simp_all add: banner_ok_def renderConnGrid_def setLoadBanner_def rememberConnBanner_def openShellWindow_def Let_def split: option.split)

lemma banner_failed:
  "banner_ok msgs (renderConnGrid lc cs (msgs (la_lang l) k (Some [(''msg'', m)])) (rememberConnBanner (Some (k, m)) (l\<lparr>la_conns := js\<rparr>)))"
  by (auto simp: banner_ok_def renderConnGrid_def setLoadBanner_def rememberConnBanner_def Let_def)

lemma banner_lang: "banner_ok msgs (entries_lang msgs lc lang l)"
  by (auto simp: banner_ok_def entries_lang_def connBannerText_def renderConnGrid_def setLoadBanner_def Let_def split: option.split)

lemma banner_close: "banner_ok msgs l \<Longrightarrow> banner_ok msgs (close_pending msgs abort n l)"
  unfolding close_pending_def Let_def by (rule banner_fold) (simp add: banner_ok_def)

lemma banner_step: "banner_ok msgs l \<Longrightarrow> banner_ok msgs (la_step msgs lc abort l e)"
  by (cases e) (auto simp: la_step_def loadConnections_def connections_pushed_def card_connect_def openStartModal_def start_run_def Let_def banner_remember banner_failed
      split: sum.split intro!: banner_start banner_answer banner_close banner_lang)

interpretation la: guarded_machine "la_start xterm lang" "la_step msgs lc abort" "\<lambda>l. lwins_ok l \<and> banner_ok msgs l" la_enabled
  for xterm lang msgs lc abort
  by unfold_locales (auto intro: lwins_step banner_step, auto simp: la_start_def lwins_ok_def banner_ok_def awaited_def pending_def)

section \<open>Properties\<close>

text \<open>C21: A connection is dialled once. In every reachable state the requests on their way and the windows
  that wait correspond one to one and in order, no two of them are for the same connection, and a
  window without a session is one that waits. However often a card is clicked, there is one
  request for it.\<close>

theorem one_pending_per_connection:
  assumes "la.reach xterm lang msgs lc abort l"
  shows "map (\<lambda>(n, conn, g). (n, conn)) (la_waiting l) = map (\<lambda>w. (lw_id w, lw_conn w)) (filter lw_placeholder (la_wins l)) \<and>
    distinct (filter (\<lambda>c. c \<noteq> []) (map (\<lambda>(n, conn, g). conn) (la_waiting l))) \<and>
    (\<forall>w \<in> set (la_wins l). lw_placeholder w = (lw_sid w = []))"
proof -
  have w: "lwins_ok l" using la.reach_inv [OF assms] by blast
  have "map snd (awaited q) = map (\<lambda>(n, conn, g). conn) q" for q by (induction q) (auto simp: awaited_def)
  then show ?thesis using w unfolding lwins_ok_def by (metis awaited_def pending_def)
qed

definition sample_entry :: conn_entry where
  "sample_entry = \<lparr>ce_name = ''web'', ce_kind = ''ssh'', ce_user = ''u'', ce_host = ''h'', ce_port = 22, ce_approval = False\<rparr>"

definition sample_launch :: launch where
  "sample_launch = foldl (la_step (\<lambda>g k p. k) (\<lambda>a b. 0) ''aborted'') (la_start True ''en'') [LLoad (Inr [sample_entry]), LCard 0]"

lemmas la_eval = la_step_def la_enabled_def Let_def loadConnections_def renderConnGrid_def conn_sort_def new_cards_def enumerate_eq_zip
  card_connect_def startSessionAndOpenShell_def getPendingShellWindowForConn_def openPendingShellWindow_def set_connecting_def
  rememberConnBanner_def setLoadBanner_def start_request_def start_kept_def la_start_def sample_entry_def

lemma sample_launch_reach: "la.reach True ''en'' (\<lambda>g k p. k) (\<lambda>a b. 0) ''aborted'' sample_launch"
  unfolding sample_launch_def by (rule la.reach_run [OF la.reach.init]) (simp add: la_eval)

lemma sample_launch_facts:
  "la_waiting sample_launch = [(1, ''web'', FromCard 0)]" "la_wins sample_launch = [\<lparr>lw_id = 1, lw_conn = ''web'', lw_placeholder = True, lw_sid = []\<rparr>]"
  "la_lang sample_launch = ''en''" "length (la_cards sample_launch) = 1" "length (la_posts sample_launch) = 1"
  unfolding sample_launch_def by (simp_all add: la_eval)

theorem one_pending_per_connection_witness:
  "map (\<lambda>(n, conn, g). conn) (la_waiting sample_launch) = [''web''] \<and>
   map (\<lambda>(n, conn, g). (n, conn)) (la_waiting sample_launch) = map (\<lambda>w. (lw_id w, lw_conn w)) (filter lw_placeholder (la_wins sample_launch))"
  using one_pending_per_connection [OF sample_launch_reach] by (simp add: sample_launch_facts)

text \<open>C22: Every start is settled by its answer. Afterwards the request is gone and its window waits no
  longer: with a session identifier the window belongs to that session; with an error, or without
  an identifier, the window is closed and the error is shown where the start came from, in the
  banner or in the reopened dialog.\<close>

theorem start_settles:
  assumes r: "la.reach xterm lang msgs lc abort l" and i: "i < length (la_waiting l)" and q: "la_waiting l ! i = (n, conn, g)"
    and l': "l' = la_step msgs lc abort l (LAnswer i ans)"
  shows "n \<notin> fst ` set (la_waiting l') \<and> (\<forall>w \<in> set (la_wins l'). lw_id w = n \<longrightarrow> \<not> lw_placeholder w) \<and>
    (if \<exists>sid. ans = Inr sid \<and> sid \<noteq> [] then \<exists>w \<in> set (la_wins l'). lw_id w = n \<and> ans = Inr (lw_sid w)
     else (\<forall>w \<in> set (la_wins l'). lw_id w \<noteq> n) \<and>
       (case g of FromDialog \<Rightarrow> sd_shown (la_dialog l') \<and> sd_err (la_dialog l') = Some (start_error ans)
        | FromCard k \<Rightarrow> la_banner l' = msgs (la_lang l) ''banner.conn.failed'' (Some [(''msg'', start_error ans)])))"
proof -
  have w: "lwins_ok l" using la.reach_inv [OF r] by blast
  have step: "l' = start_answer msgs i ans l" by (simp add: l' la_step_def)
  show ?thesis
  proof (cases "\<exists>sid. ans = Inr sid \<and> sid \<noteq> []")
    case True
    then obtain sid where s: "ans = Inr sid" "sid \<noteq> []" by blast
    obtain v where v: "v \<in> set (la_wins l)" "lw_id v = n" using awaited_placeholder [OF w i q] by blast
    have e: "la_wins l' = map (\<lambda>w. if lw_id w = n then w\<lparr>lw_placeholder := False, lw_conn := [], lw_sid := sid\<rparr> else w) (la_wins l)"
      "la_waiting l' = filter (\<lambda>x. fst x \<noteq> n) (la_waiting l)"
      unfolding step s(1) start_answer_ok [OF w i q s(2)] by (simp_all add: finalizePending_def)
    define v' where "v' = v\<lparr>lw_placeholder := False, lw_conn := [], lw_sid := sid\<rparr>"
    have "v' \<in> set (la_wins l')" unfolding e(1) set_map using v by (intro image_eqI [of _ _ v]) (simp_all add: v'_def)
    then have x: "\<exists>w \<in> set (la_wins l'). lw_id w = n \<and> ans = Inr (lw_sid w)"
      using v(2) s(1) by (intro bexI [of _ v']) (simp_all add: v'_def)
    have p: "\<forall>w \<in> set (la_wins l'). lw_id w = n \<longrightarrow> \<not> lw_placeholder w"
    proof (intro ballI impI)
      fix w
      assume "w \<in> set (la_wins l')" and n: "lw_id w = n"
      then obtain u where "w = (if lw_id u = n then u\<lparr>lw_placeholder := False, lw_conn := [], lw_sid := sid\<rparr> else u)"
        unfolding e(1) set_map by blast
      then show "\<not> lw_placeholder w" using n by (cases "lw_id u = n") simp_all
    qed
    have "n \<notin> fst ` set (la_waiting l')" unfolding e(2) by auto
    then show ?thesis using True x p by (simp only: if_True simp_thms)
  next
    case False
    then obtain msg where a: "ans = Inr [] \<or> ans = Inl msg" by (cases ans) auto
    have e: "la_wins l' = filter (\<lambda>w. lw_id w \<noteq> n) (la_wins l)" "la_waiting l' = filter (\<lambda>x. fst x \<noteq> n) (la_waiting l)"
      unfolding step start_answer_failed [OF w i q a] by simp_all
    have "case g of FromDialog \<Rightarrow> sd_shown (la_dialog l') \<and> sd_err (la_dialog l') = Some (start_error ans)
        | FromCard k \<Rightarrow> la_banner l' = msgs (la_lang l) ''banner.conn.failed'' (Some [(''msg'', start_error ans)])"
      unfolding step start_answer_failed [OF w i q a]
      by (simp add: start_broken_def setLoadBanner_def rememberConnBanner_def split: origin.split)
    then show ?thesis using False unfolding e by auto
  qed
qed

theorem start_settles_witness:
  "la_banner (la_step (\<lambda>g k p. k) (\<lambda>a b. 0) ''aborted'' sample_launch (LAnswer 0 (Inl ''refused''))) = ''banner.conn.failed''"
  using start_settles [OF sample_launch_reach _ _ refl, of 0 1 "''web''" "FromCard 0" "Inl ''refused''"] by (simp add: sample_launch_facts)

text \<open>The banner over the entries keeps its message through a change of language: whatever happened
  before, after the change it shows the remembered message in the new language, and it is
  shown exactly when it was shown before and that message is not empty.\<close>

theorem banner_follows_language:
  assumes "la.reach xterm lang msgs lc abort l"
  shows "la_banner (la_step msgs lc abort l (LLang new)) =
    (if la_banner l = [] then [] else (case la_mem l of None \<Rightarrow> [] | Some (k, m) \<Rightarrow> msgs new k (Some [(''msg'', m)]))) \<and>
    (la_banner l \<noteq> [] \<longrightarrow> (\<exists>k m. la_mem l = Some (k, m) \<and> la_banner l = msgs (la_lang l) k (Some [(''msg'', m)])))"
proof -
  have "banner_ok msgs l" using la.reach_inv [OF assms] by blast
  then show ?thesis by (auto simp: la_step_def entries_lang_def renderConnGrid_def setLoadBanner_def connBannerText_def banner_ok_def Let_def)
qed

lemma failed_load_reach: "la.reach True ''en'' (\<lambda>g k p. g) (\<lambda>a b. 0) ''aborted''
    (foldl (la_step (\<lambda>g k p. g) (\<lambda>a b. 0) ''aborted'') (la_start True ''en'') [LLoad (Inl ''down'')])"
  by (rule la.reach_run [OF la.reach.init]) (simp add: la_enabled_def)

theorem banner_follows_language_witness:
  "la_banner (la_step (\<lambda>g k p. g) (\<lambda>a b. 0) ''aborted''
     (foldl (la_step (\<lambda>g k p. g) (\<lambda>a b. 0) ''aborted'') (la_start True ''en'') [LLoad (Inl ''down'')]) (LLang ''de'')) = ''de''"
  using banner_follows_language [OF failed_load_reach, of "''de''"] by (simp add: la_eval)

text \<open>The cards are the entries in the order of the comparison, the built-in entry first.\<close>

lemma conn_insert_mset: "mset (conn_insert lc x ys) = add_mset x (mset ys)"
  by (induction lc x ys rule: conn_insert.induct) auto

lemma conn_sort_mset: "mset (conn_sort lc cs) = mset cs"
  by (induction cs) (simp_all add: conn_sort_def conn_insert_mset)

lemma conn_insert_sorted:
  assumes total: "\<And>a b. lc a b \<le> 0 \<or> lc b a \<le> 0" and trans: "\<And>a b c. lc a b \<le> 0 \<Longrightarrow> lc b c \<le> 0 \<Longrightarrow> lc a c \<le> 0"
  shows "sorted_wrt (\<lambda>a b. conn_cmp lc a b \<le> 0) ys \<Longrightarrow> sorted_wrt (\<lambda>a b. conn_cmp lc a b \<le> 0) (conn_insert lc x ys)"
proof (induction ys)
  case (Cons y ys)
  have tr: "conn_cmp lc a b \<le> 0 \<Longrightarrow> conn_cmp lc b c \<le> 0 \<Longrightarrow> conn_cmp lc a c \<le> 0" for a b c
    using trans by (auto simp: conn_cmp_def split: if_splits)
  have to: "\<not> conn_cmp lc a b \<le> 0 \<Longrightarrow> conn_cmp lc b a \<le> 0" for a b
    using total by (auto simp: conn_cmp_def split: if_splits)
  have m: "set (conn_insert lc x ys) = insert x (set ys)" by (metis conn_insert_mset set_mset_add_mset_insert set_mset_mset)
  show ?case
  proof (cases "conn_cmp lc x y \<le> 0")
    case True
    then have "\<forall>z \<in> set ys. conn_cmp lc x z \<le> 0" using Cons.prems by (auto intro: tr [OF True])
    then show ?thesis using True Cons.prems by simp
  next
    case False
    then have "\<forall>z \<in> set (conn_insert lc x ys). conn_cmp lc y z \<le> 0" using Cons.prems to by (simp add: m)
    then show ?thesis using False Cons by simp
  qed
qed simp

theorem entries_sorted:
  assumes "\<And>a b. lc a b \<le> 0 \<or> lc b a \<le> 0" and "\<And>a b c. lc a b \<le> 0 \<Longrightarrow> lc b c \<le> 0 \<Longrightarrow> lc a c \<le> 0"
  shows "mset (map ec_entry (la_cards (renderConnGrid lc cs msg l))) = mset cs \<and>
    sorted_wrt (\<lambda>a b. conn_cmp lc a b \<le> 0) (map ec_entry (la_cards (renderConnGrid lc cs msg l)))"
proof -
  have "map ec_entry (la_cards (renderConnGrid lc cs msg l)) = conn_sort lc cs"
    by (simp add: renderConnGrid_def new_cards_def Let_def case_prod_beta' o_def map_snd_enumerate)
  moreover have "sorted_wrt (\<lambda>a b. conn_cmp lc a b \<le> 0) (conn_sort lc cs)"
  proof (induction cs)
    case (Cons c cs)
    have "sorted_wrt (\<lambda>a b. conn_cmp lc a b \<le> 0) (conn_insert lc c (conn_sort lc cs))"
      by (rule conn_insert_sorted [OF _ _ Cons.IH]) (fact assms)+
    then show ?case by (simp add: conn_sort_def)
  qed (simp add: conn_sort_def)
  ultimately show ?thesis by (simp add: conn_sort_mset)
qed

text \<open>No name of a profile can add markup to its card.\<close>

lemma card_markup:
  assumes "ce_kind c = ce_kind c'" and "ce_approval c = ce_approval c'"
  shows "markup (html.render (card_frags art c)) = markup (html.render (card_frags art c'))"
  unfolding html.markup_render card_frags_def skeleton_append markup_simps assms
  by (cases "ce_approval c'") (simp_all only: html.skeleton_def list.map frag.case concat.simps append_Nil if_True if_False)

text \<open>The findings. Entries that arrive with a list of sessions are not kept: the next change of language
  brings the cards of the last request back.\<close>

lemma pushed_entries_revert:
  "map ec_entry (la_cards (foldl (la_step msgs lc abort) l [LPushed cs, LLang new])) = conn_sort lc (la_conns l)"
  by (simp add: la_step_def connections_pushed_def entries_lang_def renderConnGrid_def setLoadBanner_def new_cards_def Let_def case_prod_beta' o_def
      map_snd_enumerate)

text \<open>The dialog posts its command line whole, without splitting it.\<close>

lemma dialog_command_unsplit:
  assumes "la_waiting l = []" and "la_term l" and "lwins_ok l"
  shows "\<exists>b. la_posts (start_run msgs l) = la_posts l @ [b] \<and> sb_command b = js_trim (sd_cmd (la_dialog l)) \<and> sb_args b = []"
proof -
  have "pending (la_wins l) = []" using assms(1,3) by (simp add: lwins_ok_def awaited_def)
  then have "getPendingShellWindowForConn c (l\<lparr>la_dialog := d\<rparr>) = None" for c d
    by (auto simp: getPendingShellWindowForConn_def pending_def filter_empty_conv find_None_iff)
  then show ?thesis using assms(2) by (simp add: start_run_def startSessionAndOpenShell_def start_request_def Let_def)
qed

text \<open>While a connection is dialled, a start of the same connection from the dialog is dropped with its
  command, and the dialog closes without a word.\<close>

lemma pending_swallows_start:
  assumes "getPendingShellWindowForConn (or_str (sd_config (la_dialog l)) (sd_conn (la_dialog l))) l = Some w"
  shows "la_posts (start_run msgs l) = la_posts l" and "\<not> sd_shown (la_dialog (start_run msgs l))" and "sd_err (la_dialog (start_run msgs l)) = None"
proof -
  have "getPendingShellWindowForConn (or_str (sd_config (la_dialog l)) (sd_conn (la_dialog l))) (l\<lparr>la_dialog := d\<rparr>) = Some w" for d
    using assms by (simp add: getPendingShellWindowForConn_def split: if_splits)
  then show "la_posts (start_run msgs l) = la_posts l" "\<not> sd_shown (la_dialog (start_run msgs l))" "sd_err (la_dialog (start_run msgs l)) = None"
    by (simp_all add: start_run_def startSessionAndOpenShell_def start_kept_def Let_def)
qed

text \<open>A second click on a card that is connecting takes its mark away although the first still waits.\<close>

lemma second_click_unmarks:
  "map ec_connecting (la_cards sample_launch) = [True] \<and>
   map ec_connecting (la_cards (la_step (\<lambda>g k p. k) (\<lambda>a b. 0) ''aborted'' sample_launch (LCard 0))) = [False] \<and>
   la_waiting (la_step (\<lambda>g k p. k) (\<lambda>a b. 0) ''aborted'' sample_launch (LCard 0)) = la_waiting sample_launch"
  unfolding sample_launch_def by (simp add: la_eval)

text \<open>Closing a waiting window that the dialog started reopens the dialog with the abort as an error.\<close>

lemma abort_reopens_dialog:
  assumes "la_waiting l = [(n, conn, FromDialog)]"
  shows "sd_shown (la_dialog (close_pending msgs abort n l)) \<and> sd_err (la_dialog (close_pending msgs abort n l)) = Some abort"
  using assms by (simp add: close_pending_def start_broken_def Let_def)

end
