(* ===== verification/Dialogs.thy ===== *)
theory Dialogs
  imports Approval Channels
begin

text \<open>
  The dialogs shared by the page (\<open>dialogs.js\<close>) and the ways to open another shell in a window
  (\<open>terminal-view.js\<close>): the confirmation, the command prompt, the menu of the add button, and the
  request that creates a shell channel. Both dialogs are one node each; a call replaces the buttons
  by clones, so the handlers of an earlier call are gone, while the prompt's input keeps its
  listeners until they are removed. Windows are those of \<open>Channels\<close>; a handler holds its window even
  after that was closed, so windows are never taken off the list here.
\<close>

section \<open>Leaving the page\<close>

text \<open>The text for \<open>beforeunload\<close>, empty when the page may go.\<close>

definition pageHasLiveState :: "translate \<Rightarrow> 'w list \<Rightarrow> string" where
  "pageHasLiveState t wins =
     (let n = length wins
      in if n > 0 then t (if n = 1 then ''msg.leave.windows.one'' else ''msg.leave.windows.other'') (Some [(''count'', show_nat n)]) else [])"

definition beforeunload :: "translate \<Rightarrow> 'w list \<Rightarrow> string option" where
  "beforeunload t wins =
     (let live = pageHasLiveState t wins in if live = [] then None else Some (t ''msg.leave.detail'' (Some [(''windows'', live)])))"

section \<open>The confirmation\<close>

record confirm_opts =
  co_title :: string
  co_message :: string
  co_okText :: string
  co_danger :: bool

text \<open>What the dialog shows, the calls so far, the call whose handlers are on the buttons, and the
  answers given: the call, the answer and the message that was on screen.\<close>

record confirm_box =
  cf_shown :: bool
  cf_title :: string
  cf_msg :: string
  cf_ok :: string
  cf_danger :: bool
  cf_asked :: "confirm_opts list"
  cf_current :: "nat option"
  cf_answers :: "(nat \<times> bool \<times> string) list"

definition confirmDialog :: "translate \<Rightarrow> confirm_opts \<Rightarrow> confirm_box \<Rightarrow> confirm_box" where
  "confirmDialog t opts c =
     c\<lparr>cf_title := or_str (co_title opts) (t ''common.confirm'' None), cf_msg := co_message opts,
       cf_ok := or_str (co_okText opts) (t ''common.ok'' None), cf_danger := co_danger opts,
       cf_asked := cf_asked c @ [opts], cf_current := Some (length (cf_asked c)), cf_shown := True\<rparr>"

definition confirm_done :: "bool \<Rightarrow> confirm_box \<Rightarrow> confirm_box" where
  "confirm_done v c =
     (case cf_current c of
        None \<Rightarrow> c
      | Some n \<Rightarrow> c\<lparr>cf_shown := False, cf_current := None, cf_answers := cf_answers c @ [(n, v, cf_msg c)]\<rparr>)"

datatype cf_event = Ask confirm_opts | PressOk | PressCancel

definition cf_enabled :: "confirm_box \<Rightarrow> cf_event \<Rightarrow> bool" where
  "cf_enabled c e = (case e of Ask opts \<Rightarrow> True | _ \<Rightarrow> cf_shown c)"

definition cf_step :: "translate \<Rightarrow> confirm_box \<Rightarrow> cf_event \<Rightarrow> confirm_box" where
  "cf_step t c e = (case e of Ask opts \<Rightarrow> confirmDialog t opts c | PressOk \<Rightarrow> confirm_done True c | PressCancel \<Rightarrow> confirm_done False c)"

definition cf_start :: confirm_box where
  "cf_start = \<lparr>cf_shown = False, cf_title = [], cf_msg = [], cf_ok = [], cf_danger = False, cf_asked = [], cf_current = None, cf_answers = []\<rparr>"

section \<open>State of the prompt and the menu\<close>

text \<open>A call of the prompt: its number, and the window and mode its action was made for.\<close>

record pcall =
  pc_id :: nat
  pc_win :: nat
  pc_mode :: string
  pc_required :: bool

record prompt_box =
  pb_shown :: bool
  pb_title :: string
  pb_input :: string
  pb_err :: "string option"
  pb_button :: "pcall option"
  pb_keys :: "pcall list"

text \<open>The body of the request: command and arguments are left out when there are none.\<close>

record new_shell =
  ns_session :: string
  ns_mode :: string
  ns_command :: "string option"
  ns_args :: "string list option"

text \<open>A caret: its window, and whether it is the one of the footer or of the empty state.\<close>

type_synonym caret = "nat \<times> bool"

record dialogs =
  dg_wins :: "(nat \<times> cwin) list"
  dg_prompt :: prompt_box
  dg_calls :: nat
  dg_menu :: "caret option"
  dg_active :: "caret list"
  dg_timers :: nat
  dg_listening :: bool
  dg_posts :: "(nat option \<times> new_shell) list"
  dg_wait :: "nat list"
  dg_toasts :: "string list"

definition dwin :: "nat \<Rightarrow> dialogs \<Rightarrow> cwin option" where
  "dwin n d = map_of (dg_wins d) n"

section \<open>Creating a channel\<close>

text \<open>\<open>by\<close> is the call of the prompt that submitted the line, if one did.\<close>

definition shell_body :: "string \<Rightarrow> string \<Rightarrow> string \<Rightarrow> new_shell" where
  "shell_body sid mode command =
     (let argv = splitCommandLine (js_trim command)
      in \<lparr>ns_session = sid, ns_mode = or_str mode ''pty'', ns_command = (if argv = [] then None else Some (hd argv)),
          ns_args = (if length argv > 1 then Some (List.tl argv) else None)\<rparr>)"

definition createChannel :: "nat option \<Rightarrow> nat \<Rightarrow> string \<Rightarrow> string \<Rightarrow> dialogs \<Rightarrow> dialogs" where
  "createChannel by n mode command d =
     (case dwin n d of
        None \<Rightarrow> d
      | Some w \<Rightarrow>
          if c_parentSid w = [] \<or> c_readOnly w then d
          else d\<lparr>dg_posts := dg_posts d @ [(by, shell_body (c_parentSid w) mode command)], dg_wait := dg_wait d @ [n]\<rparr>)"

text \<open>The answer: the shell's identifier (or the session's, when that is all there is), or the error text.\<close>

definition channel_created :: "translate \<Rightarrow> nat \<Rightarrow> string + string \<times> string \<Rightarrow> dialogs \<Rightarrow> dialogs" where
  "channel_created t n r d =
     (case r of
        Inr (shell, session) \<Rightarrow>
          d\<lparr>dg_wins := map (\<lambda>(m, w). (m, if m = n then createChannelTab (or_str shell session) [] False w else w)) (dg_wins d)\<rparr>
      | Inl msg \<Rightarrow> d\<lparr>dg_toasts := dg_toasts d @ [t ''channel.add.failed'' (Some [(''msg'', js_trim msg)])]\<rparr>)"

definition addChannelClick :: "nat \<Rightarrow> dialogs \<Rightarrow> dialogs" where
  "addChannelClick n d = createChannel None n ''pty'' [] d"

section \<open>The prompt\<close>

definition openCommandPrompt :: "translate \<Rightarrow> string \<Rightarrow> nat \<Rightarrow> string \<Rightarrow> bool \<Rightarrow> dialogs \<Rightarrow> dialogs" where
  "openCommandPrompt t title n mode required d =
     (let c = \<lparr>pc_id = dg_calls d, pc_win = n, pc_mode = mode, pc_required = required\<rparr>
      in d\<lparr>dg_calls := Suc (dg_calls d),
           dg_prompt := \<lparr>pb_shown = True, pb_title = or_str title (t ''channel.cmd.titlePty'' None), pb_input = [], pb_err = None,
                         pb_button = Some c, pb_keys = pb_keys (dg_prompt d) @ [c]\<rparr>\<rparr>)"

definition close_prompt :: "pcall \<Rightarrow> dialogs \<Rightarrow> dialogs" where
  "close_prompt c d = d\<lparr>dg_prompt := (dg_prompt d)\<lparr>pb_shown := False, pb_keys := filter (\<lambda>k. k \<noteq> c) (pb_keys (dg_prompt d))\<rparr>\<rparr>"

definition submit_prompt :: "translate \<Rightarrow> pcall \<Rightarrow> dialogs \<Rightarrow> dialogs" where
  "submit_prompt t c d =
     (let v = js_trim (pb_input (dg_prompt d))
      in if v = [] \<and> pc_required c then d\<lparr>dg_prompt := (dg_prompt d)\<lparr>pb_err := Some (t ''channel.cmd.required'' None)\<rparr>\<rparr>
         else createChannel (Some (pc_id c)) (pc_win c) (pc_mode c) v (close_prompt c d))"

definition promptChannelCommand :: "translate \<Rightarrow> nat \<Rightarrow> string \<Rightarrow> dialogs \<Rightarrow> dialogs" where
  "promptChannelCommand t n mode d =
     openCommandPrompt t (if mode = ''pipe'' then t ''channel.cmd.titlePipe'' None else t ''channel.cmd.titlePty'' None) n mode (mode = ''pipe'') d"

section \<open>The menu\<close>

definition closeChannelAddMenu :: "dialogs \<Rightarrow> dialogs" where
  "closeChannelAddMenu d = d\<lparr>dg_menu := None, dg_listening := False, dg_active := []\<rparr>"

text \<open>The listeners that close the menu are attached by a timer.\<close>

definition openChannelAddMenu :: "caret \<Rightarrow> dialogs \<Rightarrow> dialogs" where
  "openChannelAddMenu a d =
     (case dwin (fst a) d of
        None \<Rightarrow> d
      | Some w \<Rightarrow>
          if c_parentSid w = [] \<or> c_readOnly w then d
          else (let d1 = (if dg_menu d \<noteq> None then closeChannelAddMenu d else d)
                in if dg_menu d \<noteq> None \<and> map_option fst (dg_menu d) = Some (fst a) then d1
                   else d1\<lparr>dg_menu := Some a, dg_timers := Suc (dg_timers d1), dg_active := dg_active d1 @ [a]\<rparr>))"

definition add_modes :: "string list" where
  "add_modes = [''pty'', ''pipe'']"

datatype dg_event =
  DPlus nat
| DCaret caret
| DTimer
| DOutside
| DEscape
| DResize
| DItem nat
| DType string
| DRun
| DEnter
| DCancel
| DAnswer nat "string + string \<times> string"
| DWindow nat cwin

definition dg_enabled :: "dialogs \<Rightarrow> dg_event \<Rightarrow> bool" where
  "dg_enabled d e =
     (case e of
        DTimer \<Rightarrow> dg_timers d > 0
      | DItem i \<Rightarrow> dg_menu d \<noteq> None \<and> i < length add_modes \<and> \<not> pb_shown (dg_prompt d)
      | DRun \<Rightarrow> pb_shown (dg_prompt d)
      | DEnter \<Rightarrow> pb_shown (dg_prompt d)
      | DCancel \<Rightarrow> pb_shown (dg_prompt d)
      | DAnswer i r \<Rightarrow> i < length (dg_wait d)
      | _ \<Rightarrow> True)"

definition dg_step :: "translate \<Rightarrow> dialogs \<Rightarrow> dg_event \<Rightarrow> dialogs" where
  "dg_step t d e =
     (case e of
        DPlus n \<Rightarrow> addChannelClick n d
      | DCaret a \<Rightarrow> openChannelAddMenu a d
      | DTimer \<Rightarrow> d\<lparr>dg_timers := dg_timers d - 1, dg_listening := True\<rparr>
      | DOutside \<Rightarrow> if dg_listening d \<and> dg_menu d \<noteq> None then closeChannelAddMenu d else d
      | DEscape \<Rightarrow> if dg_listening d then closeChannelAddMenu d else d
      | DResize \<Rightarrow> if dg_listening d then closeChannelAddMenu d else d
      | DItem i \<Rightarrow> (case dg_menu d of None \<Rightarrow> d | Some a \<Rightarrow> promptChannelCommand t (fst a) (add_modes ! i) (closeChannelAddMenu d))
      | DType s \<Rightarrow> d\<lparr>dg_prompt := (dg_prompt d)\<lparr>pb_input := s\<rparr>\<rparr>
      | DRun \<Rightarrow> (case pb_button (dg_prompt d) of None \<Rightarrow> d | Some c \<Rightarrow> submit_prompt t c d)
      | DEnter \<Rightarrow> foldl (\<lambda>d c. submit_prompt t c d) d (pb_keys (dg_prompt d))
      | DCancel \<Rightarrow> (case pb_button (dg_prompt d) of None \<Rightarrow> d | Some c \<Rightarrow> close_prompt c d)
      | DAnswer i r \<Rightarrow> channel_created t (dg_wait d ! i) r (d\<lparr>dg_wait := take i (dg_wait d) @ drop (Suc i) (dg_wait d)\<rparr>)
      | DWindow n w \<Rightarrow> d\<lparr>dg_wins := (n, w) # filter (\<lambda>(m, v). m \<noteq> n) (dg_wins d)\<rparr>)"

definition dg_start :: dialogs where
  "dg_start =
     \<lparr>dg_wins = [], dg_prompt = \<lparr>pb_shown = False, pb_title = [], pb_input = [], pb_err = None, pb_button = None, pb_keys = []\<rparr>,
      dg_calls = 0, dg_menu = None, dg_active = [], dg_timers = 0, dg_listening = False, dg_posts = [], dg_wait = [], dg_toasts = []\<rparr>"

section \<open>The confirmation: invariant\<close>

definition cf_inv :: "confirm_box \<Rightarrow> bool" where
  "cf_inv c \<longleftrightarrow>
     (cf_shown c = (cf_current c \<noteq> None)) \<and>
     (\<forall>n. cf_current c = Some n \<longrightarrow> Suc n = length (cf_asked c) \<and> n \<notin> fst ` set (cf_answers c) \<and> cf_msg c = co_message (cf_asked c ! n)) \<and>
     distinct (map fst (cf_answers c)) \<and>
     (\<forall>(n, v, m) \<in> set (cf_answers c). n < length (cf_asked c) \<and> m = co_message (cf_asked c ! n))"

lemma cf_inv_ask: "cf_inv c \<Longrightarrow> cf_inv (confirmDialog t opts c)"
  by (fastforce simp: cf_inv_def confirmDialog_def nth_append)

lemma cf_inv_done: "cf_inv c \<Longrightarrow> cf_inv (confirm_done v c)"
  by (auto simp: cf_inv_def confirm_done_def split: option.split)

interpretation cf: guarded_machine cf_start "cf_step t" cf_inv cf_enabled for t
  by unfold_locales (auto simp: cf_step_def intro: cf_inv_ask cf_inv_done split: cf_event.split, simp add: cf_inv_def cf_start_def)

text \<open>C25: A confirmation is answered at most once, and for the question that was on screen. However calls
  and clicks follow each other, no call is answered twice, and with every answer goes the
  message of the very call that receives it.\<close>

theorem confirm_answers_its_question:
  assumes "cf.reach t c"
  shows "distinct (map fst (cf_answers c)) \<and>
    (\<forall>(n, v, shown) \<in> set (cf_answers c). n < length (cf_asked c) \<and> shown = co_message (cf_asked c ! n)) \<and>
    cf_shown c = (\<exists>n. cf_current c = Some n \<and> Suc n = length (cf_asked c) \<and> n \<notin> fst ` set (cf_answers c))"
  using cf.reach_inv [OF assms] unfolding cf_inv_def by auto

definition sample_question :: confirm_opts where
  "sample_question = \<lparr>co_title = [], co_message = ''Delete?'', co_okText = [], co_danger = True\<rparr>"

lemma sample_confirm_reach: "cf.reach (\<lambda>k p. k) (foldl (cf_step (\<lambda>k p. k)) cf_start [Ask sample_question, PressOk])"
  by (rule cf.reach_run [OF cf.reach.init]) (simp add: cf_enabled_def cf_step_def confirmDialog_def)

theorem confirm_answers_its_question_witness:
  "cf_answers (foldl (cf_step (\<lambda>k p. k)) cf_start [Ask sample_question, PressOk]) = [(0, True, ''Delete?'')] \<and>
   distinct (map fst (cf_answers (foldl (cf_step (\<lambda>k p. k)) cf_start [Ask sample_question, PressOk])))"
  using confirm_answers_its_question [OF sample_confirm_reach]
  by (simp add: cf_step_def confirmDialog_def confirm_done_def cf_start_def sample_question_def)

text \<open>A second call before the first is answered takes the buttons: the first is never answered.\<close>

lemma overlapping_call_orphaned:
  "cf_answers (foldl (cf_step t) cf_start [Ask a, Ask b, PressOk]) = [(1, True, co_message b)] \<and>
   \<not> cf_shown (foldl (cf_step t) cf_start [Ask a, Ask b, PressOk])"
  by (simp add: cf_step_def confirmDialog_def confirm_done_def cf_start_def)

section \<open>The prompt and the menu: invariant\<close>

lemma split_started: "started \<or> out \<noteq> [] \<Longrightarrow> split_loop out cur q started line \<noteq> []"
proof (induction line arbitrary: out cur q started)
  case Nil
  then show ?case by (cases started) simp_all
next
  case (Cons c line)
  define A where "A = (c = DQ \<or> c = CHR 0x27 \<or> c = CHR 0x60)"
  define B where "B = (c = CHR '' '' \<or> c = TAB)"
  show ?case
    using Cons unfolding split_loop.simps A_def [symmetric] B_def [symmetric]
    by (cases q; cases A; cases B; cases started) simp_all
qed

lemma split_trimmed: "js_trim v \<noteq> [] \<Longrightarrow> splitCommandLine (js_trim v) \<noteq> []"
proof -
  assume ne: "js_trim v \<noteq> []"
  then obtain c s where cs: "js_trim v = c # s" by (cases "js_trim v") auto
  have "\<not> js_ws c" using js_trim_ends [OF ne] cs by simp
  then have "c \<noteq> CHR '' ''" "c \<noteq> TAB" by (auto simp: js_ws_def TAB_def)
  then show ?thesis using split_started unfolding splitCommandLine_def cs by simp
qed

definition posted :: "(nat option \<times> new_shell) list \<Rightarrow> nat list" where
  "posted ps = List.map_filter fst ps"

definition post_ok :: "nat option \<times> new_shell \<Rightarrow> bool" where
  "post_ok p \<longleftrightarrow> ns_session (snd p) \<noteq> [] \<and> (ns_mode (snd p) = ''pipe'' \<longrightarrow> ns_command (snd p) \<noteq> None) \<and>
     (fst p = None \<longrightarrow> ns_command (snd p) = None)"

definition dg_inv :: "dialogs \<Rightarrow> bool" where
  "dg_inv d \<longleftrightarrow>
     dg_active d = (case dg_menu d of None \<Rightarrow> [] | Some a \<Rightarrow> [a]) \<and>
     (if pb_shown (dg_prompt d)
      then \<exists>c. pb_button (dg_prompt d) = Some c \<and> pb_keys (dg_prompt d) = [c] \<and> pc_id c < dg_calls d \<and> pc_id c \<notin> set (posted (dg_posts d)) \<and>
             pc_required c = (pc_mode c = ''pipe'') \<and> pc_mode c \<in> set add_modes
      else pb_keys (dg_prompt d) = []) \<and>
     distinct (posted (dg_posts d)) \<and> (\<forall>n \<in> set (posted (dg_posts d)). n < dg_calls d) \<and> (\<forall>p \<in> set (dg_posts d). post_ok p)"

lemma posted_simps [simp]: "posted [] = []" "posted (ps @ [(None, b)]) = posted ps" "posted (ps @ [(Some n, b)]) = posted ps @ [n]"
  by (simp_all add: posted_def map_filter_def)

lemma body_facts: "ns_session (shell_body sid mode v) = sid" "ns_mode (shell_body sid mode v) = or_str mode ''pty''"
  "js_trim v \<noteq> [] \<Longrightarrow> ns_command (shell_body sid mode v) \<noteq> None" "ns_command (shell_body sid mode []) = None"
  using split_trimmed [of v] by (simp_all add: shell_body_def Let_def splitCommandLine_def)

lemma create_frame [simp]:
  "dg_menu (createChannel by n m v d) = dg_menu d" "dg_active (createChannel by n m v d) = dg_active d"
  "dg_prompt (createChannel by n m v d) = dg_prompt d" "dg_calls (createChannel by n m v d) = dg_calls d"
  by (simp_all add: createChannel_def split: option.split)

lemma create_posts:
  "dg_posts (createChannel by n m v d) = dg_posts d \<or>
   (\<exists>sid. sid \<noteq> [] \<and> dg_posts (createChannel by n m v d) = dg_posts d @ [(by, shell_body sid m v)])"
  by (auto simp: createChannel_def split: option.split)

lemma inv_plus: "dg_inv d \<Longrightarrow> dg_inv (createChannel None n ''pty'' [] d)"
proof -
  have "post_ok (None, shell_body sid ''pty'' [])" if "sid \<noteq> []" for sid
    using that by (simp add: post_ok_def body_facts or_str_def)
  then show "dg_inv d \<Longrightarrow> ?thesis" using create_posts [of None n "''pty''" "[]" d] by (auto simp: dg_inv_def)
qed

lemma inv_closed_prompt:
  assumes "dg_inv d" and "pb_button (dg_prompt d) = Some c" and "pb_shown (dg_prompt d)"
  shows "dg_inv (close_prompt c d)"
  using assms by (auto simp: dg_inv_def close_prompt_def)

lemma inv_submit:
  assumes d: "dg_inv d" and c: "pb_button (dg_prompt d) = Some c" "pb_shown (dg_prompt d)"
  shows "dg_inv (submit_prompt t c d)"
proof -
  let ?v = "js_trim (pb_input (dg_prompt d))" and ?e = "close_prompt c d"
  have facts: "pc_id c < dg_calls d" "pc_id c \<notin> set (posted (dg_posts d))" "pc_required c = (pc_mode c = ''pipe'')" "pc_mode c \<noteq> []"
    using d c by (auto simp: dg_inv_def add_modes_def)
  have e: "dg_inv ?e" "\<not> pb_shown (dg_prompt ?e)" "dg_posts ?e = dg_posts d" "dg_calls ?e = dg_calls d"
    using inv_closed_prompt [OF d c] by (simp_all add: close_prompt_def)
  show ?thesis
  proof (cases "?v = [] \<and> pc_required c")
    case True
    then show ?thesis using d by (auto simp: submit_prompt_def Let_def dg_inv_def)
  next
    case False
    then have p: "post_ok (Some (pc_id c), shell_body sid (pc_mode c) ?v)" if "sid \<noteq> []" for sid
      using that facts(3,4) body_facts(3) [of ?v sid "pc_mode c"] by (auto simp: post_ok_def body_facts(1,2) or_str_def)
    have "dg_inv (createChannel (Some (pc_id c)) (pc_win c) (pc_mode c) ?v ?e)"
      using create_posts [of "Some (pc_id c)" "pc_win c" "pc_mode c" ?v ?e] e facts(1,2) p by (auto simp: dg_inv_def)
    then show ?thesis using False by (auto simp: submit_prompt_def Let_def)
  qed
qed

lemma inv_open: "dg_inv d \<Longrightarrow> \<not> pb_shown (dg_prompt d) \<Longrightarrow> m \<in> set add_modes \<Longrightarrow> dg_inv (promptChannelCommand t n m d)"
  by (auto simp: dg_inv_def promptChannelCommand_def openCommandPrompt_def Let_def)

lemma inv_close_menu: "dg_inv d \<Longrightarrow> dg_inv (closeChannelAddMenu d)"
  by (simp add: dg_inv_def closeChannelAddMenu_def)

lemma inv_open_menu: "dg_inv d \<Longrightarrow> dg_inv (openChannelAddMenu a d)"
  by (auto simp: dg_inv_def openChannelAddMenu_def closeChannelAddMenu_def Let_def split: option.split)

lemma inv_frame: "dg_inv d \<Longrightarrow> dg_menu e = dg_menu d \<Longrightarrow> dg_active e = dg_active d \<Longrightarrow> dg_prompt e = dg_prompt d \<Longrightarrow> dg_calls e = dg_calls d \<Longrightarrow>
    dg_posts e = dg_posts d \<Longrightarrow> dg_inv e"
  by (simp add: dg_inv_def)

lemma inv_created: "dg_inv d \<Longrightarrow> dg_inv (channel_created t n r (d\<lparr>dg_wait := q\<rparr>))"
  by (rule inv_frame [of d]) (auto simp: channel_created_def split: sum.split)

lemma inv_enter: "dg_inv d \<Longrightarrow> pb_shown (dg_prompt d) \<Longrightarrow> dg_inv (foldl (\<lambda>d c. submit_prompt t c d) d (pb_keys (dg_prompt d)))"
proof -
  assume d: "dg_inv d" "pb_shown (dg_prompt d)"
  then obtain c where "pb_button (dg_prompt d) = Some c" "pb_keys (dg_prompt d) = [c]" by (auto simp: dg_inv_def)
  then show ?thesis using inv_submit [OF d(1) _ d(2)] by simp
qed

lemma dg_step_inv: "dg_inv d \<Longrightarrow> dg_enabled d e \<Longrightarrow> dg_inv (dg_step t d e)"
proof (cases e)
  case (DItem i)
  assume d: "dg_inv d" "dg_enabled d e"
  have m: "add_modes ! i \<in> set add_modes" using d(2) by (simp add: DItem dg_enabled_def)
  have "\<not> pb_shown (dg_prompt (closeChannelAddMenu d))" using d(2) by (simp add: DItem dg_enabled_def closeChannelAddMenu_def)
  then show ?thesis using inv_open [OF inv_close_menu [OF d(1)] _ m] d(1) by (simp add: DItem dg_step_def split: option.split)
next
  case (DType s)
  assume "dg_inv d"
  then show ?thesis by (auto simp: DType dg_step_def dg_inv_def)
qed (auto simp: dg_step_def dg_enabled_def addChannelClick_def split: option.split
    intro: inv_plus inv_open_menu inv_close_menu inv_submit inv_closed_prompt inv_created inv_enter inv_frame)

lemma dg_start_inv: "dg_inv dg_start"
  by (simp add: dg_inv_def dg_start_def)

interpretation dg: guarded_machine dg_start "dg_step t" dg_inv dg_enabled for t
  by unfold_locales (auto intro: dg_start_inv dg_step_inv)


definition live_window :: cwin where
  "live_window = \<lparr>c_sid = ''s'', c_parentSid = ''s'', c_primaryShellId = [], c_readOnly = False, c_lockedReadonly = False, c_inputClosed = False,
     c_userReady = False, c_deadBadge = False, c_streamDone = False, c_hasChannels = False, channels = [], channelCount = 0, channelSeq = 0,
     activeChannel = None, dom_tabs = [], empty_shown = True\<rparr>"

definition sample_prompt :: dialogs where
  "sample_prompt = foldl (dg_step (\<lambda>k p. k)) dg_start [DWindow 1 live_window, DCaret (1, True), DTimer, DItem 1]"

lemmas dg_eval = dg_step_def dg_enabled_def openChannelAddMenu_def dwin_def live_window_def closeChannelAddMenu_def promptChannelCommand_def
  openCommandPrompt_def add_modes_def Let_def dg_start_def

lemma sample_prompt_reach: "dg.reach (\<lambda>k p. k) sample_prompt"
  unfolding sample_prompt_def by (rule dg.reach_run [OF dg.reach.init]) (simp add: dg_eval)

lemma sample_prompt_facts: "pb_shown (dg_prompt sample_prompt)" "dg_wins sample_prompt = [(1, live_window)]" "dg_posts sample_prompt = []"
  "pb_button (dg_prompt sample_prompt) = Some \<lparr>pc_id = 0, pc_win = 1, pc_mode = ''pipe'', pc_required = True\<rparr>"
  unfolding sample_prompt_def by (simp_all add: dg_eval)


text \<open>C23: What is typed is what runs. When the prompt is open for a live window and every argument is typed
  in double quotes, pressing enter requests exactly these arguments: the first as the command, the
  others, if any, as its arguments, in the mode and for the session the prompt was opened for, and
  the prompt closes.\<close>

theorem typed_arguments_are_requested:
  assumes reach: "dg.reach t d" and shown: "pb_shown (dg_prompt d)" and c: "pb_button (dg_prompt d) = Some c"
    and w: "map_of (dg_wins d) (pc_win c) = Some w" "c_parentSid w \<noteq> []" "\<not> c_readOnly w"
    and args: "args \<noteq> []" "\<forall>a \<in> set args. DQ \<notin> set a"
    and d': "d' = foldl (dg_step t) d [DType (quote_command args), DEnter]"
  shows "dg_posts d' = dg_posts d @ [(Some (pc_id c), \<lparr>ns_session = c_parentSid w, ns_mode = pc_mode c, ns_command = Some (hd args),
      ns_args = (if List.tl args = [] then None else Some (List.tl args))\<rparr>)] \<and> \<not> pb_shown (dg_prompt d')"
proof -
  have inv: "dg_inv d" by (rule dg.reach_inv [OF reach])
  then have keys: "pb_keys (dg_prompt d) = [c]" and mode: "pc_mode c \<noteq> []" using shown c by (auto simp: dg_inv_def add_modes_def)
  let ?q = "quote_command args"
  have q: "?q \<noteq> []" "hd ?q = DQ" "last ?q = DQ"
  proof -
    have "js_join '' '' (map quote_arg args) \<noteq> [] \<and> hd (js_join '' '' (map quote_arg args)) = DQ \<and> last (js_join '' '' (map quote_arg args)) = DQ"
      using args(1) by (induction args rule: induct_list012) (simp_all add: quote_arg_def)
    then show "?q \<noteq> []" "hd ?q = DQ" "last ?q = DQ" by (simp_all add: quote_command_def)
  qed
  have tr: "js_trim ?q = ?q" by (rule js_trim_id) (simp add: q js_ws_def DQ_def)
  have sp: "splitCommandLine ?q = args" using split_loop_quote_command [OF args(2), of "[]"] by (simp add: splitCommandLine_def quote_command_def)
  let ?d1 = "d\<lparr>dg_prompt := (dg_prompt d)\<lparr>pb_input := ?q\<rparr>\<rparr>"
  have e: "d' = submit_prompt t c ?d1" by (simp add: d' dg_step_def keys)
  also have "\<dots> = createChannel (Some (pc_id c)) (pc_win c) (pc_mode c) ?q (close_prompt c ?d1)"
    by (simp add: submit_prompt_def Let_def tr q(1))
  finally have d'': "d' = createChannel (Some (pc_id c)) (pc_win c) (pc_mode c) ?q (close_prompt c ?d1)" .
  have l: "length args > 1 \<longleftrightarrow> List.tl args \<noteq> []" by (cases args; cases "List.tl args") auto
  have b: "shell_body (c_parentSid w) (pc_mode c) ?q = \<lparr>ns_session = c_parentSid w, ns_mode = pc_mode c, ns_command = Some (hd args),
      ns_args = (if List.tl args = [] then None else Some (List.tl args))\<rparr>"
    using args(1) mode l by (simp add: shell_body_def tr sp or_str_def Let_def)
  show ?thesis unfolding d'' using w b by (simp add: createChannel_def dwin_def close_prompt_def)
qed

theorem typed_arguments_are_requested_witness:
  "map snd (dg_posts (foldl (dg_step (\<lambda>k p. k)) sample_prompt [DType (quote_command [''ls'', ''my dir'']), DEnter])) =
   [\<lparr>ns_session = ''s'', ns_mode = ''pipe'', ns_command = Some ''ls'', ns_args = Some [''my dir'']\<rparr>]"
  using typed_arguments_are_requested [OF sample_prompt_reach sample_prompt_facts(1,4) _ _ _ _ _ refl, of live_window "[''ls'', ''my dir'']"]
  by (simp add: sample_prompt_facts live_window_def DQ_def)

text \<open>The findings. If the prompt is opened again while it is open (the page behind it can still be
  reached with the keyboard), enter submits the line for both calls.\<close>

lemma reopened_prompt_submits_twice:
  assumes "pb_keys (dg_prompt d) = []" and "map_of (dg_wins d) n = Some live_window"
  shows "length (dg_posts (foldl (dg_step t) (openCommandPrompt t [] n ''pty'' False (openCommandPrompt t [] n ''pty'' False d)) [DType ''ls'', DEnter])) =
    length (dg_posts d) + 2"
  using assms by (simp add: dg_step_def openCommandPrompt_def Let_def submit_prompt_def createChannel_def dwin_def close_prompt_def live_window_def)

text \<open>Pressing the add button leaves an open mode menu open: its click is exempt from closing it.\<close>

lemma plus_keeps_menu: "dg_menu (dg_step t d (DPlus n)) = dg_menu d"
  by (simp add: dg_step_def addChannelClick_def)

end
