(* ===== verification/Window_Views.thy ===== *)
theory Window_Views
  imports Windows_Shown
begin

text \<open>
  The windows of the page are kept three times: as boxes on the desk, as channels with their session
  in the hub, and as entries of the launcher. Here is the interface these lists share, how two of
  them stay in step, and that the desk provides it.
\<close>

section \<open>The interface\<close>

locale window_view =
  fixes view :: "'s \<Rightarrow> ('l \<times> string option) list"
    and fresh :: "'s \<Rightarrow> 'l"
    and next_label :: "'l \<Rightarrow> 'l"
    and fine :: "'s \<Rightarrow> bool"
    and show_sid :: "string \<Rightarrow> 's \<Rightarrow> 's"
    and pend :: "'s \<Rightarrow> 's"
    and settle_at :: "nat \<Rightarrow> string \<Rightarrow> 's \<Rightarrow> 's"
    and close_at :: "nat \<Rightarrow> 's \<Rightarrow> 's"
  assumes view_show: "fine s \<Longrightarrow> sid \<noteq> [] \<Longrightarrow>
      view (show_sid sid s) = (if Some sid \<in> snd ` set (view s) then view s else view s @ [(fresh s, Some sid)])"
    and fresh_show: "fine s \<Longrightarrow> sid \<noteq> [] \<Longrightarrow>
      fresh (show_sid sid s) = (if Some sid \<in> snd ` set (view s) then fresh s else next_label (fresh s))"
    and view_pend: "fine s \<Longrightarrow> view (pend s) = view s @ [(fresh s, None)]"
    and fresh_pend: "fine s \<Longrightarrow> fresh (pend s) = next_label (fresh s)"
    and view_settle: "fine s \<Longrightarrow> sid \<noteq> [] \<Longrightarrow> i < length (view s) \<Longrightarrow> snd (view s ! i) = None \<Longrightarrow>
      view (settle_at i sid s) = (view s)[i := (fst (view s ! i), Some sid)]"
    and fresh_settle: "fine s \<Longrightarrow> sid \<noteq> [] \<Longrightarrow> i < length (view s) \<Longrightarrow> snd (view s ! i) = None \<Longrightarrow> fresh (settle_at i sid s) = fresh s"
    and view_close: "fine s \<Longrightarrow> i < length (view s) \<Longrightarrow> view (close_at i s) = drop_at i (view s)"
    and fresh_close: "fine s \<Longrightarrow> i < length (view s) \<Longrightarrow> fresh (close_at i s) = fresh s"

text \<open>Two such views of the same windows; \<open>relabel\<close> forgets what the second does not number.\<close>

locale two_views =
  a: window_view va fa na ka sha pa ta ca + b: window_view vb fb nb kb shb pb tb cb
  for va :: "'a \<Rightarrow> ('l \<times> string option) list" and fa na ka sha pa ta ca
    and vb :: "'b \<Rightarrow> ('m \<times> string option) list" and fb nb kb shb pb tb cb +
  fixes relabel :: "'l \<Rightarrow> 'm"
  assumes relabel_next: "relabel (na l) = nb (relabel l)"
begin

definition agree :: "'a \<Rightarrow> 'b \<Rightarrow> bool" where
  "agree s r \<longleftrightarrow> map (apfst relabel) (va s) = vb r \<and> relabel (fa s) = fb r"

lemma agree_length: "agree s r \<Longrightarrow> length (va s) = length (vb r)"
  unfolding agree_def by (metis length_map)

lemma agree_sids: "agree s r \<Longrightarrow> map snd (va s) = map snd (vb r)"
  unfolding agree_def by (metis (no_types, lifting) comp_apply list.map_comp map_eq_conv snd_apfst)

lemma agree_nth: "agree s r \<Longrightarrow> i < length (va s) \<Longrightarrow> vb r ! i = apfst relabel (va s ! i)"
  unfolding agree_def by (metis nth_map)

lemma agree_show: "agree s r \<Longrightarrow> ka s \<Longrightarrow> kb r \<Longrightarrow> sid \<noteq> [] \<Longrightarrow> agree (sha sid s) (shb sid r)"
proof -
  assume g: "agree s r" and k: "ka s" "kb r" "sid \<noteq> []"
  have "snd ` set (va s) = snd ` set (vb r)" using agree_sids [OF g] by (metis list.set_map)
  then show ?thesis using g k by (simp add: agree_def a.view_show b.view_show a.fresh_show b.fresh_show relabel_next)
qed

lemma agree_pend: "agree s r \<Longrightarrow> ka s \<Longrightarrow> kb r \<Longrightarrow> agree (pa s) (pb r)"
  by (simp add: agree_def a.view_pend b.view_pend a.fresh_pend b.fresh_pend relabel_next)

lemma agree_settle:
  assumes "agree s r" and "ka s" and "kb r" and "sid \<noteq> []" and "i < length (va s)" and "snd (va s ! i) = None"
  shows "agree (ta i sid s) (tb i sid r)"
  using assms agree_length [OF assms(1)] agree_nth [OF assms(1,5)]
  by (simp add: agree_def a.view_settle b.view_settle a.fresh_settle b.fresh_settle map_update)

lemma agree_close: "agree s r \<Longrightarrow> ka s \<Longrightarrow> kb r \<Longrightarrow> i < length (va s) \<Longrightarrow> agree (ca i s) (cb i r)"
  using agree_length [of s r] by (simp add: agree_def a.view_close b.view_close a.fresh_close b.fresh_close drop_at_def take_map [symmetric] drop_map [symmetric])

end

section \<open>The desk\<close>

definition desk_view :: "desk \<Rightarrow> (nat \<times> string option) list" where
  "desk_view d = map (\<lambda>w. (wid w, wn_sid w)) (allShellWins d)"

definition desk_fresh :: "desk \<Rightarrow> nat" where
  "desk_fresh d = Suc (shellWindowCount d)"

lemma desk_view_vis: "desk_view d = map (\<lambda>(j, s, m). (j, s)) (visibility d)"
  by (simp add: desk_view_def visibility_def vis_of_def o_def)

lemma view_frame [simp]:
  "desk_view (refreshSessionTabbar d) = desk_view d" "desk_view (setActivePane a d) = desk_view d" "desk_view (applyPaneGrid d) = desk_view d"
  "desk_view (bringShellWindowToFront i d) = desk_view d" "desk_view (d\<lparr>winsHidden := b\<rparr>) = desk_view d"
  "desk_view (d\<lparr>paneMaxed := p\<rparr>) = desk_view d" "desk_view (d\<lparr>workspace_open := b\<rparr>) = desk_view d"
  by (simp_all add: desk_view_vis) (simp_all add: visibility_def allShellWins_def)

lemma view_show_all [simp]: "desk_view (showAllWindows d) = desk_view d"
  by (simp add: desk_view_vis vis_show o_def case_prod_unfold)

lemma view_upd: "(\<And>w. wid (f w) = wid w \<and> wn_sid (f w) = wn_sid w) \<Longrightarrow> desk_view (upd_win i f d) = desk_view d"
  by (simp add: desk_view_def o_def)

lemma fresh_frame [simp]:
  "desk_fresh (refreshSessionTabbar d) = desk_fresh d" "desk_fresh (setActivePane a d) = desk_fresh d" "desk_fresh (applyPaneGrid d) = desk_fresh d"
  "desk_fresh (bringShellWindowToFront i d) = desk_fresh d" "desk_fresh (d\<lparr>winsHidden := b\<rparr>) = desk_fresh d"
  "desk_fresh (d\<lparr>paneMaxed := p\<rparr>) = desk_fresh d" "desk_fresh (d\<lparr>workspace_open := b\<rparr>) = desk_fresh d"
  "desk_fresh (showAllWindows d) = desk_fresh d" "desk_fresh (upd_win i f d) = desk_fresh d" "desk_fresh (tileWindow i d) = desk_fresh d"
  "desk_fresh (untileWindow i d) = desk_fresh d"
  by (simp_all add: desk_fresh_def) (simp add: showAllWindows_def Let_def)

lemma view_float_layout [simp]: "panes d = [] \<Longrightarrow> desk_view (setLayoutMode False d) = desk_view d"
  "panes d = [] \<Longrightarrow> desk_fresh (setLayoutMode False d) = desk_fresh d"
  by (simp_all add: setLayoutMode_def Let_def) (simp_all add: desk_view_def desk_fresh_def allShellWins_def)

lemma view_observers [simp]: "desk_view (observers old d) = desk_view d" "desk_fresh (observers old d) = desk_fresh d"
  by (simp_all add: observers_def pane_observer_def Let_def)

lemma view_raise [simp]: "desk_view (raise_win i d) = desk_view d" "desk_fresh (raise_win i d) = desk_fresh d"
proof -
  have u: "desk_view (upd_win i f e) = desk_view e" if "f = expand_node \<or> f = (\<lambda>w. w\<lparr>k_minimized := False, minimized := False\<rparr>)" for f e
    using that by (auto simp: expand_node_def intro!: view_upd)
  have r: "desk_view (restoreShellWindow i d) = desk_view d" "desk_fresh (restoreShellWindow i d) = desk_fresh d"
    by (simp_all add: restoreShellWindow_def Let_def u split: option.split)
  show "desk_view (raise_win i d) = desk_view d" "desk_fresh (raise_win i d) = desk_fresh d"
    using r by (simp_all add: raise_win_def expandShellWindow_def Let_def u)
qed

lemma fst_view: "map fst (desk_view d) = map wid (allShellWins d)" "map snd (desk_view d) = map wn_sid (allShellWins d)"
  by (simp_all add: desk_view_def)

lemma view_tile_single:
  assumes "floats d = [w]" and "wid w = i"
  shows "desk_view (tileWindow i d) = tl (desk_view d) @ [hd (desk_view d)]"
  using tile_single(1) [OF assms] assms by (simp add: desk_view_vis) (simp add: visibility_def allShellWins_def vis_of_def)

lemma view_created:
  assumes d: "desk_inv d"
  shows "desk_view (created sid click d) = desk_view d @ [(desk_fresh d, sid)]" and "desk_fresh (created sid click d) = Suc (desk_fresh d)"
proof -
  define n where "n = shellWindowCount d + 1"
  define d1 where "d1 = d\<lparr>shellWindowCount := n\<rparr>"
  define w where "w = position_node d1 click (new_win n sid)"
  define d2 where "d2 = d1\<lparr>floats := floats d @ [w]\<rparr>"
  define d3 where "d3 = bringShellWindowToFront n d2"
  have w: "wid w = n" "wn_sid w = sid" by (simp_all add: w_def position_node_def new_win_def viewport_node_def)
  have ce: "created sid click d = (if layoutTile d then openPaneWorkspace (tileWindow n d3) else d3)"
    by (simp add: created_def Let_def d3_def d2_def d1_def w_def n_def)
  have v3: "desk_view d3 = map (\<lambda>w. (wid w, wn_sid w)) (floats d) @ (n, sid) # map (\<lambda>w. (wid w, wn_sid w)) (panes d)"
    by (simp add: d3_def) (simp add: desk_view_def d2_def d1_def allShellWins_def w)
  show "desk_view (created sid click d) = desk_view d @ [(desk_fresh d, sid)]"
  proof (cases "layoutTile d")
    case True
    then have f: "floats d = []" using desk_invD(8) [OF d] by (simp add: mode_ok_def)
    have "map wid (floats d3) = [n]" unfolding d3_def bring_ids using w(1) by (simp add: d2_def f)
    then obtain u where u: "floats d3 = [u]" "wid u = n" by auto
    show ?thesis using True view_tile_single [OF u] v3 f
      by (simp add: ce openPaneWorkspace_def) (simp add: desk_view_def allShellWins_def desk_fresh_def n_def)
  next
    case False
    then have "panes d = []" using desk_invD(8) [OF d] by (simp add: mode_ok_def)
    then show ?thesis using False v3 by (simp add: ce desk_view_def allShellWins_def desk_fresh_def n_def)
  qed
  show "desk_fresh (created sid click d) = Suc (desk_fresh d)"
    by (simp add: ce openPaneWorkspace_def d3_def) (simp add: desk_fresh_def d2_def d1_def n_def)
qed

lemma view_create:
  assumes d: "desk_inv d"
  shows "desk_view (create_win sid click d) = desk_view d @ [(desk_fresh d, sid)]" and "desk_fresh (create_win sid click d) = Suc (desk_fresh d)"
  using view_created [OF d] by (simp_all add: create_created)

lemma view_focus:
  assumes d: "desk_inv d"
  shows "desk_view (wm_step d (WFocus sid click)) =
      (if Some sid \<in> snd ` set (desk_view d) then desk_view d else desk_view d @ [(desk_fresh d, Some sid)])"
    and "desk_fresh (wm_step d (WFocus sid click)) =
      (if Some sid \<in> snd ` set (desk_view d) then desk_fresh d else Suc (desk_fresh d))"
proof -
  have "(Some sid \<in> snd ` set (desk_view d)) = (find (\<lambda>w. wn_sid w = Some sid) (allShellWins d) \<noteq> None)"
    by (auto simp: desk_view_def find_None_iff image_iff) metis
  then show "desk_view (wm_step d (WFocus sid click)) =
      (if Some sid \<in> snd ` set (desk_view d) then desk_view d else desk_view d @ [(desk_fresh d, Some sid)])"
    "desk_fresh (wm_step d (WFocus sid click)) = (if Some sid \<in> snd ` set (desk_view d) then desk_fresh d else Suc (desk_fresh d))"
    by (auto simp: wm_step_def focusSessionWindow_def getShellWindowBySid_def view_create [OF d])
qed

text \<open>The number of the \<open>i\<close>-th window.\<close>

definition num_at :: "nat \<Rightarrow> desk \<Rightarrow> nat" where
  "num_at i d = wid (allShellWins d ! i)"

lemma num_at_nth: "i < length (desk_view d) \<Longrightarrow> num_at i d = fst (desk_view d ! i)"
  by (simp add: num_at_def desk_view_def)

lemma view_remove: "desk_view (remove_wins ids d) = filter (\<lambda>p. fst p \<notin> set ids) (desk_view d)" "desk_fresh (remove_wins ids d) = desk_fresh d"
  by (simp_all add: remove_wins_filter desk_view_def allShellWins_def filter_map o_def desk_fresh_def)

lemma view_closed: "desk_view (wm_step d (WClose ids)) = filter (\<lambda>p. fst p \<notin> set ids) (desk_view d)" "desk_fresh (wm_step d (WClose ids)) = desk_fresh d"
  by (simp_all add: wm_step_def view_remove)

lemma filter_nth_drop:
  assumes "distinct (map f xs)" and "i < length xs"
  shows "filter (\<lambda>x. f x \<noteq> f (xs ! i)) xs = drop_at i xs"
proof -
  have x: "xs = take i xs @ xs ! i # drop (Suc i) xs" by (rule id_take_nth_drop [OF assms(2)])
  have "distinct (map f (take i xs @ xs ! i # drop (Suc i) xs))" using assms(1) x by simp
  then have "\<forall>y \<in> set (take i xs). f y \<noteq> f (xs ! i)" "\<forall>y \<in> set (drop (Suc i) xs). f y \<noteq> f (xs ! i)" by (auto simp: image_iff)
  then have t: "filter (\<lambda>x. f x \<noteq> f (xs ! i)) (take i xs) = take i xs" "filter (\<lambda>x. f x \<noteq> f (xs ! i)) (drop (Suc i) xs) = drop (Suc i) xs"
    by (simp_all add: filter_id_conv)
  have "filter (\<lambda>x. f x \<noteq> f (xs ! i)) (take i xs @ xs ! i # drop (Suc i) xs) = drop_at i xs"
    unfolding filter_append filter.simps t by (simp add: drop_at_def)
  then show ?thesis using x by simp
qed

lemma desk_distinct: "desk_inv d \<Longrightarrow> distinct (map fst (desk_view d))"
  using desk_invD(2) [of d] by (simp add: fst_view nodes_ok_def)

lemma view_close_at:
  assumes d: "desk_inv d" and i: "i < length (desk_view d)"
  shows "desk_view (wm_step d (WClose [num_at i d])) = drop_at i (desk_view d)"
  using filter_nth_drop [OF desk_distinct [OF d] i] num_at_nth [OF i] by (simp add: view_closed)

lemma map_update_at:
  assumes "distinct (map f xs)" and "i < length xs"
  shows "map (\<lambda>x. if f x = f (xs ! i) then g x else x) xs = xs[i := g (xs ! i)]"
proof (rule nth_equalityI)
  fix j
  assume "j < length (map (\<lambda>x. if f x = f (xs ! i) then g x else x) xs)"
  then show "map (\<lambda>x. if f x = f (xs ! i) then g x else x) xs ! j = xs[i := g (xs ! i)] ! j"
    using nth_eq_iff_index_eq [OF assms(1), of j i] assms(2) by (simp add: nth_list_update)
qed simp

lemma view_final:
  assumes d: "desk_inv d" and i: "i < length (desk_view d)"
  shows "desk_view (wm_step d (WFinal (num_at i d) sid)) = (desk_view d)[i := (fst (desk_view d ! i), Some sid)]"
    and "desk_fresh (wm_step d (WFinal n sid)) = desk_fresh d"
proof -
  have "desk_view (wm_step d (WFinal (num_at i d) sid)) = map (\<lambda>p. if fst p = fst (desk_view d ! i) then (fst p, Some sid) else p) (desk_view d)"
    using num_at_nth [OF i] by (simp add: wm_step_def finalizePendingShellWindow_def) (simp add: desk_view_def if_distrib)
  then show "desk_view (wm_step d (WFinal (num_at i d) sid)) = (desk_view d)[i := (fst (desk_view d ! i), Some sid)]"
    using map_update_at [OF desk_distinct [OF d] i, of "\<lambda>p. (fst p, Some sid)"] by simp
  show "desk_fresh (wm_step d (WFinal n sid)) = desk_fresh d" by (simp add: wm_step_def finalizePendingShellWindow_def)
qed

interpretation deskv: window_view desk_view desk_fresh Suc desk_inv "\<lambda>sid d. wm_step d (WFocus sid click)"
  "\<lambda>d. wm_step d (WPending pick)" "\<lambda>i sid d. wm_step d (WFinal (num_at i d) sid)" "\<lambda>i d. wm_step d (WClose [num_at i d])" for click pick
proof unfold_locales
  fix d :: desk and sid i
  assume d: "desk_inv d"
  show "desk_view (wm_step d (WPending pick)) = desk_view d @ [(desk_fresh d, None)]" "desk_fresh (wm_step d (WPending pick)) = Suc (desk_fresh d)"
    by (simp_all add: wm_step_def view_create [OF d])
qed (simp_all add: view_focus view_final view_closed(2) view_close_at)

text \<open>Everything else the desk does keeps its windows.\<close>

fun desk_local :: "wm_event \<Rightarrow> bool" where
  "desk_local (WPending click) = False"
| "desk_local (WFinal i sid) = False"
| "desk_local (WFocus sid click) = False"
| "desk_local (WTab i) = False"
| "desk_local (WClose ids) = False"
| "desk_local e = True"

lemma tile_all_floats: "floats (foldl (\<lambda>e i. tileWindow i e) d ids) = filter (\<lambda>w. wid w \<notin> set ids) (floats d)"
  by (induction ids arbitrary: d) (simp_all add: conj_commute)

lemma fresh_tiles [simp]:
  "desk_fresh (foldl (\<lambda>e i. tileWindow i e) d ids) = desk_fresh d" "desk_fresh (foldl (\<lambda>e i. untileWindow i e) d ids) = desk_fresh d"
  by (induction ids arbitrary: d) simp_all

lemma fresh_update [simp]:
  "desk_fresh (d\<lparr>layoutTile := a, storedMode := b, body_tile := c, tile_btn := e\<rparr>) = desk_fresh d" "desk_fresh (d\<lparr>paneColFr := f\<rparr>) = desk_fresh d"
  "desk_fresh (d\<lparr>paneStrategy := g\<rparr>) = desk_fresh d" "desk_fresh (d\<lparr>floats := x\<rparr>) = desk_fresh d" "desk_fresh (d\<lparr>panes := x\<rparr>) = desk_fresh d" "desk_fresh (d\<lparr>paneStrategy := g, paneColFr := f\<rparr>) = desk_fresh d"
  by (simp_all add: desk_fresh_def)

lemma fresh_layout [simp]: "desk_fresh (setLayoutMode tile d) = desk_fresh d"
  by (simp add: setLayoutMode_def Let_def openPaneWorkspace_def)

lemma view_map_eq:
  assumes "map pane_view ps = map float_view fs \<or> map float_view fs = map pane_view ps"
  shows "map (\<lambda>w. (wid w, wn_sid w)) ps = map (\<lambda>w. (wid w, wn_sid w)) fs"
proof -
  have "map pane_view ps = map float_view fs" using assms by auto
  from arg_cong [OF this, of "map (\<lambda>(r, i, s, m). (i, s))"] show ?thesis by (simp add: pane_view_def float_view_def keep_of_def o_def)
qed

lemma view_tile_all:
  assumes "distinct (map wid (floats d))" and "panes d = []"
  shows "desk_view (setLayoutMode True d) = desk_view d"
proof -
  define e where "e = d\<lparr>layoutTile := True, storedMode := Some True, body_tile := True, tile_btn := True\<rparr>"
  define f where "f = foldl (\<lambda>e i. tileWindow i e) e (map wid (floats d))"
  have "map pane_view (panes f) = map float_view (floats d)" using tile_all_view [of e "floats d"] assms by (simp add: e_def f_def)
  then have "map (\<lambda>w. (wid w, wn_sid w)) (panes f) = map (\<lambda>w. (wid w, wn_sid w)) (floats d)" by (intro view_map_eq disjI1)
  moreover have "floats f = []" by (simp add: f_def tile_all_floats e_def)
  ultimately have "desk_view f = desk_view d" using assms(2) by (simp add: desk_view_def allShellWins_def)
  moreover have "desk_view (f\<lparr>paneColFr := [], workspace_open := True\<rparr>) = desk_view f" by (simp add: desk_view_def allShellWins_def)
  moreover have "floats e = floats d" by (simp add: e_def)
  ultimately show ?thesis by (simp add: setLayoutMode_def Let_def openPaneWorkspace_def f_def [symmetric] e_def [symmetric])
qed

lemma view_untile_all:
  assumes "distinct (map wid (panes d))" and "floats d = []" and "\<forall>w \<in> set (panes d). floatRect w \<noteq> None"
  shows "desk_view (setLayoutMode False d) = desk_view d"
proof -
  define e where "e = d\<lparr>layoutTile := False, storedMode := Some False, body_tile := False, tile_btn := False, paneMaxed := None\<rparr>"
  define f where "f = foldl (\<lambda>e i. untileWindow i e) e (map wid (panes d))"
  have "map float_view (floats f) = map pane_view (panes d)"
    using untile_all_view [of e "panes d"] assms by (simp add: e_def f_def)
  then have "map (\<lambda>w. (wid w, wn_sid w)) (panes d) = map (\<lambda>w. (wid w, wn_sid w)) (floats f)" by (intro view_map_eq disjI2)
  moreover have "map wid (panes f) = []"
  proof -
    have "map wid (panes (foldl (\<lambda>e i. untileWindow i e) e ids)) = filter (\<lambda>j. j \<notin> set ids) (map wid (panes e))" for ids e
      by (induction ids arbitrary: e) (simp_all add: untile_ids conj_commute)
    then show ?thesis by (simp add: f_def e_def)
  qed
  ultimately have "desk_view f = desk_view d" using assms(2) by (simp add: desk_view_def allShellWins_def)
  then show ?thesis by (simp add: setLayoutMode_def Let_def f_def [symmetric] e_def [symmetric])
qed

lemma view_map_nodes:
  "(\<And>w. wid (f w) = wid w \<and> wn_sid (f w) = wn_sid w) \<Longrightarrow> (\<And>w. wid (g w) = wid w \<and> wn_sid (g w) = wn_sid w) \<Longrightarrow>
   desk_view (d\<lparr>floats := map f (floats d), panes := map g (panes d)\<rparr>) = desk_view d"
  "(\<And>w. wid (f w) = wid w \<and> wn_sid (f w) = wn_sid w) \<Longrightarrow> desk_view (d\<lparr>floats := map f (floats d)\<rparr>) = desk_view d"
  by (simp_all add: desk_view_def allShellWins_def)

lemma view_local:
  assumes d: "desk_inv d" and e: "desk_local e"
  shows "desk_view (wm_step d e) = desk_view d \<and> desk_fresh (wm_step d e) = desk_fresh d"
proof (cases e)
  case (WMin i)
  then show ?thesis by (simp add: wm_step_def minimizeShellWindow_def Let_def view_upd split: option.split)
next
  case (WMax i)
  have "desk_view (upd_win i toggle_max_node d) = desk_view d" by (rule view_upd) (simp add: toggle_max_node_def)
  then show ?thesis using WMax by (simp add: wm_step_def toggleShellWindowMax_def split: option.split)
next
  case (WCollapse i h)
  have "desk_view (upd_win i expand_node d) = desk_view d" "desk_view (upd_win i (collapse_node h) d) = desk_view d"
    by (rule view_upd; simp add: expand_node_def collapse_node_def)+
  then show ?thesis using WCollapse
    by (simp add: wm_step_def collapse_click_def expandShellWindow_def collapseShellWindow_def split: option.split)
next
  case WEscape
  have "desk_view (upd_win i toggle_max_node d) = desk_view d" for i by (rule view_upd) (simp add: toggle_max_node_def)
  then show ?thesis using WEscape by (simp add: wm_step_def escapeKey_def toggleShellWindowMax_def split: option.split)
next
  case WLayout
  have m: "if layoutTile d then floats d = [] else panes d = []" using desk_invD(8) [OF d] by (simp add: mode_ok_def)
  have n: "distinct (map wid (floats d))" "distinct (map wid (panes d))" "\<forall>w \<in> set (panes d). floatRect w \<noteq> None"
    using desk_invD(2) [OF d] by (simp_all add: nodes_ok_def allShellWins_def)
  then have "desk_view (setLayoutMode (\<not> layoutTile d) d) = desk_view d"
    using m view_tile_all [of d] view_untile_all [of d] by (cases "layoutTile d") simp_all
  then show ?thesis using WLayout by (simp add: wm_step_def)
next
  case (WStrategy s)
  have "desk_view (d\<lparr>paneStrategy := s, paneColFr := []\<rparr>) = desk_view d" by (simp add: desk_view_def allShellWins_def)
  then show ?thesis using WStrategy by (simp add: wm_step_def strategy_change_def)
next
  case WToggleAll
  have "desk_view (hideAllWindows d) = desk_view d" "desk_fresh (hideAllWindows d) = desk_fresh d"
    unfolding hideAllWindows_def Let_def by (subst view_map_nodes; simp) simp
  then show ?thesis using WToggleAll by (simp add: wm_step_def toggleAllWindowsVisible_def)
next
  case (WViewport mob iw ih)
  define d0 where "d0 = d\<lparr>mobile := mob, innerWidth := iw, innerHeight := ih\<rparr>"
  define leave where "leave = (\<lambda>w. let v = w\<lparr>k_fullscreen := False\<rparr> in if maxed v then v else position_node d0 None v)"
  have v: "wid (viewport_node m w) = wid w \<and> wn_sid (viewport_node m w) = wn_sid w" for m w by (simp add: viewport_node_def)
  have p: "wid (leave w) = wid w \<and> wn_sid (leave w) = wn_sid w" for w by (simp add: leave_def position_node_def v Let_def)
  have cr: "onViewportChange mob iw ih d = refreshSessionTabbar (if mob \<noteq> wasMobile d
      then d0\<lparr>wasMobile := mob, floats := map (if mob then viewport_node True else leave) (floats d)\<rparr>
      else if mob then d0\<lparr>floats := map (viewport_node True) (floats d)\<rparr> else d0)"
    unfolding onViewportChange_def Let_def d0_def [symmetric] leave_def by (simp add: d0_def)
  have "desk_view (d0\<lparr>wasMobile := mob, floats := map (if mob then viewport_node True else leave) (floats d)\<rparr>) = desk_view d"
    "desk_view (d0\<lparr>floats := map (viewport_node True) (floats d)\<rparr>) = desk_view d" "desk_view d0 = desk_view d"
    by (simp_all add: desk_view_def allShellWins_def d0_def v p)
  moreover have "desk_fresh (d0\<lparr>wasMobile := mob, floats := x\<rparr>) = desk_fresh d" "desk_fresh (d0\<lparr>floats := x\<rparr>) = desk_fresh d" "desk_fresh d0 = desk_fresh d" for x
    by (simp_all add: desk_fresh_def d0_def)
  ultimately show ?thesis unfolding WViewport wm_step_def wm_op.simps view_observers cr view_frame fresh_frame
    by (cases mob; cases "wasMobile d") simp_all
qed (use e in \<open>simp_all add: wm_step_def\<close>)

text \<open>The device stays what it is.\<close>

lemma mobile_frame [simp]:
  "mobile (setLayoutMode b d) = mobile d" "mobile (showAllWindows d) = mobile d" "mobile (hideAllWindows d) = mobile d"
  "mobile (restoreShellWindow i d) = mobile d" "mobile (observers old d) = mobile d" "mobile (remove_wins ids d) = mobile d"
  by (simp_all add: setLayoutMode_def showAllWindows_def hideAllWindows_def restoreShellWindow_def observers_def pane_observer_def
      openPaneWorkspace_def remove_wins_filter Let_def split: option.split)

lemma mobile_open [simp]: "mobile (raise_win i d) = mobile d" "mobile (create_win sid click d) = mobile d"
  by (simp_all add: raise_win_def expandShellWindow_def create_created created_def openPaneWorkspace_def Let_def)

lemma mobile_max [simp]: "mobile (toggleShellWindowMax i d) = mobile d"
  by (simp add: toggleShellWindowMax_def split: option.split)

lemma mobile_step: "wm_enabled d e \<Longrightarrow> mobile (wm_step d e) = mobile d"
proof (cases e)
  case (WViewport mob iw ih)
  assume "wm_enabled d e"
  then show ?thesis using WViewport by (simp add: wm_step_def onViewportChange_def Let_def)
qed (simp_all add: wm_step_def finalizePendingShellWindow_def focusSessionWindow_def tab_click_def minimizeShellWindow_def collapse_click_def
    expandShellWindow_def collapseShellWindow_def escapeKey_def strategy_change_def toggleAllWindowsVisible_def Let_def split: option.split)

end
