(* ===== verification/Client_Views.thy ===== *)
theory Client_Views
  imports Window_Views Sessions_Shown Launch Socket
begin

text \<open>
  That the hub and the launcher provide the interface of \<open>Window_Views\<close>, and what each of their events
  leaves alone.
\<close>

section \<open>The windows of the hub\<close>

definition sid_of :: "swin \<Rightarrow> unit \<times> string option" where
  "sid_of w = ((), if c_sid (sw_c w) = [] then None else Some (c_sid (sw_c w)))"

definition hub_view :: "hub \<Rightarrow> (unit \<times> string option) list" where
  "hub_view h = map sid_of (h_wins h)"

definition win_fine :: "swin \<Rightarrow> bool" where
  "win_fine w \<longleftrightarrow> sw_placeholder w = (c_sid (sw_c w) = []) \<and> c_parentSid (sw_c w) = c_sid (sw_c w)"

definition hub_fine :: "hub \<Rightarrow> bool" where
  "hub_fine h \<longleftrightarrow> (\<forall>w \<in> set (h_wins h). win_fine w)"

lemma hub_cong: "h_wins h' = h_wins h \<Longrightarrow> hub_view h' = hub_view h" "h_wins h' = h_wins h \<Longrightarrow> hub_fine h' = hub_fine h"
  by (simp_all add: hub_view_def hub_fine_def)

lemma at_sid_view: "sid \<noteq> [] \<Longrightarrow> (win_at_sid sid h = None) = (Some sid \<notin> snd ` set (hub_view h))"
proof -
  assume s: "sid \<noteq> []"
  have "(first_at (\<lambda>w. c_sid (sw_c w) = sid) ws = None) = (\<forall>w \<in> set ws. c_sid (sw_c w) \<noteq> sid)" for ws
    by (induction ws) auto
  then show ?thesis using s by (auto simp: win_at_sid_def hub_view_def sid_of_def image_iff)
qed

lemma view_lock [simp]: "hub_view (lock_win i h) = hub_view h"
proof (cases "i < length (h_wins h)")
  case True
  have "sid_of (h_wins (lock_win i h) ! i) = sid_of (h_wins h ! i)" using True by (simp add: lock_win_def Let_def sid_of_def)
  then show ?thesis using True by (simp add: hub_view_def lock_win_def Let_def map_update list_update_same_conv)
qed (simp add: hub_view_def lock_win_def Let_def list_update_beyond)

lemma view_close_win [simp]: "hub_view (close_win i h) = drop_at i (hub_view h)"
  by (simp add: hub_view_def close_win_def Let_def drop_at_map)

lemma view_open_win [simp]: "hub_view (open_win t ans sid ro h) = hub_view h @ [((), if sid = [] then None else Some sid)]"
  by (simp add: hub_view_def open_win_def Let_def sid_of_def)

lemma view_focus_session:
  "sid \<noteq> [] \<Longrightarrow> hub_view (focus_session t ans sid ro h) =
     (if Some sid \<in> snd ` set (hub_view h) then hub_view h else hub_view h @ [((), Some sid)])"
  using at_sid_view [of sid h] by (auto simp: focus_session_def split: option.split)

interpretation hubv: window_view hub_view "\<lambda>h. ()" "\<lambda>u. u" hub_fine "\<lambda>sid. focus_session t ans sid ro" open_pending
  "\<lambda>i sid. finalize_win t ans i sid shell" close_win for t ans ro shell
proof unfold_locales
  fix h :: hub and sid :: string and i
  assume "sid \<noteq> []" "i < length (hub_view h)"
  then show "hub_view (finalize_win t ans i sid shell h) = (hub_view h)[i := (fst (hub_view h ! i), Some sid)]"
    by (simp add: hub_view_def finalize_win_def Let_def map_update) (simp add: sid_of_def)
qed (simp_all add: view_focus_session, simp add: hub_view_def open_pending_def sid_of_def new_cwin_def)

section \<open>The windows of the launcher\<close>

definition launch_view :: "launch \<Rightarrow> (nat \<times> string option) list" where
  "launch_view l = map (\<lambda>w. (lw_id w, if lw_sid w = [] then None else Some (lw_sid w))) (la_wins l)"

definition launch_fresh :: "launch \<Rightarrow> nat" where
  "launch_fresh l = Suc (la_count l)"

definition launch_fine :: "launch \<Rightarrow> bool" where
  "launch_fine l \<longleftrightarrow> lwins_ok l \<and> la_term l"

definition launch_close :: "(string \<Rightarrow> translate) \<Rightarrow> (string \<Rightarrow> string \<Rightarrow> int) \<Rightarrow> string \<Rightarrow> nat \<Rightarrow> launch \<Rightarrow> launch" where
  "launch_close msgs lc abort n l =
     la_step msgs lc abort l (if list_ex (\<lambda>w. lw_id w = n \<and> lw_placeholder w) (la_wins l) then LClosePending n else LGone n)"

lemma launch_cong: "la_wins m = la_wins l \<Longrightarrow> launch_view m = launch_view l" "la_count m = la_count l \<Longrightarrow> launch_fresh m = launch_fresh l"
  by (simp_all add: launch_view_def launch_fresh_def)

lemma broken_wins [simp]:
  "la_wins (foldl (\<lambda>k (m, c, g). start_broken msgs g b x k) l q) = la_wins l" "la_count (foldl (\<lambda>k (m, c, g). start_broken msgs g b x k) l q) = la_count l"
  by (induction q arbitrary: l) auto

lemma launch_view_close: "launch_view (launch_close msgs lc abort n l) = filter (\<lambda>p. fst p \<noteq> n) (launch_view l)"
  "launch_fresh (launch_close msgs lc abort n l) = launch_fresh l"
  by (simp_all add: launch_close_def la_step_def close_pending_def Let_def remove_lwin_def launch_view_def launch_fresh_def filter_map o_def)

lemma launch_distinct: "launch_fine l \<Longrightarrow> distinct (map fst (launch_view l))"
  by (simp add: launch_fine_def lwins_ok_def launch_view_def o_def)

interpretation launchv: window_view launch_view launch_fresh Suc launch_fine openShellWindow "openPendingShellWindow conn"
  "\<lambda>i sid l. finalizePending (fst (launch_view l ! i)) sid l" "\<lambda>i l. launch_close msgs lc abort (fst (launch_view l ! i)) l"
  for conn msgs lc abort
proof unfold_locales
  fix l :: launch and sid :: string and i
  assume l: "launch_fine l"
  show "launch_view (launch_close msgs lc abort (fst (launch_view l ! i)) l) = drop_at i (launch_view l)" if "i < length (launch_view l)"
    using filter_nth_drop [OF launch_distinct [OF l] that] by (simp add: launch_view_close)
  show "launch_view (finalizePending (fst (launch_view l ! i)) sid l) = (launch_view l)[i := (fst (launch_view l ! i), Some sid)]"
    if "sid \<noteq> []" "i < length (launch_view l)"
  proof -
    have "launch_view (finalizePending n sid l) = map (\<lambda>p. if fst p = n then (fst p, Some sid) else p) (launch_view l)" for n
      using that(1) by (simp add: launch_view_def finalizePending_def)
    then show ?thesis using map_update_at [OF launch_distinct [OF l] that(2), of "\<lambda>p. (fst p, Some sid)"] by simp
  qed
  assume s: "sid \<noteq> []"
  have w: "(Some sid \<in> snd ` set (launch_view l)) = (find (\<lambda>w. lw_sid w = sid) (la_wins l) \<noteq> None)"
    using s by (auto simp: launch_view_def find_None_iff image_iff)
  show "launch_view (openShellWindow sid l) =
      (if Some sid \<in> snd ` set (launch_view l) then launch_view l else launch_view l @ [(launch_fresh l, Some sid)])"
    "launch_fresh (openShellWindow sid l) = (if Some sid \<in> snd ` set (launch_view l) then launch_fresh l else Suc (launch_fresh l))"
    unfolding w using l s by (simp_all add: openShellWindow_def launch_fine_def split: option.split) (simp_all add: launch_view_def launch_fresh_def)
qed (simp_all add: openPendingShellWindow_def finalizePending_def launch_view_close, simp_all add: launch_view_def launch_fresh_def)

section \<open>What the events of the hub keep\<close>

definition swin_frame :: "swin \<Rightarrow> string \<times> string \<times> bool" where
  "swin_frame w = (c_sid (sw_c w), c_parentSid (sw_c w), sw_placeholder w)"

definition hub_frame :: "hub \<Rightarrow> (string \<times> string \<times> bool) list \<times> bool" where
  "hub_frame h = (map swin_frame (h_wins h), ws_open (h_net h))"

lemma frame_view: "hub_view h = map (\<lambda>(s, p, b). ((), if s = [] then None else Some s)) (fst (hub_frame h))"
  by (simp add: hub_view_def hub_frame_def sid_of_def swin_frame_def)

lemma frame_fine: "hub_fine h = (\<forall>(s, p, b) \<in> set (fst (hub_frame h)). b = (s = []) \<and> p = s)"
  by (auto simp: hub_fine_def hub_frame_def win_fine_def swin_frame_def)

definition frame_ok :: "(string \<times> string \<times> bool) list \<Rightarrow> bool" where
  "frame_ok fs \<longleftrightarrow> (\<forall>(s, p, b) \<in> set fs. b = (s = []) \<and> p = s)"

lemma fine_frame: "hub_fine h = frame_ok (fst (hub_frame h))"
  by (simp add: frame_fine frame_ok_def)

lemma frame_same: "h_wins h' = h_wins h \<Longrightarrow> h_net h' = h_net h \<Longrightarrow> hub_frame h' = hub_frame h"
  by (simp add: hub_frame_def)

lemma frame_render [simp]: "hub_frame (renderSessionGrid t ss b h) = hub_frame h"
  by (simp add: hub_frame_def)

lemma frame_upd:
  assumes "i < length (h_wins h)" and "swin_frame w = swin_frame (h_wins h ! i)" and "ws_open n = ws_open (h_net h)"
  shows "hub_frame (h\<lparr>h_wins := (h_wins h)[i := w], h_net := n\<rparr>) = hub_frame h"
  using assms by (simp add: hub_frame_def map_update list_update_same_conv)

lemma frame_lock [simp]: "hub_frame (lock_win i h) = hub_frame h"
proof (cases "i < length (h_wins h)")
  case True
  then show ?thesis unfolding lock_win_def Let_def
    by (intro frame_upd) (simp_all add: swin_frame_def, simp add: lockWindowReadonly_def)
qed (simp add: hub_frame_def lock_win_def Let_def list_update_beyond lockWindowReadonly_def)

lemma frame_win:
  assumes "i < length (h_wins h)" and "e \<noteq> ChUp" and "e \<noteq> ChDown"
  shows "hub_frame (win_step i e h) = hub_frame h"
  using assms parent_step [of "sw_c (h_wins h ! i)" "h_net h" e] ch_step_ws [of e "sw_c (h_wins h ! i)" "h_net h"]
  unfolding win_step_def Let_def by (intro frame_upd) (simp_all add: swin_frame_def)

lemma frame_notified [simp]: "hub_frame (set_win_notified sid b h) = hub_frame h" "hub_frame (set_tile_notified sid b h) = hub_frame h"
proof -
  show "hub_frame (set_tile_notified sid b h) = hub_frame h" by (rule frame_same) (simp_all add: set_tile_notified_def split: option.split)
  show "hub_frame (set_win_notified sid b h) = hub_frame h"
  proof (cases "win_at_sid sid h")
    case (Some i)
    have "hub_frame (h\<lparr>h_wins := (h_wins h)[i := (h_wins h ! i)\<lparr>sw_notified := b\<rparr>], h_net := h_net h\<rparr>) = hub_frame h"
      using win_at_lt [OF Some] by (intro frame_upd) (simp_all add: swin_frame_def)
    then show ?thesis using Some by (simp add: set_win_notified_def)
  qed (simp add: set_win_notified_def)
qed

lemma frame_fields [simp]:
  "hub_frame (h\<lparr>h_highlights := a\<rparr>) = hub_frame h" "hub_frame (h\<lparr>h_cards := c\<rparr>) = hub_frame h" "hub_frame (h\<lparr>h_rv := r\<rparr>) = hub_frame h"
  "hub_frame (h\<lparr>h_selected := s\<rparr>) = hub_frame h" "hub_frame (h\<lparr>h_forwards := f\<rparr>) = hub_frame h" "hub_frame (h\<lparr>h_snapshot := ss\<rparr>) = hub_frame h"
  by (simp_all add: hub_frame_def)

lemma frame_marks [simp]: "hub_frame (markSessNotified sid h) = hub_frame h" "hub_frame (clearSessNotified sid h) = hub_frame h"
  "hub_frame (dismissUiNotify c h) = hub_frame h" "hub_frame (mode_win t ans i on h) = hub_frame h"
  by (simp_all add: markSessNotified_def clearSessNotified_def dismissUiNotify_def mode_win_def Let_def)

fun hub_local :: "hub_event \<Rightarrow> bool" where
  "hub_local (HForwards fs) = True"
| "hub_local HLang = True"
| "hub_local (HCheck k) = True"
| "hub_local HSelectAll = True"
| "hub_local (HBatchDelete b) = True"
| "hub_local (HClearDead b) = True"
| "hub_local (HNotify n) = True"
| "hub_local (HDismiss c) = True"
| "hub_local (HWin i e) = True"
| "hub_local (HReview e) = True"
| "hub_local e = False"

lemma frame_step: "hub_frame (hub_step t h e) = hub_frame (hub_op t h e)"
  by (simp add: hub_step_def Let_def)

lemma frame_local:
  assumes "hub_local e" and "hub_enabled h e"
  shows "hub_frame (hub_step t h e) = hub_frame h"
proof (cases e)
  case (HForwards fs)
  then show ?thesis by (simp add: frame_step forwards_loaded_def split: option.split)
next
  case (HCheck k)
  then show ?thesis by (simp add: frame_step) (rule frame_same; simp add: checkbox_click_def Let_def updateSessionBatchBar_def)
next
  case (HBatchDelete b)
  then show ?thesis by (simp add: frame_step) (rule frame_same; simp add: batch_delete_def start_batch_def Let_def split: list.split)
next
  case (HClearDead b)
  then show ?thesis by (simp add: frame_step) (rule frame_same; simp add: clear_dead_def start_batch_def Let_def split: list.split)
next
  case (HWin i e')
  then show ?thesis using assms by (simp add: frame_step frame_win)
qed (use assms in \<open>simp_all add: frame_step select_all_click_def showUiNotify_def Let_def\<close>)

text \<open>A list of sessions closes exactly the windows of sessions that are gone.\<close>

lemma frame_settle: "swin_frame (settle n byId w) = swin_frame w"
  by (simp add: settle_def swin_frame_def split: option.split)

lemma close_win_net: "ws_open (h_net (close_win i h)) = ws_open (h_net h)"
  by (simp add: close_win_def Let_def closeShellWindow_def)

lemma reconcile_ws: "ws_open (h_net (reconcile_loop t ans byId k i h)) = ws_open (h_net h)"
proof (induction k arbitrary: i h)
  case (Suc k)
  obtain j h' where r: "reconcile_win t ans byId i h = (j, h')" by fastforce
  have "ws_open (h_net (lock_win n g)) = ws_open (h_net g)" "ws_open (h_net (mode_win t a n on g)) = ws_open (h_net g)" for n a on g
    using frame_lock [of n g] by (simp_all add: hub_frame_def mode_win_def)
  moreover have "ws_open (h_net (releaseSessionUIState p h)) = ws_open (h_net h)" for p by (simp add: releaseSessionUIState_def)
  ultimately have "ws_open (h_net h') = ws_open (h_net h)"
    using r by (auto simp: reconcile_win_def Let_def close_win_net split: if_splits option.splits)
  then show ?case using Suc.IH r by simp
qed simp

lemma snapshot_frame:
  assumes h: "wins_inv t h"
  shows "hub_frame (applySessionsSnapshot t ans ss h) = (map swin_frame (filter (\<lambda>w. \<not> gone (session_map ss) w) (h_wins h)), ws_open (h_net h))"
proof -
  define h1 where "h1 = renderSessionGrid t ss [] (h\<lparr>h_snapshot := ss\<rparr>)"
  define l where "l = reconcile_loop t ans (session_map ss) (length (h_wins h1)) 0 h1"
  have "wins_inv t (h\<lparr>h_snapshot := ss\<rparr>)" using h by (simp add: wins_inv_def)
  then have w1: "wins_inv t h1" unfolding h1_def by (rule wins_render)
  have "h_wins l = map (settle (h_net h) (session_map ss)) (filter (\<lambda>w. \<not> gone (session_map ss) w) (h_wins h))"
    using reconcile_spec [of h1 "[]" "h_wins h1" "[]" "modes h1" 0 t ans "session_map ss" "h_net h"] w1 by (auto simp: l_def h1_def)
  then have "map swin_frame (h_wins l) = map swin_frame (filter (\<lambda>w. \<not> gone (session_map ss) w) (h_wins h))" by (simp add: frame_settle)
  moreover have "hub_frame (applySessionsSnapshot t ans ss h) = hub_frame l"
    by (simp add: applySessionsSnapshot_def Let_def h1_def l_def pruneDeadSessionUIState_def hub_frame_def)
  ultimately show ?thesis by (simp add: hub_frame_def l_def reconcile_ws h1_def)
qed

text \<open>The other events, on the frame.\<close>

definition focus_frame :: "string \<Rightarrow> (string \<times> string \<times> bool) list \<times> bool \<Rightarrow> (string \<times> string \<times> bool) list \<times> bool" where
  "focus_frame sid f = (if sid \<in> fst ` set (fst f) then f else (fst f @ [(sid, sid, False)], snd f))"

lemma first_at_none: "(first_at P xs = None) = (\<forall>x \<in> set xs. \<not> P x)"
  by (induction xs) auto

lemma at_sid_frame: "(win_at_sid sid h = None) = (sid \<notin> fst ` set (fst (hub_frame h)))"
  by (auto simp: win_at_sid_def first_at_none hub_frame_def swin_frame_def image_image)

lemma frame_focus: "hub_frame (focus_session t ans sid ro h) = focus_frame sid (hub_frame h)"
proof (cases "win_at_sid sid h")
  case None
  moreover have "hub_frame (open_win t ans sid ro h) = (fst (hub_frame h) @ [(sid, sid, False)], snd (hub_frame h))"
    by (simp add: open_win_def Let_def) (simp add: hub_frame_def swin_frame_def)
  ultimately show ?thesis using at_sid_frame [of sid h] by (simp add: focus_session_def focus_frame_def)
next
  case (Some i)
  then show ?thesis using at_sid_frame [of sid h] by (auto simp: focus_session_def focus_frame_def)
qed

lemma frame_close: "hub_frame (close_win i h) = (drop_at i (fst (hub_frame h)), snd (hub_frame h))"
  using close_win_net [of i h] by (simp add: hub_frame_def) (simp add: close_win_def Let_def drop_at_map)

lemma frame_review [simp]: "hub_frame (open_review t ans sid h) = hub_frame h"
  by (simp add: open_review_def split: option.split)

lemma frame_events:
  "hub_frame (hub_step t h (HFocus ans sid ro)) = focus_frame sid (hub_frame h)"
  "hub_frame (hub_step t h (HTileClick ans k)) = focus_frame (s_id (tl_sess (h_tiles h ! k))) (hub_frame h)"
  "cd_sid (h_cards h ! k) \<noteq> [] \<Longrightarrow> hub_frame (hub_step t h (HCardClick ans k)) = focus_frame (cd_sid (h_cards h ! k)) (hub_frame h)"
  "hub_frame (hub_step t h HPending) = (fst (hub_frame h) @ [([], [], True)], snd (hub_frame h))"
  "hub_frame (hub_step t h (HClose i)) = (drop_at i (fst (hub_frame h)), snd (hub_frame h))"
  by (simp_all add: frame_step frame_focus frame_close tile_click_def card_click_def Let_def)
    (simp_all add: hub_frame_def open_pending_def swin_frame_def new_cwin_def)

lemma frame_closes:
  "hub_frame (close_sid sid h) = (case win_at_sid sid h of None \<Rightarrow> hub_frame h | Some i \<Rightarrow> (drop_at i (fst (hub_frame h)), snd (hub_frame h)))"
  by (simp add: close_sid_def frame_close split: option.split)

lemma frame_batch:
  "hub_frame (hub_step t h (HBatchAnswer j (Some msg))) = hub_frame h"
  "hub_frame (hub_step t h (HBatchAnswer j None)) = hub_frame (close_sid (hd (snd (h_batches h ! j))) h)"
  by (simp_all add: frame_step batch_answer_def Let_def split: list.split) (simp_all add: hub_frame_def)

lemma frame_final:
  assumes "i < length (h_wins h)" and "sid \<noteq> []"
  shows "hub_frame (hub_step t h (HFinal ans i sid shell)) = ((fst (hub_frame h))[i := (sid, sid, False)], snd (hub_frame h))"
  using assms by (simp add: frame_step) (simp add: hub_frame_def finalize_win_def Let_def map_update swin_frame_def)

lemma frame_socket:
  "fst (hub_frame (hub_step t h (HOpened n))) = fst (hub_frame h)" "fst (hub_frame (hub_step t h (HClosed n wait))) = fst (hub_frame h)"
  "snd (hub_frame (hub_step t h (HOpened n))) = ws_open n" "snd (hub_frame (hub_step t h (HClosed n wait))) = ws_open n"
  by (simp_all add: frame_step socket_opened_def socket_closed_def split: option.split) (simp_all add: hub_frame_def)

lemma frame_rename:
  "hub_frame (hub_step t h (HRename ans k input)) = hub_frame (rename_session t ans k input h)"
  "hub_frame (hub_step t h (HSnapshot f ss)) = hub_frame (applySessionsSnapshot t f ss h)"
  "hub_frame (hub_step t h (HTileDelete k)) = hub_frame (close_sid (s_id (tl_sess (h_tiles h ! k))) h)"
  by (simp_all add: frame_step tile_delete_def)

end
