(* ===== verification/Switcher.thy ===== *)
theory Switcher
  imports Windows Sessions
begin

text \<open>
  The session switch menu of the window headers (\<open>terminal-view.js\<close> from line 1513): one menu for
  the page, drawn from the last list of sessions, opened by the icon of a window on touch devices.
  Its listeners are registered by a timer, so a timer that is still pending is part of the state.
\<close>

text \<open>An entry of the menu, with the session it was made for and whether a click opens it read-only.\<close>

record switch_item =
  si_sid :: string
  si_num :: string
  si_label :: string
  si_dead :: bool
  si_current :: bool

text \<open>The icon in a window's header: its button semantics, given on touch devices only, and the mark
  of the icon whose menu is open.\<close>

record icon =
  ic_win :: nat
  ic_btn :: bool
  ic_active :: bool

record switcher =
  mn_menu :: "switch_item list option"
  mn_listening :: bool
  mn_timers :: nat
  mn_icons :: "icon list"

definition closeSessionSwitchMenu :: "switcher \<Rightarrow> switcher" where
  "closeSessionSwitchMenu s =
     s\<lparr>mn_menu := None, mn_listening := False,
       mn_icons := map (\<lambda>i. if ic_btn i then i\<lparr>ic_active := False\<rparr> else i) (mn_icons s)\<rparr>"

text \<open>The two listeners of the document. \<open>on_btn\<close> is a click inside some icon with button semantics.\<close>

definition onSessionSwitchMenuDocClick :: "bool \<Rightarrow> bool \<Rightarrow> switcher \<Rightarrow> switcher" where
  "onSessionSwitchMenuDocClick in_menu on_btn s =
     (if mn_menu s = None \<or> in_menu \<or> on_btn then s else closeSessionSwitchMenu s)"

definition doc_click :: "bool \<Rightarrow> bool \<Rightarrow> switcher \<Rightarrow> switcher" where
  "doc_click in_menu on_btn s = (if mn_listening s then onSessionSwitchMenuDocClick in_menu on_btn s else s)"

definition escape_key :: "switcher \<Rightarrow> switcher" where
  "escape_key s = (if mn_listening s then closeSessionSwitchMenu s else s)"

text \<open>\<open>sessionTabNum\<close>: the number in the id of the session's window, if it has one.\<close>

definition session_num :: "desk \<Rightarrow> string \<Rightarrow> string" where
  "session_num d sid =
     (case getShellWindowBySid (Some sid) d of None \<Rightarrow> [] | Some n \<Rightarrow> if n = 0 then [] else show_nat n)"

definition switch_item_of :: "desk \<Rightarrow> string option \<Rightarrow> sess \<Rightarrow> switch_item" where
  "switch_item_of d current s =
     \<lparr>si_sid = s_id s, si_num = session_num d (s_id s), si_label = or_str (s_name s) (stripSessionPrefix (s_id s)),
      si_dead = (\<not> s_running s), si_current = (current = Some (s_id s))\<rparr>"

definition switch_items :: "desk \<Rightarrow> string option \<Rightarrow> sess list \<Rightarrow> switch_item list" where
  "switch_items d current ss = map (switch_item_of d current) (filter (\<lambda>s. s_id s \<noteq> []) ss)"

definition openSessionSwitchMenu :: "desk \<Rightarrow> sess list \<Rightarrow> nat \<Rightarrow> switcher \<Rightarrow> switcher" where
  "openSessionSwitchMenu d ss i s =
     (let s1 = closeSessionSwitchMenu s; current = (case get_win i d of None \<Rightarrow> None | Some w \<Rightarrow> wn_sid w)
      in if mn_menu s \<noteq> None then s1
         else s1\<lparr>mn_menu := Some (switch_items d current ss),
                 mn_icons := map (\<lambda>c. if ic_win c = i then c\<lparr>ic_active := True\<rparr> else c) (mn_icons s1),
                 mn_timers := Suc (mn_timers s1)\<rparr>)"

definition is_btn :: "nat \<Rightarrow> switcher \<Rightarrow> bool" where
  "is_btn i s = list_ex (\<lambda>c. ic_win c = i \<and> ic_btn c) (mn_icons s)"

text \<open>A click on the icon of window \<open>i\<close> passes the document first; the keys enter and space do not.\<close>

definition icon_activate :: "desk \<Rightarrow> sess list \<Rightarrow> nat \<Rightarrow> switcher \<Rightarrow> switcher" where
  "icon_activate d ss i s = (if mobile d then openSessionSwitchMenu d ss i s else s)"

definition icon_click :: "desk \<Rightarrow> sess list \<Rightarrow> nat \<Rightarrow> switcher \<Rightarrow> switcher" where
  "icon_click d ss i s = icon_activate d ss i (doc_click False (is_btn i s) s)"

definition timer_fires :: "switcher \<Rightarrow> switcher" where
  "timer_fires s = s\<lparr>mn_listening := True, mn_timers := mn_timers s - 1\<rparr>"

text \<open>\<open>_syncSwitcherAffordance\<close> of one window, and of all of them.\<close>

definition syncSwitcherAffordance :: "bool \<Rightarrow> nat \<Rightarrow> switcher \<Rightarrow> switcher" where
  "syncSwitcherAffordance mob i s =
     (let s1 = (if mob then s else closeSessionSwitchMenu s)
      in s1\<lparr>mn_icons := map (\<lambda>c. if ic_win c = i then c\<lparr>ic_btn := mob\<rparr> else c) (mn_icons s1)\<rparr>)"

definition sync_all :: "bool \<Rightarrow> switcher \<Rightarrow> switcher" where
  "sync_all mob s = foldl (\<lambda>r i. syncSwitcherAffordance mob i r) s (map ic_win (mn_icons s))"

text \<open>A resize of the window: the menu's own listener, then the windows follow the viewport.\<close>

definition viewport_resized :: "bool \<Rightarrow> switcher \<Rightarrow> switcher" where
  "viewport_resized mob s = sync_all mob (if mn_listening s then closeSessionSwitchMenu s else s)"

text \<open>\<open>setupMobileSessionSwitcher\<close> gives each new window an icon, which leaves with the window.\<close>

definition follow_windows :: "bool \<Rightarrow> nat list \<Rightarrow> switcher \<Rightarrow> switcher" where
  "follow_windows mob ids s =
     s\<lparr>mn_icons := map (\<lambda>n. case find (\<lambda>c. ic_win c = n) (mn_icons s) of
                              None \<Rightarrow> \<lparr>ic_win = n, ic_btn = mob, ic_active = False\<rparr> | Some c \<Rightarrow> c) ids\<rparr>"

definition switcher_start :: switcher where
  "switcher_start = \<lparr>mn_menu = None, mn_listening = False, mn_timers = 0, mn_icons = []\<rparr>"

section \<open>The menu can always be dismissed\<close>

text \<open>
  An open menu is listening for a click elsewhere or about to; icons are marked only while it is
  open, one at most, and every icon has button semantics exactly on touch devices.
\<close>

definition switch_inv :: "bool \<Rightarrow> switcher \<Rightarrow> bool" where
  "switch_inv mob s \<longleftrightarrow>
     (mn_menu s \<noteq> None \<longrightarrow> mob \<and> (mn_listening s \<or> 0 < mn_timers s)) \<and> distinct (map ic_win (mn_icons s)) \<and>
     (\<forall>c \<in> set (mn_icons s). ic_btn c = mob \<and> (ic_active c \<longrightarrow> mn_menu s \<noteq> None)) \<and>
     (\<forall>c \<in> set (mn_icons s). \<forall>e \<in> set (mn_icons s). ic_active c \<and> ic_active e \<longrightarrow> c = e)"

lemma same_window: "distinct (map f cs) \<Longrightarrow> c \<in> set cs \<Longrightarrow> e \<in> set cs \<Longrightarrow> f c = f e \<Longrightarrow> c = e"
  by (simp add: distinct_map inj_on_def)

lemma close_menu_fields [simp]:
  "mn_menu (closeSessionSwitchMenu s) = None" "\<not> mn_listening (closeSessionSwitchMenu s)" "mn_timers (closeSessionSwitchMenu s) = mn_timers s"
  "map ic_win (mn_icons (closeSessionSwitchMenu s)) = map ic_win (mn_icons s)"
  by (simp_all add: closeSessionSwitchMenu_def)

lemma closed_icons:
  assumes s: "switch_inv mob s" and c: "c \<in> set (mn_icons (closeSessionSwitchMenu s))"
  shows "\<not> ic_active c \<and> ic_btn c = mob"
proof -
  obtain e where e: "e \<in> set (mn_icons s)" "c = (if ic_btn e then e\<lparr>ic_active := False\<rparr> else e)"
    using c by (auto simp: closeSessionSwitchMenu_def)
  then show ?thesis using s by (cases mob) (auto simp: switch_inv_def)
qed

lemma close_menu_inv: "switch_inv mob s \<Longrightarrow> switch_inv mob (closeSessionSwitchMenu s)"
proof -
  assume s: "switch_inv mob s"
  have "distinct (map ic_win (mn_icons s))" using s by (simp add: switch_inv_def)
  then show ?thesis using closed_icons [OF s] unfolding switch_inv_def [of mob "closeSessionSwitchMenu s"] by simp
qed

lemma doc_click_inv: "switch_inv mob s \<Longrightarrow> switch_inv mob (doc_click m b s)"
  by (simp add: doc_click_def onSessionSwitchMenuDocClick_def close_menu_inv)

lemma escape_key_inv: "switch_inv mob s \<Longrightarrow> switch_inv mob (escape_key s)"
  by (simp add: escape_key_def close_menu_inv)

lemma open_menu_inv:
  assumes s: "switch_inv True s"
  shows "switch_inv True (openSessionSwitchMenu d ss i s)"
proof (cases "mn_menu s = None")
  case True
  define r where "r = closeSessionSwitchMenu s"
  have r: "switch_inv True r" "\<forall>c \<in> set (mn_icons r). \<not> ic_active c" using close_menu_inv [OF s] closed_icons [OF s] by (simp_all add: r_def)
  have d: "distinct (map ic_win (mn_icons r))" using r(1) by (simp add: switch_inv_def)
  define fs where "fs = map (\<lambda>c. if ic_win c = i then c\<lparr>ic_active := True\<rparr> else c) (mn_icons r)"
  have w: "map ic_win fs = map ic_win (mn_icons r)" by (simp add: fs_def)
  have a: "ic_win e = i" if "e \<in> set fs" "ic_active e" for e using that r(2) by (auto simp: fs_def split: if_splits)
  have dm: "distinct (map ic_win fs)" unfolding w by (rule d)
  have b: "\<forall>e \<in> set fs. ic_btn e" using r(1) by (auto simp: switch_inv_def fs_def)
  have one: "\<forall>c \<in> set fs. \<forall>e \<in> set fs. ic_active c \<and> ic_active e \<longrightarrow> c = e"
  proof (intro ballI impI)
    fix c e
    assume c: "c \<in> set fs" "e \<in> set fs" "ic_active c \<and> ic_active e"
    then have "ic_win c = ic_win e" using a [OF c(1)] a [OF c(2)] by simp
    then show "c = e" by (rule same_window [OF dm c(1,2)])
  qed
  have "switch_inv True (r\<lparr>mn_menu := Some m, mn_icons := fs, mn_timers := Suc n\<rparr>)" for m n
    unfolding switch_inv_def using dm b one by simp
  then show ?thesis using True by (simp add: openSessionSwitchMenu_def Let_def r_def [symmetric] fs_def)
next
  case False
  then show ?thesis using close_menu_inv [OF s] by (auto simp: openSessionSwitchMenu_def Let_def)
qed

lemma icon_activate_inv: "switch_inv (mobile d) s \<Longrightarrow> switch_inv (mobile d) (icon_activate d ss i s)"
  using open_menu_inv [of s d ss i] by (cases "mobile d") (simp_all add: icon_activate_def)

lemma icon_click_inv: "switch_inv (mobile d) s \<Longrightarrow> switch_inv (mobile d) (icon_click d ss i s)"
  by (simp add: icon_click_def icon_activate_inv doc_click_inv)

lemma timer_inv: "switch_inv mob s \<Longrightarrow> switch_inv mob (timer_fires s)"
  by (auto simp: switch_inv_def timer_fires_def)

lemma sync_same: "switch_inv mob s \<Longrightarrow> switch_inv mob (syncSwitcherAffordance mob i s)"
proof -
  assume s: "switch_inv mob s"
  define r where "r = (if mob then s else closeSessionSwitchMenu s)"
  have r: "switch_inv mob r" using s close_menu_inv [OF s] by (cases mob) (simp_all add: r_def)
  have "map (\<lambda>c. if ic_win c = i then c\<lparr>ic_btn := mob\<rparr> else c) (mn_icons r) = mn_icons r"
    using r by (intro map_idI) (auto simp: switch_inv_def)
  then show ?thesis using r by (simp add: syncSwitcherAffordance_def Let_def r_def [symmetric])
qed

lemma sync_all_inv: "switch_inv mob s \<Longrightarrow> switch_inv mob (sync_all mob s)"
proof -
  have "switch_inv mob r \<Longrightarrow> switch_inv mob (foldl (\<lambda>r i. syncSwitcherAffordance mob i r) r is)" for r "is"
    by (induction "is" arbitrary: r) (simp_all add: sync_same)
  then show "switch_inv mob s \<Longrightarrow> switch_inv mob (sync_all mob s)" by (simp add: sync_all_def)
qed

lemma viewport_resized_inv: "switch_inv mob s \<Longrightarrow> switch_inv mob (viewport_resized mob s)"
  by (simp add: viewport_resized_def sync_all_inv close_menu_inv)

lemma follow_inv:
  assumes s: "switch_inv mob s" and d: "distinct ids"
  shows "switch_inv mob (follow_windows mob ids s)"
proof -
  let ?g = "\<lambda>n. case find (\<lambda>c. ic_win c = n) (mn_icons s) of None \<Rightarrow> \<lparr>ic_win = n, ic_btn = mob, ic_active = False\<rparr> | Some c \<Rightarrow> c"
  have g: "ic_win (?g n) = n" "ic_btn (?g n) = mob" "ic_active (?g n) \<Longrightarrow> ?g n \<in> set (mn_icons s)" for n
    using s by (auto simp: switch_inv_def find_Some_iff split: option.split)
  have "map ic_win (map ?g ids) = ids" using g(1) by (simp add: o_def)
  then show ?thesis using s d g unfolding switch_inv_def follow_windows_def by (auto simp del: map_map)
qed

lemma switcher_start_inv: "switch_inv mob switcher_start"
  by (simp add: switch_inv_def switcher_start_def)

end
