(* ===== verification/Client.thy ===== *)
theory Client
  imports Client_Views Switcher
begin

text \<open>
  The page as a whole: the socket with the dispatch of its messages (\<open>ui-socket.js\<close>), the session
  list with the contents of the windows, the desk the windows lie on, the launcher, and the switch
  menu, stepping together.
\<close>

section \<open>State and joint steps\<close>

record client =
  cl_hub :: hub
  cl_desk :: desk
  cl_launch :: launch
  cl_sock :: page
  cl_switch :: switcher

definition hub_do :: "translate \<Rightarrow> hub_event \<Rightarrow> client \<Rightarrow> client" where
  "hub_do t e c = c\<lparr>cl_hub := hub_step t (cl_hub c) e\<rparr>"

definition desk_do :: "wm_event \<Rightarrow> client \<Rightarrow> client" where
  "desk_do e c = c\<lparr>cl_desk := wm_step (cl_desk c) e\<rparr>"

definition launch_do :: "translate \<Rightarrow> (string \<Rightarrow> string \<Rightarrow> int) \<Rightarrow> string \<Rightarrow> la_event \<Rightarrow> client \<Rightarrow> client" where
  "launch_do t lc abort e c = c\<lparr>cl_launch := la_step (\<lambda>g. t) lc abort (cl_launch c) e\<rparr>"

definition switch_do :: "(switcher \<Rightarrow> switcher) \<Rightarrow> client \<Rightarrow> client" where
  "switch_do f c = c\<lparr>cl_switch := f (cl_switch c)\<rparr>"

text \<open>One window list: the socket's record reads the windows and the connection of the hub, and every
  window has its icon.\<close>

definition share :: "client \<Rightarrow> client" where
  "share c =
     c\<lparr>cl_sock := (cl_sock c)\<lparr>pg_net := h_net (cl_hub c), pg_wins := map sw_c (h_wins (cl_hub c))\<rparr>,
       cl_switch := follow_windows (mobile (cl_desk c)) (map wid (allShellWins (cl_desk c))) (cl_switch c)\<rparr>"

text \<open>\<open>focusSessionWindow\<close> for a session, with what the trigger itself does in the hub.\<close>

definition focus_page :: "translate \<Rightarrow> (string \<Rightarrow> string \<Rightarrow> int) \<Rightarrow> string \<Rightarrow> hub_event \<Rightarrow> (rat \<times> rat) option \<Rightarrow> string \<Rightarrow> client \<Rightarrow> client" where
  "focus_page t lc abort e click sid c = launch_do t lc abort (LShow sid) (desk_do (WFocus sid click) (hub_do t e c))"

text \<open>\<open>closeShellWindow\<close> on the windows with these numbers; \<open>e\<close> is what happens in the hub.\<close>

definition launch_closes :: "translate \<Rightarrow> (string \<Rightarrow> string \<Rightarrow> int) \<Rightarrow> string \<Rightarrow> nat list \<Rightarrow> launch \<Rightarrow> launch" where
  "launch_closes t lc abort ns l = foldl (\<lambda>k n. launch_close (\<lambda>g. t) lc abort n k) l ns"

definition close_page :: "translate \<Rightarrow> (string \<Rightarrow> string \<Rightarrow> int) \<Rightarrow> string \<Rightarrow> hub_event \<Rightarrow> nat list \<Rightarrow> client \<Rightarrow> client" where
  "close_page t lc abort e ns c =
     (let c1 = desk_do (WClose ns) (hub_do t e c) in c1\<lparr>cl_launch := launch_closes t lc abort ns (cl_launch c1)\<rparr>)"

definition nums_at :: "nat option \<Rightarrow> client \<Rightarrow> nat list" where
  "nums_at p c = (case p of None \<Rightarrow> [] | Some i \<Rightarrow> [num_at i (cl_desk c)])"

definition num_pos :: "nat \<Rightarrow> client \<Rightarrow> nat option" where
  "num_pos n c = first_at (\<lambda>w. wid w = n) (allShellWins (cl_desk c))"

section \<open>Messages of the socket\<close>

text \<open>
  The list of sessions, perhaps with the entries; output and end of a shell; a notice; a change of a
  review queue. What they ask the server for in turn is answered by events of its own.
\<close>

datatype frame =
    FSessions "nat \<Rightarrow> approvals option" "sess list" "conn_entry list option" | FTerminal string string | FDone string
  | FNotify notice | FApproval notice

definition gone_nums :: "sess list \<Rightarrow> client \<Rightarrow> nat list" where
  "gone_nums ss c = map (\<lambda>(w, v). wid v) (filter (\<lambda>(w, v). gone (session_map ss) w) (zip (h_wins (cl_hub c)) (allShellWins (cl_desk c))))"

text \<open>\<open>getShellWindowBySid\<close>, else \<open>findShellWindowByChannelSid\<close>.\<close>

definition frame_win :: "string \<Rightarrow> hub \<Rightarrow> nat option" where
  "frame_win sid h =
     (case win_at_sid sid h of Some i \<Rightarrow> Some i | None \<Rightarrow> first_at (\<lambda>w. get_ch (sw_c w) sid \<noteq> None) (h_wins h))"

fun ws_onmessage :: "translate \<Rightarrow> (string \<Rightarrow> string \<Rightarrow> int) \<Rightarrow> string \<Rightarrow> frame \<Rightarrow> client \<Rightarrow> client" where
  "ws_onmessage t lc abort (FSessions ans ss conns) c =
     (let c1 = close_page t lc abort (HSnapshot ans ss) (gone_nums ss c) c
      in case conns of None \<Rightarrow> c1 | Some cs \<Rightarrow> launch_do t lc abort (LPushed cs) c1)"
| "ws_onmessage t lc abort (FTerminal sid d) c =
     (case frame_win sid (cl_hub c) of None \<Rightarrow> c | Some i \<Rightarrow> hub_do t (HWin i (ChFrame sid d)) c)"
| "ws_onmessage t lc abort (FDone sid) c =
     (case frame_win sid (cl_hub c) of None \<Rightarrow> c | Some i \<Rightarrow> hub_do t (HWin i (ChDone sid)) c)"
| "ws_onmessage t lc abort (FNotify n) c = hub_do t (HNotify n) c"
| "ws_onmessage t lc abort (FApproval n) c =
     hub_do t (HNotify (n\<lparr>n_title := or_str (n_title n) (t ''review.title'' None), n_level := or_str (n_level n) ''info'', n_review := True\<rparr>)) c"

text \<open>Opening and closing of the socket.\<close>

definition sock_wait :: "page \<Rightarrow> sock_event \<Rightarrow> nat option" where
  "sock_wait p e = (case e of SClose i \<Rightarrow> if uiWS p = Some i \<and> retryTimer p = None then banner_wait (sock_step p e) else None | _ \<Rightarrow> None)"

definition sock_do :: "translate \<Rightarrow> sock_event \<Rightarrow> client \<Rightarrow> client" where
  "sock_do t e c =
     (let p = sock_step (cl_sock c) e
      in hub_do t (case e of SOpen i \<Rightarrow> HOpened (pg_net p) | _ \<Rightarrow> HClosed (pg_net p) (sock_wait (cl_sock c) e)) (c\<lparr>cl_sock := p\<rparr>))"

section \<open>The user\<close>

text \<open>Starting a session raises the window that waits for the same connection, or opens one.\<close>

definition start_page :: "translate \<Rightarrow> (string \<Rightarrow> string \<Rightarrow> int) \<Rightarrow> string \<Rightarrow> la_event \<Rightarrow> string \<Rightarrow> (rat \<times> rat) option \<Rightarrow> client \<Rightarrow> client" where
  "start_page t lc abort e conn click c =
     launch_do t lc abort e
       (case getPendingShellWindowForConn conn (cl_launch c) of
          Some w \<Rightarrow> desk_do (WRaise (lw_id w)) c
        | None \<Rightarrow> desk_do (WPending click) (hub_do t HPending c))"

definition run_conn :: "launch \<Rightarrow> string" where
  "run_conn l = or_str (sd_config (la_dialog l)) (sd_conn (la_dialog l))"

definition card_conn :: "nat \<Rightarrow> launch \<Rightarrow> string" where
  "card_conn k l = ce_name (ec_entry (la_cards l ! k))"

definition answer_page :: "translate \<Rightarrow> (string \<Rightarrow> string \<Rightarrow> int) \<Rightarrow> string \<Rightarrow> approvals option \<Rightarrow> nat \<Rightarrow> string + string \<Rightarrow> string \<Rightarrow> client \<Rightarrow> client" where
  "answer_page t lc abort ans k r shell c =
     (let n = fst (la_waiting (cl_launch c) ! k)
      in launch_do t lc abort (LAnswer k r)
           (case num_pos n c of
              None \<Rightarrow> c
            | Some i \<Rightarrow>
                (case r of
                   Inr (x # xs) \<Rightarrow> desk_do (WFinal n (x # xs)) (hub_do t (HFinal ans i (x # xs) shell) c)
                 | _ \<Rightarrow> desk_do (WClose [n]) (hub_do t (HClose i) c))))"

text \<open>A rename applies the list in hand with the new name, so it closes windows like any other list.\<close>

definition renamed :: "nat \<Rightarrow> string \<Rightarrow> hub \<Rightarrow> sess list option" where
  "renamed k input h =
     (let s = tl_sess (h_tiles h ! k); cur = rename_current s; newName = js_trim input
      in if newName = [] \<or> (cur \<noteq> [] \<and> newName = cur) then None
         else Some (map (\<lambda>x. if s_id x = s_id s then x\<lparr>s_name := newName\<rparr> else x) (h_snapshot h)))"

definition rename_page :: "translate \<Rightarrow> (string \<Rightarrow> string \<Rightarrow> int) \<Rightarrow> string \<Rightarrow> (nat \<Rightarrow> approvals option) \<Rightarrow> nat \<Rightarrow> string \<Rightarrow> client \<Rightarrow> client" where
  "rename_page t lc abort ans k input c =
     (case renamed k input (cl_hub c) of None \<Rightarrow> c
      | Some ss \<Rightarrow> close_page t lc abort (HRename ans k input) (gone_nums ss c) c)"

text \<open>The answer to a deletion of a batch closes the window of its session; the end of the batch reconnects.\<close>

definition batch_sid :: "nat \<Rightarrow> client \<Rightarrow> string" where
  "batch_sid j c = hd (snd (h_batches (cl_hub c) ! j))"

definition batch_page :: "translate \<Rightarrow> (string \<Rightarrow> string \<Rightarrow> int) \<Rightarrow> string \<Rightarrow> nat \<Rightarrow> string option \<Rightarrow> client \<Rightarrow> client" where
  "batch_page t lc abort j err c =
     (let c1 = close_page t lc abort (HBatchAnswer j err)
                 (if err = None then nums_at (win_at_sid (batch_sid j c) (cl_hub c)) c else []) c
      in if err = None \<and> tl (snd (h_batches (cl_hub c) ! j)) = [] then sock_do t SStart (share c1) else c1)"

text \<open>A click on a tab of the session bar focuses by the session of its window.\<close>

definition tab_page :: "translate \<Rightarrow> (string \<Rightarrow> string \<Rightarrow> int) \<Rightarrow> string \<Rightarrow> nat \<Rightarrow> client \<Rightarrow> client" where
  "tab_page t lc abort n c =
     (case get_win n (cl_desk c) of
        None \<Rightarrow> c
      | Some w \<Rightarrow>
          (case wn_sid w of
             None \<Rightarrow> desk_do (WTab n) c
           | Some sid \<Rightarrow> launch_do t lc abort (LShow sid) (desk_do (WTab n) (hub_do t (HFocus None sid False) c))))"

text \<open>A pick in the switch menu.\<close>

definition picked :: "nat \<Rightarrow> client \<Rightarrow> switch_item" where
  "picked k c = the (mn_menu (cl_switch c)) ! k"

definition pick_page :: "translate \<Rightarrow> (string \<Rightarrow> string \<Rightarrow> int) \<Rightarrow> string \<Rightarrow> approvals option \<Rightarrow> nat \<Rightarrow> client \<Rightarrow> client" where
  "pick_page t lc abort ans k c =
     (let it = picked k c in focus_page t lc abort (HFocus ans (si_sid it) (si_dead it)) None (si_sid it) (switch_do closeSessionSwitchMenu c))"

definition card_sid :: "nat \<Rightarrow> client \<Rightarrow> string" where
  "card_sid k c = cd_sid (h_cards (cl_hub c) ! k)"

definition tile_session :: "nat \<Rightarrow> client \<Rightarrow> string" where
  "tile_session k c = s_id (tl_sess (h_tiles (cl_hub c) ! k))"

text \<open>
  The events: of the socket and its messages; of one component alone; of the user or of an answer
  where several components act. \<open>CTabClose\<close> is the cross of a tab, which closes a window and leaves its
  session running; \<open>CDeleted\<close> is a deletion the server accepted from the button of a
  window, \<open>CCancel\<close> that button on a window that waits. A click passes the document, where the menu
  listens, before it reaches anything else: that is the event \<open>CDocClick\<close> before the one of its target.
\<close>

datatype client_event =
    CSocket sock_event | CFrame frame | CHub hub_event | CDesk wm_event | CLaunch la_event
  | CTile "approvals option" nat "(rat \<times> rat) option" | CNotice "approvals option" nat | CTab nat | CPick "approvals option" nat
  | CConnect nat "(rat \<times> rat) option" | CRun "(rat \<times> rat) option" | CAnswer "approvals option" nat "string + string" string
  | CTabClose nat | CCancel nat | CDeleted string | CTileDelete nat | CBatchAnswer nat "string option" | CRename "nat \<Rightarrow> approvals option" nat string
  | CIcon nat | CIconKey nat | CDocClick bool | CEscape | CTimer | CDrawer | CViewport rat rat | CSync

fun client_op :: "translate \<Rightarrow> (string \<Rightarrow> string \<Rightarrow> int) \<Rightarrow> string \<Rightarrow> client \<Rightarrow> client_event \<Rightarrow> client" where
  "client_op t lc abort c (CSocket e) = sock_do t e c"
| "client_op t lc abort c (CFrame f) = ws_onmessage t lc abort f c"
| "client_op t lc abort c (CHub e) = hub_do t e c"
| "client_op t lc abort c (CDesk e) = desk_do e c"
| "client_op t lc abort c (CLaunch e) = launch_do t lc abort e c"
| "client_op t lc abort c (CTile ans k click) = focus_page t lc abort (HTileClick ans k) click (tile_session k c) c"
| "client_op t lc abort c (CNotice ans k) =
     (if card_sid k c = [] then c else focus_page t lc abort (HCardClick ans k) None (card_sid k c) c)"
| "client_op t lc abort c (CTab n) = tab_page t lc abort n c"
| "client_op t lc abort c (CPick ans k) = pick_page t lc abort ans k c"
| "client_op t lc abort c (CConnect k click) = start_page t lc abort (LCard k) (card_conn k (cl_launch c)) click c"
| "client_op t lc abort c (CRun click) = start_page t lc abort LRun (run_conn (cl_launch c)) click c"
| "client_op t lc abort c (CAnswer ans k r shell) = answer_page t lc abort ans k r shell c"
| "client_op t lc abort c (CTabClose i) = close_page t lc abort (HClose i) [num_at i (cl_desk c)] c"
| "client_op t lc abort c (CCancel i) = close_page t lc abort (HClose i) [num_at i (cl_desk c)] c"
| "client_op t lc abort c (CDeleted sid) =
     (case win_at_sid sid (cl_hub c) of None \<Rightarrow> c | Some i \<Rightarrow> close_page t lc abort (HClose i) [num_at i (cl_desk c)] c)"
| "client_op t lc abort c (CTileDelete k) =
     close_page t lc abort (HTileDelete k) (nums_at (win_at_sid (tile_session k c) (cl_hub c)) c) c"
| "client_op t lc abort c (CBatchAnswer j err) = batch_page t lc abort j err c"
| "client_op t lc abort c (CRename ans k input) = rename_page t lc abort ans k input c"
| "client_op t lc abort c (CIcon i) = switch_do (icon_click (cl_desk c) (h_snapshot (cl_hub c)) i) c"
| "client_op t lc abort c (CIconKey i) = switch_do (icon_activate (cl_desk c) (h_snapshot (cl_hub c)) i) c"
| "client_op t lc abort c (CDocClick in_menu) = switch_do (doc_click in_menu False) c"
| "client_op t lc abort c CEscape = switch_do escape_key (desk_do WEscape c)"
| "client_op t lc abort c CTimer = switch_do timer_fires c"
| "client_op t lc abort c CDrawer = switch_do closeSessionSwitchMenu c"
| "client_op t lc abort c (CViewport iw ih) =
     switch_do (viewport_resized (mobile (cl_desk c))) (desk_do (WViewport (mobile (cl_desk c)) iw ih) c)"
| "client_op t lc abort c CSync = switch_do (sync_all (mobile (cl_desk c))) c"

definition client_step :: "translate \<Rightarrow> (string \<Rightarrow> string \<Rightarrow> int) \<Rightarrow> string \<Rightarrow> client \<Rightarrow> client_event \<Rightarrow> client" where
  "client_step t lc abort c e = share (client_op t lc abort c e)"

text \<open>Which events the page can deliver. A window that waits and is started again must be on screen:
  \<open>restart_raises_hidden\<close> of \<open>Client_Shown\<close> says what happens otherwise.\<close>

fun la_local :: "la_event \<Rightarrow> bool" where
  "la_local (LLoad r) = True"
| "la_local (LPushed cs) = False"
| "la_local (LLang g) = True"
| "la_local LDismiss = True"
| "la_local (LQuick k) = True"
| "la_local (LName s) = True"
| "la_local (LCmd s) = True"
| "la_local (LMode s) = True"
| "la_local LCloseDialog = True"
| "la_local e = False"

definition start_ok :: "string \<Rightarrow> client \<Rightarrow> bool" where
  "start_ok conn c = (case getPendingShellWindowForConn conn (cl_launch c) of None \<Rightarrow> True | Some w \<Rightarrow> win_shown (lw_id w) (cl_desk c))"

fun client_enabled :: "client \<Rightarrow> client_event \<Rightarrow> bool" where
  "client_enabled c (CSocket e) = (sock_enabled (cl_sock c) e \<and> (case e of SWin k ev \<Rightarrow> False | _ \<Rightarrow> True))"
| "client_enabled c (CFrame f) = (case f of FSessions ans ss conns \<Rightarrow> ids_ok ss | FTerminal sid d \<Rightarrow> sid \<noteq> [] | FDone sid \<Rightarrow> sid \<noteq> [] | _ \<Rightarrow> True)"
| "client_enabled c (CHub e) = (hub_local e \<and> hub_enabled (cl_hub c) e)"
| "client_enabled c (CDesk e) = (desk_local e \<and> (case e of WViewport m iw ih \<Rightarrow> False | WEscape \<Rightarrow> False | _ \<Rightarrow> True) \<and> wm_enabled (cl_desk c) e)"
| "client_enabled c (CLaunch e) = (la_local e \<and> la_enabled (cl_launch c) e)"
| "client_enabled c (CTile ans k click) = (k < length (h_tiles (cl_hub c)))"
| "client_enabled c (CNotice ans k) = (k < length (h_cards (cl_hub c)))"
| "client_enabled c (CTab n) = (n \<in> wid ` set (allShellWins (cl_desk c)) \<and> (mobile (cl_desk c) \<longrightarrow> body_tile (cl_desk c)))"
| "client_enabled c (CPick ans k) = (case mn_menu (cl_switch c) of None \<Rightarrow> False | Some items \<Rightarrow> k < length items)"
| "client_enabled c (CConnect k click) = (k < length (la_cards (cl_launch c)) \<and> start_ok (card_conn k (cl_launch c)) c)"
| "client_enabled c (CRun click) = (sd_shown (la_dialog (cl_launch c)) \<and> start_ok (run_conn (cl_launch c)) c)"
| "client_enabled c (CAnswer ans k r shell) = (k < length (la_waiting (cl_launch c)))"
| "client_enabled c (CTabClose i) = (i < length (h_wins (cl_hub c)) \<and> (mobile (cl_desk c) \<longrightarrow> body_tile (cl_desk c)))"
| "client_enabled c (CCancel i) = (i < length (h_wins (cl_hub c)) \<and> sw_placeholder (h_wins (cl_hub c) ! i))"
| "client_enabled c (CDeleted sid) = (sid \<noteq> [])"
| "client_enabled c (CTileDelete k) = (k < length (h_tiles (cl_hub c)))"
| "client_enabled c (CBatchAnswer j err) = (j < length (h_batches (cl_hub c)))"
| "client_enabled c (CRename ans k input) = (k < length (h_tiles (cl_hub c)))"
| "client_enabled c (CIcon i) = (i \<in> wid ` set (allShellWins (cl_desk c)))"
| "client_enabled c (CIconKey i) = (i \<in> wid ` set (allShellWins (cl_desk c)))"
| "client_enabled c e = True"

definition client_start :: "bool option \<Rightarrow> string \<Rightarrow> bool \<Rightarrow> rat \<Rightarrow> rat \<Rightarrow> string \<Rightarrow> client" where
  "client_start st strategy mob iw ih lang =
     \<lparr>cl_hub = hub_start (pg_net (page_start [])), cl_desk = desk_start st strategy mob iw ih, cl_launch = la_start True lang,
      cl_sock = page_start [], cl_switch = switcher_start\<rparr>"

end
