(* ===== verification/Client_Invariant.thy ===== *)
theory Client_Invariant
  imports Client
begin

text \<open>That the parts of the page stay in step: they agree on the open windows, and each keeps its own invariant.\<close>

interpretation desk_hub: two_views desk_view desk_fresh Suc desk_inv "\<lambda>sid d. wm_step d (WFocus sid click)"
  "\<lambda>d. wm_step d (WPending pick)" "\<lambda>i sid d. wm_step d (WFinal (num_at i d) sid)" "\<lambda>i d. wm_step d (WClose [num_at i d])"
  hub_view "\<lambda>h. ()" "\<lambda>u. u" hub_fine "\<lambda>sid. focus_session t ans sid ro" open_pending "\<lambda>i sid. finalize_win t ans i sid shell" close_win
  "\<lambda>n. ()" for click pick t ans ro shell
  by unfold_locales simp

interpretation desk_launch: two_views desk_view desk_fresh Suc desk_inv "\<lambda>sid d. wm_step d (WFocus sid click)"
  "\<lambda>d. wm_step d (WPending pick)" "\<lambda>i sid d. wm_step d (WFinal (num_at i d) sid)" "\<lambda>i d. wm_step d (WClose [num_at i d])"
  launch_view launch_fresh Suc launch_fine openShellWindow "openPendingShellWindow conn"
  "\<lambda>i sid l. finalizePending (fst (launch_view l ! i)) sid l" "\<lambda>i l. launch_close msgs lc abort (fst (launch_view l ! i)) l"
  "\<lambda>n. n" for click pick conn msgs lc abort
  by unfold_locales simp

abbreviation same_wins :: "desk \<Rightarrow> hub \<Rightarrow> bool" where
  "same_wins \<equiv> desk_hub.agree"

abbreviation same_nums :: "desk \<Rightarrow> launch \<Rightarrow> bool" where
  "same_nums \<equiv> desk_launch.agree"

lemma same_wins_iff: "same_wins d h = (map snd (desk_view d) = map snd (hub_view h))"
proof -
  have "(map (apfst (\<lambda>n. ())) xs = ys) = (map snd xs = map snd ys)" for xs :: "(nat \<times> string option) list" and ys
    by (induction xs arbitrary: ys) (auto simp: Cons_eq_map_conv prod_eq_iff)
  then show ?thesis by (simp add: desk_hub.agree_def)
qed

lemma same_nums_iff: "same_nums d l = (desk_view d = launch_view l \<and> desk_fresh d = launch_fresh l)"
  by (simp add: desk_launch.agree_def apfst_def map_prod_def)

lemma same_wins_cong: "desk_view d' = desk_view d \<Longrightarrow> hub_view h' = hub_view h \<Longrightarrow> same_wins d' h' = same_wins d h"
  by (simp add: same_wins_iff)

definition client_inv :: "translate \<Rightarrow> client \<Rightarrow> bool" where
  "client_inv t c \<longleftrightarrow>
     hub_inv t (cl_hub c) \<and> hub_fine (cl_hub c) \<and> desk_inv (cl_desk c) \<and> launch_fine (cl_launch c) \<and> banner_ok (\<lambda>g. t) (cl_launch c) \<and>
     sock_inv ((cl_sock c)\<lparr>pg_net := h_net (cl_hub c)\<rparr>) \<and> switch_inv (mobile (cl_desk c)) (cl_switch c) \<and>
     (\<forall>items. mn_menu (cl_switch c) = Some items \<longrightarrow> (\<forall>it \<in> set items. si_sid it \<noteq> [])) \<and>
     same_wins (cl_desk c) (cl_hub c) \<and> same_nums (cl_desk c) (cl_launch c)"

definition shared :: "client \<Rightarrow> bool" where
  "shared c \<longleftrightarrow>
     pg_net (cl_sock c) = h_net (cl_hub c) \<and> pg_wins (cl_sock c) = map sw_c (h_wins (cl_hub c)) \<and>
     map ic_win (mn_icons (cl_switch c)) = map wid (allShellWins (cl_desk c))"

lemma client_invD:
  assumes "client_inv t c"
  shows "hub_inv t (cl_hub c)" "hub_fine (cl_hub c)" "desk_inv (cl_desk c)" "launch_fine (cl_launch c)" "banner_ok (\<lambda>g. t) (cl_launch c)"
    "sock_inv ((cl_sock c)\<lparr>pg_net := h_net (cl_hub c)\<rparr>)" "switch_inv (mobile (cl_desk c)) (cl_switch c)"
    "mn_menu (cl_switch c) = Some items \<Longrightarrow> it \<in> set items \<Longrightarrow> si_sid it \<noteq> []"
    "same_wins (cl_desk c) (cl_hub c)" "same_nums (cl_desk c) (cl_launch c)"
  using assms by (auto simp: client_inv_def)

lemma frame_cong: "hub_frame h' = hub_frame h \<Longrightarrow> hub_view h' = hub_view h \<and> hub_fine h' = hub_fine h"
  by (simp add: frame_view frame_fine)

lemma frame_sock: "snd (hub_frame h') = snd (hub_frame h) \<Longrightarrow> sock_inv (p\<lparr>pg_net := h_net h'\<rparr>) = sock_inv (p\<lparr>pg_net := h_net h\<rparr>)"
  by (simp add: hub_frame_def sock_inv_def split: option.split)

text \<open>The fields of the joint steps.\<close>

lemma do_fields [simp]:
  "cl_hub (hub_do t e c) = hub_step t (cl_hub c) e" "cl_desk (hub_do t e c) = cl_desk c" "cl_launch (hub_do t e c) = cl_launch c"
  "cl_sock (hub_do t e c) = cl_sock c" "cl_switch (hub_do t e c) = cl_switch c"
  "cl_hub (desk_do d c) = cl_hub c" "cl_desk (desk_do d c) = wm_step (cl_desk c) d" "cl_launch (desk_do d c) = cl_launch c"
  "cl_sock (desk_do d c) = cl_sock c" "cl_switch (desk_do d c) = cl_switch c"
  "cl_hub (launch_do t lc abort l c) = cl_hub c" "cl_desk (launch_do t lc abort l c) = cl_desk c"
  "cl_launch (launch_do t lc abort l c) = la_step (\<lambda>g. t) lc abort (cl_launch c) l"
  "cl_sock (launch_do t lc abort l c) = cl_sock c" "cl_switch (launch_do t lc abort l c) = cl_switch c"
  "cl_hub (switch_do f c) = cl_hub c" "cl_desk (switch_do f c) = cl_desk c" "cl_launch (switch_do f c) = cl_launch c"
  "cl_sock (switch_do f c) = cl_sock c" "cl_switch (switch_do f c) = f (cl_switch c)"
  by (simp_all add: hub_do_def desk_do_def launch_do_def switch_do_def)

text \<open>Each component alone.\<close>

lemma hub_do_inv:
  assumes c: "client_inv t c" and e: "hub_enabled (cl_hub c) e" and f: "hub_frame (hub_step t (cl_hub c) e) = hub_frame (cl_hub c)"
  shows "client_inv t (hub_do t e c)"
  using client_invD [OF c] hub_step_inv [OF client_invD(1) [OF c] e] frame_cong [OF f] frame_sock [of "hub_step t (cl_hub c) e" "cl_hub c"] f
  by (simp add: client_inv_def same_wins_iff)

lemma desk_do_inv:
  assumes c: "client_inv t c" and e: "wm_enabled (cl_desk c) e" and l: "desk_local e"
  shows "client_inv t (desk_do e c)"
  using client_invD [OF c] wm_step_inv [OF client_invD(3) [OF c] e] view_local [OF client_invD(3) [OF c] l] mobile_step [OF e]
  by (simp add: client_inv_def same_wins_iff same_nums_iff)

lemma term_frame [simp]:
  "la_term (renderConnGrid lc cs s l) = la_term l" "la_term (rememberConnBanner m l) = la_term l" "la_term (setLoadBanner s l) = la_term l"
  "la_term (set_connecting n b l) = la_term l" "la_term (start_kept g l) = la_term l" "la_term (start_broken msgs g a s l) = la_term l"
  "la_term (remove_lwin n l) = la_term l" "la_term (finalizePending n sid l) = la_term l" "la_term (openShellWindow sid l) = la_term l"
  "la_term (openPendingShellWindow conn l) = la_term l"
  by (simp_all add: renderConnGrid_def rememberConnBanner_def setLoadBanner_def set_connecting_def start_kept_def start_broken_def remove_lwin_def
      finalizePending_def openShellWindow_def openPendingShellWindow_def Let_def split: origin.split option.split)

lemma la_local_wins:
  assumes "la_local e \<or> e = LPushed cs"
  shows "la_wins (la_step msgs lc abort l e) = la_wins l \<and> la_count (la_step msgs lc abort l e) = la_count l \<and> la_term (la_step msgs lc abort l e) = la_term l"
proof (cases e)
  case (LLoad r)
  then show ?thesis by (cases r) (simp_all add: la_step_def loadConnections_def)
next
  case (LLang g)
  then show ?thesis by (simp add: la_step_def entries_lang_def Let_def)
qed (use assms in \<open>simp_all add: la_step_def connections_pushed_def openStartModal_def\<close>)

lemma launch_do_inv:
  assumes c: "client_inv t c" and e: "la_enabled (cl_launch c) e" and l: "la_local e \<or> e = LPushed cs"
  shows "client_inv t (launch_do t lc abort e c)"
proof -
  define l' where "l' = la_step (\<lambda>g. t) lc abort (cl_launch c) e"
  have w: "la_wins l' = la_wins (cl_launch c)" "la_count l' = la_count (cl_launch c)" "la_term l' = la_term (cl_launch c)"
    using la_local_wins [OF l] by (simp_all add: l'_def)
  have "lwins_ok l'" unfolding l'_def using client_invD(4) [OF c] e by (intro lwins_step) (simp_all add: launch_fine_def)
  then have "launch_fine l'" using client_invD(4) [OF c] w by (simp add: launch_fine_def)
  moreover have "banner_ok (\<lambda>g. t) l'" unfolding l'_def by (rule banner_step [OF client_invD(5) [OF c]])
  moreover have "same_nums (cl_desk c) l'" using client_invD(10) [OF c] w by (simp add: same_nums_iff launch_view_def launch_fresh_def)
  ultimately show ?thesis using client_invD [OF c] by (simp add: client_inv_def l'_def)
qed

lemma switch_do_inv:
  assumes c: "client_inv t c" and "switch_inv (mobile (cl_desk c)) (f (cl_switch c))"
    and "mn_menu (f (cl_switch c)) = mn_menu (cl_switch c) \<or> mn_menu (f (cl_switch c)) = None \<or>
      (\<exists>cur ss. mn_menu (f (cl_switch c)) = Some (switch_items (cl_desk c) cur ss))"
  shows "client_inv t (switch_do f c)"
  using client_invD [OF c] assms(2,3) by (auto simp: client_inv_def switch_items_def switch_item_of_def)

section \<open>Opening and closing together\<close>

lemma fine_focus: "frame_ok (fst f) \<Longrightarrow> sid \<noteq> [] \<Longrightarrow> frame_ok (fst (focus_frame sid f))"
  by (auto simp: frame_ok_def focus_frame_def)

lemma fine_drop: "frame_ok fs \<Longrightarrow> frame_ok (drop_at i fs)"
  using set_drop_at [of i fs] by (auto simp: frame_ok_def)

lemma focus_page_inv:
  assumes c: "client_inv t c" and e: "hub_enabled (cl_hub c) e" and s: "sid \<noteq> []"
    and f: "hub_frame (hub_step t (cl_hub c) e) = focus_frame sid (hub_frame (cl_hub c))"
  shows "client_inv t (focus_page t lc abort e click sid c)"
proof -
  define h where "h = hub_step t (cl_hub c) e"
  define l where "l = la_step (\<lambda>g. t) lc abort (cl_launch c) (LShow sid)"
  note I = client_invD [OF c]
  have "hub_inv t h" unfolding h_def by (rule hub_step_inv [OF I(1) e])
  moreover have "hub_fine h" using I(2) fine_focus [OF _ s] f by (simp add: h_def fine_frame)
  moreover have "desk_inv (wm_step (cl_desk c) (WFocus sid click))" "mobile (wm_step (cl_desk c) (WFocus sid click)) = mobile (cl_desk c)"
    using wm_step_inv [OF I(3)] mobile_step by simp_all
  moreover have lo: "l = openShellWindow sid (cl_launch c)" by (simp add: l_def la_step_def)
  then have "launch_fine l" using I(4) lwins_opened [OF _ s, of "cl_launch c"] by (simp add: launch_fine_def)
  moreover have "banner_ok (\<lambda>g. t) l" unfolding l_def by (rule banner_step [OF I(5)])
  moreover have "sock_inv ((cl_sock c)\<lparr>pg_net := h_net h\<rparr>)"
    using I(6) frame_sock [of h "cl_hub c"] f by (simp add: h_def focus_frame_def)
  moreover have "same_wins (wm_step (cl_desk c) (WFocus sid click)) h"
  proof -
    have "hub_view h = hub_view (focus_session t None sid False (cl_hub c))" using f by (simp add: h_def frame_view frame_focus)
    then show ?thesis using desk_hub.agree_show [OF I(9,3,2) s] same_wins_cong by blast
  qed
  moreover have "same_nums (wm_step (cl_desk c) (WFocus sid click)) l" unfolding lo by (rule desk_launch.agree_show [OF I(10,3,4) s])
  moreover have "cl_hub (focus_page t lc abort e click sid c) = h" "cl_launch (focus_page t lc abort e click sid c) = l"
    "cl_desk (focus_page t lc abort e click sid c) = wm_step (cl_desk c) (WFocus sid click)"
    "cl_sock (focus_page t lc abort e click sid c) = cl_sock c" "cl_switch (focus_page t lc abort e click sid c) = cl_switch c"
    by (simp_all add: focus_page_def h_def l_def)
  ultimately show ?thesis using I(7) I(8) unfolding client_inv_def by simp
qed

lemma term_fold [simp]: "la_term (foldl (\<lambda>k (m, c, g). start_broken msgs g b x k) l q) = la_term l"
proof (induction q arbitrary: l)
  case (Cons y q)
  then show ?case by (cases y) (simp only: foldl_Cons prod.case term_frame)
qed simp

lemma close_fine: "launch_fine l \<Longrightarrow> launch_fine (launch_close msgs lc abort n l)"
proof -
  assume l: "launch_fine l"
  define e where "e = (if list_ex (\<lambda>w. lw_id w = n \<and> lw_placeholder w) (la_wins l) then LClosePending n else LGone n)"
  have "la_enabled l e" by (auto simp: e_def la_enabled_def list_ex_iff list_all_iff)
  then have "lwins_ok (la_step msgs lc abort l e)" using l by (intro lwins_step) (simp_all add: launch_fine_def)
  moreover have "la_term (la_step msgs lc abort l e) = la_term l" by (simp add: e_def la_step_def close_pending_def Let_def remove_lwin_def)
  ultimately show ?thesis using l by (simp add: launch_fine_def launch_close_def e_def)
qed

lemma closes_parts:
  "launch_view (launch_closes t lc abort ns l) = filter (\<lambda>p. fst p \<notin> set ns) (launch_view l)"
  "launch_fresh (launch_closes t lc abort ns l) = launch_fresh l"
  "launch_fine l \<Longrightarrow> launch_fine (launch_closes t lc abort ns l)"
  "banner_ok (\<lambda>g. t) l \<Longrightarrow> banner_ok (\<lambda>g. t) (launch_closes t lc abort ns l)"
proof -
  have s: "launch_closes t lc abort (n # ns) l = launch_closes t lc abort ns (launch_close (\<lambda>g. t) lc abort n l)" for n ns l
    by (simp add: launch_closes_def)
  have z: "launch_closes t lc abort [] l = l" for l by (simp add: launch_closes_def)
  show "launch_view (launch_closes t lc abort ns l) = filter (\<lambda>p. fst p \<notin> set ns) (launch_view l)"
    by (induction ns arbitrary: l) (simp_all add: s z launch_view_close conj_commute)
  show "launch_fresh (launch_closes t lc abort ns l) = launch_fresh l"
    by (induction ns arbitrary: l) (simp_all add: s z launch_view_close)
  show "launch_fine l \<Longrightarrow> launch_fine (launch_closes t lc abort ns l)"
    by (induction ns arbitrary: l) (simp_all add: s z close_fine)
  show "banner_ok (\<lambda>g. t) l \<Longrightarrow> banner_ok (\<lambda>g. t) (launch_closes t lc abort ns l)"
    by (induction ns arbitrary: l) (simp_all add: s z launch_close_def banner_step)
qed

lemma close_page_inv:
  assumes c: "client_inv t c" and e: "hub_enabled (cl_hub c) e" and fine: "hub_fine (hub_step t (cl_hub c) e)"
    and ws: "snd (hub_frame (hub_step t (cl_hub c) e)) = snd (hub_frame (cl_hub c))"
    and v: "map snd (hub_view (hub_step t (cl_hub c) e)) = map snd (filter (\<lambda>p. fst p \<notin> set ns) (desk_view (cl_desk c)))"
  shows "client_inv t (close_page t lc abort e ns c)"
proof -
  define h where "h = hub_step t (cl_hub c) e"
  note I = client_invD [OF c]
  have "hub_inv t h" unfolding h_def by (rule hub_step_inv [OF I(1) e])
  moreover have "desk_inv (wm_step (cl_desk c) (WClose ns))" "mobile (wm_step (cl_desk c) (WClose ns)) = mobile (cl_desk c)"
    using wm_step_inv [OF I(3)] mobile_step by simp_all
  moreover have "sock_inv ((cl_sock c)\<lparr>pg_net := h_net h\<rparr>)" using I(6) frame_sock [OF ws] by (simp add: h_def)
  moreover have "same_wins (wm_step (cl_desk c) (WClose ns)) h" using v by (simp add: same_wins_iff view_closed h_def)
  moreover have "same_nums (wm_step (cl_desk c) (WClose ns)) (launch_closes t lc abort ns (cl_launch c))"
    using I(10) by (simp add: same_nums_iff view_closed closes_parts)
  ultimately show ?thesis using I(4,5,7,8) fine closes_parts(3,4) by (simp add: client_inv_def close_page_def Let_def h_def)
qed

text \<open>The window at one position, or none.\<close>

lemma wins_length: "client_inv t c \<Longrightarrow> length (h_wins (cl_hub c)) = length (desk_view (cl_desk c))"
  using client_invD(9) [of t c] unfolding same_wins_iff by (metis hub_view_def length_map)

lemma close_one_inv:
  assumes c: "client_inv t c" and e: "hub_enabled (cl_hub c) e" and i: "i < length (h_wins (cl_hub c))"
    and f: "hub_frame (hub_step t (cl_hub c) e) = (drop_at i (fst (hub_frame (cl_hub c))), snd (hub_frame (cl_hub c)))"
  shows "client_inv t (close_page t lc abort e [num_at i (cl_desk c)] c)"
proof (rule close_page_inv [OF c e])
  note I = client_invD [OF c]
  have i': "i < length (desk_view (cl_desk c))" using i wins_length [OF c] by simp
  show "hub_fine (hub_step t (cl_hub c) e)" using I(2) f fine_drop by (simp add: fine_frame)
  show "snd (hub_frame (hub_step t (cl_hub c) e)) = snd (hub_frame (cl_hub c))" using f by simp
  have "hub_view (hub_step t (cl_hub c) e) = drop_at i (hub_view (cl_hub c))" using f by (simp add: frame_view drop_at_map)
  then have "map snd (hub_view (hub_step t (cl_hub c) e)) = drop_at i (map snd (desk_view (cl_desk c)))"
    using I(9) by (simp add: same_wins_iff drop_at_map)
  then show "map snd (hub_view (hub_step t (cl_hub c) e)) = map snd (filter (\<lambda>p. fst p \<notin> set [num_at i (cl_desk c)]) (desk_view (cl_desk c)))"
    using filter_nth_drop [OF desk_distinct [OF I(3)] i'] num_at_nth [OF i'] by (simp add: drop_at_map)
qed

lemma close_none_inv:
  assumes c: "client_inv t c" and e: "hub_enabled (cl_hub c) e" and f: "hub_frame (hub_step t (cl_hub c) e) = hub_frame (cl_hub c)"
  shows "client_inv t (close_page t lc abort e [] c)"
  using client_invD(2,9) [OF c] frame_cong [OF f] f by (intro close_page_inv [OF c e]) (simp_all add: same_wins_iff)

lemma close_sid_inv:
  assumes c: "client_inv t c" and e: "hub_enabled (cl_hub c) e" and f: "hub_frame (hub_step t (cl_hub c) e) = hub_frame (close_sid sid (cl_hub c))"
  shows "client_inv t (close_page t lc abort e (nums_at (win_at_sid sid (cl_hub c)) c) c)"
proof (cases "win_at_sid sid (cl_hub c)")
  case None
  then show ?thesis using close_none_inv [OF c e] f by (simp add: frame_closes nums_at_def)
next
  case (Some i)
  then show ?thesis using close_one_inv [OF c e win_at_lt [OF Some]] f by (simp add: frame_closes nums_at_def)
qed

text \<open>The windows a list of sessions closes.\<close>

lemma filter_zip:
  assumes "length ws = length vs" and "distinct (map f vs)"
  shows "filter (\<lambda>v. f v \<notin> set (map (\<lambda>(w, v). f v) (filter (\<lambda>(w, v). P w) (zip ws vs)))) vs = map snd (filter (\<lambda>(w, v). \<not> P w) (zip ws vs))"
    and "filter (\<lambda>w. \<not> P w) ws = map fst (filter (\<lambda>(w, v). \<not> P w) (zip ws vs))"
proof -
  show "filter (\<lambda>w. \<not> P w) ws = map fst (filter (\<lambda>(w, v). \<not> P w) (zip ws vs))"
    using assms(1) by (induction ws vs rule: list_induct2) auto
  have d: "distinct (map (\<lambda>(w, v). f v) (zip ws vs))"
  proof -
    have "map (\<lambda>(w, v). f v) (zip ws vs) = map f (map snd (zip ws vs))" by (simp add: case_prod_beta')
    then show ?thesis using assms by simp
  qed
  define G where "G = set (map (\<lambda>(w, v). f v) (filter (\<lambda>(w, v). P w) (zip ws vs)))"
  have G: "(f v \<in> G) = P w" if "(w, v) \<in> set (zip ws vs)" for w v
    using d that unfolding G_def by (force simp: distinct_map inj_on_def)
  have "filter (\<lambda>(w, v). \<not> P w) (zip ws vs) = filter (\<lambda>p. f (snd p) \<notin> G) (zip ws vs)"
    by (rule filter_cong) (auto simp: G)
  then have "map snd (filter (\<lambda>(w, v). \<not> P w) (zip ws vs)) = filter (\<lambda>v. f v \<notin> G) (map snd (zip ws vs))"
    by (simp add: filter_map o_def)
  then show "filter (\<lambda>v. f v \<notin> set (map (\<lambda>(w, v). f v) (filter (\<lambda>(w, v). P w) (zip ws vs)))) vs = map snd (filter (\<lambda>(w, v). \<not> P w) (zip ws vs))"
    unfolding G_def [symmetric] using assms(1) by simp
qed

lemma zip_sids:
  assumes "map f ws = map g vs"
  shows "map f (map fst (filter P (zip ws vs))) = map g (map snd (filter P (zip ws vs)))"
proof -
  have "length ws = length vs" using assms by (metis length_map)
  then show ?thesis using assms by (induction ws vs rule: list_induct2) auto
qed

lemma close_gone_inv:
  assumes c: "client_inv t c" and e: "hub_enabled (cl_hub c) e"
    and f: "hub_frame (hub_step t (cl_hub c) e) =
      (map swin_frame (filter (\<lambda>w. \<not> gone (session_map ss) w) (h_wins (cl_hub c))), snd (hub_frame (cl_hub c)))"
  shows "client_inv t (close_page t lc abort e (gone_nums ss c) c)"
proof (rule close_page_inv [OF c e])
  note I = client_invD [OF c]
  let ?ws = "h_wins (cl_hub c)" and ?vs = "allShellWins (cl_desk c)" and ?P = "gone (session_map ss)"
  have "frame_ok (map swin_frame ?ws)" using I(2) by (simp add: fine_frame hub_frame_def)
  then show "hub_fine (hub_step t (cl_hub c) e)" unfolding fine_frame f frame_ok_def by auto
  show "snd (hub_frame (hub_step t (cl_hub c) e)) = snd (hub_frame (cl_hub c))" using f by simp
  have sids: "map (\<lambda>w. snd (sid_of w)) ?ws = map wn_sid ?vs" using I(9) by (simp add: same_wins_iff fst_view hub_view_def o_def)
  then have len: "length ?ws = length ?vs" by (metis length_map)
  have dist: "distinct (map wid ?vs)" using desk_distinct [OF I(3)] by (simp add: fst_view)
  have "hub_view (hub_step t (cl_hub c) e) = map sid_of (filter (\<lambda>w. \<not> ?P w) ?ws)"
    by (simp add: frame_view f o_def swin_frame_def sid_of_def)
  then have "map snd (hub_view (hub_step t (cl_hub c) e)) = map wn_sid (map snd (filter (\<lambda>(w, v). \<not> ?P w) (zip ?ws ?vs)))"
    using zip_sids [OF sids, of "\<lambda>(w, v). \<not> ?P w"] filter_zip(2) [OF len dist, of ?P] by (simp add: o_def)
  also have "... = map wn_sid (filter (\<lambda>v. wid v \<notin> set (gone_nums ss c)) ?vs)"
    using filter_zip(1) [OF len dist, of ?P] unfolding gone_nums_def by simp
  finally show "map snd (hub_view (hub_step t (cl_hub c) e)) = map snd (filter (\<lambda>p. fst p \<notin> set (gone_nums ss c)) (desk_view (cl_desk c)))"
    by (simp add: desk_view_def filter_map o_def)
qed

lemma hub_wins: "client_inv t c \<Longrightarrow> wins_inv t (cl_hub c)"
  using client_invD(1) by (simp add: hub_inv_def)

lemma rename_frame:
  assumes c: "client_inv t c" and r: "renamed k input (cl_hub c) = Some ss"
  shows "hub_frame (hub_step t (cl_hub c) (HRename ans k input)) =
      (map swin_frame (filter (\<lambda>w. \<not> gone (session_map ss) w) (h_wins (cl_hub c))), snd (hub_frame (cl_hub c)))"
proof -
  have "rename_session t ans k input (cl_hub c) = applySessionsSnapshot t ans ss (cl_hub c)"
    using r by (auto simp: renamed_def rename_session_def Let_def split: if_splits)
  then show ?thesis using snapshot_frame [OF hub_wins [OF c]] by (simp add: frame_rename) (simp add: hub_frame_def)
qed

section \<open>Starting, answering, picking\<close>

lemma start_wins:
  assumes "la_term l" and "e = LCard k \<and> conn = card_conn k l \<or> e = LRun \<and> conn = run_conn l"
  shows "la_wins (la_step msgs lc abort l e) = (case getPendingShellWindowForConn conn l of None \<Rightarrow> la_wins (openPendingShellWindow conn l) | Some w \<Rightarrow> la_wins l)"
    and "la_count (la_step msgs lc abort l e) = (case getPendingShellWindowForConn conn l of None \<Rightarrow> Suc (la_count l) | Some w \<Rightarrow> la_count l)"
    and "la_term (la_step msgs lc abort l e)"
proof -
  have s: "la_wins (startSessionAndOpenShell msgs conn g cm md nm m) = (case getPendingShellWindowForConn conn l of None \<Rightarrow> la_wins (openPendingShellWindow conn l) | Some w \<Rightarrow> la_wins l)"
    "la_count (startSessionAndOpenShell msgs conn g cm md nm m) = (case getPendingShellWindowForConn conn l of None \<Rightarrow> Suc (la_count l) | Some w \<Rightarrow> la_count l)"
    "la_term (startSessionAndOpenShell msgs conn g cm md nm m)"
    if "la_wins m = la_wins l" "la_count m = la_count l" "la_term m" for g cm md nm m
  proof -
    have "getPendingShellWindowForConn conn m = getPendingShellWindowForConn conn l" using that(1) by (simp add: getPendingShellWindowForConn_def)
    then show "la_wins (startSessionAndOpenShell msgs conn g cm md nm m) = (case getPendingShellWindowForConn conn l of None \<Rightarrow> la_wins (openPendingShellWindow conn l) | Some w \<Rightarrow> la_wins l)"
      "la_count (startSessionAndOpenShell msgs conn g cm md nm m) = (case getPendingShellWindowForConn conn l of None \<Rightarrow> Suc (la_count l) | Some w \<Rightarrow> la_count l)"
      "la_term (startSessionAndOpenShell msgs conn g cm md nm m)"
      using that by (simp_all add: startSessionAndOpenShell_def openPendingShellWindow_def split: option.split)
  qed
  have "\<exists>g cm md nm m. la_step msgs lc abort l e = startSessionAndOpenShell msgs conn g cm md nm m \<and> la_wins m = la_wins l \<and> la_count m = la_count l \<and> la_term m"
    using assms(2)
  proof
    assume "e = LCard k \<and> conn = card_conn k l"
    then have "la_step msgs lc abort l e = startSessionAndOpenShell msgs conn (FromCard (ec_id (la_cards l ! k))) [] [] None
        (set_connecting (ec_id (la_cards l ! k)) True (rememberConnBanner None (setLoadBanner [] l)))"
      by (simp add: la_step_def card_connect_def card_conn_def)
    then show ?thesis using assms(1) by (intro exI conjI) (assumption, simp_all)
  next
    assume "e = LRun \<and> conn = run_conn l"
    then have "la_step msgs lc abort l e = startSessionAndOpenShell msgs conn FromDialog (js_trim (sd_cmd (la_dialog l))) (sd_mode (la_dialog l))
        (if js_trim (sd_name (la_dialog l)) = [] then None else Some (js_trim (sd_name (la_dialog l))))
        (l\<lparr>la_dialog := (la_dialog l)\<lparr>sd_err := None, sd_shown := False\<rparr>\<rparr>)"
      by (simp add: la_step_def start_run_def run_conn_def Let_def)
    then show ?thesis using assms(1) by (intro exI conjI) (assumption, simp_all)
  qed
  then obtain g cm md nm m where m: "la_step msgs lc abort l e = startSessionAndOpenShell msgs conn g cm md nm m"
    "la_wins m = la_wins l" "la_count m = la_count l" "la_term m" by blast
  show "la_wins (la_step msgs lc abort l e) = (case getPendingShellWindowForConn conn l of None \<Rightarrow> la_wins (openPendingShellWindow conn l) | Some w \<Rightarrow> la_wins l)"
    "la_count (la_step msgs lc abort l e) = (case getPendingShellWindowForConn conn l of None \<Rightarrow> Suc (la_count l) | Some w \<Rightarrow> la_count l)"
    "la_term (la_step msgs lc abort l e)"
    unfolding m(1) by (rule s [OF m(2-4)])+
qed

lemma view_step: "hub_view (hub_step t h e) = hub_view (hub_op t h e)"
  by (simp add: frame_view frame_step)

lemma start_page_inv:
  assumes c: "client_inv t c" and k: "e = LCard k \<and> conn = card_conn k (cl_launch c) \<or> e = LRun \<and> conn = run_conn (cl_launch c)"
    and e: "la_enabled (cl_launch c) e" and o: "start_ok conn c"
  shows "client_inv t (start_page t lc abort e conn click c)"
proof -
  define l where "l = la_step (\<lambda>g. t) lc abort (cl_launch c) e"
  note I = client_invD [OF c]
  have tm: "la_term (cl_launch c)" using I(4) by (simp add: launch_fine_def)
  note w = start_wins [OF tm k, of "\<lambda>g. t" lc abort, folded l_def]
  have "lwins_ok l" unfolding l_def using I(4) e by (intro lwins_step) (simp_all add: launch_fine_def)
  then have lf: "launch_fine l" using w(3) by (simp add: launch_fine_def)
  have lb: "banner_ok (\<lambda>g. t) l" unfolding l_def by (rule banner_step [OF I(5)])
  show ?thesis
  proof (cases "getPendingShellWindowForConn conn (cl_launch c)")
    case None
    define h where "h = hub_step t (cl_hub c) HPending"
    define d where "d = wm_step (cl_desk c) (WPending click)"
    have p: "start_page t lc abort e conn click c = launch_do t lc abort e (desk_do (WPending click) (hub_do t HPending c))"
      by (simp add: start_page_def None)
    have f: "hub_frame h = (fst (hub_frame (cl_hub c)) @ [([], [], True)], snd (hub_frame (cl_hub c)))" by (simp add: h_def frame_events)
    have "hub_inv t h" unfolding h_def by (rule hub_step_inv [OF I(1)]) simp
    moreover have "hub_fine h" using I(2) f by (simp add: fine_frame frame_ok_def)
    moreover have "sock_inv ((cl_sock c)\<lparr>pg_net := h_net h\<rparr>)" using I(6) frame_sock [of h "cl_hub c"] f by simp
    moreover have "desk_inv d" "mobile d = mobile (cl_desk c)" unfolding d_def using wm_step_inv [OF I(3)] mobile_step by simp_all
    moreover have "same_wins d h"
    proof -
      have "hub_view h = hub_view (open_pending (cl_hub c))" by (simp add: h_def view_step)
      then show ?thesis using desk_hub.agree_pend [OF I(9,3,2), of click] same_wins_cong unfolding d_def by blast
    qed
    moreover have "same_nums d l"
    proof -
      have "launch_view l = launch_view (openPendingShellWindow conn (cl_launch c))" "launch_fresh l = launch_fresh (openPendingShellWindow conn (cl_launch c))"
        using w(1,2) None by (simp_all add: launch_view_def launch_fresh_def openPendingShellWindow_def)
      then show ?thesis using desk_launch.agree_pend [OF I(10,3,4), of click conn] by (simp add: d_def same_nums_iff)
    qed
    moreover have "cl_hub (start_page t lc abort e conn click c) = h" "cl_desk (start_page t lc abort e conn click c) = d"
      "cl_launch (start_page t lc abort e conn click c) = l" "cl_sock (start_page t lc abort e conn click c) = cl_sock c"
      "cl_switch (start_page t lc abort e conn click c) = cl_switch c"
      by (simp_all add: p h_def d_def l_def)
    ultimately show ?thesis using lf lb I(7) I(8) unfolding client_inv_def by simp
  next
    case (Some w')
    define c1 where "c1 = desk_do (WRaise (lw_id w')) c"
    have "client_inv t c1" unfolding c1_def using o Some by (intro desk_do_inv [OF c]) (simp_all add: start_ok_def)
    note J = client_invD [OF this]
    have "same_nums (cl_desk c1) l" using J(10) w(1,2) Some by (simp add: same_nums_iff launch_view_def launch_fresh_def c1_def)
    moreover have "start_page t lc abort e conn click c = launch_do t lc abort e c1" by (simp add: start_page_def Some c1_def)
    moreover have "cl_launch c1 = cl_launch c" by (simp add: c1_def)
    ultimately show ?thesis using J(1,2,3,6,7,9) J(8) lf lb by (simp add: client_inv_def l_def)
  qed
qed

lemma first_at_wid:
  assumes "distinct (map wid vs)" and "i < length vs"
  shows "first_at (\<lambda>w. wid w = wid (vs ! i)) vs = Some i"
  using assms
proof (induction vs arbitrary: i)
  case (Cons v vs)
  then show ?case by (cases i) auto
qed simp

text \<open>The window that waits for request \<open>k\<close>.\<close>

lemma waiting_window:
  assumes c: "client_inv t c" and k: "k < length (la_waiting (cl_launch c))" and q: "la_waiting (cl_launch c) ! k = (n, conn, g)"
  obtains i where "num_pos n c = Some i" and "i < length (h_wins (cl_hub c))" and "num_at i (cl_desk c) = n"
    and "desk_view (cl_desk c) ! i = (n, None)" and "sw_placeholder (h_wins (cl_hub c) ! i)"
proof -
  note I = client_invD [OF c]
  have ok: "lwins_ok (cl_launch c)" using I(4) by (simp add: launch_fine_def)
  obtain w where w: "w \<in> set (la_wins (cl_launch c))" "lw_id w = n" "lw_placeholder w" using awaited_placeholder [OF ok k q] by blast
  then have "lw_sid w = []" using ok by (auto simp: lwins_ok_def)
  then have "(n, None) \<in> set (launch_view (cl_launch c))" using w(1,2) by (force simp: launch_view_def)
  then have "(n, None) \<in> set (desk_view (cl_desk c))" using I(10) by (simp add: same_nums_iff)
  then obtain i where i: "i < length (desk_view (cl_desk c))" "desk_view (cl_desk c) ! i = (n, None)" by (auto simp: in_set_conv_nth)
  have n: "num_at i (cl_desk c) = n" using num_at_nth [OF i(1)] i(2) by simp
  have "num_pos n c = Some i"
    using first_at_wid [of "allShellWins (cl_desk c)" i] desk_distinct [OF I(3)] i(1) n unfolding fst_view(1)
    by (simp add: num_pos_def num_at_def desk_view_def)
  moreover have hi: "i < length (h_wins (cl_hub c))" using i(1) wins_length [OF c] by simp
  moreover have "snd (hub_view (cl_hub c) ! i) = None"
    using I(9) i nth_map [OF i(1), of snd] nth_map [of i "hub_view (cl_hub c)" snd] hi by (simp add: same_wins_iff hub_view_def)
  then have "sw_placeholder (h_wins (cl_hub c) ! i)"
    using I(2) hi by (auto simp: hub_view_def sid_of_def hub_fine_def win_fine_def split: if_splits)
  ultimately show thesis using that n i(2) by blast
qed

lemma answer_page_inv:
  assumes c: "client_inv t c" and k: "k < length (la_waiting (cl_launch c))"
  shows "client_inv t (answer_page t lc abort ans k r shell c)"
proof -
  obtain n conn g where q: "la_waiting (cl_launch c) ! k = (n, conn, g)" by (cases "la_waiting (cl_launch c) ! k") auto
  obtain i where i: "num_pos n c = Some i" "i < length (h_wins (cl_hub c))" "num_at i (cl_desk c) = n"
    "desk_view (cl_desk c) ! i = (n, None)" "sw_placeholder (h_wins (cl_hub c) ! i)" by (rule waiting_window [OF c k q])
  note I = client_invD [OF c]
  define l where "l = la_step (\<lambda>g. t) lc abort (cl_launch c) (LAnswer k r)"
  have ok: "lwins_ok (cl_launch c)" and tm: "la_term (cl_launch c)" using I(4) by (simp_all add: launch_fine_def)
  have i': "i < length (desk_view (cl_desk c))" using i(2) wins_length [OF c] by simp
  have lo: "lwins_ok l" unfolding l_def using k by (intro lwins_step [OF ok]) (simp add: la_enabled_def)
  have lb: "banner_ok (\<lambda>g. t) l" unfolding l_def by (rule banner_step [OF I(5)])
  have lv: "fst (launch_view (cl_launch c) ! i) = n" using I(10) i(4) by (simp add: same_nums_iff)
  show ?thesis
  proof (cases "\<exists>x xs. r = Inr (x # xs)")
    case True
    then obtain x xs where r: "r = Inr (x # xs)" by blast
    define sid where "sid = x # xs"
    have s: "sid \<noteq> []" "r = Inr sid" by (simp_all add: sid_def r)
    define h where "h = hub_step t (cl_hub c) (HFinal ans i sid shell)"
    define d where "d = wm_step (cl_desk c) (WFinal n sid)"
    have p: "answer_page t lc abort ans k r shell c = launch_do t lc abort (LAnswer k r) (desk_do (WFinal n sid) (hub_do t (HFinal ans i sid shell) c))"
      by (simp add: answer_page_def q i(1) r sid_def)
    have f: "hub_frame h = ((fst (hub_frame (cl_hub c)))[i := (sid, sid, False)], snd (hub_frame (cl_hub c)))"
      unfolding h_def by (rule frame_final [OF i(2) s(1)])
    have "hub_inv t h" unfolding h_def by (rule hub_step_inv [OF I(1)]) (use i(2,5) s(1) in simp)
    moreover have "hub_fine h" using I(2) f s(1) by (auto simp: fine_frame frame_ok_def dest!: set_update_subset_insert [THEN subsetD])
    moreover have "sock_inv ((cl_sock c)\<lparr>pg_net := h_net h\<rparr>)" using I(6) frame_sock [of h "cl_hub c"] f by simp
    moreover have "desk_inv d" "mobile d = mobile (cl_desk c)" unfolding d_def using wm_step_inv [OF I(3)] mobile_step by simp_all
    moreover have "same_wins d h"
    proof -
      have "hub_view h = hub_view (finalize_win t ans i sid shell (cl_hub c))" by (simp add: h_def view_step)
      moreover have "same_wins d (finalize_win t ans i sid shell (cl_hub c))"
        using desk_hub.agree_settle [OF I(9,3,2) s(1) i', of t ans shell] i(3,4) by (simp add: d_def)
      ultimately show ?thesis by (simp add: same_wins_iff)
    qed
    moreover have "l = start_kept g (finalizePending n sid ((cl_launch c)\<lparr>la_waiting := filter (\<lambda>x. fst x \<noteq> n) (la_waiting (cl_launch c))\<rparr>))"
      using start_answer_ok [OF ok k q s(1), of "\<lambda>g. t"] by (simp add: l_def la_step_def s(2))
    then have lw: "la_wins l = la_wins (finalizePending n sid (cl_launch c))" "la_count l = la_count (cl_launch c)" "la_term l = la_term (cl_launch c)"
      by (simp_all add: finalizePending_def)
    moreover have "same_nums d l"
    proof -
      have "launch_view l = launch_view (finalizePending n sid (cl_launch c))" "launch_fresh l = launch_fresh (finalizePending n sid (cl_launch c))"
        using lw by (simp_all add: launch_view_def launch_fresh_def finalizePending_def)
      then show ?thesis using desk_launch.agree_settle [OF I(10,3,4) s(1) i'] i(3,4) lv unfolding d_def by (simp add: same_nums_iff)
    qed
    moreover have "cl_hub (answer_page t lc abort ans k r shell c) = h" "cl_desk (answer_page t lc abort ans k r shell c) = d"
      "cl_launch (answer_page t lc abort ans k r shell c) = l" "cl_sock (answer_page t lc abort ans k r shell c) = cl_sock c"
      "cl_switch (answer_page t lc abort ans k r shell c) = cl_switch c"
      by (simp_all add: p h_def d_def l_def)
    moreover have "launch_fine l" using lo tm lw(3) by (simp add: launch_fine_def)
    ultimately show ?thesis using lb I(7) I(8) unfolding client_inv_def by simp
  next
    case False
    then obtain msg where r: "r = Inr [] \<or> r = Inl msg" by (metis list.exhaust sum.exhaust)
    define h where "h = hub_step t (cl_hub c) (HClose i)"
    define d where "d = wm_step (cl_desk c) (WClose [n])"
    have p: "answer_page t lc abort ans k r shell c = launch_do t lc abort (LAnswer k r) (desk_do (WClose [n]) (hub_do t (HClose i) c))"
      using r by (auto simp: answer_page_def q i(1))
    have "client_inv t (close_page t lc abort (HClose i) [num_at i (cl_desk c)] c)"
      by (rule close_one_inv [OF c _ i(2)]) (simp_all add: i(2) frame_events)
    note J = client_invD [OF this]
    have jf: "cl_hub (close_page t lc abort (HClose i) [num_at i (cl_desk c)] c) = h" "cl_desk (close_page t lc abort (HClose i) [num_at i (cl_desk c)] c) = d"
      "cl_sock (close_page t lc abort (HClose i) [num_at i (cl_desk c)] c) = cl_sock c" "cl_switch (close_page t lc abort (HClose i) [num_at i (cl_desk c)] c) = cl_switch c"
      "cl_launch (close_page t lc abort (HClose i) [num_at i (cl_desk c)] c) = launch_closes t lc abort [n] (cl_launch c)"
      by (simp_all add: close_page_def Let_def h_def d_def i(3))
    have lw: "la_wins l = filter (\<lambda>w. lw_id w \<noteq> n) (la_wins (cl_launch c))" "la_count l = la_count (cl_launch c)" "la_term l"
      using start_answer_failed [OF ok k q r, of "\<lambda>g. t"] tm by (simp_all add: l_def la_step_def)
    then have "launch_view l = launch_view (launch_closes t lc abort [n] (cl_launch c))" "launch_fresh l = launch_fresh (launch_closes t lc abort [n] (cl_launch c))"
      unfolding closes_parts by (simp_all add: launch_view_def launch_fresh_def filter_map o_def)
    then have "same_nums d l" using J(10) jf by (simp add: same_nums_iff)
    moreover have "cl_hub (answer_page t lc abort ans k r shell c) = h" "cl_desk (answer_page t lc abort ans k r shell c) = d"
      "cl_launch (answer_page t lc abort ans k r shell c) = l" "cl_sock (answer_page t lc abort ans k r shell c) = cl_sock c"
      "cl_switch (answer_page t lc abort ans k r shell c) = cl_switch c"
      by (simp_all add: p h_def d_def l_def)
    moreover have "launch_fine l" using lo lw(3) by (simp add: launch_fine_def)
    ultimately show ?thesis using lb I(8) J(1,2,3,6,7,9) unfolding jf client_inv_def by simp
  qed
qed

lemma present_sid:
  assumes c: "client_inv t c" and w: "get_win n (cl_desk c) = Some w" and s: "wn_sid w = Some sid"
  shows "sid \<noteq> []" and "Some sid \<in> snd ` set (desk_view (cl_desk c))" and "sid \<in> fst ` set (fst (hub_frame (cl_hub c)))"
proof -
  show d: "Some sid \<in> snd ` set (desk_view (cl_desk c))" using get_win_Some [OF w] s by (force simp: desk_view_def)
  have "snd ` set (desk_view (cl_desk c)) = snd ` set (hub_view (cl_hub c))"
    using client_invD(9) [OF c] unfolding same_wins_iff by (metis list.set_map)
  then have "Some sid \<in> snd ` set (hub_view (cl_hub c))" using d by simp
  then obtain v where v: "v \<in> set (h_wins (cl_hub c))" "snd (sid_of v) = Some sid" by (auto simp: hub_view_def)
  then show "sid \<noteq> []" by (auto simp: sid_of_def split: if_splits)
  show "sid \<in> fst ` set (fst (hub_frame (cl_hub c)))"
    using v by (force simp: sid_of_def hub_frame_def swin_frame_def split: if_splits)
qed

lemma view_tab: "desk_view (wm_step d (WTab n)) = desk_view d \<and> desk_fresh (wm_step d (WTab n)) = desk_fresh d"
proof (cases "get_win n d")
  case (Some w)
  then have "getShellWindowBySid (wn_sid w) d \<noteq> None" using get_win_Some [OF Some] by (auto simp: getShellWindowBySid_def find_None_iff)
  then show ?thesis using Some by (auto simp: wm_step_def tab_click_def focusSessionWindow_def)
qed (simp add: wm_step_def tab_click_def)

lemma desk_only_inv:
  assumes c: "client_inv t c" and e: "wm_enabled (cl_desk c) e"
    and v: "desk_view (wm_step (cl_desk c) e) = desk_view (cl_desk c) \<and> desk_fresh (wm_step (cl_desk c) e) = desk_fresh (cl_desk c)"
  shows "client_inv t (desk_do e c)"
  using client_invD [OF c] wm_step_inv [OF client_invD(3) [OF c] e] v mobile_step [OF e]
  by (simp add: client_inv_def same_wins_iff same_nums_iff)

lemma tab_page_inv:
  assumes c: "client_inv t c" and e: "client_enabled c (CTab n)"
  shows "client_inv t (tab_page t lc abort n c)"
proof (cases "get_win n (cl_desk c)")
  case None
  then show ?thesis using c by (simp add: tab_page_def)
next
  case (Some w)
  have d: "client_inv t (desk_do (WTab n) c)" using e by (intro desk_only_inv [OF c _ view_tab]) simp
  show ?thesis
  proof (cases "wn_sid w")
    case None
    then show ?thesis using d Some by (simp add: tab_page_def)
  next
    case s: (Some sid)
    note p = present_sid [OF c Some s]
    have f: "hub_frame (hub_step t (cl_hub c) (HFocus None sid False)) = hub_frame (cl_hub c)" using p(3) by (simp add: frame_events focus_frame_def)
    have h: "client_inv t (hub_do t (HFocus None sid False) (desk_do (WTab n) c))" using p(1) f by (intro hub_do_inv [OF d]) simp_all
    define l where "l = openShellWindow sid (cl_launch c)"
    have lv: "launch_view l = launch_view (cl_launch c)" "launch_fresh l = launch_fresh (cl_launch c)"
      using launchv.view_show [OF client_invD(4) [OF c] p(1)] launchv.fresh_show [OF client_invD(4) [OF c] p(1)] p(2) client_invD(10) [OF c]
      by (simp_all add: l_def same_nums_iff)
    have "launch_fine l" using client_invD(4) [OF c] lwins_opened [OF _ p(1), of "cl_launch c"] by (simp add: launch_fine_def l_def)
    moreover have "banner_ok (\<lambda>g. t) l" using client_invD(5) [OF c] by (simp add: l_def banner_remember)
    ultimately have "client_inv t ((hub_do t (HFocus None sid False) (desk_do (WTab n) c))\<lparr>cl_launch := l\<rparr>)"
      using h lv by (simp add: client_inv_def same_nums_iff)
    moreover have "tab_page t lc abort n c = (hub_do t (HFocus None sid False) (desk_do (WTab n) c))\<lparr>cl_launch := l\<rparr>"
      by (simp add: tab_page_def Some s launch_do_def desk_do_def hub_do_def l_def la_step_def)
    ultimately show ?thesis by simp
  qed
qed

lemma pick_page_inv:
  assumes c: "client_inv t c" and e: "client_enabled c (CPick ans k)"
  shows "client_inv t (pick_page t lc abort ans k c)"
proof -
  obtain items where m: "mn_menu (cl_switch c) = Some items" "k < length items" using e by (auto split: option.splits)
  then have s: "si_sid (picked k c) \<noteq> []" using client_invD(8) [OF c m(1), of "items ! k"] by (simp add: picked_def)
  have "client_inv t (switch_do closeSessionSwitchMenu c)"
    by (rule switch_do_inv [OF c]) (simp_all add: close_menu_inv client_invD(7) [OF c])
  then show ?thesis unfolding pick_page_def Let_def by (rule focus_page_inv) (simp_all add: s frame_events)
qed

section \<open>The socket, and the whole step\<close>

lemma sock_net:
  "ws_open n = ws_open (pg_net p) \<Longrightarrow> sock_inv (p\<lparr>pg_net := n\<rparr>) = sock_inv p"
  "sock_inv (p\<lparr>pg_wins := ws, pg_net := n\<rparr>) = sock_inv (p\<lparr>pg_net := n\<rparr>)"
  by (cases "uiWS p"; simp add: sock_inv_def)+

lemma sock_do_inv:
  assumes c: "client_inv t c" and s: "shared c" and e: "client_enabled c (CSocket e)"
  shows "client_inv t (sock_do t e c)"
proof -
  note I = client_invD [OF c]
  define p where "p = sock_step (cl_sock c) e"
  define ev where "ev = (case e of SOpen i \<Rightarrow> HOpened (pg_net p) | _ \<Rightarrow> HClosed (pg_net p) (sock_wait (cl_sock c) e))"
  define h where "h = hub_step t (cl_hub c) ev"
  have "(cl_sock c)\<lparr>pg_net := h_net (cl_hub c)\<rparr> = cl_sock c" using s by (cases "cl_sock c") (simp add: shared_def)
  then have "sock_inv (cl_sock c)" using I(6) by simp
  then have pi: "sock_inv p" unfolding p_def using e by (intro sock_step_inv) simp_all
  have f: "fst (hub_frame h) = fst (hub_frame (cl_hub c))" "snd (hub_frame h) = ws_open (pg_net p)"
    by (simp_all add: h_def ev_def frame_socket split: sock_event.split)
  have "hub_inv t h" unfolding h_def by (rule hub_step_inv [OF I(1)]) (simp add: ev_def split: sock_event.split)
  moreover have "hub_fine h" "hub_view h = hub_view (cl_hub c)" using I(2) f(1) by (simp_all add: fine_frame frame_view)
  moreover have "sock_inv (p\<lparr>pg_net := h_net h\<rparr>)" using pi f(2) by (simp add: sock_net hub_frame_def)
  moreover have "sock_do t e c = c\<lparr>cl_sock := p, cl_hub := h\<rparr>" 
    unfolding sock_do_def Let_def hub_do_def h_def ev_def p_def by simp
  ultimately show ?thesis using c by (simp add: client_inv_def same_wins_iff)
qed

lemma share_inv:
  assumes c: "client_inv t c"
  shows "client_inv t (share c)" and "shared (share c)"
proof -
  note I = client_invD [OF c]
  have "distinct (map wid (allShellWins (cl_desk c)))" using desk_distinct [OF I(3)] by (simp add: fst_view)
  then have "switch_inv (mobile (cl_desk c)) (cl_switch (share c))" using I(7) by (simp add: share_def follow_inv)
  moreover have "mn_menu (cl_switch (share c)) = mn_menu (cl_switch c)" by (simp add: share_def follow_windows_def)
  moreover have "sock_inv ((cl_sock (share c))\<lparr>pg_net := h_net (cl_hub c)\<rparr>)" using I(6) by (simp add: share_def sock_net)
  moreover have "cl_hub (share c) = cl_hub c" "cl_desk (share c) = cl_desk c" "cl_launch (share c) = cl_launch c" by (simp_all add: share_def)
  ultimately show "client_inv t (share c)" using c by (simp add: client_inv_def)
  show "shared (share c)" by (auto simp: shared_def share_def follow_windows_def find_Some_iff o_def intro!: map_idI split: option.split)
qed

lemma batch_page_inv:
  assumes c: "client_inv t c" and j: "j < length (h_batches (cl_hub c))"
  shows "client_inv t (batch_page t lc abort j err c)"
proof -
  define c1 where "c1 = close_page t lc abort (HBatchAnswer j err)
    (if err = None then nums_at (win_at_sid (batch_sid j c) (cl_hub c)) c else []) c"
  have c1: "client_inv t c1" unfolding c1_def using j
    by (cases err) (simp_all add: batch_sid_def close_sid_inv [OF c] close_none_inv [OF c] frame_batch)
  have "client_inv t (sock_do t SStart (share c1))" by (rule sock_do_inv [OF share_inv [OF c1]]) simp
  then show ?thesis using c1 by (simp add: batch_page_def c1_def [symmetric] Let_def)
qed

lemma frame_fun_inv:
  assumes c: "client_inv t c" and f: "client_enabled c (CFrame m)"
  shows "client_inv t (ws_onmessage t lc abort m c)"
proof (cases m)
  case (FSessions ans ss conns)
  have e: "hub_enabled (cl_hub c) (HSnapshot ans ss)" using f FSessions by simp
  define c1 where "c1 = close_page t lc abort (HSnapshot ans ss) (gone_nums ss c) c"
  have "client_inv t c1" unfolding c1_def
    by (rule close_gone_inv [OF c e]) (simp add: frame_rename snapshot_frame [OF hub_wins [OF c]], simp add: hub_frame_def)
  then show ?thesis using launch_do_inv [of t c1 "LPushed cs" cs lc abort for cs] FSessions
    by (simp add: c1_def [symmetric] la_enabled_def split: option.split)
next
  case (FTerminal sid d)
  have "frame_win sid (cl_hub c) = Some i \<Longrightarrow> i < length (h_wins (cl_hub c))" for i
    by (auto simp: frame_win_def first_at_Some dest: win_at_lt split: option.splits)
  then have "client_inv t (hub_do t (HWin i (ChFrame sid d)) c)" if "frame_win sid (cl_hub c) = Some i" for i
    using that by (intro hub_do_inv [OF c] frame_local) simp_all
  then show ?thesis using FTerminal c by (simp split: option.split)
next
  case (FDone sid)
  have "frame_win sid (cl_hub c) = Some i \<Longrightarrow> i < length (h_wins (cl_hub c))" for i
    by (auto simp: frame_win_def first_at_Some dest: win_at_lt split: option.splits)
  then have "client_inv t (hub_do t (HWin i (ChDone sid)) c)" if "frame_win sid (cl_hub c) = Some i" for i
    using that by (intro hub_do_inv [OF c] frame_local) simp_all
  then show ?thesis using FDone c by (simp split: option.split)
next
  case (FNotify n)
  then show ?thesis by (simp add: hub_do_inv [OF c] frame_local)
next
  case (FApproval n)
  then show ?thesis by (simp add: hub_do_inv [OF c] frame_local)
qed

lemma icon_menu:
  "mn_menu (icon_activate d ss i s) = mn_menu s \<or> mn_menu (icon_activate d ss i s) = None \<or> (\<exists>cur. mn_menu (icon_activate d ss i s) = Some (switch_items d cur ss))"
  "mn_menu (doc_click a b s) = mn_menu s \<or> mn_menu (doc_click a b s) = None" "mn_menu (escape_key s) = mn_menu s \<or> mn_menu (escape_key s) = None"
  by (auto simp: icon_activate_def openSessionSwitchMenu_def Let_def doc_click_def onSessionSwitchMenuDocClick_def escape_key_def)

lemma sync_menu: "mn_menu (sync_all mob s) = mn_menu s \<or> mn_menu (sync_all mob s) = None"
proof -
  have "mn_menu (foldl (\<lambda>r i. syncSwitcherAffordance mob i r) s is) \<in> {mn_menu s, None}" for "is"
    by (induction "is" arbitrary: s) (force simp: syncSwitcherAffordance_def Let_def)+
  then show ?thesis by (simp add: sync_all_def)
qed

lemma tile_session_ne:
  assumes c: "client_inv t c" and k: "k < length (h_tiles (cl_hub c))"
  shows "tile_session k c \<noteq> []"
proof -
  have g: "grid_inv (cl_hub c)" using client_invD(1) [OF c] by (simp add: hub_inv_def)
  then have "tl_sess (h_tiles (cl_hub c) ! k) \<in> set (h_snapshot (cl_hub c))" using k unfolding grid_inv_def by (metis length_map nth_map nth_mem)
  then show ?thesis using g ids_nonempty by (auto simp: grid_inv_def tile_session_def)
qed

lemma client_op_inv:
  assumes c: "client_inv t c" and s: "shared c" and e: "client_enabled c ev"
  shows "client_inv t (client_op t lc abort c ev)"
proof (cases ev)
  case (CSocket e')
  then show ?thesis using sock_do_inv [OF c s] e by simp
next
  case (CFrame m)
  then show ?thesis using frame_fun_inv [OF c] e by simp
next
  case (CHub e')
  then show ?thesis using e by (simp add: hub_do_inv [OF c] frame_local)
next
  case (CDesk e')
  then show ?thesis using e by (simp add: desk_do_inv [OF c])
next
  case (CLaunch e')
  then show ?thesis using e by (auto intro: launch_do_inv [OF c])
next
  case (CTile ans k click)
  have "tile_session k c \<noteq> []" using tile_session_ne [OF c] e CTile by simp
  then show ?thesis using CTile e by (simp, intro focus_page_inv [OF c]) (simp_all add: frame_events tile_session_def)
next
  case (CNotice ans k)
  then show ?thesis using c e by (simp add: card_sid_def) (intro impI focus_page_inv [OF c]; simp add: frame_events)
next
  case (CTab n)
  then show ?thesis using tab_page_inv [OF c] e by simp
next
  case (CPick ans k)
  then show ?thesis using pick_page_inv [OF c] e by simp
next
  case (CConnect k click)
  then show ?thesis using e by (simp add: start_page_inv [OF c] la_enabled_def)
next
  case (CRun click)
  then show ?thesis using e by (simp add: start_page_inv [OF c] la_enabled_def)
next
  case (CAnswer ans k r shell)
  then show ?thesis using answer_page_inv [OF c] e by simp
next
  case (CTabClose i)
  then show ?thesis using e by (simp add: close_one_inv [OF c] frame_events)
next
  case (CCancel i)
  then show ?thesis using e by (simp add: close_one_inv [OF c] frame_events)
next
  case (CDeleted sid)
  then show ?thesis using c by (auto simp: frame_events win_at_lt intro!: close_one_inv [OF c] split: option.split)
next
  case (CTileDelete k)
  then show ?thesis using e by (simp add: tile_session_def close_sid_inv [OF c] frame_rename)
next
  case (CBatchAnswer j err)
  then show ?thesis using batch_page_inv [OF c] e by simp
next
  case (CRename ans k input)
  then show ?thesis using e c rename_frame [OF c] by (auto simp: rename_page_def intro!: close_gone_inv [OF c] split: option.split)
next
  case (CIcon i)
  have d: "client_inv t (switch_do (doc_click False (is_btn i (cl_switch c))) c)"
    using icon_menu(2) by (intro switch_do_inv [OF c]) (auto simp: doc_click_inv client_invD(7) [OF c])
  have "client_inv t (switch_do (icon_activate (cl_desk c) (h_snapshot (cl_hub c)) i) (switch_do (doc_click False (is_btn i (cl_switch c))) c))"
    using icon_menu(1) [of "cl_desk c" "h_snapshot (cl_hub c)" i] client_invD(7) [OF d] by (intro switch_do_inv [OF d]) (auto simp: icon_activate_inv)
  then show ?thesis using CIcon by (simp add: switch_do_def icon_click_def)
next
  case (CIconKey i)
  then show ?thesis using icon_menu(1) [of "cl_desk c" "h_snapshot (cl_hub c)" i "cl_switch c"] client_invD(7) [OF c]
    by (auto intro!: switch_do_inv [OF c] simp: icon_activate_inv)
next
  case (CDocClick b)
  then show ?thesis using icon_menu(2) by (auto simp: doc_click_inv client_invD(7) [OF c] intro!: switch_do_inv [OF c])
next
  case CEscape
  have d: "client_inv t (desk_do WEscape c)" by (rule desk_do_inv [OF c]) simp_all
  then show ?thesis using CEscape icon_menu(3) by (auto simp: escape_key_inv client_invD(7) [OF c] mobile_step intro!: switch_do_inv [OF d])
next
  case CTimer
  have "mn_menu (timer_fires (cl_switch c)) = mn_menu (cl_switch c)" by (simp add: timer_fires_def)
  then show ?thesis using CTimer by (auto simp: timer_inv client_invD(7) [OF c] intro!: switch_do_inv [OF c])
next
  case CDrawer
  then show ?thesis by (auto simp: close_menu_inv client_invD(7) [OF c] intro!: switch_do_inv [OF c])
next
  case (CViewport iw ih)
  have d: "client_inv t (desk_do (WViewport (mobile (cl_desk c)) iw ih) c)" by (rule desk_do_inv [OF c]) simp_all
  have m: "mobile (wm_step (cl_desk c) (WViewport (mobile (cl_desk c)) iw ih)) = mobile (cl_desk c)" by (rule mobile_step) simp
  have "mn_menu (viewport_resized b r) = mn_menu r \<or> mn_menu (viewport_resized b r) = None" for b r
    using sync_menu [of b r] sync_menu [of b "closeSessionSwitchMenu r"] by (auto simp: viewport_resized_def)
  moreover have "switch_inv (mobile (cl_desk c)) (viewport_resized (mobile (cl_desk c)) (cl_switch c))"
    by (rule viewport_resized_inv [OF client_invD(7) [OF c]])
  ultimately have "client_inv t (switch_do (viewport_resized (mobile (cl_desk c))) (desk_do (WViewport (mobile (cl_desk c)) iw ih) c))"
    using m by (intro switch_do_inv [OF d]) auto
  then show ?thesis using CViewport by simp
next
  case CSync
  then show ?thesis using sync_menu by (auto simp: sync_all_inv client_invD(7) [OF c] intro!: switch_do_inv [OF c])
qed

lemma client_step_inv:
  "client_inv t c \<and> shared c \<Longrightarrow> client_enabled c e \<Longrightarrow> client_inv t (client_step t lc abort c e) \<and> shared (client_step t lc abort c e)"
  using client_op_inv [of t c e lc abort] share_inv [of t "client_op t lc abort c e"] by (simp add: client_step_def)

lemma client_start_inv: "client_inv t (client_start st strategy mob iw ih lang) \<and> shared (client_start st strategy mob iw ih lang)"
proof -
  have "sock_inv (page_start [])" unfolding page_start_def startUIWebSocket_def by (rule connect_inv) simp_all
  moreover have "pg_wins (page_start []) = []" by (simp add: page_start_def startUIWebSocket_def connectUIWebSocket_def Let_def)
  moreover have "mobile (desk_start st strategy mob iw ih) = mob" "allShellWins (desk_start st strategy mob iw ih) = []"
    "desk_fresh (desk_start st strategy mob iw ih) = 1"
    by (simp_all add: desk_start_def desk_fresh_def) (simp add: allShellWins_def)
  moreover have "launch_fine (la_start True lang)" "banner_ok (\<lambda>g. t) (la_start True lang)" "launch_view (la_start True lang) = []" "launch_fresh (la_start True lang) = 1"
    by (simp_all add: launch_fine_def la_start_def lwins_ok_def banner_ok_def awaited_def pending_def launch_view_def launch_fresh_def)
  ultimately show ?thesis
    using hub_start_inv [of t "pg_net (page_start [])"] desk_start_inv switcher_start_inv
    by (simp add: client_inv_def client_start_def shared_def same_wins_iff same_nums_iff desk_view_def hub_start_def hub_fine_def hub_view_def
        switcher_start_def sock_net)
qed

interpretation clientm: guarded_machine "client_start st strategy mob iw ih lang" "client_step t lc abort" "\<lambda>c. client_inv t c \<and> shared c" client_enabled
  for st strategy mob iw ih lang t lc abort
  by unfold_locales (rule client_start_inv, rule client_step_inv)

end
