(* ===== verification/Client_Shown.thy ===== *)
theory Client_Shown
  imports Client_Invariant
begin

text \<open>
  The properties of the page as a whole: one list of windows for all its parts, what picking a session,
  a list of sessions and a frame of output do everywhere, and that the theorems of the parts hold in it.
\<close>

section \<open>What a pick shows\<close>

lemma topWin_refresh [simp]: "topWin (refreshSessionTabbar d) = topWin d"
  unfolding topWin_def isTiledWin_def allShellWins_def by (simp add: refreshSessionTabbar_def cong: option.case_cong)

lemma observers_keep:
  assumes f: "desk_inv f" and w: "w \<in> set (allShellWins f)" "\<not> k_minimized w" and t: "topWin f = Some (wid w)"
  shows "topWin (observers old f) = Some (wid w)" and "visibility (observers old f) = visibility f"
    and "layoutTile f \<Longrightarrow> paneMaxed (observers old f) = paneMaxed f"
proof -
  have p: "topWin (pane_observer d) = Some (wid w) \<and> visibility (pane_observer d) = visibility d \<and> (layoutTile d \<longrightarrow> paneMaxed (pane_observer d) = paneMaxed d)"
    if d: "desk_inv d" and v: "w \<in> set (allShellWins d)" "topWin d = Some (wid w)" for d
  proof (cases "layoutTile d")
    case True
    then have m: "w \<in> set (panes d)" using v(1) desk_invD(8) [OF d] by (simp add: Windows_Invariant.mode_ok_def allShellWins_def)
    then have o: "pane_observer d = refreshSessionTabbar (applyPaneGrid d)" using True by (auto simp: pane_observer_def)
    have a: "paneActive d = Some (wid w)" using v(2) topWin_eq [OF desk_invD(2) [OF d]] True by (auto split: option.splits if_splits)
    then have g: "applyPaneGrid d = grid_paint d" using m w(2) by (auto simp: applyPaneGrid_eq)
    have "wid w \<in> set (map wid (panes (grid_paint d)))" unfolding grid_paint_ids using m by simp
    then have "topWin (grid_paint d) = Some (wid w)"
      unfolding topWin_eq [OF grid_paint_nodes [OF desk_invD(2) [OF d]]] using True a by (simp del: set_map)
    then show ?thesis using o g vis_grid [of d] by simp
  qed (use v in \<open>simp add: pane_observer_def\<close>)
  show "topWin (observers old f) = Some (wid w)" "visibility (observers old f) = visibility f"
    "layoutTile f \<Longrightarrow> paneMaxed (observers old f) = paneMaxed f"
    using p [OF f w(1) t] p [OF refresh_inv [OF f]] w(1) t by (simp_all add: observers_def Let_def)
qed

lemma focus_front:
  assumes d: "desk_inv d" and f: "f = focusSessionWindow (Some sid) click d"
  obtains w where "w \<in> set (allShellWins f)" and "wn_sid w = Some sid" and "\<not> k_minimized w" and "\<not> k_collapsed w" and "\<not> k_hidden w"
    and "topWin f = Some (wid w)" and "getShellWindowBySid (Some sid) d = None \<or> getShellWindowBySid (Some sid) d = Some (wid w)"
    and "getShellWindowBySid (Some sid) d = None \<longrightarrow> wid w = shellWindowCount d + 1"
proof (cases "find (\<lambda>w. wn_sid w = Some sid) (allShellWins d)")
  case None
  then have c: "f = create_win (Some sid) click d" by (simp add: f focusSessionWindow_def getShellWindowBySid_def)
  from create_shows [OF d c refl] None that show ?thesis by (auto simp: getShellWindowBySid_def)
next
  case (Some v)
  then have v: "v \<in> set (allShellWins d)" "wn_sid v = Some sid" by (auto simp: find_Some_iff)
  have c: "f = raise_win (wid v) d" using Some by (simp add: f focusSessionWindow_def getShellWindowBySid_def)
  from raise_shows [OF d v(1) c] v(2) Some that show ?thesis by (auto simp: getShellWindowBySid_def)
qed

lemma focus_step_front:
  assumes d: "desk_inv d" and f: "f = wm_step d (WFocus sid click)"
  obtains w where "w \<in> set (allShellWins f)" and "wn_sid w = Some sid" and "\<not> k_minimized w" and "\<not> k_collapsed w" and "\<not> k_hidden w"
    and "topWin f = Some (wid w)" and "getShellWindowBySid (Some sid) d = None \<or> getShellWindowBySid (Some sid) d = Some (wid w)"
    and "getShellWindowBySid (Some sid) d = None \<longrightarrow> wid w = shellWindowCount d + 1"
proof -
  define e where "e = focusSessionWindow (Some sid) click d"
  have ei: "desk_inv e" unfolding e_def by (rule focus_inv [OF d])
  have fe: "f = observers d e" by (simp add: f wm_step_def e_def)
  from focus_front [OF d e_def] obtain v where v: "v \<in> set (allShellWins e)" "wn_sid v = Some sid" "\<not> k_minimized v" "\<not> k_collapsed v" "\<not> k_hidden v"
    "topWin e = Some (wid v)" "getShellWindowBySid (Some sid) d = None \<or> getShellWindowBySid (Some sid) d = Some (wid v)"
    "getShellWindowBySid (Some sid) d = None \<longrightarrow> wid v = shellWindowCount d + 1" by blast
  note o = observers_keep [OF ei v(1,3,6), of d]
  have "vis_of v \<in> set (visibility f)" using v(1) unfolding fe o(2) by (simp add: visibility_def)
  then obtain w where w: "w \<in> set (allShellWins f)" "vis_of w = vis_of v" by (auto simp: visibility_def)
  show thesis by (rule that [of w]) (use w v o(1) fe in \<open>simp_all add: vis_of_def\<close>)
qed

text \<open>The first window of a session has the same position on the desk and in the hub.\<close>

lemma first_at_map: "first_at P (map f xs) = first_at (\<lambda>x. P (f x)) xs"
  by (induction xs) auto

lemma find_first_at: "find P xs = map_option (\<lambda>i. xs ! i) (first_at P xs)"
  by (induction xs) (auto simp: option.map_comp o_def)

lemma sid_position:
  assumes c: "client_inv t c" and s: "sid \<noteq> []"
  shows "getShellWindowBySid (Some sid) (cl_desk c) = map_option (\<lambda>i. num_at i (cl_desk c)) (win_at_sid sid (cl_hub c))"
proof -
  have "first_at (\<lambda>x. x = Some sid) (map snd (desk_view (cl_desk c))) = first_at (\<lambda>x. x = Some sid) (map snd (hub_view (cl_hub c)))"
    using client_invD(9) [OF c] by (simp add: same_wins_iff)
  moreover have "(snd (sid_of w) = Some sid) = (c_sid (sw_c w) = sid)" for w using s by (auto simp: sid_of_def)
  ultimately have "first_at (\<lambda>w. wn_sid w = Some sid) (allShellWins (cl_desk c)) = win_at_sid sid (cl_hub c)"
    by (simp add: first_at_map desk_view_def hub_view_def win_at_sid_def)
  then show ?thesis by (simp add: getShellWindowBySid_def find_first_at option.map_comp o_def num_at_def)
qed


section \<open>One list of windows\<close>

lemma waiting_ids:
  assumes "launch_fine l"
  shows "map fst (la_waiting l) = map fst (filter (\<lambda>p. snd p = None) (launch_view l))"
proof -
  have w: "awaited (la_waiting l) = pending (la_wins l)" "\<forall>w \<in> set (la_wins l). lw_placeholder w = (lw_sid w = [])"
    using assms by (auto simp: launch_fine_def lwins_ok_def)
  have "map fst (la_waiting l) = map fst (awaited (la_waiting l))" by (simp add: awaited_def case_prod_beta' o_def)
  also have "... = map lw_id (filter lw_placeholder (la_wins l))" unfolding w(1) by (simp add: pending_def o_def)
  also have "... = map lw_id (filter (\<lambda>w. lw_sid w = []) (la_wins l))" using w(2) by (metis (mono_tags, lifting) filter_cong)
  finally show ?thesis by (simp add: launch_view_def filter_map o_def)
qed

lemma hub_sids: "hub_fine h \<Longrightarrow> map snd (hub_view h) = map (\<lambda>w. if sw_placeholder w then None else Some (c_sid (sw_c w))) (h_wins h)"
  by (auto simp: hub_view_def hub_fine_def win_fine_def sid_of_def)

lemma parents_sids:
  assumes "client_inv t c"
  shows "rv_parents (h_rv (cl_hub c)) = map (\<lambda>w. c_sid (sw_c w)) (h_wins (cl_hub c))"
  using client_invD(1,2) [OF assms] by (auto simp: hub_inv_def wins_inv_def hub_fine_def win_fine_def)

text \<open>The fields of the joint operations.\<close>

lemma focus_fields [simp]:
  "cl_hub (focus_page t lc abort e click sid c) = hub_step t (cl_hub c) e"
  "cl_desk (focus_page t lc abort e click sid c) = wm_step (cl_desk c) (WFocus sid click)"
  "cl_launch (focus_page t lc abort e click sid c) = la_step (\<lambda>g. t) lc abort (cl_launch c) (LShow sid)"
  "cl_switch (focus_page t lc abort e click sid c) = cl_switch c"
  by (simp_all add: focus_page_def)

lemma close_fields [simp]:
  "cl_hub (close_page t lc abort e ns c) = hub_step t (cl_hub c) e"
  "cl_desk (close_page t lc abort e ns c) = wm_step (cl_desk c) (WClose ns)"
  "cl_launch (close_page t lc abort e ns c) = launch_closes t lc abort ns (cl_launch c)"
  "cl_switch (close_page t lc abort e ns c) = cl_switch c"
  by (simp_all add: close_page_def Let_def)

lemma share_fields [simp]:
  "cl_hub (share c) = cl_hub c" "cl_desk (share c) = cl_desk c" "cl_launch (share c) = cl_launch c" "mn_menu (cl_switch (share c)) = mn_menu (cl_switch c)"
  by (simp_all add: share_def follow_windows_def)

section \<open>A sample run\<close>

text \<open>On a touch device: the list of sessions arrives, a tile is clicked, the icon of its window opens
  the switch menu.\<close>

definition plain_tr :: translate where
  "plain_tr k p = k"

abbreviation sample_step :: "client \<Rightarrow> client_event \<Rightarrow> client" where
  "sample_step \<equiv> client_step plain_tr (\<lambda>a b. 0) ''aborted''"

definition blank_page :: client where
  "blank_page = client_start None ''auto'' True 400 700 ''en''"

definition listed_page :: client where
  "listed_page = sample_step blank_page (CFrame (FSessions (\<lambda>i. None) two_sessions None))"

definition sample_page :: client where
  "sample_page = sample_step listed_page (CTile None 0 None)"

definition menu_page :: client where
  "menu_page = sample_step sample_page (CIcon 1)"

lemma blank_parts: "h_wins (cl_hub blank_page) = []" "gone_nums ss blank_page = []"
  by (simp_all add: blank_page_def client_start_def hub_start_def gone_nums_def)

lemma sample_hubs:
  "cl_hub listed_page = hub_step plain_tr (cl_hub blank_page) (HSnapshot (\<lambda>i. None) two_sessions)"
  "cl_hub sample_page = hub_step plain_tr (cl_hub listed_page) (HTileClick None 0)" "cl_hub menu_page = cl_hub sample_page"
  by (simp_all add: listed_page_def sample_page_def menu_page_def client_step_def)

lemma sample_tiles: "map tl_sess (h_tiles (cl_hub listed_page)) = two_sessions" "h_snapshot (cl_hub sample_page) = two_sessions"
  unfolding sample_hubs by code_simp+

lemma sample_tile: "tile_session 0 listed_page = ''s1''" "0 < length (h_tiles (cl_hub listed_page))"
proof -
  show l: "0 < length (h_tiles (cl_hub listed_page))" using arg_cong [OF sample_tiles(1), of length] by (simp add: two_sessions_def)
  then show "tile_session 0 listed_page = ''s1''"
    using nth_map [OF l, of tl_sess, symmetric] unfolding sample_tiles(1) by (simp add: tile_session_def two_sessions_def)
qed

lemma sample_desks:
  "cl_desk listed_page = desk_start None ''auto'' True 400 700" "cl_desk menu_page = cl_desk sample_page"
  "cl_desk sample_page = wm_step (desk_start None ''auto'' True 400 700) (WFocus ''s1'' None)"
proof -
  show l: "cl_desk listed_page = desk_start None ''auto'' True 400 700"
    by (simp add: listed_page_def client_step_def blank_parts wm_step_def remove_wins_def observers_def)
      (simp add: blank_page_def client_start_def)
  show "cl_desk menu_page = cl_desk sample_page" by (simp add: menu_page_def client_step_def)
  show "cl_desk sample_page = wm_step (desk_start None ''auto'' True 400 700) (WFocus ''s1'' None)"
    by (simp add: sample_page_def client_step_def sample_tile l)
qed

lemma sample_windows: "map wid (allShellWins (cl_desk sample_page)) = [1]" "map wn_sid (allShellWins (cl_desk sample_page)) = [Some ''s1'']"
  unfolding sample_desks by (simp_all add: wm_eval)

lemma sample_reach:
  "clientm.reach None ''auto'' True 400 700 ''en'' plain_tr (\<lambda>a b. 0) ''aborted'' listed_page"
  "clientm.reach None ''auto'' True 400 700 ''en'' plain_tr (\<lambda>a b. 0) ''aborted'' sample_page"
  "clientm.reach None ''auto'' True 400 700 ''en'' plain_tr (\<lambda>a b. 0) ''aborted'' menu_page"
proof -
  have "ids_ok two_sessions" by code_simp
  then show l: "clientm.reach None ''auto'' True 400 700 ''en'' plain_tr (\<lambda>a b. 0) ''aborted'' listed_page"
    unfolding listed_page_def blank_page_def by (intro clientm.reach.next_step [OF clientm.reach.init]) simp
  show s: "clientm.reach None ''auto'' True 400 700 ''en'' plain_tr (\<lambda>a b. 0) ''aborted'' sample_page"
    unfolding sample_page_def using sample_tile(2) by (intro clientm.reach.next_step [OF l]) simp
  have "(1::nat) \<in> wid ` set (allShellWins (cl_desk sample_page))" using sample_windows(1) by (metis list.set_intros(1) list.set_map)
  then show "clientm.reach None ''auto'' True 400 700 ''en'' plain_tr (\<lambda>a b. 0) ''aborted'' menu_page"
    unfolding menu_page_def by (intro clientm.reach.next_step [OF s]) simp
qed

text \<open>C1: The page has one list of windows. In every reachable state the desk, the channels with their
  review panels, the launcher, the socket, the tab bar and the switch icons agree on which windows are
  open, in which order, and on the session of each; and the windows without a session are exactly those
  whose start the server has not answered yet, in the order of the requests.\<close>

theorem page_windows_agree:
  assumes "clientm.reach st strategy mob iw ih lang t lc abort c"
  shows "map wn_sid (allShellWins (cl_desk c)) = map (\<lambda>w. if sw_placeholder w then None else Some (c_sid (sw_c w))) (h_wins (cl_hub c)) \<and>
    rv_parents (h_rv (cl_hub c)) = map (\<lambda>w. c_sid (sw_c w)) (h_wins (cl_hub c)) \<and>
    pg_wins (cl_sock c) = map sw_c (h_wins (cl_hub c)) \<and>
    map fst (wm_tabs (cl_desk c)) = map wid (allShellWins (cl_desk c)) \<and>
    map lw_id (la_wins (cl_launch c)) = map wid (allShellWins (cl_desk c)) \<and>
    map ic_win (mn_icons (cl_switch c)) = map wid (allShellWins (cl_desk c)) \<and>
    map fst (la_waiting (cl_launch c)) = map wid (filter (\<lambda>w. wn_sid w = None) (allShellWins (cl_desk c)))"
proof -
  have c: "client_inv t c" and s: "shared c" using clientm.reach_inv [OF assms] by auto
  note I = client_invD [OF c]
  have v: "desk_view (cl_desk c) = launch_view (cl_launch c)" using I(10) by (simp add: same_nums_iff)
  have "map fst (launch_view (cl_launch c)) = map lw_id (la_wins (cl_launch c))" by (simp add: launch_view_def)
  then have "map lw_id (la_wins (cl_launch c)) = map wid (allShellWins (cl_desk c))" unfolding v [symmetric] by (simp add: fst_view)
  moreover have "map fst (la_waiting (cl_launch c)) = map wid (filter (\<lambda>w. wn_sid w = None) (allShellWins (cl_desk c)))"
    unfolding waiting_ids [OF I(4)] v [symmetric] by (simp add: desk_view_def filter_map o_def)
  moreover have "map wn_sid (allShellWins (cl_desk c)) = map snd (desk_view (cl_desk c))" by (simp add: fst_view)
  moreover have "map fst (wm_tabs (cl_desk c)) = map wid (allShellWins (cl_desk c))"
    using desk_invD(6) [OF I(3)] by (simp add: synced_def o_def)
  ultimately show ?thesis using I(9) hub_sids [OF I(2)] parents_sids [OF c] s unfolding same_wins_iff by (simp add: shared_def)
qed

theorem page_windows_agree_witness:
  "map fst (wm_tabs (cl_desk sample_page)) = [1] \<and> map lw_id (la_wins (cl_launch sample_page)) = [1] \<and>
    map (\<lambda>w. if sw_placeholder w then None else Some (c_sid (sw_c w))) (h_wins (cl_hub sample_page)) = [Some ''s1'']"
  using page_windows_agree [OF sample_reach(2)] unfolding sample_windows by simp

section \<open>The parts run as they do alone\<close>

lemma frame_win_lt: "frame_win sid h = Some i \<Longrightarrow> i < length (h_wins h)"
  by (auto simp: frame_win_def first_at_Some dest: win_at_lt split: option.splits)

lemma picked_sid: "client_inv t c \<Longrightarrow> client_enabled c (CPick ans k) \<Longrightarrow> si_sid (picked k c) \<noteq> []"
  using client_invD(8) [of t c] by (auto simp: picked_def split: option.splits)

lemma hub_part:
  assumes c: "client_inv t c" and r: "hubm.reach n0 t (cl_hub c)" and e: "client_enabled c ev"
  shows "hubm.reach n0 t (cl_hub (client_op t lc abort c ev))"
proof -
  note st = hubm.reach.next_step [OF r]
  show ?thesis
  proof (cases ev)
    case (CSocket e')
    then show ?thesis by (simp add: sock_do_def Let_def st split: sock_event.split)
  next
    case (CFrame m)
    then show ?thesis using e by (cases m) (auto simp: Let_def intro!: st r frame_win_lt split: option.split)
  next
    case (CTab n)
    then show ?thesis by (auto simp: tab_page_def r dest: present_sid [OF c] intro!: st split: option.split)
  next
    case (CPick ans k)
    then show ?thesis using picked_sid [OF c] e by (auto simp: pick_page_def Let_def intro!: st)
  next
    case (CConnect k click)
    then show ?thesis by (auto simp: start_page_def r intro!: st split: option.split)
  next
    case (CRun click)
    then show ?thesis by (auto simp: start_page_def r intro!: st split: option.split)
  next
    case (CAnswer ans k rs shell)
    obtain n conn g where q: "la_waiting (cl_launch c) ! k = (n, conn, g)" by (cases "la_waiting (cl_launch c) ! k") auto
    from e CAnswer have k: "k < length (la_waiting (cl_launch c))" by simp
    obtain i where i: "num_pos n c = Some i" "i < length (h_wins (cl_hub c))" "sw_placeholder (h_wins (cl_hub c) ! i)"
      by (rule waiting_window [OF c k q])
    then show ?thesis using CAnswer by (auto simp: answer_page_def q Let_def intro!: st split: sum.split list.split)
  next
    case (CDeleted sid)
    then show ?thesis by (auto simp: r win_at_lt intro!: st split: option.split)
  next
    case (CBatchAnswer j err)
    have h: "hubm.reach n0 t (hub_step t (cl_hub c) (HBatchAnswer j err))" using e CBatchAnswer by (intro st) simp
    from hubm.reach.next_step [OF h] CBatchAnswer h show ?thesis by (cases err) (simp_all add: batch_page_def sock_do_def Let_def)
  next
    case (CRename ans k input)
    then show ?thesis using e by (auto simp: rename_page_def r intro!: st split: option.split)
  qed (use e in \<open>simp_all add: st r\<close>)
qed

lemma desk_part:
  assumes r: "wm.reach st strategy mob iw ih (cl_desk c)" and e: "client_enabled c ev"
  shows "wm.reach st strategy mob iw ih (cl_desk (client_op t lc abort c ev))"
proof -
  note st = wm.reach.next_step [OF r]
  show ?thesis
  proof (cases ev)
    case (CSocket e')
    then show ?thesis by (simp add: sock_do_def Let_def r)
  next
    case (CFrame m)
    then show ?thesis by (cases m) (auto simp: Let_def r intro!: st split: option.split)
  next
    case (CTab n)
    then show ?thesis using e by (auto simp: tab_page_def r intro!: st split: option.split)
  next
    case (CPick ans k)
    then show ?thesis by (simp add: pick_page_def Let_def st)
  next
    case (CConnect k click)
    then show ?thesis using e by (auto simp: start_page_def start_ok_def intro!: st split: option.splits)
  next
    case (CRun click)
    then show ?thesis using e by (auto simp: start_page_def start_ok_def intro!: st split: option.splits)
  next
    case (CAnswer ans k rs shell)
    then show ?thesis by (auto simp: answer_page_def Let_def r intro!: st split: option.split sum.split list.split)
  next
    case (CDeleted sid)
    then show ?thesis by (auto simp: r intro!: st split: option.split)
  next
    case (CBatchAnswer j err)
    then show ?thesis by (simp add: batch_page_def sock_do_def Let_def st)
  next
    case (CRename ans k input)
    then show ?thesis by (auto simp: rename_page_def r intro!: st split: option.split)
  qed (use e in \<open>simp_all add: st r\<close>)
qed

lemma closes_part:
  "la.reach x lang (\<lambda>g. t) lc abort l \<Longrightarrow> la.reach x lang (\<lambda>g. t) lc abort (launch_closes t lc abort ns l)"
proof (induction ns arbitrary: l)
  case (Cons n ns)
  have "la.reach x lang (\<lambda>g. t) lc abort (launch_close (\<lambda>g. t) lc abort n l)"
    unfolding launch_close_def by (rule la.reach.next_step [OF Cons.prems]) (auto simp: la_enabled_def list_ex_iff list_all_iff)
  from Cons.IH [OF this] show ?case by (simp add: launch_closes_def)
qed (simp add: launch_closes_def)

lemma launch_part:
  assumes c: "client_inv t c" and r: "la.reach x lang (\<lambda>g. t) lc abort (cl_launch c)" and e: "client_enabled c ev"
  shows "la.reach x lang (\<lambda>g. t) lc abort (cl_launch (client_op t lc abort c ev))"
proof -
  note st = la.reach.next_step [OF r] and cl = closes_part [OF r]
  show ?thesis
  proof (cases ev)
    case (CSocket e')
    then show ?thesis by (simp add: sock_do_def Let_def r)
  next
    case (CFrame m)
    have "la.reach x lang (\<lambda>g. t) lc abort (la_step (\<lambda>g. t) lc abort (launch_closes t lc abort ns (cl_launch c)) (LPushed cs))" for ns cs
      by (rule la.reach.next_step [OF cl]) (simp add: la_enabled_def)
    then show ?thesis using CFrame by (cases m) (auto simp: Let_def r cl split: option.split)
  next
    case (CTile ans k click)
    then show ?thesis using e tile_session_ne [OF c] by (simp add: st la_enabled_def)
  next
    case (CNotice ans k)
    then show ?thesis by (auto simp: r la_enabled_def intro!: st)
  next
    case (CTab n)
    then show ?thesis by (auto simp: tab_page_def r la_enabled_def dest: present_sid [OF c] intro!: st split: option.split)
  next
    case (CPick ans k)
    then show ?thesis using picked_sid [OF c] e by (simp add: pick_page_def Let_def st la_enabled_def)
  next
    case (CConnect k click)
    then show ?thesis using e by (auto simp: start_page_def la_enabled_def intro!: st split: option.split)
  next
    case (CRun click)
    then show ?thesis using e by (auto simp: start_page_def la_enabled_def intro!: st split: option.split)
  next
    case (CAnswer ans k rs shell)
    then show ?thesis using e by (auto simp: answer_page_def Let_def la_enabled_def intro!: st split: option.split sum.split list.split)
  next
    case (CDeleted sid)
    then show ?thesis by (auto simp: r intro!: cl split: option.split)
  next
    case (CBatchAnswer j err)
    then show ?thesis by (simp add: batch_page_def sock_do_def Let_def cl)
  next
    case (CRename ans k input)
    then show ?thesis by (auto simp: rename_page_def r intro!: cl split: option.split)
  qed (use e in \<open>simp_all add: st cl r\<close>)
qed



section \<open>Asking for a session\<close>

text \<open>The session an event asks for, and whether it is over.\<close>

fun asks :: "client_event \<Rightarrow> client \<Rightarrow> (string \<times> bool) option" where
  "asks (CTile ans k click) c = Some (tile_session k c, \<not> s_running (tl_sess (h_tiles (cl_hub c) ! k)))"
| "asks (CNotice ans k) c = (if card_sid k c = [] then None else Some (card_sid k c, dead_in_snapshot (card_sid k c) (cl_hub c)))"
| "asks (CPick ans k) c = Some (si_sid (picked k c), si_dead (picked k c))"
| "asks e c = None"

lemma at_sid_cong: "hub_frame h' = hub_frame h \<Longrightarrow> win_at_sid sid h' = win_at_sid sid h"
proof -
  have "win_at_sid sid h = first_at (\<lambda>f. fst f = sid) (fst (hub_frame h))" for h
    by (simp add: win_at_sid_def hub_frame_def first_at_map swin_frame_def)
  then show "hub_frame h' = hub_frame h \<Longrightarrow> win_at_sid sid h' = win_at_sid sid h" by simp
qed

definition asked_at :: "string \<Rightarrow> hub \<Rightarrow> nat" where
  "asked_at sid h = (case win_at_sid sid h of None \<Rightarrow> length (h_wins h) | Some i \<Rightarrow> i)"

lemma focus_session_at:
  assumes "ro"
  shows "asked_at sid h < length (h_wins (focus_session t ans sid ro h)) \<and> c_readOnly (sw_c (h_wins (focus_session t ans sid ro h) ! asked_at sid h))"
proof (cases "win_at_sid sid h")
  case None
  then show ?thesis using assms by (simp add: focus_session_def asked_at_def open_win_def Let_def new_cwin_def)
next
  case (Some i)
  then show ?thesis using assms win_at_lt [OF Some]
    by (simp add: focus_session_def asked_at_def lock_win_def Let_def lockWindowReadonly_def setWindowDeadBadge_def)
qed

lemma hub_step_wins: "h_wins (hub_step t h e) = h_wins (hub_op t h e)"
  by (simp add: hub_step_def Let_def)

lemma review_wins: "h_wins (open_review t ans sid h) = h_wins h"
  by (simp add: open_review_def split: option.split)

lemma asked_readonly:
  assumes a: "asks e c = Some (sid, True)"
  shows "c_readOnly (sw_c (h_wins (cl_hub (client_op t lc abort c e)) ! asked_at sid (cl_hub c)))"
proof -
  have at: "asked_at sid h = asked_at sid (cl_hub c)" if "hub_frame h = hub_frame (cl_hub c)" for h
    using at_sid_cong [OF that, of sid] arg_cong [OF that, of "length \<circ> fst"] by (simp add: asked_at_def hub_frame_def split: option.split)
  have f: "c_readOnly (sw_c (h_wins (focus_session t ans sid True h) ! asked_at sid (cl_hub c)))" if "hub_frame h = hub_frame (cl_hub c)" for ans h
    using focus_session_at [OF TrueI, of sid h t ans] at [OF that] by simp
  show ?thesis
  proof (cases e)
    case (CTile ans k click)
    then show ?thesis using a f by (auto simp: hub_step_wins tile_click_def Let_def tile_session_def)
  next
    case (CNotice ans k)
    then show ?thesis using a f by (auto simp: hub_step_wins card_click_def Let_def card_sid_def review_wins split: if_splits)
  next
    case (CPick ans k)
    then show ?thesis using a f by (auto simp: hub_step_wins pick_page_def Let_def)
  qed (use a in simp_all)
qed

lemma asks_desk:
  assumes "asks e c = Some (sid, ro)"
  obtains click where "cl_desk (client_op t lc abort c e) = wm_step (cl_desk c) (WFocus sid click)"
  using assms by (cases e) (auto simp: pick_page_def Let_def split: if_splits)

lemma asks_sid: "client_inv t c \<Longrightarrow> client_enabled c e \<Longrightarrow> asks e c = Some (sid, ro) \<Longrightarrow> sid \<noteq> []"
  using tile_session_ne [of t c] picked_sid [of t c] by (cases e) (auto split: if_splits)



section \<open>A list of sessions\<close>

lemma session_map_None: "ids_ok ss \<Longrightarrow> (obj_get (session_map ss) k = None) = (k \<notin> s_id ` set ss)"
proof -
  assume a: "ids_ok ss"
  have g: "(obj_get (foldl (\<lambda>m s. if s_id s \<noteq> [] then obj_set m (s_id s) s else m) m ss) k = None) = (obj_get m k = None \<and> (k = [] \<or> k \<notin> s_id ` set ss))" for m
    by (induction ss arbitrary: m) (auto simp: obj_get_set)
  show ?thesis using g [of "[]"] a by (auto simp: session_map_def ids_ok_def)
qed

lemma reconcile_snapshot: "h_snapshot (reconcile_loop t ans byId k i h) = h_snapshot h"
proof (induction k arbitrary: i h)
  case (Suc k)
  obtain j h' where r: "reconcile_win t ans byId i h = (j, h')" by fastforce
  then have "h_snapshot h' = h_snapshot h" by (auto simp: reconcile_win_def Let_def releaseSessionUIState_def split: if_splits option.splits)
  then show ?case using Suc.IH r by simp
qed simp

definition listed :: "sess list \<Rightarrow> wnode \<Rightarrow> bool" where
  "listed ss w = (case wn_sid w of None \<Rightarrow> True | Some sid \<Rightarrow> sid \<in> s_id ` set ss)"

lemma snd_zip_filter: "length ws = length vs \<Longrightarrow> map snd (filter (\<lambda>(w, v). Q v) (zip ws vs)) = filter Q vs"
  by (induction ws vs rule: list_induct2) auto

lemma not_gone:
  assumes c: "client_inv t c" and i: "ids_ok ss"
  shows "filter (\<lambda>v. wid v \<notin> set (gone_nums ss c)) (allShellWins (cl_desk c)) = filter (listed ss) (allShellWins (cl_desk c))"
proof -
  let ?ws = "h_wins (cl_hub c)" and ?vs = "allShellWins (cl_desk c)"
  have sids: "map (\<lambda>w. snd (sid_of w)) ?ws = map wn_sid ?vs"
    using client_invD(9) [OF c] by (simp add: same_wins_iff fst_view hub_view_def o_def)
  then have len: "length ?ws = length ?vs" by (metis length_map)
  have dist: "distinct (map wid ?vs)" using desk_distinct [OF client_invD(3) [OF c]] by (simp add: fst_view)
  have "(\<not> gone (session_map ss) w) = listed ss v" if "(w, v) \<in> set (zip ?ws ?vs)" for w v
  proof -
    from that obtain k where k: "k < length ?ws" "w = ?ws ! k" "v = ?vs ! k" by (auto simp: set_zip)
    have "snd (sid_of w) = wn_sid v" using arg_cong [OF sids, of "\<lambda>xs. xs ! k"] k len by simp
    moreover have "win_fine w" using client_invD(2) [OF c] k by (simp add: hub_fine_def)
    moreover have "gone (session_map ss) w = (\<not> sw_placeholder w \<and> c_parentSid (sw_c w) \<noteq> [] \<and> c_parentSid (sw_c w) \<notin> s_id ` set ss)"
      using session_map_None [OF i, of "c_parentSid (sw_c w)"] by (auto simp: gone_def)
    moreover have "wn_sid v = (if c_sid (sw_c w) = [] then None else Some (c_sid (sw_c w)))" using calculation(1) by (simp add: sid_of_def)
    ultimately show ?thesis by (cases "c_sid (sw_c w) = []") (simp_all add: listed_def win_fine_def)
  qed
  then have "filter (\<lambda>(w, v). \<not> gone (session_map ss) w) (zip ?ws ?vs) = filter (\<lambda>(w, v). listed ss v) (zip ?ws ?vs)"
    by (intro filter_cong) auto
  then show ?thesis using filter_zip(1) [OF len dist, of "gone (session_map ss)"] snd_zip_filter [OF len] unfolding gone_nums_def by simp
qed

text \<open>C16: A list of sessions from the server closes, in all parts of the page at once, the windows of the
  sessions it does not name and no others: on the desk and in the launcher exactly the windows of listed
  sessions and the windows that still wait remain, in their order, with the same numbers; the hub's
  windows are those of these sessions, in the same order; no start is given up; and afterwards the grid
  shows this list.\<close>

theorem snapshot_closes_everywhere:
  assumes "clientm.reach st strategy mob iw ih lang t lc abort c" and "ids_ok ss"
    and "c' = client_step t lc abort c (CFrame (FSessions ans ss conns))"
  shows "map wid (allShellWins (cl_desk c')) = map wid (filter (listed ss) (allShellWins (cl_desk c))) \<and>
    map wn_sid (allShellWins (cl_desk c')) = map wn_sid (filter (listed ss) (allShellWins (cl_desk c))) \<and>
    map lw_id (la_wins (cl_launch c')) = map wid (filter (listed ss) (allShellWins (cl_desk c))) \<and>
    map (\<lambda>w. if sw_placeholder w then None else Some (c_sid (sw_c w))) (h_wins (cl_hub c')) =
      map wn_sid (filter (listed ss) (allShellWins (cl_desk c))) \<and>
    map fst (la_waiting (cl_launch c')) = map fst (la_waiting (cl_launch c)) \<and> map tl_sess (h_tiles (cl_hub c')) = ss"
proof -
  have c: "client_inv t c" using clientm.reach_inv [OF assms(1)] by simp
  have e: "client_enabled c (CFrame (FSessions ans ss conns))" using assms(2) by simp
  have c': "client_inv t c'" using clientm.reach_inv [OF clientm.reach.next_step [OF assms(1) e]] by (simp add: assms(3))
  note I = client_invD [OF c'] and ng = not_gone [OF c assms(2)]
  have d: "cl_desk c' = wm_step (cl_desk c) (WClose (gone_nums ss c))" "cl_hub c' = hub_step t (cl_hub c) (HSnapshot ans ss)"
    by (simp_all add: assms(3) client_step_def Let_def split: option.split)
  have v: "desk_view (cl_desk c') = map (\<lambda>w. (wid w, wn_sid w)) (filter (listed ss) (allShellWins (cl_desk c)))"
    unfolding d(1) view_closed(1) ng [symmetric] by (simp add: desk_view_def filter_map o_def)
  have l: "launch_view (cl_launch c') = desk_view (cl_desk c')" using I(10) by (simp add: same_nums_iff)
  have "map fst (launch_view (cl_launch c')) = map lw_id (la_wins (cl_launch c'))" by (simp add: launch_view_def)
  moreover have "map fst (la_waiting (cl_launch c')) = map fst (la_waiting (cl_launch c))"
  proof -
    have "launch_view (cl_launch c) = desk_view (cl_desk c)" using client_invD(10) [OF c] by (simp add: same_nums_iff)
    then show ?thesis unfolding waiting_ids [OF I(4)] waiting_ids [OF client_invD(4) [OF c]] l v
      by (simp add: desk_view_def filter_map o_def) (rule arg_cong [of _ _ "map wid"], rule filter_cong, auto simp: listed_def)
  qed
  moreover have "map tl_sess (h_tiles (cl_hub c')) = ss"
  proof -
    have "grid_inv (cl_hub c')" using I(1) by (simp add: hub_inv_def)
    moreover have "h_snapshot (cl_hub c') = ss" unfolding d(2)
      by (simp add: hub_step_def Let_def applySessionsSnapshot_def pruneDeadSessionUIState_def reconcile_snapshot)
    ultimately show ?thesis by (simp add: grid_inv_def)
  qed
  moreover have "map wid (allShellWins (cl_desk c')) = map fst (desk_view (cl_desk c'))" "map wn_sid (allShellWins (cl_desk c')) = map snd (desk_view (cl_desk c'))"
    by (simp_all add: fst_view)
  moreover have "map (\<lambda>w. if sw_placeholder w then None else Some (c_sid (sw_c w))) (h_wins (cl_hub c')) = map snd (desk_view (cl_desk c'))"
    using I(9) hub_sids [OF I(2)] by (simp add: same_wins_iff)
  ultimately show ?thesis using l v by (simp add: o_def)
qed

theorem snapshot_closes_everywhere_witness:
  "allShellWins (cl_desk (sample_step sample_page (CFrame (FSessions (\<lambda>i. None) [two_sessions ! 1] None)))) = []"
proof -
  have "ids_ok [two_sessions ! 1]" by code_simp
  moreover have "filter (listed [two_sessions ! 1]) (allShellWins (cl_desk sample_page)) = []"
    using sample_windows(2) by (auto simp: filter_empty_conv listed_def two_sessions_def Cons_eq_map_conv map_eq_Cons_conv)
  ultimately show ?thesis using snapshot_closes_everywhere [OF sample_reach(2) _ refl] by fastforce
qed

section \<open>The switch menu\<close>

lemma find_by: "distinct (map f xs) \<Longrightarrow> x \<in> set xs \<Longrightarrow> find (\<lambda>y. f y = f x) xs = Some x"
  by (induction xs) (auto simp: image_iff)

lemma desk_numbers:
  assumes "wm.reach st strategy mob iw ih d"
  shows "0 \<notin> fst ` set (desk_view d) \<and> mobile d = mob"
  using assms
proof (induction rule: wm.reach.induct)
  case init
  show ?case by (simp add: desk_start_def desk_view_def) (simp add: allShellWins_def)
next
  case (next_step d e)
  have d: "desk_inv d" by (rule wm.reach_inv [OF next_step.hyps(1)])
  have m: "mobile (wm_step d e) = mob" using mobile_step [OF next_step.hyps(2)] next_step.IH by simp
  have p: "desk_fresh d \<noteq> 0" by (simp add: desk_fresh_def)
  have "fst ` set (desk_view (wm_step d e)) \<subseteq> insert (desk_fresh d) (fst ` set (desk_view d))"
  proof (cases "desk_local e")
    case True
    then show ?thesis using view_local [OF d True] by auto
  next
    case False
    then show ?thesis
    proof (cases e)
      case (WFinal n sid)
      have "map fst (desk_view (wm_step d (WFinal n sid))) = map fst (desk_view d)"
        by (simp add: wm_step_def finalizePendingShellWindow_def) (simp add: desk_view_def if_distrib)
      then show ?thesis unfolding WFinal by (metis list.set_map order_refl subset_insertI2)
    next
      case (WTab n)
      then show ?thesis using view_tab [of d n] by auto
    qed (auto simp: view_focus [OF d] view_closed deskv.view_pend [OF d])
  qed
  then show ?case using next_step.IH p m by auto
qed

lemma page_desk:
  assumes "clientm.reach st strategy mob iw ih lang t lc abort c"
  shows "wm.reach st strategy mob iw ih (cl_desk c)"
  using assms
proof (induction rule: clientm.reach.induct)
  case init
  show ?case by (simp add: client_start_def wm.reach.init)
qed (simp add: client_step_def desk_part)

lemma win_number:
  assumes r: "clientm.reach st strategy mob iw ih lang t lc abort c" and s: "sid \<noteq> []"
  shows "session_num (cl_desk c) sid = (case win_at_sid sid (cl_hub c) of None \<Rightarrow> [] | Some i \<Rightarrow> show_nat (num_at i (cl_desk c)))"
proof (cases "win_at_sid sid (cl_hub c)")
  case None
  have "client_inv t c" using clientm.reach_inv [OF r] by simp
  from sid_position [OF this s] None show ?thesis by (simp add: session_num_def)
next
  case (Some i)
  have c: "client_inv t c" using clientm.reach_inv [OF r] by simp
  have i: "i < length (desk_view (cl_desk c))" using win_at_lt [OF Some] wins_length [OF c] by simp
  then have "num_at i (cl_desk c) \<in> fst ` set (desk_view (cl_desk c))" by (simp add: num_at_nth)
  then have "num_at i (cl_desk c) \<noteq> 0" using desk_numbers [OF page_desk [OF r]] by metis
  then show ?thesis using sid_position [OF c s] Some by (simp add: session_num_def)
qed



section \<open>Where the page does not do what it means to\<close>

text \<open>Starting a connection that is already being started only raises its window: when that window is
  minimized, collapsed or hidden, it stays so and nothing is seen.\<close>

lemma restart_raises_hidden:
  assumes "getPendingShellWindowForConn conn (cl_launch c) = Some w"
  shows "visibility (cl_desk (start_page t lc abort e conn click c)) = visibility (cl_desk c)"
proof -
  have "map wid (floats (bringShellWindowToFront i d)) = map wid (floats d)" "map wid (panes (bringShellWindowToFront i d)) = map wid (panes d)" for i d
    by (rule bring_ids)+
  then show ?thesis using assms by (simp add: start_page_def wm_step_def observers_def)
qed

end
