(* ===== verification/Resizing.thy ===== *)
theory Resizing
  imports Channels Geometry
begin

text \<open>
  The size of a shell (\<open>ui-socket.js\<close>, \<open>terminal-view.js\<close>): a terminal is fitted to its container at once,
  the shell behind it learns the size 200 milliseconds after the last change. A window has one timer for
  all of its channels. The channels are those of \<open>Channels\<close>, the fit is that of \<open>Geometry\<close>.
\<close>

section \<open>State and operations\<close>

text \<open>
  \<open>pg_grids\<close> has columns and rows of the terminal of each channel; \<open>pg_timer\<close> is \<open>_shellResizeSyncTimer\<close>
  with the shell its callback was made for.
\<close>

record pty =
  pg_win :: cwin
  pg_net :: net
  pg_grids :: "(nat \<times> nat) obj"
  pg_timer :: "string option"

text \<open>The shell meant when none is named: the active channel, or the session's own identifier.\<close>

definition default_sid :: "cwin \<Rightarrow> string" where
  "default_sid w = or_str (case activeChannel w of Some sid \<Rightarrow> sid | None \<Rightarrow> []) (c_sid w)"

definition stream_over :: "string \<Rightarrow> cwin \<Rightarrow> bool" where
  "stream_over sid w = (case get_ch w sid of Some ch \<Rightarrow> streamDone ch | None \<Rightarrow> c_streamDone w)"

text \<open>A window has no terminal of its own: without the channel there is nothing to post.\<close>

definition postResize :: "string \<Rightarrow> pty \<Rightarrow> pty" where
  "postResize optSid p =
     (let sid = or_str optSid (default_sid (pg_win p))
      in if sid = [] then p
         else (case (get_ch (pg_win p) sid, obj_get (pg_grids p) sid) of
                 (Some ch, Some (cols, rows)) \<Rightarrow>
                   if streamDone ch then p else p\<lparr>pg_net := wsUiSend (ResizeMsg sid rows cols) (pg_net p)\<rparr>
               | _ \<Rightarrow> p))"

definition scheduleShellRemoteResize :: "string \<Rightarrow> pty \<Rightarrow> pty" where
  "scheduleShellRemoteResize optSid p =
     (let sid = or_str optSid (default_sid (pg_win p))
      in if sid = [] then p else if stream_over sid (pg_win p) then p else p\<lparr>pg_timer := Some sid\<rparr>)"

definition resize_due :: "pty \<Rightarrow> pty" where
  "resize_due p = (case pg_timer p of None \<Rightarrow> p | Some sid \<Rightarrow> postResize sid (p\<lparr>pg_timer := None\<rparr>))"

text \<open>
  The observer of a channel's container, and \<open>fitShellTerminal\<close> on the terminal of a channel: its container is on the
  page as long as the channel is there, \<open>m\<close> has what is measured.
\<close>

definition observed :: "string \<Rightarrow> pty \<Rightarrow> pty" where
  "observed sid p = scheduleShellRemoteResize sid p"

definition fit_channel :: "string \<Rightarrow> term_box \<Rightarrow> bool \<Rightarrow> pty \<Rightarrow> pty" where
  "fit_channel sid m syncRemote p =
     (case obj_get (pg_grids p) sid of
        None \<Rightarrow> p
      | Some (cols, rows) \<Rightarrow>
          (let b = m\<lparr>t_cols := cols, t_rows := rows\<rparr>
           in if fit_grid b = None then p
              else
                (let b1 = snd (fitShellTerminal b);
                     p1 = p\<lparr>pg_grids := obj_set (pg_grids p) sid (t_cols b1, t_rows b1)\<rparr>
                 in if syncRemote \<and> \<not> c_streamDone (pg_win p1) then scheduleShellRemoteResize [] p1 else p1)))"

text \<open>The end of a resize drag: what the drag had scheduled is dropped and the active terminal fitted.\<close>

definition drag_done :: "term_box \<Rightarrow> pty \<Rightarrow> pty" where
  "drag_done m p =
     (let p1 = p\<lparr>pg_timer := None\<rparr>
      in case activeChannel (pg_win p1) of None \<Rightarrow> p1 | Some sid \<Rightarrow> fit_channel sid m True p1)"

text \<open>A new terminal has 80 columns and 24 rows until it is fitted; a closed channel's is disposed of.\<close>

definition term_grids :: "channel obj \<Rightarrow> (nat \<times> nat) obj \<Rightarrow> (nat \<times> nat) obj" where
  "term_grids chs gs = map (\<lambda>(sid, ch). (sid, case obj_get gs sid of Some g \<Rightarrow> g | None \<Rightarrow> (80, 24))) chs"

definition on_channels :: "cwin \<times> net \<Rightarrow> pty \<Rightarrow> pty" where
  "on_channels s p = p\<lparr>pg_win := fst s, pg_net := snd s, pg_grids := term_grids (channels (fst s)) (pg_grids p)\<rparr>"

text \<open>Closing the window clears the timer after its channels are gone.\<close>

definition window_closed :: "pty \<Rightarrow> pty" where
  "window_closed p = (on_channels (closeShellWindow (pg_win p) (pg_net p)) p)\<lparr>pg_timer := None\<rparr>"

datatype pty_event =
    PtChannel ch_event | PtFit string term_box bool | PtObserved string | PtDue | PtDragDone term_box | PtClose

fun pty_step :: "pty \<Rightarrow> pty_event \<Rightarrow> pty" where
  "pty_step p (PtChannel e) = on_channels (ch_step (pg_win p, pg_net p) e) p"
| "pty_step p (PtFit sid m sync) = fit_channel sid m sync p"
| "pty_step p (PtObserved sid) = observed sid p"
| "pty_step p PtDue = resize_due p"
| "pty_step p (PtDragDone m) = drag_done m p"
| "pty_step p PtClose = window_closed p"

section \<open>What the terminals of a window are\<close>

definition at_least_two :: "nat \<times> nat \<Rightarrow> bool" where
  "at_least_two g \<longleftrightarrow> 2 \<le> fst g \<and> 2 \<le> snd g"

fun msg_fits :: "ui_msg \<Rightarrow> bool" where
  "msg_fits (ResizeMsg sid rows cols) = (sid \<noteq> [] \<and> 2 \<le> rows \<and> 2 \<le> cols)"
| "msg_fits m = True"

fun is_resize :: "ui_msg \<Rightarrow> bool" where
  "is_resize (ResizeMsg sid rows cols) = True"
| "is_resize m = False"

definition resizes :: "net \<Rightarrow> ui_msg list" where
  "resizes n = filter is_resize (sent n)"

definition pty_inv :: "pty \<Rightarrow> bool" where
  "pty_inv p \<longleftrightarrow>
     map fst (pg_grids p) = map fst (channels (pg_win p)) \<and> (\<forall>x \<in> set (pg_grids p). at_least_two (snd x)) \<and>
     pg_timer p \<noteq> Some [] \<and> (\<forall>m \<in> set (resizes (pg_net p)). msg_fits m)"


definition new_pty :: "string \<Rightarrow> bool \<Rightarrow> net \<Rightarrow> pty" where
  "new_pty sid ro n = \<lparr>pg_win = new_cwin sid ro, pg_net = n\<lparr>sent := []\<rparr>, pg_grids = [], pg_timer = None\<rparr>"

fun pty_enabled :: "pty \<Rightarrow> pty_event \<Rightarrow> bool" where
  "pty_enabled p (PtChannel e) = ch_enabled (pg_win p, pg_net p) e"
| "pty_enabled p e = True"

section \<open>The channels send no resize\<close>

lemma resizes_ws [simp]: "resizes (n\<lparr>ws_open := b\<rparr>) = resizes n" "resizes (n\<lparr>pendingWatch := pw\<rparr>) = resizes n"
  "resizes (n\<lparr>deletes := ds\<rparr>) = resizes n"
  by (simp_all add: resizes_def)

lemma watch_no_resize [simp]: "resizes (sendTerminalWatch sid b n) = resizes n"
  by (simp add: sendTerminalWatch_def wsUiSend_def resizes_def)

lemma watches_no_resize [simp]: "resizes (foldl (\<lambda>m sid. sendTerminalWatch sid b m) n sids) = resizes n"
  by (induction sids arbitrary: n) simp_all

lemma queue_no_resize [simp]: "resizes (queueTerminalWatch sid n) = resizes n"
  by (simp add: queueTerminalWatch_def)

lemma close_no_resize [simp]: "resizes (snd (closeChannelTab sid w n)) = resizes n"
  by (simp add: closeChannelTab_def Let_def)

lemma prune_no_resize [simp]: "resizes (snd (prune_tabs listed ks w n)) = resizes n"
  unfolding prune_tabs_def
proof (induction ks arbitrary: w n)
  case (Cons k ks)
  then show ?case by (cases "closeChannelTab k w n") (use close_no_resize [of k w n] in simp)
qed simp

lemma ch_step_resizes:
  "resizes (snd (ch_step (w, n) e)) = (if e = ChUp then [] else resizes n)"
proof (cases e)
  case (ChData k d)
  then show ?thesis by (simp add: onData_def wsUiSend_def resizes_def split: option.split) (simp add: resizes_def [symmetric])
next
  case (ChOpenTabs r la shells)
  then show ?thesis by (simp add: openTabs_def lockWindowReadonly_def unwatch_all_def Let_def)
next
  case ChUp
  then show ?thesis
    by (simp add: resubscribe_win_def flushPendingTerminalWatches_def) (simp add: resizes_def)
qed (simp_all add: historyDone_def lockWindowReadonly_def syncWindowTabs_def unwatch_all_def Let_def)

lemma window_closed_resizes: "resizes (snd (closeShellWindow w n)) = resizes n"
  by (simp add: closeShellWindow_def unwatch_all_def Let_def)

section \<open>Every resize fits\<close>

lemma fitted_at_least_two: "fit_grid b \<noteq> None \<Longrightarrow> at_least_two (t_cols (snd (fitShellTerminal b)), t_rows (snd (fitShellTerminal b)))"
  by (auto simp: at_least_two_def fitShellTerminal_def fit_grid_def case_prod_beta split: if_splits)

lemma term_grids_keys: "map fst (term_grids chs gs) = map fst chs"
  by (simp add: term_grids_def case_prod_beta comp_def)

lemma obj_get_snd: "obj_get gs k = Some g \<Longrightarrow> (k, g) \<in> set gs"
  unfolding obj_get_def by (rule map_of_SomeD)

lemma term_grids_two: "\<forall>x \<in> set gs. at_least_two (snd x) \<Longrightarrow> \<forall>x \<in> set (term_grids chs gs). at_least_two (snd x)"
  by (auto simp: term_grids_def at_least_two_def dest!: obj_get_snd split: option.split) force+

lemma obj_set_present: "k \<in> set (map fst ob) \<Longrightarrow> map fst (obj_set ob k v) = map fst ob"
  by (induction ob k v rule: obj_set.induct) auto

lemma obj_set_elems: "(j, u) \<in> set (obj_set ob k v) \<Longrightarrow> (j, u) \<in> set ob \<or> u = v"
  by (induction ob k v rule: obj_set.induct) (auto split: if_splits)

lemma schedule_inv: "pty_inv p \<Longrightarrow> pty_inv (scheduleShellRemoteResize sid p)"
  by (auto simp: scheduleShellRemoteResize_def pty_inv_def Let_def)

lemma set_grid_inv:
  "pty_inv p \<Longrightarrow> sid \<in> set (map fst (pg_grids p)) \<Longrightarrow> at_least_two g \<Longrightarrow> pty_inv (p\<lparr>pg_grids := obj_set (pg_grids p) sid g\<rparr>)"
  unfolding pty_inv_def by (auto simp: obj_set_present dest!: obj_set_elems)

lemma fit_inv: "pty_inv p \<Longrightarrow> pty_inv (fit_channel sid m sync p)"
proof (cases "obj_get (pg_grids p) sid")
  case (Some g)
  assume p: "pty_inv p"
  have k: "sid \<in> set (map fst (pg_grids p))" using obj_get_snd [OF Some] by force
  show ?thesis
  proof (cases g)
    case (Pair cols rows)
    have "pty_inv (p\<lparr>pg_grids := obj_set (pg_grids p) sid (t_cols b, t_rows b)\<rparr>)"
      if "b = snd (fitShellTerminal (m\<lparr>t_cols := cols, t_rows := rows\<rparr>))" "fit_grid (m\<lparr>t_cols := cols, t_rows := rows\<rparr>) \<noteq> None" for b
      unfolding that(1) by (rule set_grid_inv [OF p k fitted_at_least_two [OF that(2)]])
    then show ?thesis using p unfolding fit_channel_def Some Pair by (simp add: Let_def schedule_inv)
  qed
qed (simp add: fit_channel_def)

lemma post_inv: "pty_inv p \<Longrightarrow> pty_inv (postResize sid p)"
proof -
  assume p: "pty_inv p"
  have "at_least_two g" if "obj_get (pg_grids p) k = Some g" for k g
    using p obj_get_snd [OF that] by (force simp: pty_inv_def)
  then show ?thesis using p
    by (auto simp: postResize_def Let_def pty_inv_def wsUiSend_def resizes_def at_least_two_def split: option.split)
qed

lemma timer_cleared_inv: "pty_inv p \<Longrightarrow> pty_inv (p\<lparr>pg_timer := None\<rparr>)"
  by (simp add: pty_inv_def)

lemma due_inv: "pty_inv p \<Longrightarrow> pty_inv (resize_due p)"
  unfolding resize_due_def by (cases "pg_timer p") (simp_all add: post_inv timer_cleared_inv)

lemma channels_inv:
  assumes p: "pty_inv p" and n: "resizes (snd s) = resizes (pg_net p) \<or> resizes (snd s) = []"
  shows "pty_inv (on_channels s p)"
proof -
  have g: "\<forall>x \<in> set (term_grids (channels (fst s)) (pg_grids p)). at_least_two (snd x)"
    by (rule term_grids_two) (use p in \<open>simp add: pty_inv_def\<close>)
  have m: "\<forall>m \<in> set (resizes (snd s)). msg_fits m" using n p unfolding pty_inv_def by force
  have "pg_timer p \<noteq> Some []" using p by (simp add: pty_inv_def)
  then show ?thesis using g m by (simp add: pty_inv_def on_channels_def term_grids_keys)
qed

lemma pty_step_inv: "pty_inv p \<Longrightarrow> pty_inv (pty_step p e)"
proof (cases e)
  case (PtChannel c)
  assume "pty_inv p"
  then show ?thesis unfolding PtChannel pty_step.simps by (rule channels_inv) (simp add: ch_step_resizes)
next
  case PtClose
  assume "pty_inv p"
  then have "pty_inv (on_channels (closeShellWindow (pg_win p) (pg_net p)) p)" by (rule channels_inv) (simp add: window_closed_resizes)
  then show ?thesis unfolding PtClose pty_step.simps window_closed_def by (rule timer_cleared_inv)
next
  case (PtDragDone m)
  assume "pty_inv p"
  then have "pty_inv (p\<lparr>pg_timer := None\<rparr>)" by (rule timer_cleared_inv)
  then show ?thesis unfolding PtDragDone pty_step.simps drag_done_def by (auto simp: Let_def intro: fit_inv split: option.split)
qed (simp_all add: fit_inv observed_def schedule_inv due_inv)

interpretation pm: event_machine "new_pty sid ro n" pty_step pty_inv for sid ro n
  by unfold_locales (simp add: new_pty_def new_cwin_def pty_inv_def resizes_def, rule pty_step_inv)


section \<open>A change of size reaches the shell\<close>

text \<open>
  The channel \<open>sid\<close> is the active one, its stream goes on and the socket is open; and the events that leave
  it so: output, input, a loaded history, any fit and the observer of this channel's container.
\<close>

definition live_active :: "string \<Rightarrow> cwin \<times> net \<Rightarrow> bool" where
  "live_active sid s \<longleftrightarrow>
     sid \<noteq> [] \<and> (\<exists>ch. get_ch (fst s) sid = Some ch \<and> \<not> streamDone ch) \<and> activeChannel (fst s) = Some sid \<and>
     \<not> c_streamDone (fst s) \<and> ws_open (snd s)"

definition measurable :: "term_box \<Rightarrow> bool" where
  "measurable m \<longleftrightarrow> 0 < fit_width m \<and> 0 < container_h m"

fun leaves_channel :: "ch_event \<Rightarrow> bool" where
  "leaves_channel (ChFrame k d) = True"
| "leaves_channel (ChData k d) = True"
| "leaves_channel (ChHistory k) = True"
| "leaves_channel ChUnlock = True"
| "leaves_channel e = False"

fun keeps_due :: "string \<Rightarrow> pty_event \<Rightarrow> bool" where
  "keeps_due sid (PtChannel e) = leaves_channel e"
| "keeps_due sid (PtFit k m sync) = True"
| "keeps_due sid (PtObserved k) = (k = sid)"
| "keeps_due sid (PtDragDone m) = measurable m"
| "keeps_due sid e = False"

lemma upd_ch_stream: "activeChannel (upd_ch k f w) = activeChannel w" "c_streamDone (upd_ch k f w) = c_streamDone w"
  by (simp_all add: upd_ch_def split: option.split)

lemma marker_stream [simp]: "streamDone (showTerminalEndedMarker ch) = streamDone ch"
  by (simp add: showTerminalEndedMarker_def)

lemma close_other:
  assumes "activeChannel w = Some sid" and "k \<noteq> sid"
  shows "get_ch (fst (closeChannelTab k w n)) sid = get_ch w sid" "activeChannel (fst (closeChannelTab k w n)) = Some sid"
    "c_streamDone (fst (closeChannelTab k w n)) = c_streamDone w" "ws_open (snd (closeChannelTab k w n)) = ws_open n"
  using assms by (simp_all add: closeChannelTab_def remove_channel_def get_ch_def obj_get_del Let_def)

lemma queue_open: "ws_open (queueTerminalWatch sid n) = ws_open n"
  by (simp add: queueTerminalWatch_def)

lemma leaves_live:
  assumes l: "live_active sid (w, n)" and e: "leaves_channel e"
  shows "live_active sid (ch_step (w, n) e)"
proof (cases e)
  case (ChData k d)
  obtain ch where ch: "get_ch w sid = Some ch" "\<not> streamDone ch" "activeChannel w = Some sid"
    using l by (auto simp: live_active_def)
  have "live_active sid (closeChannelTab k w n)" if "k \<noteq> sid"
    using l close_other [OF ch(3) that] by (simp add: live_active_def)
  then show ?thesis using l ch unfolding ChData ch_step.simps onData_def
    by (cases "get_ch w k"; cases "k = sid") (auto simp: live_active_def wsUiSend_def)
next
  case ChUnlock
  then show ?thesis using l by (simp add: live_active_def unlockInput_def get_ch_def)
qed (use l e in \<open>auto simp: live_active_def terminalFrame_def historyDone_def get_ch_upd upd_ch_stream queue_open Let_def\<close>)

lemma default_live: "live_active sid s \<Longrightarrow> default_sid (fst s) = sid"
  by (auto simp: live_active_def default_sid_def or_str_def)

lemma schedule_live:
  assumes "live_active sid (pg_win p, pg_net p)" and "k = [] \<or> k = sid"
  shows "scheduleShellRemoteResize k p = p\<lparr>pg_timer := Some sid\<rparr>"
proof -
  have "or_str k (default_sid (pg_win p)) = sid" using default_live [OF assms(1)] assms(2) by (auto simp: or_str_def)
  then show ?thesis using assms(1) by (auto simp: scheduleShellRemoteResize_def live_active_def stream_over_def)
qed

lemma fit_same: "pg_win (fit_channel k m sync p) = pg_win p" "pg_net (fit_channel k m sync p) = pg_net p"
  by (simp_all add: fit_channel_def scheduleShellRemoteResize_def Let_def case_prod_beta split: option.split)

lemma fit_timer:
  assumes "live_active sid (pg_win p, pg_net p)"
  shows "pg_timer (fit_channel k m sync p) = pg_timer p \<or> pg_timer (fit_channel k m sync p) = Some sid"
  using assms by (auto simp: fit_channel_def schedule_live Let_def case_prod_beta split: option.split)

lemma measured: "measurable m \<Longrightarrow> fit_grid (m\<lparr>t_cols := c, t_rows := r\<rparr>) \<noteq> None"
  by (auto simp: measurable_def fit_grid_def fit_width_def case_prod_beta split: option.splits if_splits)

lemma grid_of_channel: "pty_inv p \<Longrightarrow> get_ch (pg_win p) k = Some ch \<Longrightarrow> \<exists>cols rows. obj_get (pg_grids p) k = Some (cols, rows)"
proof -
  assume p: "pty_inv p" and c: "get_ch (pg_win p) k = Some ch"
  have "k \<in> set (map fst (channels (pg_win p)))" using get_ch_in [OF c] by force
  then have "k \<in> set (map fst (pg_grids p))" using p by (simp add: pty_inv_def)
  then show ?thesis using obj_keys_iff [of k "pg_grids p"] by (auto simp: obj_keys_def)
qed

lemma fit_schedules:
  assumes "pty_inv p" and "live_active sid (pg_win p, pg_net p)" and "measurable m"
  shows "pg_timer (fit_channel sid m True p) = Some sid"
proof -
  obtain ch where "get_ch (pg_win p) sid = Some ch" using assms(2) by (auto simp: live_active_def)
  from grid_of_channel [OF assms(1) this] obtain cols rows where "obj_get (pg_grids p) sid = Some (cols, rows)" by blast
  moreover have "\<not> c_streamDone (pg_win p)" using assms(2) by (simp add: live_active_def)
  moreover obtain g where "fit_grid (m\<lparr>t_cols := cols, t_rows := rows\<rparr>) = Some g" using measured [OF assms(3)] by blast
  ultimately show ?thesis using assms(2) by (simp add: fit_channel_def Let_def schedule_live)
qed

lemma drag_schedules:
  assumes "pty_inv p" and "live_active sid (pg_win p, pg_net p)" and "measurable m"
  shows "pg_timer (drag_done m p) = Some sid"
proof -
  have "activeChannel (pg_win p) = Some sid" using assms(2) by (simp add: live_active_def)
  then show ?thesis using fit_schedules [OF timer_cleared_inv [OF assms(1)], of sid m] assms(2,3) by (simp add: drag_done_def)
qed

lemma drag_same: "pg_win (drag_done m p) = pg_win p" "pg_net (drag_done m p) = pg_net p"
  by (simp_all add: drag_done_def fit_same Let_def split: option.split)

lemma due_kept:
  assumes p: "pty_inv p" and l: "live_active sid (pg_win p, pg_net p)" and d: "pg_timer p = Some sid" and e: "keeps_due sid e"
  shows "live_active sid (pg_win (pty_step p e), pg_net (pty_step p e)) \<and> pg_timer (pty_step p e) = Some sid \<and>
    resizes (pg_net (pty_step p e)) = resizes (pg_net p)"
proof (cases e)
  case (PtChannel c)
  then have "leaves_channel c" using e by simp
  then have "live_active sid (ch_step (pg_win p, pg_net p) c)" "c \<noteq> ChUp" using leaves_live [OF l] by auto
  then show ?thesis using d unfolding PtChannel by (simp add: on_channels_def ch_step_resizes)
qed (use l d e p fit_timer [OF l] in \<open>auto simp: fit_same drag_same drag_schedules observed_def schedule_live\<close>)

lemma due_kept_run:
  assumes "pty_inv p" and "live_active sid (pg_win p, pg_net p)" and "pg_timer p = Some sid" and "\<forall>e \<in> set es. keeps_due sid e"
  shows "live_active sid (pg_win (foldl pty_step p es), pg_net (foldl pty_step p es)) \<and> pg_timer (foldl pty_step p es) = Some sid \<and>
    resizes (pg_net (foldl pty_step p es)) = resizes (pg_net p)"
  using assms
proof (induction es arbitrary: p)
  case (Cons e es)
  have "keeps_due sid e" using Cons.prems(4) by simp
  from due_kept [OF Cons.prems(1-3) this] show ?case
    using Cons.IH [OF pty_step_inv [OF Cons.prems(1)], of e] Cons.prems(4) by simp
qed simp

lemma due_sends:
  assumes "pty_inv p" and "live_active sid (pg_win p, pg_net p)" and "pg_timer p = Some sid"
  shows "\<exists>cols rows. obj_get (pg_grids p) sid = Some (cols, rows) \<and>
    resize_due p = p\<lparr>pg_timer := None, pg_net := (pg_net p)\<lparr>sent := sent (pg_net p) @ [ResizeMsg sid rows cols]\<rparr>\<rparr>"
proof -
  obtain ch where ch: "get_ch (pg_win p) sid = Some ch" "\<not> streamDone ch" using assms(2) by (auto simp: live_active_def)
  from grid_of_channel [OF assms(1) ch(1)] obtain cols rows where "obj_get (pg_grids p) sid = Some (cols, rows)" by blast
  then show ?thesis using ch assms(2,3)
    by (simp add: resize_due_def postResize_def or_str_def live_active_def wsUiSend_def)
qed

text \<open>C29: A change of size reaches the shell: once a drag ends or the active terminal of a live stream is fitted with
  synchronisation, then whatever fits, drags, observations of this terminal, output and input follow, the
  timer is pending, no size is sent meanwhile, and when it is due exactly one message goes out, with the
  rows and columns the terminal has then; the terminals are not touched and no timer is left.\<close>
theorem resize_reaches_shell:
  assumes "p = foldl pty_step (new_pty s ro n) es0" and "live_active sid (pg_win p, pg_net p)" and "measurable m"
    and "e = PtFit sid m True \<or> e = PtDragDone m" and "\<forall>e \<in> set es. keeps_due sid e"
  shows "let q = foldl pty_step (pty_step p e) es; r = pty_step q PtDue
    in pg_timer q = Some sid \<and> resizes (pg_net q) = resizes (pg_net p) \<and>
       (\<exists>cols rows. obj_get (pg_grids q) sid = Some (cols, rows) \<and> 2 \<le> cols \<and> 2 \<le> rows \<and>
          resizes (pg_net r) = resizes (pg_net p) @ [ResizeMsg sid rows cols]) \<and>
       pg_grids r = pg_grids q \<and> pg_timer r = None"
proof -
  define p1 q where "p1 = pty_step p e" and "q = foldl pty_step p1 es"
  have p: "pty_inv p" unfolding assms(1) by (rule pm.always)
  have i: "pty_inv p1" unfolding p1_def by (rule pty_step_inv [OF p])
  have iq: "pty_inv q" unfolding q_def by (rule pm.always_from [OF i])
  have "pg_timer p1 = Some sid \<and> pg_win p1 = pg_win p \<and> pg_net p1 = pg_net p"
    using assms(4) fit_schedules [OF p assms(2,3)] drag_schedules [OF p assms(2,3)] by (auto simp: p1_def fit_same drag_same)
  then have q: "live_active sid (pg_win q, pg_net q)" "pg_timer q = Some sid" "resizes (pg_net q) = resizes (pg_net p)"
    using due_kept_run [OF i _ _ assms(5)] assms(2) unfolding q_def by auto
  from due_sends [OF iq q(1,2)] obtain cols rows where g: "obj_get (pg_grids q) sid = Some (cols, rows)"
    and d: "resize_due q = q\<lparr>pg_timer := None, pg_net := (pg_net q)\<lparr>sent := sent (pg_net q) @ [ResizeMsg sid rows cols]\<rparr>\<rparr>" by blast
  have "2 \<le> cols \<and> 2 \<le> rows" using iq obj_get_snd [OF g] by (force simp: pty_inv_def at_least_two_def)
  then show ?thesis unfolding Let_def p1_def [symmetric] q_def [symmetric] using q g by (simp add: d) (simp add: resizes_def)
qed

definition sample_box :: term_box where
  "sample_box = \<lparr>container_w = 640, container_h = 400, viewport_w = Some 620, measured_char = 8, font_size = 13, screen = None,
     t_cols = 0, t_rows = 0\<rparr>"

definition sample_pty :: pty where
  "sample_pty = foldl pty_step (new_pty ''s'' False \<lparr>ws_open = True, sent = [], pendingWatch = [], deletes = []\<rparr>)
     [PtChannel (ChCreate ''a'' [] False), PtChannel (ChCreate ''b'' [] False)]"

lemma sample_pty_live: "live_active ''b'' (pg_win sample_pty, pg_net sample_pty)"
proof -
  have "(case get_ch (pg_win sample_pty) ''b'' of None \<Rightarrow> False | Some ch \<Rightarrow> \<not> streamDone ch) \<and>
      activeChannel (pg_win sample_pty) = Some ''b'' \<and> \<not> c_streamDone (pg_win sample_pty) \<and> ws_open (pg_net sample_pty)"
    by code_simp
  then show ?thesis by (simp add: live_active_def split: option.splits)
qed

theorem resize_reaches_shell_witness:
  "\<exists>cols rows. resizes (pg_net (pty_step (pty_step (pty_step sample_pty (PtDragDone sample_box)) (PtChannel (ChFrame ''b'' ''x''))) PtDue)) =
     resizes (pg_net sample_pty) @ [ResizeMsg ''b'' rows cols]"
proof -
  have "measurable sample_box" by (simp add: measurable_def sample_box_def fit_width_def)
  from resize_reaches_shell [OF sample_pty_def sample_pty_live this, of "PtDragDone sample_box" "[PtChannel (ChFrame ''b'' ''x'')]"]
  show ?thesis by (auto simp: Let_def)
qed

section \<open>Nothing else is sent\<close>

text \<open>C30: Sizes are sent only when they are due: in every run of a window each event adds no size to those sent on
  the present connection, unless the timer is due for a channel of the window whose stream goes on, and
  then it adds the size of that channel's terminal; every size sent names a shell and has at least two
  rows and two columns, and a reconnection forgets them.\<close>
theorem resize_only_when_due:
  "let p = foldl pty_step (new_pty s ro n) es; p' = pty_step p e
    in (resizes (pg_net p') = resizes (pg_net p) \<or> e = PtChannel ChUp \<and> resizes (pg_net p') = [] \<or>
        e = PtDue \<and> (\<exists>sid cols rows ch. pg_timer p = Some sid \<and> get_ch (pg_win p) sid = Some ch \<and> \<not> streamDone ch \<and>
          obj_get (pg_grids p) sid = Some (cols, rows) \<and> resizes (pg_net p') = resizes (pg_net p) @ [ResizeMsg sid rows cols])) \<and>
       list_all msg_fits (resizes (pg_net p'))"
proof -
  define p where "p = foldl pty_step (new_pty s ro n) es"
  have p: "pty_inv p" unfolding p_def by (rule pm.always)
  have "list_all msg_fits (resizes (pg_net (pty_step p e)))" using pty_step_inv [OF p, of e] by (simp add: pty_inv_def list_all_iff)
  moreover have "resizes (pg_net (pty_step p e)) = resizes (pg_net p) \<or> e = PtChannel ChUp \<and> resizes (pg_net (pty_step p e)) = [] \<or>
        e = PtDue \<and> (\<exists>sid cols rows ch. pg_timer p = Some sid \<and> get_ch (pg_win p) sid = Some ch \<and> \<not> streamDone ch \<and>
          obj_get (pg_grids p) sid = Some (cols, rows) \<and> resizes (pg_net (pty_step p e)) = resizes (pg_net p) @ [ResizeMsg sid rows cols])"
  proof (cases e)
    case PtDue
    show ?thesis
    proof (cases "pg_timer p")
      case (Some sid)
      then have "sid \<noteq> []" using p by (auto simp: pty_inv_def)
      then have d: "pty_step p e = postResize sid (p\<lparr>pg_timer := None\<rparr>)" "or_str sid w = sid" for w
        by (simp_all add: PtDue resize_due_def Some or_str_def)
      show ?thesis unfolding d(1) using \<open>sid \<noteq> []\<close> Some PtDue
        by (simp add: postResize_def d(2) Let_def wsUiSend_def resizes_def split: option.split)
    qed (simp add: PtDue resize_due_def)
  qed (auto simp: on_channels_def ch_step_resizes fit_same drag_same window_closed_def window_closed_resizes observed_def
      scheduleShellRemoteResize_def Let_def)
  ultimately show ?thesis unfolding Let_def p_def [symmetric] by blast
qed

text \<open>
  Three ways a shell keeps a size its terminal no longer has. The timer belongs to the window: the
  observer of another live channel takes it over. A size that is due while the socket is down is lost, the
  new connection renews the watches only. The end of a drag drops what was scheduled even when the
  terminal cannot be measured.
\<close>

lemma observer_takes_timer:
  assumes "get_ch (pg_win p) k = Some ch" and "\<not> streamDone ch" and "k \<noteq> []"
  shows "pg_timer (observed k p) = Some k"
  using assms by (simp add: observed_def scheduleShellRemoteResize_def or_str_def stream_over_def)

lemma resize_lost_while_down:
  assumes "\<not> ws_open (pg_net p)"
  shows "pg_timer (resize_due p) = None \<and> pg_net (resize_due p) = pg_net p \<and>
    resizes (pg_net (pty_step (resize_due p) (PtChannel ChUp))) = []"
proof -
  have "pg_timer (resize_due p) = None \<and> pg_net (resize_due p) = pg_net p"
    using assms by (simp add: resize_due_def postResize_def Let_def wsUiSend_def case_prod_beta split: option.split)
  then show ?thesis using ch_step_resizes [of "pg_win (resize_due p)" "pg_net (resize_due p)" ChUp]
    by (simp add: on_channels_def del: ch_step.simps)
qed

lemma unmeasured_drag_drops_resize:
  assumes "\<not> measurable m"
  shows "pg_timer (drag_done m p) = None"
proof -
  have "fit_grid (m\<lparr>t_cols := c, t_rows := r\<rparr>) = None" for c r
    using assms by (auto simp: measurable_def fit_grid_def fit_width_def split: option.splits if_splits)
  then show ?thesis by (simp add: drag_done_def fit_channel_def Let_def split: option.split)
qed

end
