(* ===== verification/Window_Markup.thy ===== *)
theory Window_Markup
  imports Sessions Approval
begin

text \<open>
  The markup of the windows (\<open>terminal-view.js\<close>): the templates of a window that waits for its session and
  of one that has it, with the parts they share and the tab of a channel; a scanner for tags, and that
  whatever a connection, a session or a shell is called, the elements of a window nest.
\<close>

section \<open>Templates\<close>

definition SVG_COPY_12 :: string where
  \<open>SVG_COPY_12 = ''<svg viewBox="0 0 16 16" width="12" height="12" aria-hidden="true" fill="currentColor"><path d="M5 2.5V2a1 1 0 011-1h6a1 1 0 011 1v8a1 1 0 01-1 1h-1v.5a1 1 0 01-1 1H4a1 1 0 01-1-1V4a1 1 0 011-1h1zm1 .5H4v8h6v-8H6zm-1-1V2h6v8h-1V3.5a1 1 0 00-1-1H5z"/></svg>''\<close>

definition tab_frags :: "string \<Rightarrow> string frag list" where
  \<open>tab_frags label = [
    Lit ''<span class="shell-channel-tab-label">'',
    Hole (or_str label ''shell''),
    Lit ''</span>'',
    Lit ''<button type="button" class="shell-channel-tab-copy" title="Copy URL" data-i18n-title="common.copyUrl" aria-label="Copy URL" data-i18n-aria="common.copyUrl">'',
    Lit SVG_COPY_12,
    Lit ''</button>'',
    Lit ''<span class="shell-channel-tab-ended" style="display:none" title="Session ended" data-i18n-title="session.ended" data-i18n="channel.endedTab">end</span>'',
    Lit ''<button type="button" class="shell-channel-tab-close" title="Close shell" data-i18n-title="channel.close">&times;</button>'']\<close>

text \<open>The lock, the grips, the review panel, and the panels for forwards, files and rules.\<close>

definition SHELL_REVIEW_LOCK_HTML :: string where
  \<open>SHELL_REVIEW_LOCK_HTML = concat [
    ''<button type="button" class="shell-review-lock" aria-expanded="false" aria-label="Review" data-i18n-aria="review.title">'',
    ''<span class="shell-review-lock-icon" aria-hidden="true">'',
    SVG_LOCK_OPEN,
    ''</span>'',
    ''<span class="shell-review-count" hidden>0</span>'',
    ''</button>'']\<close>

definition SHELL_RESIZE_HANDLES_HTML :: string where
  \<open>SHELL_RESIZE_HANDLES_HTML = concat [
    ''<div class="shell-window-resize-handle" data-corner="nw" title="Drag to resize" data-i18n-title="win.resize"></div>'',
    ''<div class="shell-window-resize-handle" data-corner="ne" title="Drag to resize" data-i18n-title="win.resize"></div>'',
    ''<div class="shell-window-resize-handle" data-corner="sw" title="Drag to resize" data-i18n-title="win.resize"></div>'',
    ''<div class="shell-window-resize-handle" data-corner="se" title="Drag to resize" data-i18n-title="win.resize"></div>'']\<close>

definition SHELL_REVIEW_SHEET_HTML :: string where
  \<open>SHELL_REVIEW_SHEET_HTML = concat [
    ''<div class="shell-review-sheet" hidden>'',
    ''<div class="shell-review-sheet-h">'',
    ''<span class="shell-review-sheet-title" data-i18n="review.title">Review</span>'',
    ''<label class="shell-review-switch" title="Review every write the AI sends to this session" data-i18n-title="review.switch.tip">'',
    ''<input type="checkbox" class="shell-review-toggle" role="switch" aria-label="Review mode" data-i18n-aria="review.mode">'',
    ''<span class="shell-review-switch-track" aria-hidden="true"></span>'',
    ''<span class="shell-review-switch-text" data-i18n="review.off">Review</span>'',
    ''</label>'',
    ''<button type="button" class="shell-review-sheet-close" title="Close" aria-label="Close" data-i18n-title="common.close" data-i18n-aria="common.close">'',
    ''<svg viewBox="0 0 12 12" width="11" height="11" aria-hidden="true"><path fill="none" stroke="currentColor" stroke-width="1.5" stroke-linecap="round" d="M2 2l8 8M10 2L2 10"/></svg>'',
    ''</button>'',
    ''</div>'',
    ''<div class="shell-review-sheet-b">'',
    ''<div class="shell-review-hint" data-i18n="review.hint">While review is on, every write the AI sends to this session waits here until a human accepts it.</div>'',
    ''<div class="shell-review-queue">'',
    ''<div class="shell-review-queue-h">'',
    ''<span data-i18n="review.waiting">Waiting for review</span>'',
    ''<button type="button" class="shell-review-refresh" title="Refresh" data-i18n-title="common.refresh">'',
    ''<svg viewBox="0 0 16 16" width="12" height="12" aria-hidden="true" fill="none" stroke="currentColor" stroke-width="1.4" stroke-linecap="round" stroke-linejoin="round"><path d="M13 8a5 5 0 11-1.5-3.5"/><path d="M13 2.5V5h-2.5"/></svg>'',
    ''</button>'',
    ''</div>'',
    ''<div class="shell-review-list"></div>'',
    ''</div>'',
    ''</div>'',
    ''</div>'']\<close>

definition SHELL_WINDOW_PANELS_HTML :: string where
  \<open>SHELL_WINDOW_PANELS_HTML = concat [
    ''<div class="shell-tab-panel" data-stab="fw" style="display:none;flex-direction:column;flex:1;min-height:0;overflow:hidden;padding:12px 16px">'',
    ''<div style="display:flex;align-items:center;margin-bottom:10px;flex-shrink:0">'',
    ''<span style="font-size:0.82rem;font-weight:600;color:#e6edf3" data-i18n="fw.panel.title">Port Forwardings</span>'',
    ''<button type="button" class="shell-fw-refresh-btn" title="Refresh" data-i18n-title="common.refresh" style="width:24px;height:24px;margin-left:auto;padding:0;border:1px solid #484f58;border-radius:4px;background:transparent;color:#888;cursor:pointer;display:flex;align-items:center;justify-content:center;margin-right:4px;transition:color .12s,background .12s,border-color .12s" onmouseover="this.style.color='#ccc';this.style.borderColor='#666'" onmouseout="this.style.color='#888';this.style.borderColor='#484f58'" onmousedown="this.style.background='rgba(255,255,255,.06)'" onmouseup="this.style.background='transparent'"><svg viewBox="0 0 14 14" width="12" height="12" fill="none" stroke="currentColor" stroke-width="1.5" stroke-linecap="round" stroke-linejoin="round"><path d="M1.5 7A5.5 5.5 0 0111.3 3.8M12.5 7A5.5 5.5 0 012.7 10.2"/><path d="M12.5 1.5v2.5H10M1.5 12.5v-2.5H4"/></svg></button>'',
    ''<button type="button" class="shell-fw-add-btn" title="Add forwarding" data-i18n-title="fw.add" style="width:24px;height:24px;padding:0;border:1px solid #2ea043;border-radius:4px;background:transparent;color:#3fb950;cursor:pointer;display:flex;align-items:center;justify-content:center"><svg viewBox="0 0 14 14" width="12" height="12" fill="none" stroke="currentColor" stroke-width="2" stroke-linecap="round"><path d="M7 3v8M3 7h8"/></svg></button>'',
    ''</div>'',
    ''<div class="shell-fw-list" style="flex:1;min-height:0;overflow:auto;font-size:0.78rem;color:#c9d1d9;border:1px solid #30363d;border-radius:6px;background:#0d1117" data-i18n="common.loading">Loading...</div>'',
    ''</div>'',
    ''<div class="shell-tab-panel" data-stab="file" style="display:none;flex-direction:column;flex:1;min-height:0;overflow:hidden;padding:12px 16px 12px">'',
    ''<div style="font-size:0.82rem;font-weight:600;color:#e6edf3;margin-bottom:8px" data-i18n="win.files.tab">Files</div>'',
    ''<div style="display:flex;gap:0;margin-bottom:6px;align-items:stretch;flex-shrink:0;border:1px solid #484f58;overflow:hidden">'',
    ''<button type="button" class="shell-file-up" title="Parent" data-i18n-title="file.parent" style="width:30px;height:30px;padding:0;border:none;border-right:1px solid #484f58;background:#2d2d2d;color:#aaa;cursor:pointer;display:flex;align-items:center;justify-content:center;flex-shrink:0"><svg viewBox="0 0 14 14" width="13" height="13" aria-hidden="true"><path fill="none" stroke="currentColor" stroke-width="1.5" stroke-linecap="round" stroke-linejoin="round" d="M2 10l5-5 5 5"/></svg></button>'',
    ''<input type="text" class="shell-file-path" placeholder="/" style="flex:1;min-width:0;border:none;outline:none;font-family:ui-monospace,monospace;font-size:0.78rem;padding:0 8px;background:#1e1e1e;color:#d4d4d4">'',
    ''<input type="file" class="shell-file-upload-input" style="display:none">'',
    ''<button type="button" class="shell-file-upload-btn" title="Upload" data-i18n-title="common.upload" style="width:30px;height:30px;padding:0;border:none;border-left:1px solid #484f58;background:#2d2d2d;color:#aaa;cursor:pointer;display:flex;align-items:center;justify-content:center;flex-shrink:0"><svg viewBox="0 0 14 14" width="13" height="13" aria-hidden="true"><path fill="none" stroke="currentColor" stroke-width="1.5" stroke-linecap="round" stroke-linejoin="round" d="M7 2v8M4 5.5l3-3 3 3M2 10v1.5a1 1 0 001 1h8a1 1 0 001-1V10"/></svg></button>'',
    ''<button type="button" class="shell-file-go" title="Load" data-i18n-title="file.load" style="width:30px;height:30px;padding:0;border:none;border-left:1px solid #484f58;background:#2d2d2d;color:#aaa;cursor:pointer;display:flex;align-items:center;justify-content:center;flex-shrink:0"><svg viewBox="0 0 14 14" width="13" height="13" aria-hidden="true"><path fill="none" stroke="currentColor" stroke-width="1.5" stroke-linecap="round" stroke-linejoin="round" d="M1 7a6 6 0 0111.2-3.8M13 7a6 6 0 01-11.2 3.8"/><path fill="none" stroke="currentColor" stroke-width="1.5" stroke-linecap="round" stroke-linejoin="round" d="M13 2v2.5h-2.5M1 12v-2.5h2.5"/></svg></button>'',
    ''</div>'',
    ''<div class="shell-file-listing" style="flex:1;min-height:0;overflow:auto;font-size:0.78rem;font-family:ui-monospace,monospace;border:1px solid #484f58;background:#1e1e1e;color:#d4d4d4"></div>'',
    ''<div class="shell-file-ctx-menu" style="display:none"><div class="file-ctx-item" data-action="download" data-i18n="common.download">Download</div><div class="file-ctx-item" data-action="rename" data-i18n="common.rename">Rename</div><div class="file-ctx-item" data-action="delete" class="file-ctx-danger" data-i18n="common.delete">Delete</div></div>'',
    ''</div>'',
    ''<div class="shell-tab-panel" data-stab="notify" style="display:none;flex-direction:column;flex:1;min-height:0;overflow:hidden;padding:12px 16px">'',
    ''<div style="display:flex;align-items:center;margin-bottom:10px;flex-shrink:0">'',
    ''<span style="font-size:0.82rem;font-weight:600;color:#e6edf3" title="Wake-up rules for this shell (notify tool)" data-i18n-title="win.notify.tip" data-i18n="win.notify.tab">Notifications</span>'',
    ''<button type="button" class="shell-ntf-refresh-btn" title="Refresh" data-i18n-title="common.refresh" style="width:24px;height:24px;margin-left:auto;padding:0;border:1px solid #484f58;border-radius:4px;background:transparent;color:#888;cursor:pointer;display:flex;align-items:center;justify-content:center;transition:color .12s,background .12s,border-color .12s" onmouseover="this.style.color='#ccc';this.style.borderColor='#666'" onmouseout="this.style.color='#888';this.style.borderColor='#484f58'" onmousedown="this.style.background='rgba(255,255,255,.06)'" onmouseup="this.style.background='transparent'"><svg viewBox="0 0 14 14" width="12" height="12" fill="none" stroke="currentColor" stroke-width="1.5" stroke-linecap="round" stroke-linejoin="round"><path d="M1.5 7A5.5 5.5 0 0111.3 3.8M12.5 7A5.5 5.5 0 012.7 10.2"/><path d="M12.5 1.5v2.5H10M1.5 12.5v-2.5H4"/></svg></button>'',
    ''</div>'',
    ''<div class="shell-ntf-list" style="flex:1;min-height:0;overflow:auto;font-size:0.78rem;color:#c9d1d9;border:1px solid #30363d;border-radius:6px;background:#0d1117" data-i18n="common.loading">Loading...</div>'',
    ''</div>'',
    ''</div>'']\<close>

text \<open>
  A window that waits, and one with its session. \<open>el\<close> is the ellipsis and \<open>ca\<close> the small triangle, two
  literals whose code is above 255; escaping leaves them alone. Without a name the second has no label.
\<close>

definition pending_frags :: "string \<Rightarrow> string \<Rightarrow> string \<Rightarrow> string frag list" where
  \<open>pending_frags el ca conn = [
    Lit ''<div class="shell-window-header">'',
    Lit ''<span class="shell-header-icon"><svg viewBox="0 0 16 16" width="16" height="16" aria-hidden="true" fill="none" stroke="currentColor" stroke-width="1.3" stroke-linecap="round" stroke-linejoin="round"><rect x="1.5" y="2.5" width="13" height="9" rx="1.5"/><path d="M5 14.5h6M8 11.5v3"/></svg></span>'',
    Lit ''<div class="shell-window-title-cluster">'',
    Lit ''<h3 class="shell-window-title">'',
    Lit ''<span class="sw-conn">'',
    Hole conn,
    Lit ''</span>'',
    Lit ''<span class="shell-title-id-group">'',
    Lit ''<span class="shell-sid-copy">'',
    Lit ''<span class="sid">'',
    Hole el,
    Lit ''</span>'',
    Lit ''<button type="button" class="title-copy-btn" style="display:none" title="Copy URL" data-i18n-title="common.copyUrl" aria-label="Copy URL" data-i18n-aria="common.copyUrl">'',
    Lit SVG_COPY_12,
    Lit ''</button>'',
    Lit ''</span>'',
    Lit ''</span>'',
    Lit ''</h3>'',
    Lit ''</div>'',
    Lit ''<div class="shell-tab-bar">'',
    Lit SHELL_REVIEW_LOCK_HTML,
    Lit ''<button type="button" class="shell-tab-btn active" data-stab="term" title="Terminal" data-i18n-title="win.term.tab"><svg viewBox="0 0 14 14" width="14" height="14" aria-hidden="true" fill="none" stroke="currentColor" stroke-width="1.3" stroke-linecap="round"><rect x="1" y="2" width="12" height="10" rx="1.5"/><path d="M4 5l2 2-2 2"/><line x1="8" y1="9" x2="11" y2="9"/></svg></button>'',
    Lit ''<button type="button" class="shell-tab-btn" data-stab="fw" title="Forwardings" data-i18n-title="win.fw.tab"><svg viewBox="0 0 14 14" width="14" height="14" aria-hidden="true" fill="none" stroke="currentColor" stroke-width="1.3"><rect x="3.5" y="3.5" width="7" height="7" rx="1"/><path d="M1 7h3.5M9.5 7h3.5M7 1v3.5M7 9.5v3.5" stroke-linecap="round"/></svg></button>'',
    Lit ''<button type="button" class="shell-tab-btn" data-stab="file" title="Files" data-i18n-title="win.files.tab"><svg viewBox="0 0 14 14" width="14" height="14" aria-hidden="true" fill="none" stroke="currentColor" stroke-width="1.3" stroke-linecap="round" stroke-linejoin="round"><path d="M1 3v9a1 1 0 001 1h10a1 1 0 001-1V4.5a1 1 0 00-1-1h-5L5.5 2H2a1 1 0 00-1 1z"/></svg></button>'',
    Lit ''</div>'',
    Lit ''<div class="shell-window-header-btns">'',
    Lit ''<button type="button" class="shell-window-max-btn" title="Maximize (dblclick header)" data-i18n-title="win.max.tip"><svg viewBox="0 0 12 12" width="12" height="12"><path fill="none" stroke="currentColor" stroke-width="1.5" stroke-linecap="round" stroke-linejoin="round" d="M2 5V2h3M10 7v3H7M2 2l3.5 3.5M10 10L6.5 6.5"/></svg></button><button type="button" class="shell-window-collapse-btn" title="Collapse" data-i18n-title="win.collapse">'',
    Lit ''<svg class="ic-d" viewBox="0 0 12 8" width="12" height="8"><path fill="none" stroke="currentColor" stroke-width="1.5" stroke-linecap="round" d="M1 2l5 4 5-4"/></svg>'',
    Lit ''<svg class="ic-u" viewBox="0 0 12 8" width="12" height="8" style="display:none"><path fill="none" stroke="currentColor" stroke-width="1.5" stroke-linecap="round" d="M1 6l5-4 5 4"/></svg>'',
    Lit ''</button>'',
    Lit ''<button type="button" class="shell-window-min-btn" title="Minimize (session keeps running)" data-i18n-title="win.minimize">'',
    Lit ''<svg viewBox="0 0 12 12" width="12" height="12"><path fill="none" stroke="currentColor" stroke-width="1.5" stroke-linecap="round" d="M2 6h8"/></svg>'',
    Lit ''</button>'',
    Lit ''<button type="button" class="close-btn" title="Close (cancel connect)" data-i18n-title="win.closeCancel">'',
    Lit ''<svg viewBox="0 0 12 12" width="12" height="12"><path fill="none" stroke="currentColor" stroke-width="1.5" stroke-linecap="round" d="M2 2l8 8M10 2L2 10"/></svg>'',
    Lit ''</button>'',
    Lit ''</div>'',
    Lit ''</div>'',
    Lit ''<div class="shell-window-content"><div class="shell-terminal-wrap">'',
    Lit ''<div class="shell-channel-body">'',
    Lit ''<div class="shell-pending"><div class="shell-pending-spinner" aria-hidden="true"></div><div><span data-i18n="win.connecting.label">Connecting</span> <strong>'',
    Hole conn,
    Lit ''</strong>'',
    Hole el,
    Lit ''</div></div>'',
    Lit ''</div>'',
    Lit ''<div class="shell-window-footer">'',
    Lit ''<div class="shell-channel-tabs">'',
    Lit ''<span class="shell-split">'',
    Lit ''<button type="button" class="shell-channel-tab-add" title="New shell channel" data-i18n-title="channel.add">+</button>'',
    Lit (''<button type="button" class="shell-channel-add-caret" aria-haspopup="menu" title="New shell channel '' @ [CHR 0xB7] @ '' choose mode" data-i18n-title="channel.addMenu">''),
    Hole ca,
    Lit ''</button>'',
    Lit ''</span>'',
    Lit ''</div>'',
    Lit ''</div>'',
    Lit ''<div class="shell-channel-empty">'',
    Lit ''<span data-i18n="channel.empty">No shell channels</span>'',
    Lit ''<span class="shell-split">'',
    Lit ''<button type="button" class="shell-channel-empty-add" data-i18n="channel.newShell">+ New Shell</button>'',
    Lit (''<button type="button" class="shell-channel-empty-caret" aria-haspopup="menu" title="New shell channel '' @ [CHR 0xB7] @ '' choose mode" data-i18n-title="channel.addMenu">''),
    Hole ca,
    Lit ''</button>'',
    Lit ''</span>'',
    Lit ''</div>'',
    Lit ''</div>'',
    Lit SHELL_REVIEW_SHEET_HTML,
    Lit SHELL_WINDOW_PANELS_HTML,
    Lit SHELL_RESIZE_HANDLES_HTML]\<close>

definition window_frags :: "string \<Rightarrow> string \<Rightarrow> string \<Rightarrow> string frag list" where
  \<open>window_frags ca conn sid = [
    Lit ''<div class="shell-window-header">'',
    Lit ''<span class="shell-header-icon"><svg viewBox="0 0 16 16" width="16" height="16" aria-hidden="true" fill="none" stroke="currentColor" stroke-width="1.3" stroke-linecap="round" stroke-linejoin="round"><rect x="1.5" y="2.5" width="13" height="9" rx="1.5"/><path d="M5 14.5h6M8 11.5v3"/></svg></span>'',
    Lit ''<div class="shell-window-title-cluster">'',
    Lit ''<h3 class="shell-window-title">''] @
    (if conn = [] then [] else [Lit ''<span class="sw-conn">'', Hole conn, Lit ''</span>'']) @
    [Lit ''<span class="shell-title-id-group">'',
    Lit ''<span class="shell-sid-copy">'',
    Lit ''<span class="sid">'',
    Hole (stripSessionPrefix sid),
    Lit ''</span>'',
    Lit ''<button type="button" class="title-copy-btn" title="Copy URL" data-i18n-title="common.copyUrl" aria-label="Copy URL" data-i18n-aria="common.copyUrl">'',
    Lit SVG_COPY_12,
    Lit ''</button>'',
    Lit ''</span>'',
    Lit ''</span>'',
    Lit ''</h3>'',
    Lit ''</div>'',
    Lit ''<div class="shell-tab-bar">'',
    Lit SHELL_REVIEW_LOCK_HTML,
    Lit ''<button type="button" class="shell-tab-btn active" data-stab="term" title="Terminal" data-i18n-title="win.term.tab"><svg viewBox="0 0 14 14" width="14" height="14" aria-hidden="true" fill="none" stroke="currentColor" stroke-width="1.3" stroke-linecap="round"><rect x="1" y="2" width="12" height="10" rx="1.5"/><path d="M4 5l2 2-2 2"/><line x1="8" y1="9" x2="11" y2="9"/></svg></button>'',
    Lit ''<button type="button" class="shell-tab-btn" data-stab="fw" title="Forwardings" data-i18n-title="win.fw.tab"><svg viewBox="0 0 14 14" width="14" height="14" aria-hidden="true" fill="none" stroke="currentColor" stroke-width="1.3"><rect x="3.5" y="3.5" width="7" height="7" rx="1"/><path d="M1 7h3.5M9.5 7h3.5M7 1v3.5M7 9.5v3.5" stroke-linecap="round"/></svg></button>'',
    Lit ''<button type="button" class="shell-tab-btn" data-stab="file" title="Files" data-i18n-title="win.files.tab"><svg viewBox="0 0 14 14" width="14" height="14" aria-hidden="true" fill="none" stroke="currentColor" stroke-width="1.3" stroke-linecap="round" stroke-linejoin="round"><path d="M1 3v9a1 1 0 001 1h10a1 1 0 001-1V4.5a1 1 0 00-1-1h-5L5.5 2H2a1 1 0 00-1 1z"/></svg></button>'',
    Lit ''</div>'',
    Lit ''<div class="shell-window-header-btns">'',
    Lit ''<button type="button" class="shell-window-max-btn" title="Maximize (dblclick header)" data-i18n-title="win.max.tip"><svg viewBox="0 0 12 12" width="12" height="12"><path fill="none" stroke="currentColor" stroke-width="1.5" stroke-linecap="round" stroke-linejoin="round" d="M2 5V2h3M10 7v3H7M2 2l3.5 3.5M10 10L6.5 6.5"/></svg></button><button type="button" class="shell-window-collapse-btn" title="Collapse" data-i18n-title="win.collapse">'',
    Lit ''<svg class="ic-d" viewBox="0 0 12 8" width="12" height="8"><path fill="none" stroke="currentColor" stroke-width="1.5" stroke-linecap="round" d="M1 2l5 4 5-4"/></svg>'',
    Lit ''<svg class="ic-u" viewBox="0 0 12 8" width="12" height="8" style="display:none"><path fill="none" stroke="currentColor" stroke-width="1.5" stroke-linecap="round" d="M1 6l5-4 5 4"/></svg>'',
    Lit ''</button>'',
    Lit ''<button type="button" class="shell-window-min-btn" title="Minimize (session keeps running)" data-i18n-title="win.minimize">'',
    Lit ''<svg viewBox="0 0 12 12" width="12" height="12"><path fill="none" stroke="currentColor" stroke-width="1.5" stroke-linecap="round" d="M2 6h8"/></svg>'',
    Lit ''</button>'',
    Lit ''<button type="button" class="close-btn" title="Delete session" data-i18n-title="session.delete.title">'',
    Lit ''<svg viewBox="0 0 12 12" width="12" height="12"><path fill="none" stroke="currentColor" stroke-width="1.5" stroke-linecap="round" d="M2 2l8 8M10 2L2 10"/></svg>'',
    Lit ''</button>'',
    Lit ''</div>'',
    Lit ''</div>'',
    Lit ''<div class="shell-window-content"><div class="shell-terminal-wrap">'',
    Lit ''<div class="shell-channel-body"></div>'',
    Lit ''<div class="shell-window-footer">'',
    Lit ''<div class="shell-channel-tabs">'',
    Lit ''<span class="shell-split">'',
    Lit ''<button type="button" class="shell-channel-tab-add" title="New shell channel" data-i18n-title="channel.add">+</button>'',
    Lit (''<button type="button" class="shell-channel-add-caret" aria-haspopup="menu" title="New shell channel '' @ [CHR 0xB7] @ '' choose mode" data-i18n-title="channel.addMenu">''),
    Hole ca,
    Lit ''</button>'',
    Lit ''</span>'',
    Lit ''</div>'',
    Lit ''</div>'',
    Lit ''<div class="shell-channel-empty">'',
    Lit ''<span data-i18n="channel.empty">No shell channels</span>'',
    Lit ''<span class="shell-split">'',
    Lit ''<button type="button" class="shell-channel-empty-add" data-i18n="channel.newShell">+ New Shell</button>'',
    Lit (''<button type="button" class="shell-channel-empty-caret" aria-haspopup="menu" title="New shell channel '' @ [CHR 0xB7] @ '' choose mode" data-i18n-title="channel.addMenu">''),
    Hole ca,
    Lit ''</button>'',
    Lit ''</span>'',
    Lit ''</div>'',
    Lit ''</div>'',
    Lit SHELL_REVIEW_SHEET_HTML,
    Lit SHELL_WINDOW_PANELS_HTML,
    Lit SHELL_RESIZE_HANDLES_HTML]\<close>

section \<open>Elements\<close>

text \<open>
  A text is read outside of tags, in the name of a tag (kept backwards), or in the rest of a tag, with
  whether the quotes of an attribute are open and the last character outside of them. A tag opens an element, closes the
  innermost open one, or does neither; the open elements are a stack.
\<close>

datatype scan_state = Outside | InName string | InTag string bool char

definition void_elements :: "string list" where
  "void_elements = [''input'', ''img'', ''br'']"

definition tag_step :: "string \<Rightarrow> char \<Rightarrow> string list \<Rightarrow> string list option" where
  "tag_step n last_char st =
     (case n of
        [] \<Rightarrow> None
      | c # m \<Rightarrow>
          if c = CHR ''/'' then (case st of [] \<Rightarrow> None | e # st' \<Rightarrow> if e = m then Some st' else None)
          else Some (if n \<in> set void_elements \<or> last_char = CHR ''/'' then st else n # st))"

fun nest :: "scan_state \<Rightarrow> string list \<Rightarrow> string \<Rightarrow> (scan_state \<times> string list) option" where
  "nest q st [] = Some (q, st)"
| "nest Outside st (c # s) = (if c = CHR ''<'' then nest (InName []) st s else nest Outside st s)"
| "nest (InName b) st (c # s) =
     (if c = CHR ''>'' then (case tag_step (rev b) c st of None \<Rightarrow> None | Some st' \<Rightarrow> nest Outside st' s)
      else if c = CHR '' '' \<or> c = CHR ''/'' \<and> b \<noteq> [] then nest (InTag (rev b) False c) st s
      else nest (InName (c # b)) st s)"
| "nest (InTag n quoted l) st (c # s) =
     (if c = CHR ''>'' \<and> \<not> quoted then (case tag_step n l st of None \<Rightarrow> None | Some st' \<Rightarrow> nest Outside st' s)
      else if c = DQ then nest (InTag n (\<not> quoted) l) st s
      else nest (InTag n quoted (if quoted then l else c)) st s)"

definition well_nested :: "string \<Rightarrow> bool" where
  "well_nested s \<longleftrightarrow> nest Outside [] s = Some (Outside, [])"

lemma nest_append: "nest q st (a @ b) = (case nest q st a of None \<Rightarrow> None | Some (q', st') \<Rightarrow> nest q' st' b)"
  by (induction q st a rule: nest.induct) (auto split: option.split)

lemma nest_text: "CHR ''<'' \<notin> set s \<Longrightarrow> nest Outside st s = Some (Outside, st)"
  by (induction s) auto

lemma nest_quoted: "DQ \<notin> set s \<Longrightarrow> nest (InTag n True l) st s = Some (InTag n True l, st)"
  by (induction s) auto

lemma nest_hole:
  "nest Outside st (escapeHtml v) = Some (Outside, st)" "nest (InTag n True l) st (escapeHtml v) = Some (InTag n True l, st)"
  by (rule nest_text nest_quoted, use escapeHtml_safe in blast)+

text \<open>A markup under which the open elements \<open>old\<close> become \<open>new\<close>, whatever is open around them.\<close>

definition turns :: "string \<Rightarrow> string list \<Rightarrow> string list \<Rightarrow> bool" where
  "turns s old new \<longleftrightarrow> (\<forall>st. nest Outside (old @ st) s = Some (Outside, new @ st))"

lemma tag_step_mono: "tag_step n l st = Some r \<Longrightarrow> tag_step n l (st @ k) = Some (r @ k)"
  by (auto simp: tag_step_def split: list.splits if_splits)

lemma nest_mono: "nest q st s = Some (q', r) \<Longrightarrow> nest q (st @ k) s = Some (q', r @ k)"
  by (induction q st s rule: nest.induct) (auto simp: tag_step_mono split: if_splits option.splits)

lemma turnsI: "nest Outside old s = Some (Outside, new) \<Longrightarrow> turns s old new"
  by (simp add: turns_def nest_mono)

text \<open>Evaluating the scanner: the text that is left is not looked into.\<close>

lemma nest_cong: "q = q' \<Longrightarrow> st = st' \<Longrightarrow> nest q st s = nest q' st' s"
  by simp

lemma nest_lines:
  "nest q st (concat []) = Some (q, st)"
  "nest q st (concat (l # ls)) = (case nest q st l of None \<Rightarrow> None | Some (q', st') \<Rightarrow> nest q' st' (concat ls))"
  by (simp_all add: nest_append)

lemmas nest_eval = nest.simps nest_lines DQ_def tag_step_def void_elements_def

section \<open>The windows\<close>

lemma render_frags: "html.render [] = []" "html.render (Lit s # fs) = s @ html.render fs"
  "html.render (Hole v # fs) = escapeHtml v @ html.render fs"
  by (simp_all add: html.render_def)

lemma nest_render:
  "nest q st (html.render []) = Some (q, st)"
  "nest q st (html.render (Lit s # fs)) = (case nest q st s of None \<Rightarrow> None | Some (q', st') \<Rightarrow> nest q' st' (html.render fs))"
  "nest Outside st (html.render (Hole v # fs)) = nest Outside st (html.render fs)"
  "nest (InTag n True l) st (html.render (Hole v # fs)) = nest (InTag n True l) st (html.render fs)"
  "nest q st (html.render (fs @ gs)) = (case nest q st (html.render fs) of None \<Rightarrow> None | Some (q', st') \<Rightarrow> nest q' st' (html.render gs))"
  by (simp_all only: render_frags render_append nest_append nest_hole nest.simps option.case prod.case)

lemma copy_turns: "turns SVG_COPY_12 [] []"
  unfolding SVG_COPY_12_def by (rule turnsI) (simp add: nest_eval cong: nest_cong)

lemma lock_turns: "turns SHELL_REVIEW_LOCK_HTML [] []"
  unfolding SHELL_REVIEW_LOCK_HTML_def SVG_LOCK_OPEN_def by (rule turnsI) (simp add: nest_eval cong: nest_cong)

lemma handles_turn: "turns SHELL_RESIZE_HANDLES_HTML [] []"
  unfolding SHELL_RESIZE_HANDLES_HTML_def by (rule turnsI) (simp add: nest_eval cong: nest_cong)

lemma sheet_turns: "turns SHELL_REVIEW_SHEET_HTML [] []"
  unfolding SHELL_REVIEW_SHEET_HTML_def by (rule turnsI) (simp add: nest_eval cong: nest_cong)

text \<open>The panels close one element more than they open: the content of the window.\<close>

lemma panels_turn: "turns SHELL_WINDOW_PANELS_HTML [''div''] []"
  unfolding SHELL_WINDOW_PANELS_HTML_def by (rule turnsI) (simp add: nest_eval cong: nest_cong)

lemma parts_nest:
  "nest Outside st SVG_COPY_12 = Some (Outside, st)" "nest Outside st SHELL_REVIEW_LOCK_HTML = Some (Outside, st)"
  "nest Outside st SHELL_RESIZE_HANDLES_HTML = Some (Outside, st)" "nest Outside st SHELL_REVIEW_SHEET_HTML = Some (Outside, st)"
  "nest Outside (''div'' # st) SHELL_WINDOW_PANELS_HTML = Some (Outside, st)"
  using copy_turns lock_turns handles_turn sheet_turns panels_turn by (simp_all add: turns_def)

lemma tab_nests: "well_nested (html.render (tab_frags label))"
  unfolding well_nested_def tab_frags_def by (simp add: nest_render parts_nest nest_append nest_eval cong: nest_cong)

lemma pending_nests: "well_nested (html.render (pending_frags el ca conn))"
  unfolding well_nested_def pending_frags_def by (simp add: nest_render parts_nest nest_append nest_eval cong: nest_cong)

lemma window_nests: "well_nested (html.render (window_frags ca conn sid))"
  unfolding well_nested_def window_frags_def by (cases "conn = []") (simp_all add: nest_render parts_nest nest_append nest_eval cong: nest_cong)

section \<open>Review items\<close>

lemma chips_nest: "nest Outside st (html.render (chips_frags keys)) = Some (Outside, st)"
proof -
  have \<open>nest Outside st (html.render (concat (map (\<lambda>k. [Lit ''<span class="approval-chip">'', Hole (keyLabel k), Lit ''</span>'']) ks))) = Some (Outside, st)\<close> for ks
  proof (induction ks)
    case (Cons k ks)
    then show ?case unfolding list.map concat.simps by (simp add: nest_render nest_eval cong: nest_cong)
  qed (simp add: html.render_def)
  then show ?thesis unfolding chips_frags_def .
qed

lemma body_nests: "nest Outside st (html.render (body_frags t r)) = Some (Outside, st)"
  unfolding body_frags_def by (simp add: nest_render nest_eval cong: nest_cong)

lemma actions_nest: "nest Outside st (html.render (actions_frags t r)) = Some (Outside, st)"
  unfolding actions_frags_def by (simp add: nest_render nest_eval cong: nest_cong)

lemma main_nests: "nest Outside st (html.render (main_frags t r)) = Some (Outside, st)"
  unfolding main_frags_def by (simp add: nest_render chips_nest body_nests nest_eval cong: nest_cong)

lemma item_nests: "nest Outside st (html.render (item_frags t r)) = Some (Outside, st)"
  unfolding item_frags_def by (simp add: nest_render main_nests actions_nest nest_eval cong: nest_cong)

text \<open>C31: The markup the program writes for its windows is a sequence of closed elements: every tag that opens an
  element is closed by the tag of the same name, in order, for a window that waits, a window with its
  session, the tab of a channel and a review request, whatever the connection, the session, the shell
  or the request is called and whatever the catalog says; the panels a window is composed with close
  exactly the one element, its content, that the window leaves open before them.\<close>
theorem window_markup_nests:
  "well_nested (html.render (pending_frags el ca conn)) \<and> well_nested (html.render (window_frags ca conn sid)) \<and>
   well_nested (html.render (tab_frags label)) \<and> well_nested (renderApprovalItem t item) \<and>
   turns SHELL_WINDOW_PANELS_HTML [''div''] []"
proof -
  have "well_nested (renderApprovalItem t item)"
    unfolding well_nested_def renderApprovalItem_def by (rule item_nests)
  then show ?thesis using pending_nests window_nests tab_nests panels_turn by blast
qed

text \<open>The scanner refuses what does not nest.\<close>

lemma nesting_is_checked:
  "\<not> well_nested ''<b><i></b></i>'' \<and> \<not> well_nested ''<b>'' \<and> \<not> well_nested ''</b>'' \<and> well_nested ''<b><br><i/>x</b>''"
  unfolding well_nested_def by (simp add: nest_eval)

end
