(* ===== verification/Conn_Test.thy ===== *)
theory Conn_Test
  imports Conn_Form
begin

text \<open>
  The test button of the connection editor (\<open>conn-form.js\<close> from line 448): what it posts, the line that shows
  the answer, and the button itself, beside the editor of \<open>Conn_Form\<close>.
\<close>

section \<open>State and operations\<close>

text \<open>
  \<open>ct_sent\<close> has the bodies of the tests that are not answered, \<open>ct_out\<close> the line under the form with whether it is
  green, \<open>None\<close> while it is hidden.
\<close>

record conn_test =
  ct_editor :: editor
  ct_sent :: "string list"
  ct_disabled :: bool
  ct_label :: string
  ct_out :: "(string \<times> bool) option"

datatype test_reply =
    Reached nat        \<comment> \<open>\<open>ok\<close> with \<open>duration_ms\<close>\<close>
  | Unreached string   \<comment> \<open>not \<open>ok\<close>, with \<open>error\<close>\<close>
  | NoAnswer string    \<comment> \<open>an HTTP error or a failed request, with its message\<close>

text \<open>The click. What was shown is hidden first; a body that cannot be built leaves it at that.\<close>

definition test_click :: "translator \<Rightarrow> conn_test \<Rightarrow> conn_test" where
  "test_click t c =
     (let c1 = c\<lparr>ct_editor := (ct_editor c)\<lparr>conn_err := None\<rparr>, ct_out := None\<rparr>
      in case connGetBody (ct_editor c1) of
           Inl e \<Rightarrow> c1
         | Inr body \<Rightarrow> c1\<lparr>ct_disabled := True, ct_label := t ''test.testing'' None, ct_sent := ct_sent c1 @ [body]\<rparr>)"

definition test_shown :: "translator \<Rightarrow> test_reply \<Rightarrow> string \<times> bool" where
  "test_shown t r =
     (case r of
        Reached ms \<Rightarrow> (t ''test.ok'' (Some [(''ms'', show_nat ms)]), True)
      | Unreached e \<Rightarrow> (t ''test.failed'' (Some [(''msg'', or_str e (t ''test.connectionFailed'' None))]), False)
      | NoAnswer m \<Rightarrow> (t ''test.failed'' (Some [(''msg'', m)]), False))"

definition test_answer :: "translator \<Rightarrow> test_reply \<Rightarrow> conn_test \<Rightarrow> conn_test" where
  "test_answer t r c = c\<lparr>ct_out := Some (test_shown t r), ct_disabled := False, ct_label := t ''common.test'' None, ct_sent := tl (ct_sent c)\<rparr>"

datatype ct_event = CtEditor ed_event | CtClick | CtAnswer test_reply

fun ct_step :: "translator \<Rightarrow> string \<Rightarrow> conn_test \<Rightarrow> ct_event \<Rightarrow> conn_test" where
  "ct_step t emdash c (CtEditor e) = c\<lparr>ct_editor := ed_step t emdash (ct_editor c) e\<rparr>"
| "ct_step t emdash c CtClick = test_click t c"
| "ct_step t emdash c (CtAnswer r) = test_answer t r c"

text \<open>A disabled button is not clicked, and only a test that was sent is answered.\<close>

fun ct_enabled :: "conn_test \<Rightarrow> ct_event \<Rightarrow> bool" where
  "ct_enabled c (CtEditor e) = ed_enabled (ct_editor c) e"
| "ct_enabled c CtClick = (\<not> ct_disabled c)"
| "ct_enabled c (CtAnswer r) = (ct_sent c \<noteq> [])"

definition ct_start :: "translator \<Rightarrow> conn_test" where
  "ct_start t = \<lparr>ct_editor = ed_start, ct_sent = [], ct_disabled = False, ct_label = t ''common.test'' None, ct_out = None\<rparr>"

section \<open>One test at a time\<close>

definition ct_inv :: "translator \<Rightarrow> conn_test \<Rightarrow> bool" where
  "ct_inv t c \<longleftrightarrow>
     ed_inv (ct_editor c) \<and> length (ct_sent c) = (if ct_disabled c then 1 else 0) \<and>
     ct_label c = t (if ct_disabled c then ''test.testing'' else ''common.test'') None \<and>
     (\<forall>x. ct_out c = Some x \<longrightarrow> (\<exists>r. x = test_shown t r))"

lemma err_hidden_inv: "ed_inv e \<Longrightarrow> ed_inv (e\<lparr>conn_err := m\<rparr>)"
  by (auto simp: ed_inv_def)

lemma ct_step_inv: "ct_inv t c \<Longrightarrow> ct_enabled c e \<Longrightarrow> ct_inv t (ct_step t emdash c e)"
proof (cases e)
  case CtClick
  then show "ct_inv t c \<Longrightarrow> ct_enabled c e \<Longrightarrow> ?thesis"
    by (auto simp: ct_inv_def test_click_def Let_def err_hidden_inv split: sum.split)
qed (auto simp: ct_inv_def ed_step_inv test_answer_def split: if_splits)

interpretation ct: guarded_machine "ct_start t" "ct_step t emdash" "ct_inv t" ct_enabled for t emdash
  by unfold_locales (simp add: ct_inv_def ct_start_def ed.inv_start, rule ct_step_inv)

text \<open>C36: What is tested is what is saved: in every reachable state a click on the enabled test button posts
  exactly the body that a save of the same editor would put, if the name lets it be saved, and nothing when
  the form cannot be read; at most one test is under way, the button is disabled and says so just as long,
  and the answer enables it again and is shown, green when and only when the connection was made.\<close>
theorem tested_is_saved:
  assumes "ct.reach t emdash c"
  shows "length (ct_sent c) \<le> 1 \<and> (ct_disabled c \<longleftrightarrow> ct_sent c \<noteq> []) \<and>
    ct_label c = t (if ct_disabled c then ''test.testing'' else ''common.test'') None \<and>
    (\<not> ct_disabled c \<longrightarrow>
       (let c' = ct_step t emdash c CtClick
        in ct_out c' = None \<and> conn_err (ct_editor c') = None \<and>
           (case connGetBody (ct_editor c) of Inl e \<Rightarrow> ct_sent c' = [] \<and> \<not> ct_disabled c' | Inr body \<Rightarrow> ct_sent c' = [body] \<and> ct_disabled c') \<and>
           (\<forall>tiles url body. connSave tiles (ct_editor c) = Put url body \<longrightarrow> ct_sent c' = [body]))) \<and>
    (\<forall>r. ct_disabled c \<longrightarrow>
       (let c' = ct_step t emdash c (CtAnswer r)
        in \<not> ct_disabled c' \<and> ct_sent c' = [] \<and> ct_editor c' = ct_editor c \<and>
           (\<exists>s. ct_out c' = Some (s, \<exists>ms. r = Reached ms))))"
proof -
  have inv: "ct_inv t c" by (rule ct.reach_inv [OF assms])
  then have i: "length (ct_sent c) \<le> 1" "ct_disabled c \<longleftrightarrow> ct_sent c \<noteq> []"
      "ct_label c = t (if ct_disabled c then ''test.testing'' else ''common.test'') None" "\<not> ct_disabled c \<Longrightarrow> ct_sent c = []"
    by (auto simp: ct_inv_def split: if_splits)
  have same: "connGetBody (e\<lparr>conn_err := m\<rparr>) = connGetBody e" for e m by (simp add: connGetBody_def)
  have saved: "connGetBody ed = Inr body" if "connSave tiles ed = Put url body" for tiles ed url body
    using that by (auto simp: connSave_def Let_def split: sum.splits if_splits)
  have "ct_sent (test_answer t r c) = []" for r using i(1) by (cases "ct_sent c") (simp_all add: test_answer_def)
  moreover have "\<exists>s. test_shown t r = (s, \<exists>ms. r = Reached ms)" for r by (cases r) (simp_all add: test_shown_def)
  ultimately have answered: "\<not> ct_disabled (test_answer t r c) \<and> ct_sent (test_answer t r c) = [] \<and> ct_editor (test_answer t r c) = ct_editor c \<and>
      (\<exists>s. ct_out (test_answer t r c) = Some (s, \<exists>ms. r = Reached ms))" for r
    by (simp add: test_answer_def)
  have clicked: "ct_out (test_click t c) = None \<and> conn_err (ct_editor (test_click t c)) = None \<and>
      (case connGetBody (ct_editor c) of Inl e \<Rightarrow> ct_sent (test_click t c) = [] \<and> \<not> ct_disabled (test_click t c)
       | Inr body \<Rightarrow> ct_sent (test_click t c) = [body] \<and> ct_disabled (test_click t c))" if "\<not> ct_disabled c"
    using that i(4) [OF that] by (simp add: test_click_def Let_def same split: sum.split)
  have "ct_sent (test_click t c) = [body]" if "\<not> ct_disabled c" "connSave tiles (ct_editor c) = Put url body" for tiles url body
    using clicked [OF that(1)] saved [OF that(2)] by simp
  then show ?thesis using i clicked answered by (simp add: Let_def)
qed

definition sample_ct :: "translator \<Rightarrow> conn_test" where
  "sample_ct t = ct_step t ''-'' (ct_start t) (CtEditor (EOpen True ''web'' ''remote''))"

lemma sample_ct_reach: "ct.reach t ''-'' (sample_ct t)"
proof -
  have "conn_name_ok ''web''" by code_simp
  then show ?thesis
    using ct.reach.next_step [OF ct.reach.init, of t "CtEditor (EOpen True ''web'' ''remote'')" "''-''"] by (simp add: sample_ct_def ct_start_def)
qed

theorem tested_is_saved_witness:
  "case connSave [Some ''web''] (ct_editor (sample_ct (\<lambda>k p. k))) of
     Put url body \<Rightarrow> ct_sent (ct_step (\<lambda>k p. k) ''-'' (sample_ct (\<lambda>k p. k)) CtClick) = [body] | _ \<Rightarrow> False"
proof -
  have e: "ct_editor (sample_ct (\<lambda>k p. k)) = sample_open" by (simp add: sample_ct_def sample_open_def ct_start_def)
  have "\<not> ct_disabled (sample_ct (\<lambda>k p. k))" by (simp add: sample_ct_def ct_start_def)
  then have s: "\<forall>tiles url body. connSave tiles sample_open = Put url body \<longrightarrow> ct_sent (ct_step (\<lambda>k p. k) ''-'' (sample_ct (\<lambda>k p. k)) CtClick) = [body]"
    using tested_is_saved [OF sample_ct_reach [of "\<lambda>k p. k"]] by (simp add: Let_def e)
  have "case connSave [Some ''web''] sample_open of Put url body \<Rightarrow> True | _ \<Rightarrow> False" by code_simp
  then show ?thesis unfolding e using s by (auto split: save_outcome.splits)
qed

section \<open>The line outlives its profile\<close>

text \<open>
  Opening another profile hides its error but not the line of the last test, and an answer is shown
  whatever profile is open by then.
\<close>

lemma result_of_other_profile:
  "ct_out (ct_step t emdash (ct_step t emdash c (CtAnswer (Reached 5))) (CtEditor (EOpen True name kind))) =
     Some (t ''test.ok'' (Some [(''ms'', show_nat 5)]), True)"
  by (simp add: test_answer_def test_shown_def)

lemma late_result_of_other_profile:
  "ct_out (ct_step t emdash (ct_step t emdash (ct_step t emdash c CtClick) (CtEditor (EOpen True name kind))) (CtAnswer r)) =
     Some (test_shown t r)"
  by (simp add: test_answer_def)

end
