(* ===== verification/Window_Buttons.thy ===== *)
theory Window_Buttons
  imports Windows
begin

text \<open>
  The buttons of the windows and of the tab bar (\<open>shell-windows.js\<close>, \<open>terminal-view.js\<close>): their titles
  and icons, which name what a click would do, through clicks, changes of the viewport and changes of
  the language, over the window elements of \<open>Windows\<close>; the cross of a window; and what a window
  undoes when it is closed (\<open>ui-socket.js\<close>).
\<close>

section \<open>State and operations\<close>

text \<open>
  A window with its maximize button and its chevron: the attribute \<open>data-i18n-title\<close>, the title, and which of
  the two chevrons is displayed. \<open>t\<close> is the catalog: language, key, text.
\<close>

record hwin =
  hw_node :: wnode
  hw_max_key :: string
  hw_max_title :: string
  hw_col_key :: string
  hw_col_title :: string
  hw_chevron_down :: bool

record buttons =
  bt_lang :: string
  bt_mobile :: bool
  bt_wins :: "hwin list"
  bt_tile :: bool
  bt_tile_active :: bool
  bt_tile_title :: string
  bt_hidden :: bool
  bt_toggle_title :: string
  bt_toggle_aria :: string
  bt_toggle_struck :: bool

type_synonym catalog_text = "string \<Rightarrow> string \<Rightarrow> string"

definition updateTileToggleButton :: "catalog_text \<Rightarrow> buttons \<Rightarrow> buttons" where
  "updateTileToggleButton t b =
     b\<lparr>bt_tile_active := bt_tile b, bt_tile_title := t (bt_lang b) (if bt_tile b then ''layout.tip.float'' else ''layout.tip.tile'')\<rparr>"

definition updateSessionTabbarToggle :: "catalog_text \<Rightarrow> buttons \<Rightarrow> buttons" where
  "updateSessionTabbarToggle t b =
     (let title = t (bt_lang b) (if bt_hidden b then ''win.showAll'' else ''win.hideAll'')
      in b\<lparr>bt_toggle_title := title, bt_toggle_aria := title, bt_toggle_struck := \<not> bt_hidden b\<rparr>)"

text \<open>\<open>applyI18n\<close> on the two buttons of a window.\<close>

definition i18n_win :: "catalog_text \<Rightarrow> string \<Rightarrow> hwin \<Rightarrow> hwin" where
  "i18n_win t lang h = h\<lparr>hw_max_title := t lang (hw_max_key h), hw_col_title := t lang (hw_col_key h)\<rparr>"

text \<open>The template of a new window, with its English titles replaced at once.\<close>

definition fresh_hwin :: "catalog_text \<Rightarrow> string \<Rightarrow> nat \<Rightarrow> string option \<Rightarrow> hwin" where
  "fresh_hwin t lang n sid =
     i18n_win t lang \<lparr>hw_node = new_win n sid, hw_max_key = ''win.max.tip'', hw_max_title = ''Maximize (dblclick header)'',
       hw_col_key = ''win.collapse'', hw_col_title = ''Collapse'', hw_chevron_down = True\<rparr>"

text \<open>\<open>toggleShellWindowMax\<close> on a window that is not a pane.\<close>

definition max_win :: "catalog_text \<Rightarrow> buttons \<Rightarrow> hwin \<Rightarrow> hwin" where
  "max_win t b h =
     (if k_tiled (hw_node h) \<or> k_fullscreen (hw_node h) \<or> bt_mobile b then h
      else
        (let key = (if maxed (hw_node h) then ''win.max.tip'' else ''win.restore.tip'')
         in h\<lparr>hw_node := toggle_max_node (hw_node h), hw_max_key := key, hw_max_title := t (bt_lang b) key\<rparr>))"

definition expand_win :: "catalog_text \<Rightarrow> string \<Rightarrow> hwin \<Rightarrow> hwin" where
  "expand_win t lang h =
     (if \<not> k_collapsed (hw_node h) then h
      else h\<lparr>hw_node := expand_node (hw_node h), hw_chevron_down := True, hw_col_key := ''win.collapse'', hw_col_title := t lang ''win.collapse''\<rparr>)"

definition collapse_win :: "catalog_text \<Rightarrow> string \<Rightarrow> rat \<Rightarrow> hwin \<Rightarrow> hwin" where
  "collapse_win t lang measured h =
     (if k_collapsed (hw_node h) then h
      else h\<lparr>hw_node := collapse_node measured (hw_node h), hw_chevron_down := False, hw_col_key := ''win.expand'', hw_col_title := t lang ''win.expand''\<rparr>)"

definition chevron_click :: "catalog_text \<Rightarrow> string \<Rightarrow> rat \<Rightarrow> hwin \<Rightarrow> hwin" where
  "chevron_click t lang measured h = (if k_collapsed (hw_node h) then expand_win t lang h else collapse_win t lang measured h)"

definition applyWindowViewportMode :: "bool \<Rightarrow> hwin \<Rightarrow> hwin" where
  "applyWindowViewportMode mob h = (if k_tiled (hw_node h) then h else h\<lparr>hw_node := viewport_node mob (hw_node h)\<rparr>)"

definition reapplyWindowLanguage :: "catalog_text \<Rightarrow> string \<Rightarrow> hwin \<Rightarrow> hwin" where
  "reapplyWindowLanguage t lang h =
     (let h1 = i18n_win t lang h
      in h1\<lparr>hw_max_title := t lang (if maxed (hw_node h1) then ''win.restore.tip'' else ''win.max.tip''),
            hw_col_title := t lang (if k_collapsed (hw_node h1) then ''win.expand'' else ''win.collapse'')\<rparr>)"

text \<open>A change of the language: the whole document, then the redraws the scripts have registered, in their order.\<close>

definition language_changed :: "catalog_text \<Rightarrow> string \<Rightarrow> buttons \<Rightarrow> buttons" where
  "language_changed t lang b =
     (let b1 = b\<lparr>bt_lang := lang, bt_wins := map (i18n_win t lang) (bt_wins b)\<rparr>;
          b2 = updateSessionTabbarToggle t (updateTileToggleButton t b1)
      in b2\<lparr>bt_wins := map (reapplyWindowLanguage t lang) (bt_wins b2)\<rparr>)"

definition on_win :: "nat \<Rightarrow> (hwin \<Rightarrow> hwin) \<Rightarrow> buttons \<Rightarrow> buttons" where
  "on_win i f b = (if i < length (bt_wins b) then b\<lparr>bt_wins := (bt_wins b)[i := f (bt_wins b ! i)]\<rparr> else b)"

text \<open>A window becomes a pane or a floating window; its buttons are left alone.\<close>

definition pane_win :: "bool \<Rightarrow> hwin \<Rightarrow> hwin" where
  "pane_win tile h = h\<lparr>hw_node := (hw_node h)\<lparr>k_tiled := tile\<rparr>\<rparr>"

datatype bt_event =
    BtOpen nat "string option" | BtClose nat | BtMax nat | BtChevron nat rat | BtExpand nat | BtLang string
  | BtViewport bool | BtLayout bool | BtHide bool

text \<open>Switching the layout makes every window a pane or none of them, and a new window joins the panes if there are any.\<close>

fun bt_step :: "catalog_text \<Rightarrow> buttons \<Rightarrow> bt_event \<Rightarrow> buttons" where
  "bt_step t b (BtOpen n sid) =
     b\<lparr>bt_wins := bt_wins b @ [pane_win (bt_tile b) ((if bt_mobile b then applyWindowViewportMode True else (\<lambda>h. h)) (fresh_hwin t (bt_lang b) n sid))]\<rparr>"
| "bt_step t b (BtClose i) = b\<lparr>bt_wins := take i (bt_wins b) @ drop (Suc i) (bt_wins b)\<rparr>"
| "bt_step t b (BtMax i) = on_win i (max_win t b) b"
| "bt_step t b (BtChevron i m) = on_win i (chevron_click t (bt_lang b) m) b"
| "bt_step t b (BtExpand i) = on_win i (expand_win t (bt_lang b)) b"
| "bt_step t b (BtLang lang) = language_changed t lang b"
| "bt_step t b (BtViewport mob) =
     (if mob = bt_mobile b \<and> \<not> mob then b
      else b\<lparr>bt_mobile := mob, bt_wins := map (applyWindowViewportMode mob) (bt_wins b)\<rparr>)"
| "bt_step t b (BtLayout tile) =
     updateTileToggleButton t
       (b\<lparr>bt_tile := tile, bt_wins := map (pane_win tile) (bt_wins b)\<rparr>)"
| "bt_step t b (BtHide hide) = updateSessionTabbarToggle t (b\<lparr>bt_hidden := hide\<rparr>)"

definition bt_start :: "catalog_text \<Rightarrow> string \<Rightarrow> bool \<Rightarrow> buttons" where
  "bt_start t lang mob =
     updateTileToggleButton t (updateSessionTabbarToggle t
       \<lparr>bt_lang = lang, bt_mobile = mob, bt_wins = [], bt_tile = False, bt_tile_active = False, bt_tile_title = [], bt_hidden = False,
        bt_toggle_title = [], bt_toggle_aria = [], bt_toggle_struck = False\<rparr>)"

section \<open>The titles name the next click\<close>

text \<open>The chevron always fits the window; the maximize button does when \<open>whole\<close>.\<close>

definition win_titled :: "catalog_text \<Rightarrow> string \<Rightarrow> bool \<Rightarrow> hwin \<Rightarrow> bool" where
  "win_titled t lang whole h \<longleftrightarrow>
     hw_col_key h = (if k_collapsed (hw_node h) then ''win.expand'' else ''win.collapse'') \<and> hw_col_title h = t lang (hw_col_key h) \<and>
     hw_chevron_down h = (\<not> k_collapsed (hw_node h)) \<and>
     (maxed (hw_node h) \<longrightarrow> hw_max_key h = ''win.restore.tip'') \<and>
     (whole \<longrightarrow> hw_max_key h = (if maxed (hw_node h) then ''win.restore.tip'' else ''win.max.tip'') \<and> hw_max_title h = t lang (hw_max_key h)) \<and>
     (hw_max_title h = t lang (if maxed (hw_node h) then ''win.restore.tip'' else ''win.max.tip'') \<or> hw_max_title h = t lang (hw_max_key h))"

definition bar_titled :: "catalog_text \<Rightarrow> buttons \<Rightarrow> bool" where
  "bar_titled t b \<longleftrightarrow>
     bt_tile_active b = bt_tile b \<and> bt_tile_title b = t (bt_lang b) (if bt_tile b then ''layout.tip.float'' else ''layout.tip.tile'') \<and>
     bt_toggle_title b = t (bt_lang b) (if bt_hidden b then ''win.showAll'' else ''win.hideAll'') \<and> bt_toggle_aria b = bt_toggle_title b \<and>
     bt_toggle_struck b = (\<not> bt_hidden b)"

definition bt_inv :: "catalog_text \<Rightarrow> bool \<Rightarrow> buttons \<Rightarrow> bool" where
  "bt_inv t whole b \<longleftrightarrow> bar_titled t b \<and> (\<forall>h \<in> set (bt_wins b). win_titled t (bt_lang b) whole h)"

text \<open>The touch mode finds a maximized window: the one event that spoils a title.\<close>

fun takes_maxed :: "buttons \<Rightarrow> bt_event \<Rightarrow> bool" where
  "takes_maxed b (BtViewport mob) = (mob \<and> (\<exists>h \<in> set (bt_wins b). maxed (hw_node h) \<and> \<not> k_tiled (hw_node h)))"
| "takes_maxed b e = False"

lemma node_facts [simp]:
  "k_collapsed (toggle_max_node w) = k_collapsed w" "maxed (toggle_max_node w) = (\<not> maxed w)"
  "maxed (expand_node w) = maxed w" "\<not> k_collapsed (expand_node w)" "maxed (collapse_node m w) = maxed w" "k_collapsed (collapse_node m w)"
  "k_collapsed (viewport_node mob w) = k_collapsed w" "maxed (viewport_node mob w) = (maxed w \<and> \<not> mob)"
  by (simp_all add: toggle_max_node_def expand_node_def collapse_node_def viewport_node_def)

lemma fresh_titled: "win_titled t lang whole (fresh_hwin t lang n sid)"
  by (simp add: win_titled_def fresh_hwin_def i18n_win_def new_win_def)

lemma viewport_titled:
  "win_titled t lang whole h \<Longrightarrow> (whole \<and> mob \<and> \<not> k_tiled (hw_node h) \<longrightarrow> \<not> maxed (hw_node h)) \<Longrightarrow> win_titled t lang whole (applyWindowViewportMode mob h)"
  by (auto simp: win_titled_def applyWindowViewportMode_def split: if_splits)

lemma fresh_not_maxed: "\<not> maxed (hw_node (fresh_hwin t lang n sid))"
  by (simp add: fresh_hwin_def i18n_win_def new_win_def)

lemma max_titled: "win_titled t (bt_lang b) whole h \<Longrightarrow> win_titled t (bt_lang b) whole (max_win t b h)"
  by (simp add: win_titled_def max_win_def Let_def)

lemma chevron_titled:
  "win_titled t lang whole h \<Longrightarrow> win_titled t lang whole (expand_win t lang h)"
  "win_titled t lang whole h \<Longrightarrow> win_titled t lang whole (chevron_click t lang m h)"
  by (auto simp: win_titled_def expand_win_def collapse_win_def chevron_click_def split: if_splits)

lemma language_titled: "win_titled t lang whole h \<Longrightarrow> win_titled t lang' whole (reapplyWindowLanguage t lang' (i18n_win t lang' h))"
  by (auto simp: win_titled_def reapplyWindowLanguage_def i18n_win_def split: if_splits)

lemma pane_titled: "win_titled t lang whole (pane_win tile h) = win_titled t lang whole h"
  by (simp add: win_titled_def pane_win_def)

lemma bar_kept: "bar_titled t (b\<lparr>bt_wins := ws\<rparr>) = bar_titled t b" "bar_titled t (b\<lparr>bt_mobile := m\<rparr>) = bar_titled t b"
  by (simp_all add: bar_titled_def)

lemma on_win_inv:
  assumes "bt_inv t whole b" and "\<And>h. win_titled t (bt_lang b) whole h \<Longrightarrow> win_titled t (bt_lang b) whole (f h)"
  shows "bt_inv t whole (on_win i f b)"
  using assms by (auto simp: bt_inv_def on_win_def bar_kept dest!: subsetD [OF set_update_subset_insert])

lemma bt_step_inv: "bt_inv t whole b \<Longrightarrow> \<not> (whole \<and> takes_maxed b e) \<Longrightarrow> bt_inv t whole (bt_step t b e)"
proof (cases e)
  case (BtOpen n sid)
  assume b: "bt_inv t whole b"
  have "win_titled t (bt_lang b) whole (pane_win (bt_tile b) ((if bt_mobile b then applyWindowViewportMode True else (\<lambda>h. h)) (fresh_hwin t (bt_lang b) n sid)))"
    by (simp add: fresh_titled viewport_titled fresh_not_maxed pane_titled)
  then show ?thesis using b unfolding BtOpen by (auto simp: bt_inv_def bar_kept)
next
  case (BtViewport mob)
  assume "bt_inv t whole b" "\<not> (whole \<and> takes_maxed b e)"
  then show ?thesis unfolding BtViewport by (auto simp: bt_inv_def bar_kept intro!: viewport_titled)
next
  case (BtLang lang)
  assume "bt_inv t whole b"
  then show ?thesis unfolding BtLang
    by (auto simp: bt_inv_def language_changed_def updateTileToggleButton_def updateSessionTabbarToggle_def Let_def bar_titled_def intro: language_titled)
next
  case (BtClose i)
  assume "bt_inv t whole b"
  then show ?thesis unfolding BtClose by (auto simp: bt_inv_def bar_kept dest: in_set_takeD in_set_dropD)
next
  case (BtLayout tile)
  assume "bt_inv t whole b"
  then show ?thesis unfolding BtLayout by (auto simp: bt_inv_def updateTileToggleButton_def pane_titled bar_titled_def)
next
  case (BtHide hide)
  assume "bt_inv t whole b"
  then show ?thesis unfolding BtHide by (simp add: bt_inv_def updateSessionTabbarToggle_def Let_def bar_titled_def)
qed (simp_all add: on_win_inv max_titled chevron_titled)

interpretation bt: guarded_machine "bt_start t lang mob" "bt_step t" "bt_inv t True" "\<lambda>b e. \<not> takes_maxed b e" for t lang mob
proof unfold_locales
  show "bt_inv t True (bt_start t lang mob)"
    by (simp add: bt_inv_def bt_start_def bar_titled_def updateTileToggleButton_def updateSessionTabbarToggle_def Let_def)
qed (rule bt_step_inv, simp_all)

interpretation bta: event_machine "bt_start t lang mob" "bt_step t" "bt_inv t False" for t lang mob
proof unfold_locales
  show "bt_inv t False (bt_start t lang mob)"
    by (simp add: bt_inv_def bt_start_def bar_titled_def updateTileToggleButton_def updateSessionTabbarToggle_def Let_def)
qed (rule bt_step_inv, simp_all)

lemma language_titles_all: "h \<in> set (bt_wins (bt_step t b (BtLang lang))) \<Longrightarrow>
    hw_max_title h = t lang (if maxed (hw_node h) then ''win.restore.tip'' else ''win.max.tip'')"
  by (auto simp: language_changed_def updateTileToggleButton_def updateSessionTabbarToggle_def Let_def reapplyWindowLanguage_def)

text \<open>The buttons name what a click on them does, in the present language: in every run in which the touch mode never
  finds a floating window maximized, the maximize button of every window offers to restore exactly the maximized
  windows, the chevron offers and points to the collapse of exactly the windows that are not collapsed, and
  the two buttons of the tab bar show the layout and whether the windows are hidden; and whatever has
  happened before, all of this holds for the chevrons and the tab bar, and for every maximize button
  after a change of the language.\<close>
theorem titles_name_next_click:
  "(bt.reach t lang mob b \<longrightarrow>
      (\<forall>h \<in> set (bt_wins b). hw_max_title h = t (bt_lang b) (if maxed (hw_node h) then ''win.restore.tip'' else ''win.max.tip''))) \<and>
   (b = foldl (bt_step t) (bt_start t lang mob) es \<longrightarrow>
      (\<forall>h \<in> set (bt_wins b). hw_col_title h = t (bt_lang b) (if k_collapsed (hw_node h) then ''win.expand'' else ''win.collapse'') \<and>
         hw_chevron_down h = (\<not> k_collapsed (hw_node h))) \<and>
      bt_tile_active b = bt_tile b \<and> bt_tile_title b = t (bt_lang b) (if bt_tile b then ''layout.tip.float'' else ''layout.tip.tile'') \<and>
      bt_toggle_title b = t (bt_lang b) (if bt_hidden b then ''win.showAll'' else ''win.hideAll'') \<and> bt_toggle_aria b = bt_toggle_title b \<and>
      (\<forall>lang' h. h \<in> set (bt_wins (bt_step t b (BtLang lang'))) \<longrightarrow>
         hw_max_title h = t lang' (if maxed (hw_node h) then ''win.restore.tip'' else ''win.max.tip'')))"
proof (intro conjI impI)
  assume "bt.reach t lang mob b"
  then have "bt_inv t True b" by (rule bt.reach_inv)
  then show "\<forall>h \<in> set (bt_wins b). hw_max_title h = t (bt_lang b) (if maxed (hw_node h) then ''win.restore.tip'' else ''win.max.tip'')"
    by (auto simp: bt_inv_def win_titled_def)
next
  assume "b = foldl (bt_step t) (bt_start t lang mob) es"
  then have "bt_inv t False b" using bta.always by simp
  then show "\<forall>h \<in> set (bt_wins b). hw_col_title h = t (bt_lang b) (if k_collapsed (hw_node h) then ''win.expand'' else ''win.collapse'') \<and>
         hw_chevron_down h = (\<not> k_collapsed (hw_node h))"
    and "bt_tile_active b = bt_tile b" "bt_tile_title b = t (bt_lang b) (if bt_tile b then ''layout.tip.float'' else ''layout.tip.tile'')"
    and "bt_toggle_title b = t (bt_lang b) (if bt_hidden b then ''win.showAll'' else ''win.hideAll'')" "bt_toggle_aria b = bt_toggle_title b"
    by (auto simp: bt_inv_def win_titled_def bar_titled_def)
  show "\<forall>lang' h. h \<in> set (bt_wins (bt_step t b (BtLang lang'))) \<longrightarrow>
         hw_max_title h = t lang' (if maxed (hw_node h) then ''win.restore.tip'' else ''win.max.tip'')"
    using language_titles_all by blast
qed

definition sample_buttons :: "bt_event list \<Rightarrow> buttons" where
  "sample_buttons es = foldl (bt_step (\<lambda>l k. l @ k)) (bt_start (\<lambda>l k. l @ k) ''en:'' False) es"

theorem titles_name_next_click_witness:
  "map hw_max_title (bt_wins (sample_buttons [BtOpen 1 None, BtMax 0, BtLang ''zh:''])) = [''zh:win.restore.tip'']"
proof -
  define b where "b = sample_buttons [BtOpen 1 None, BtMax 0, BtLang ''zh:'']"
  have "bt.run_ok (\<lambda>l k. l @ k) (bt_start (\<lambda>l k. l @ k) ''en:'' False) [BtOpen 1 None, BtMax 0, BtLang ''zh:'']" by simp
  from bt.reach_run [OF bt.reach.init this] have "bt.reach (\<lambda>l k. l @ k) ''en:'' False b" by (simp add: b_def sample_buttons_def)
  then have "\<forall>h \<in> set (bt_wins b). hw_max_title h = bt_lang b @ (if maxed (hw_node h) then ''win.restore.tip'' else ''win.max.tip'')"
    using titles_name_next_click [of "\<lambda>l k. l @ k" "''en:''" False b] by blast
  moreover have "bt_lang b = ''zh:'' \<and> map (\<lambda>h. maxed (hw_node h)) (bt_wins b) = [True]"
    unfolding b_def by code_simp
  ultimately show ?thesis unfolding b_def [symmetric] by (cases "bt_wins b") auto
qed

text \<open>
  The touch mode drops the flag of a maximized window without touching its button: back on a
  desktop the window is not maximized and its button offers to restore it.
\<close>

lemma touch_mode_leaves_title:
  "map (\<lambda>h. (maxed (hw_node h), hw_max_title h))
     (bt_wins (sample_buttons [BtOpen 1 None, BtMax 0, BtViewport True, BtViewport False])) = [(False, ''en:win.restore.tip'')]"
  by code_simp

end
