(* ===== verification/Feedback.thy ===== *)
theory Feedback
  imports Sessions
begin

text \<open>
  What the page tells the person who uses it outside of the windows: the clipboard and the short message
  at the edge (\<open>util.js\<close>), the copy buttons of entries, sessions and tabs, the notifications of the
  browser, the cross of a window (\<open>shell-windows.js\<close>), and the list of what a window undoes
  when it is closed (\<open>ui-socket.js\<close>).
\<close>

section \<open>Clipboard and message\<close>

text \<open>
  \<open>fb_body\<close> has the text areas that stand in the document for a moment, \<open>fb_timer\<close> the time at which the message is
  hidden. Times are milliseconds.
\<close>

record feedback =
  fb_clip :: string
  fb_body :: "string list"
  fb_text :: string
  fb_visible :: bool
  fb_timer :: "nat option"
  fb_now :: nat

text \<open>What the browser does: the clipboard interface may be missing or refuse, the old command may copy, decline or throw.\<close>

datatype exec_copy = Copied | Declined | Threw string

record copy_env =
  ce_api :: bool
  ce_api_ok :: bool
  ce_exec :: exec_copy

definition copyTextFallback :: "string \<Rightarrow> copy_env \<Rightarrow> feedback \<Rightarrow> (string + unit) \<times> feedback" where
  "copyTextFallback text env fb =
     (let fb1 = fb\<lparr>fb_body := fb_body fb @ [text]\<rparr>;
          (r, fb2) = (case ce_exec env of
                        Copied \<Rightarrow> (Inr (), fb1\<lparr>fb_clip := last (fb_body fb1)\<rparr>)
                      | Declined \<Rightarrow> (Inl ''copy failed'', fb1)
                      | Threw e \<Rightarrow> (Inl e, fb1))
      in (r, fb2\<lparr>fb_body := butlast (fb_body fb2)\<rparr>))"

definition copyTextToClipboard :: "string \<Rightarrow> copy_env \<Rightarrow> feedback \<Rightarrow> (string + unit) \<times> feedback" where
  "copyTextToClipboard text env fb =
     (if text = [] then (Inr (), fb)
      else if ce_api env \<and> ce_api_ok env then (Inr (), fb\<lparr>fb_clip := text\<rparr>)
      else copyTextFallback text env fb)"

definition showCopyToast :: "translate \<Rightarrow> string \<Rightarrow> feedback \<Rightarrow> feedback" where
  "showCopyToast t msg fb =
     fb\<lparr>fb_text := or_str msg (t ''toast.copied'' None), fb_visible := True, fb_timer := Some (fb_now fb + 1600)\<rparr>"

text \<open>The timers of the page, when \<open>n\<close> milliseconds have passed.\<close>

definition time_passes :: "nat \<Rightarrow> feedback \<Rightarrow> feedback" where
  "time_passes n fb =
     (let fb1 = fb\<lparr>fb_now := fb_now fb + n\<rparr>
      in case fb_timer fb1 of
           Some d \<Rightarrow> if d \<le> fb_now fb1 then fb1\<lparr>fb_visible := False, fb_timer := None\<rparr> else fb1
         | None \<Rightarrow> fb1)"

text \<open>The copy buttons: of an entry, of a session, of the tab of a shell.\<close>

datatype copied_thing = CopyEntry string | CopySession string | CopyShell string string nat

fun copied_url :: "copied_thing \<Rightarrow> string" where
  "copied_url (CopyEntry name) = resourceUrlEntry name"
| "copied_url (CopySession sid) = resourceUrlSession sid"
| "copied_url (CopyShell parentSid sid index) = resourceUrlShell (or_str parentSid sid) index"

definition copy_click :: "translate \<Rightarrow> copied_thing \<Rightarrow> copy_env \<Rightarrow> feedback \<Rightarrow> feedback" where
  "copy_click t c env fb =
     (case copyTextToClipboard (copied_url c) env fb of
        (Inr _, fb1) \<Rightarrow> showCopyToast t [] fb1
      | (Inl _, fb1) \<Rightarrow> showCopyToast t (t ''toast.copy.failed'' None) fb1)"

datatype fb_event = FbCopy copied_thing copy_env | FbToast string | FbTime nat

fun fb_step :: "translate \<Rightarrow> feedback \<Rightarrow> fb_event \<Rightarrow> feedback" where
  "fb_step t fb (FbCopy c env) = copy_click t c env fb"
| "fb_step t fb (FbToast msg) = showCopyToast t msg fb"
| "fb_step t fb (FbTime n) = time_passes n fb"

definition fb_start :: "string \<Rightarrow> feedback" where
  "fb_start clip = \<lparr>fb_clip = clip, fb_body = [], fb_text = [], fb_visible = False, fb_timer = None, fb_now = 0\<rparr>"

section \<open>What is said is true, and disappears in time\<close>

text \<open>The time of the last message of a run, from its events alone.\<close>

fun clock :: "fb_event list \<Rightarrow> nat" where
  "clock [] = 0"
| "clock (FbTime n # es) = n + clock es"
| "clock (e # es) = clock es"

fun is_time :: "fb_event \<Rightarrow> bool" where
  "is_time (FbTime n) = True"
| "is_time e = False"

text \<open>The time since the last message: the passed time at the end of the run, \<open>None\<close> when there was no message.\<close>

definition since_last :: "fb_event list \<Rightarrow> nat option" where
  "since_last es = (if list_all is_time es then None else Some (clock (rev (takeWhile is_time (rev es)))))"

lemma clock_append: "clock (a @ b) = clock a + clock b"
  by (induction a rule: clock.induct) simp_all

lemma since_last_snoc:
  "since_last (es @ [FbTime n]) = map_option (\<lambda>k. k + n) (since_last es)"
  "\<not> is_time e \<Longrightarrow> since_last (es @ [e]) = Some 0"
  by (simp_all add: since_last_def clock_append)

lemma copy_keeps: "fb_timer (snd (copyTextToClipboard s env fb)) = fb_timer fb" "fb_visible (snd (copyTextToClipboard s env fb)) = fb_visible fb"
  "fb_now (snd (copyTextToClipboard s env fb)) = fb_now fb" "fb_body (snd (copyTextToClipboard s env fb)) = fb_body fb"
  by (simp_all add: copyTextToClipboard_def copyTextFallback_def Let_def split: exec_copy.split)

lemma copy_click_shows:
  "fb_visible (copy_click t c env fb) \<and> fb_timer (copy_click t c env fb) = Some (fb_now fb + 1600) \<and> fb_now (copy_click t c env fb) = fb_now fb \<and>
   fb_body (copy_click t c env fb) = fb_body fb"
  using copy_keeps [of "copied_url c" env fb]
  by (cases "copyTextToClipboard (copied_url c) env fb"; cases "fst (copyTextToClipboard (copied_url c) env fb)")
    (simp_all add: copy_click_def showCopyToast_def)

lemma clip_copied:
  "s \<noteq> [] \<Longrightarrow> copyTextToClipboard s env fb =
     (if ce_api env \<and> ce_api_ok env \<or> ce_exec env = Copied then (Inr (), fb\<lparr>fb_clip := s\<rparr>)
      else (Inl (case ce_exec env of Threw e \<Rightarrow> e | _ \<Rightarrow> ''copy failed''), fb))"
  by (auto simp: copyTextToClipboard_def copyTextFallback_def Let_def split: exec_copy.split)

lemma url_not_empty: "copied_url c \<noteq> []"
  by (cases c) (simp_all add: resourceUrlEntry_def resourceUrlSession_def resourceUrlShell_def TERMCP_SCHEME_def)

definition fb_inv :: "fb_event list \<Rightarrow> feedback \<Rightarrow> bool" where
  "fb_inv es fb \<longleftrightarrow>
     fb_now fb = clock es \<and> fb_body fb = [] \<and>
     (case since_last es of
        Some k \<Rightarrow> (fb_visible fb \<longleftrightarrow> k < 1600) \<and> fb_timer fb = (if k < 1600 then Some (fb_now fb - k + 1600) else None) \<and> k \<le> fb_now fb
      | None \<Rightarrow> \<not> fb_visible fb \<and> fb_timer fb = None)"

lemma fb_run_inv: "fb_inv es (foldl (fb_step t) (fb_start clip) es)"
proof (induction es rule: rev_induct)
  case Nil
  show ?case by (simp add: fb_inv_def fb_start_def since_last_def)
next
  case (snoc e es)
  then show ?case
    by (cases e) (auto simp: fb_inv_def clock_append since_last_snoc copy_click_shows showCopyToast_def time_passes_def Let_def split: option.splits)
qed

text \<open>The message stands for 1.6 seconds from the last time something was said, and a copy button says that it has
  copied exactly when the clipboard holds the address of its entry, session or shell; otherwise it says that it
  failed and the clipboard is as it was. No text area stays in the document.\<close>
theorem copy_tells_truth:
  "let fb = foldl (fb_step t) (fb_start clip) es; fb' = fb_step t fb (FbCopy c env);
       done = (ce_api env \<and> ce_api_ok env \<or> ce_exec env = Copied)
    in (fb_visible fb \<longleftrightarrow> (\<exists>k < 1600. since_last es = Some k)) \<and> fb_body fb' = [] \<and> fb_visible fb' \<and>
       fb_text fb' = (if done then t ''toast.copied'' None else or_str (t ''toast.copy.failed'' None) (t ''toast.copied'' None)) \<and>
       fb_clip fb' = (if done then copied_url c else fb_clip fb)"
proof -
  define fb where "fb = foldl (fb_step t) (fb_start clip) es"
  have i: "fb_inv es fb" unfolding fb_def by (rule fb_run_inv)
  then have "fb_visible fb \<longleftrightarrow> (\<exists>k < 1600. since_last es = Some k)" by (auto simp: fb_inv_def split: option.splits)
  moreover have "fb_body (copy_click t c env fb) = []" "fb_visible (copy_click t c env fb)"
    using i copy_click_shows [of t c env fb] by (simp_all add: fb_inv_def)
  moreover have "fb_text (copy_click t c env fb) = (if ce_api env \<and> ce_api_ok env \<or> ce_exec env = Copied then t ''toast.copied'' None
        else or_str (t ''toast.copy.failed'' None) (t ''toast.copied'' None)) \<and>
      fb_clip (copy_click t c env fb) = (if ce_api env \<and> ce_api_ok env \<or> ce_exec env = Copied then copied_url c else fb_clip fb)"
    by (simp add: copy_click_def clip_copied [OF url_not_empty] showCopyToast_def or_str_def)
  ultimately show ?thesis unfolding Let_def fb_def [symmetric] by simp
qed

section \<open>Notifications of the browser\<close>

datatype permission = Granted | Denied | Undecided

text \<open>
  \<open>bn_supported\<close>: the browser has \<open>Notification\<close>, \<open>bn_asks\<close>: and its \<open>requestPermission\<close>. \<open>bn_asked\<close> has the notices whose
  permission is being asked for, \<open>bn_fired\<close> titles and texts shown, with the permission at that time.
\<close>

record browser_notes =
  bn_supported :: bool
  bn_asks :: bool
  bn_permission :: permission
  bn_asked :: "notice list"
  bn_fired :: "(string \<times> string \<times> permission) list"

definition fireBrowserNotify :: "notice \<Rightarrow> browser_notes \<Rightarrow> browser_notes" where
  "fireBrowserNotify n b = b\<lparr>bn_fired := bn_fired b @ [(or_str (n_title n) ''termcp'', n_msg n, bn_permission b)]\<rparr>"

definition browserSystemNotify :: "notice \<Rightarrow> browser_notes \<Rightarrow> browser_notes" where
  "browserSystemNotify n b =
     (if \<not> bn_supported b then b
      else if bn_permission b = Granted then fireBrowserNotify n b
      else if bn_permission b = Undecided \<and> bn_asks b then b\<lparr>bn_asked := bn_asked b @ [n]\<rparr>
      else b)"

text \<open>The answer to the oldest question, \<open>None\<close> when asking failed; the browser remembers a decision.\<close>

definition permission_answer :: "permission option \<Rightarrow> browser_notes \<Rightarrow> browser_notes" where
  "permission_answer p b =
     (case bn_asked b of
        [] \<Rightarrow> b
      | n # ns \<Rightarrow>
          (case p of
             None \<Rightarrow> b\<lparr>bn_asked := ns\<rparr>
           | Some q \<Rightarrow>
               (let b1 = b\<lparr>bn_asked := ns, bn_permission := q\<rparr> in if q = Granted then fireBrowserNotify n b1 else b1)))"

datatype bn_event = BnNotify notice | BnAnswer "permission option"

fun bn_step :: "browser_notes \<Rightarrow> bn_event \<Rightarrow> browser_notes" where
  "bn_step b (BnNotify n) = browserSystemNotify n b"
| "bn_step b (BnAnswer p) = permission_answer p b"

definition bn_start :: "bool \<Rightarrow> bool \<Rightarrow> permission \<Rightarrow> browser_notes" where
  "bn_start supported asks p = \<lparr>bn_supported = supported, bn_asks = asks, bn_permission = p, bn_asked = [], bn_fired = []\<rparr>"

definition bn_inv :: "bool \<Rightarrow> browser_notes \<Rightarrow> bool" where
  "bn_inv supported b \<longleftrightarrow>
     bn_supported b = supported \<and> (\<forall>(title, msg, p) \<in> set (bn_fired b). title \<noteq> [] \<and> p = Granted) \<and>
     (\<not> supported \<longrightarrow> bn_asked b = [] \<and> bn_fired b = [])"

interpretation bn: event_machine "bn_start supported asks p" bn_step "bn_inv supported" for supported asks p
proof unfold_locales
  show "bn_inv supported (bn_start supported asks p)" by (simp add: bn_inv_def bn_start_def)
  show "bn_inv supported (bn_step b e)" if "bn_inv supported b" for b e
    using that by (cases e) (auto simp: bn_inv_def browserSystemNotify_def permission_answer_def fireBrowserNotify_def or_str_def Let_def
        split: list.split option.split)
qed

text \<open>A browser without notifications shows none, and none is shown without permission or without a title.\<close>

lemma notified_with_permission:
  "let b = foldl bn_step (bn_start supported asks p) es
    in (\<forall>(title, msg, q) \<in> set (bn_fired b). title \<noteq> [] \<and> q = Granted) \<and> (bn_fired b \<noteq> [] \<longrightarrow> supported)"
  using bn.always [of supported asks p es] by (auto simp: bn_inv_def Let_def)

section \<open>The cross of a window\<close>

text \<open>
  A window without a session, or one that still waits, is closed at once; otherwise the person is asked. The
  answer to the request closes the window of the session, which may be another one by then, or says why not.
\<close>

datatype cross = CloseNow | AskFirst string

definition cross_click :: "string option \<Rightarrow> bool \<Rightarrow> cross" where
  "cross_click sid placeholder =
     (case sid of
        None \<Rightarrow> CloseNow
      | Some s \<Rightarrow> if s = [] \<or> placeholder then CloseNow else AskFirst (stripSessionPrefix s))"

definition cross_request :: "bool \<Rightarrow> string \<Rightarrow> string option" where
  "cross_request yes sid = (if yes then Some (''/api/sessions/'' @ encodeURIComponent sid) else None)"

datatype cross_outcome = CloseWin nat | SayFailed string

text \<open>\<open>Inr status\<close>: the server answered, with its error text; \<open>Inl\<close>: the request failed.\<close>

definition cross_answer :: "translate \<Rightarrow> (string \<Rightarrow> nat option) \<Rightarrow> nat \<Rightarrow> string \<Rightarrow> string + nat \<times> string \<Rightarrow> cross_outcome" where
  "cross_answer t win_of win sid r =
     (case r of
        Inl msg \<Rightarrow> SayFailed (t ''toast.delete.failed'' (Some [(''msg'', msg)]))
      | Inr (status, err) \<Rightarrow>
          if 200 \<le> status \<and> status < 300
          then CloseWin (case win_of sid of Some w \<Rightarrow> w | None \<Rightarrow> win)
          else SayFailed (t ''toast.delete.failed'' (Some [(''msg'', or_str err (''HTTP '' @ show_nat status))])))"

lemma cross_asks_with_session: "cross_click sid p = AskFirst name \<longleftrightarrow> (\<exists>s. sid = Some s \<and> s \<noteq> [] \<and> \<not> p \<and> name = stripSessionPrefix s)"
  by (auto simp: cross_click_def split: option.split)

section \<open>What a window undoes\<close>

text \<open>
  Functions are named by numbers; \<open>ds_log\<close> has the calls. A function that is called may register others,
  \<open>adds\<close>, which stay for the next time.
\<close>

record disposables =
  ds_list :: "nat list"
  ds_log :: "nat list"

definition addWinDisposable :: "nat \<Rightarrow> disposables \<Rightarrow> disposables" where
  "addWinDisposable f d = d\<lparr>ds_list := ds_list d @ [f]\<rparr>"

definition run_disposable :: "(nat \<Rightarrow> nat list) \<Rightarrow> nat \<Rightarrow> disposables \<Rightarrow> disposables" where
  "run_disposable adds f d = foldl (\<lambda>e g. addWinDisposable g e) (d\<lparr>ds_log := ds_log d @ [f]\<rparr>) (adds f)"

definition disposeWinResources :: "(nat \<Rightarrow> nat list) \<Rightarrow> disposables \<Rightarrow> disposables" where
  "disposeWinResources adds d = foldl (\<lambda>e f. run_disposable adds f e) (d\<lparr>ds_list := []\<rparr>) (rev (ds_list d))"

lemma run_disposable_simp: "run_disposable adds f d = \<lparr>ds_list = ds_list d @ adds f, ds_log = ds_log d @ [f]\<rparr>"
proof -
  have "foldl (\<lambda>e g. addWinDisposable g e) d gs = d\<lparr>ds_list := ds_list d @ gs\<rparr>" for d gs
    by (induction gs arbitrary: d) (simp_all add: addWinDisposable_def)
  then show ?thesis by (simp add: run_disposable_def)
qed

text \<open>Each function runs once, the last registered first, and closing again runs only what came meanwhile.\<close>

lemma disposed_once:
  "disposeWinResources adds d = \<lparr>ds_list = concat (map adds (rev (ds_list d))), ds_log = ds_log d @ rev (ds_list d)\<rparr>"
proof -
  have "foldl (\<lambda>e f. run_disposable adds f e) d fs = \<lparr>ds_list = ds_list d @ concat (map adds fs), ds_log = ds_log d @ fs\<rparr>" for d fs
    by (induction fs arbitrary: d) (simp_all add: run_disposable_simp)
  then show ?thesis by (simp add: disposeWinResources_def)
qed

end
