(* ===== verification/Catalog.thy ===== *)
theory Catalog
  imports I18n
begin

text \<open>
  The message catalogs (\<open>i18n-catalog.js\<close>), and what their comment asks for: that the three languages have the
  same keys with the same placeholders, so that \<open>i18n.js\<close> finds every message in every language and fills it.
\<close>

section \<open>Messages\<close>

text \<open>
  A message as it is written: ASCII text, a placeholder in braces, text beyond ASCII by its code points. Its string
  has such text in UTF-8; substitution only looks for ASCII characters.
\<close>

datatype piece = A string | P string | U "nat list"

definition utf8_point :: "nat \<Rightarrow> string" where
  "utf8_point n =
     (if n < 2048 then [char_of (192 + n div 64), char_of (128 + n mod 64)]
      else [char_of (224 + n div 4096), char_of (128 + n div 64 mod 64), char_of (128 + n mod 64)])"

fun piece_text :: "piece \<Rightarrow> string" where
  "piece_text (A s) = s"
| "piece_text (P n) = CHR ''{'' # n @ ''}''"
| "piece_text (U ns) = concat (map utf8_point ns)"

definition msg_text :: "piece list \<Rightarrow> string" where
  "msg_text m = concat (map piece_text m)"

type_synonym messages = "(string \<times> piece list) list"

section \<open>The three languages\<close>

definition en_1 :: "(string \<times> piece list) list" where
  \<open>en_1 =
     [(''nav.docs'', [A ''Docs'']),
      (''nav.api.title'', [A ''MCP, HTTP API and Agent skill integration docs'']),
      (''sec.entries'', [A ''Host'']),
      (''sec.sessions'', [A ''Sessions'']),
      (''tabbar.openSessions'', [A ''Open sessions'']),
      (''tabbar.dragToMove'', [A ''Drag to move'']),
      (''lang.auto'', [A ''Auto'']),
      (''lang.label'', [A ''Language'']),
      (''section.batch.selectAll'', [A ''Select all'']),
      (''section.batch.selectAllAria'', [A ''Select all or clear selection'']),
      (''section.batch.clearSelection'', [A ''Clear selection'']),
      (''section.batch.deleteSelected'', [A ''Delete selected'']),
      (''section.batch.deleteSelectedAria'', [A ''Delete selected sessions'']),
      (''section.batch.clearDead'', [A ''Clear dead sessions'']),
      (''section.batch.clearDeadAria'', [A ''Clear all dead sessions'']),
      (''batch.count.selected'', [P ''count'', A '' selected'']),
      (''batch.del.title.one'', [A ''Delete '', P ''count'', A '' selected session'']),
      (''batch.del.title.other'', [A ''Delete '', P ''count'', A '' selected sessions'']),
      (''batch.del.dialog'', [A ''Delete selected sessions'']),
      (''batch.del.msg.one'', [A ''Permanently delete '', P ''count'', A '' selected session? This cannot be undone.'']),
      (''batch.del.msg.other'', [A ''Permanently delete '', P ''count'', A '' selected sessions? This cannot be undone.'']),
      (''batch.del.ok'', [A ''Delete ('', P ''count'', A '')'']),
      (''clear.dead.msg.one'', [A ''Permanently delete '', P ''count'', A '' dead session? This cannot be undone.'']),
      (''clear.dead.msg.other'', [A ''Permanently delete '', P ''count'', A '' dead sessions? This cannot be undone.'']),
      (''clear.dead.ok'', [A ''Clear ('', P ''count'', A '')'']),
      (''banner.deleting.one'', [A ''Deleting '', P ''count'', A '' session'', U [0x2026]]),
      (''banner.deleting.other'', [A ''Deleting '', P ''count'', A '' sessions'', U [0x2026]]),
      (''banner.clearing.one'', [A ''Clearing '', P ''count'', A '' dead session'', U [0x2026]]),
      (''banner.clearing.other'', [A ''Clearing '', P ''count'', A '' dead sessions'', U [0x2026]]),
      (''toast.session.deleted.one'', [A ''Deleted '', P ''count'', A '' session'']),
      (''toast.session.deleted.other'', [A ''Deleted '', P ''count'', A '' sessions'']),
      (''toast.dead.cleared.one'', [A ''Cleared '', P ''count'', A '' dead session'']),
      (''toast.dead.cleared.other'', [A ''Cleared '', P ''count'', A '' dead sessions'']),
      (''toast.dead.none'', [A ''No dead sessions to clear'']),
      (''toast.sessions.none'', [A ''No sessions selected'']),
      (''toast.clear.failed'', [A ''Clear failed: '', P ''msg'']),
      (''toast.delete.failed'', [A ''Delete failed: '', P ''msg'']),
      (''toast.rename.failed'', [A ''Rename failed: '', P ''msg'']),
      (''banner.entries.failed'', [A ''Failed to load hosts: '', P ''msg'', A ''. Ensure termcp is running and you use the correct port. You can still add a host with +.'']),
      (''banner.conn.failed'', [A ''Connection failed: '', P ''msg'']),
      (''banner.dismiss'', [A ''Dismiss'']),
      (''banner.syncing'', [A ''Syncing session list'', U [0x2026]]),
      (''banner.reconnecting'', [A ''Disconnected. Reconnecting in ~'', P ''s'', A ''s'', U [0x2026]]),
      (''toast.copied'', [A ''Copied'']),
      (''toast.copy.failed'', [A ''Copy failed'']),
      (''notify.dismiss'', [A ''Dismiss notification'']),
      (''notify.sessionPrefix'', [A ''session '', P ''id'']),
      (''common.close'', [A ''Close'']),
      (''common.cancel'', [A ''Cancel'']),
      (''common.delete'', [A ''Delete'']),
      (''common.confirm'', [A ''Confirm'']),
      (''common.ok'', [A ''OK'']),
      (''common.save'', [A ''Save'']),
      (''common.test'', [A ''Test'']),
      (''common.create'', [A ''Create'']),
      (''common.duplicate'', [A ''Duplicate'']),
      (''common.refresh'', [A ''Refresh'']),
      (''common.rename'', [A ''Rename'']),
      (''common.download'', [A ''Download'']),
      (''common.upload'', [A ''Upload'']),
      (''common.loading'', [A ''Loading...'']),
      (''common.copyUrl'', [A ''Copy URL'']),
      (''msg.leave.windows.one'', [P ''count'', A '' open terminal window'']),
      (''msg.leave.windows.other'', [P ''count'', A '' open terminal windows'']),
      (''msg.leave.detail'', [A ''termcp still has '', P ''windows'', A ''. Leaving closes the terminal view '', U [0x2014], A '' sessions keep running on the server.'']),
      (''alert.xterm.failed'', [A ''xterm failed to load'']),
      (''conn.title.connect'', [A ''Connect'']),
      (''conn.aria.editProfile'', [A ''Edit profile'']),
      (''conn.aria.launchOptions'', [A ''Launch options'']),
      (''conn.aria.add'', [A ''Add Host'']),
      (''conn.title.launchOptions'', [A ''Launch options (session name, command)'']),
      (''conn.tip.connect'', [A ''Click to connect directly; '', U [0x25B6], A '' for options (session name, command)'']),
      (''conn.tip.internal'', [A ''Built-in loopback profile; edit to set its review default'']),
      (''session.delete.title'', [A ''Delete session'']),
      (''session.delete.message'', [A ''Delete "'', P ''name'', A ''"?'']),
      (''session.openHistory'', [A ''Open history'']),
      (''session.openTerminal'', [A ''Open terminal'']),
      (''session.open.tip'', [A ''Open session '', P ''sid'']),
      (''session.openHistory.tip'', [A ''Open history (read-only)'']),
      (''session.aria.select'', [A ''Select session'']),
      (''session.aria.rename'', [A ''Rename session'']),
      (''session.aria.copyUrl'', [A ''Copy session URL'']),
      (''session.prompt.rename'', [A ''Rename session'']),
      (''session.status.running'', [A ''Running'']),
      (''session.status.dead'', [A ''Dead: '', P ''reason'']),
      (''session.ended'', [A ''Session ended'']),
      (''session.dead.badge'', [A ''dead'']),
      (''session.dead.badgeTitle'', [A ''Session ended (read-only)'']),
      (''session.toast.unchanged'', [A ''Name unchanged'']),
      (''session.toast.renamed'', [A ''Renamed''])]\<close>

definition en_2 :: "(string \<times> piece list) list" where
  \<open>en_2 =
     [(''session.empty'', [A ''No sessions.'']),
      (''fwd.count.one'', [P ''count'', A '' forward'']),
      (''fwd.count.other'', [P ''count'', A '' forwards'']),
      (''reason.explicit'', [A ''ended manually'']),
      (''reason.crash'', [A ''unexpected disconnect'']),
      (''reason.exited'', [A ''process exited'']),
      (''reason.shutdown'', [A ''server shutdown'']),
      (''tab.connecting'', [A ''connecting'']),
      (''tab.session'', [A ''session'']),
      (''tab.closeWindow'', [A ''Close window (session keeps running)'']),
      (''tab.aria.closeWindow'', [A ''Close window'']),
      (''pane.strategy.title'', [A ''Pane arrangement strategy'']),
      (''pane.strategy.auto'', [A ''Auto'']),
      (''pane.strategy.cols'', [A ''Columns'']),
      (''pane.strategy.rows'', [A ''Rows'']),
      (''pane.strategy.pairs'', [A ''2 cols'']),
      (''layout.tip.float'', [A ''Switch to floating windows'']),
      (''layout.tip.tile'', [A ''Tile all terminal windows'']),
      (''win.showAll'', [A ''Show terminal windows'']),
      (''win.hideAll'', [A ''Hide terminal windows'']),
      (''win.max.tip'', [A ''Maximize (dblclick header)'']),
      (''win.restore.tip'', [A ''Restore (dblclick header / Esc)'']),
      (''win.collapse'', [A ''Collapse'']),
      (''win.expand'', [A ''Expand'']),
      (''win.minimize'', [A ''Minimize (session keeps running)'']),
      (''win.closeCancel'', [A ''Close (cancel connect)'']),
      (''win.resize'', [A ''Drag to resize'']),
      (''win.aria.activeSessions'', [A ''Active sessions'']),
      (''win.aria.connections'', [A ''Connections'']),
      (''switch.empty'', [A ''No open sessions'']),
      (''win.connecting.label'', [A ''Connecting'']),
      (''win.term.tab'', [A ''Terminal'']),
      (''win.fw.tab'', [A ''Forwardings'']),
      (''win.files.tab'', [A ''Files'']),
      (''win.notify.tab'', [A ''Notifications'']),
      (''tab.reviewWaiting'', [A ''Commands waiting for review'']),
      (''conn.approval.mark'', [A ''Sessions from this profile start with review mode on'']),
      (''conn.approval.markAria'', [A ''Reviews by default'']),
      (''win.notify.tip'', [A ''Wake-up rules for this shell (notify tool)'']),
      (''ntf.emptyHint'', [A ''This tab lists rules that notify an agent (notify tool), not the toasts shown in the corner.'']),
      (''modal.conn.loopbackOnly'', [A ''Built-in loopback connection: it dials this machine over the built-in SSH server, so host, credentials and jumps do not apply. Only the settings below are used.'']),
      (''modal.conn.field.approval'', [A ''Review every AI write by default'']),
      (''modal.conn.field.approvalHint'', [A ''Sessions started from this profile begin with review mode on: each command waits for you to Accept or Reject it before any byte reaches the shell.'']),
      (''channel.add'', [A ''New shell channel'']),
      (''channel.empty'', [A ''No shell channels'']),
      (''channel.newShell'', [A ''+ New Shell'']),
      (''channel.addMenu'', [A ''New shell channel - choose mode'']),
      (''channel.add.pty'', [A ''pty - interactive terminal'']),
      (''channel.add.pipe'', [A ''pipe - run one command'']),
      (''channel.add.failed'', [A ''Could not open the shell channel: '', P ''msg'']),
      (''channel.cmd.titlePty'', [A ''Run command (pty)'']),
      (''channel.cmd.titlePipe'', [A ''Run command (pipe)'']),
      (''channel.cmd.label'', [A ''Command'']),
      (''channel.cmd.placeholder'', [A ''Empty = login shell'']),
      (''channel.cmd.required'', [A ''A pipe shell runs a command: enter one'']),
      (''channel.close'', [A ''Close shell'']),
      (''channel.endedTab'', [A ''end'']),
      (''term.scroll.latest'', [A ''Back to latest output'']),
      (''term.ended'', [A ''[Session ended]'']),
      (''term.history.cap'', [A ''[Earlier output not shown (browser cap ~'', P ''mb'', A '' MiB)]'']),
      (''term.history.omitted'', [A ''[Earlier output omitted (size cap)]'']),
      (''file.parent'', [A ''Parent'']),
      (''file.load'', [A ''Load'']),
      (''file.menu'', [A ''Menu'']),
      (''file.empty'', [A ''Empty'']),
      (''file.size'', [A ''Size: '', P ''size'']),
      (''file.modified'', [A ''Modified: '', P ''time'']),
      (''file.loadFailed'', [A ''Error: '', P ''msg'']),
      (''file.deleteConfirm'', [A ''Delete '', P ''path'', A ''?'']),
      (''file.renamePrompt'', [A ''Rename '', P ''name'']),
      (''fw.panel.title'', [A ''Port Forwardings'']),
      (''fw.add'', [A ''Add forwarding'']),
      (''fw.empty'', [A ''No active forwards'']),
      (''ntf.empty'', [A ''No wake-up rules for this shell'']),
      (''ntf.unregister'', [A ''Unregister'']),
      (''ntf.channel.sampling'', [A ''sampling'']),
      (''ntf.channel.resource'', [A ''resource'']),
      (''modal.forward.title'', [A ''New Forwarding'']),
      (''modal.forward.direction'', [A ''Direction'']),
      (''modal.forward.dir.local'', [A ''Local (ssh -L)'']),
      (''modal.forward.dir.remote'', [A ''Remote (ssh -R)'']),
      (''modal.forward.dir.dynamic'', [A ''SOCKS5 (ssh -D)'']),
      (''modal.forward.dirHint.local'', [A ''local listen '', U [0x2192], A '' remote target'']),
      (''modal.forward.dirHint.remote'', [A ''remote listen '', U [0x2192], A '' local target'']),
      (''modal.forward.dirHint.dynamic'', [A ''SOCKS5 '', U [0x2192], A '' any target'']),
      (''modal.forward.targetHost'', [A ''Target host'']),
      (''modal.forward.targetHostPlaceholder'', [A ''e.g. localhost'']),
      (''modal.forward.targetPort'', [A ''Target port'']),
      (''modal.forward.targetPortPlaceholder'', [A ''port'']),
      (''modal.forward.listenHost'', [A ''Listen host''])]\<close>

definition en_3 :: "(string \<times> piece list) list" where
  \<open>en_3 =
     [(''modal.forward.listenHostPlaceholder'', [A ''e.g. 127.0.0.1'']),
      (''modal.forward.listenPort'', [A ''Listen port (0 = random)'']),
      (''modal.forward.socksPort'', [A ''SOCKS5 port (0 = random)'']),
      (''modal.forward.err.noSession'', [A ''No active session '', U [0x2014], A '' open terminal first'']),
      (''modal.forward.err.required'', [A ''Target host and port are required'']),
      (''modal.conn.titleAdd'', [A ''Add Host'']),
      (''modal.conn.titleEdit'', [A ''Edit Host'']),
      (''modal.conn.name'', [A ''name'']),
      (''modal.conn.toggleView'', [A ''Toggle between form and TOML'']),
      (''modal.conn.field.host'', [A ''Host'']),
      (''modal.conn.field.port'', [A ''Port'']),
      (''modal.conn.field.user'', [A ''User'']),
      (''modal.conn.field.auth'', [A ''Auth'']),
      (''modal.conn.field.password'', [A ''Password'']),
      (''modal.conn.field.privateKey'', [A ''Private Key'']),
      (''modal.conn.field.passphrase'', [A ''Key Passphrase (optional)'']),
      (''modal.conn.field.shell'', [A ''Default Shell (optional)'']),
      (''modal.conn.field.shellPlaceholder'', [A ''auto-detect'']),
      (''modal.conn.field.proxy'', [A ''Proxy (optional, SOCKS5 URL)'']),
      (''modal.conn.showPassword'', [A ''Show password'']),
      (''modal.conn.show'', [A ''Show'']),
      (''modal.conn.jumps.title'', [A ''SSH Jumps Chain'']),
      (''modal.conn.jumps.hint'', [A ''SSH traffic to this host is tunneled through the bastions below, in order'']),
      (''modal.conn.addJump'', [A ''+ add jump'']),
      (''modal.conn.config'', [A ''config'']),
      (''jump.import'', [A ''Import from host'']),
      (''jump.label'', [A ''jump '', P ''n'']),
      (''jump.import.select'', [U [0x2014], A '' select entry '', U [0x2014]]),
      (''jump.save'', [A ''save'']),
      (''jump.cancel'', [A ''cancel'']),
      (''jump.remove'', [A ''remove'']),
      (''jump.editTip'', [A ''click to edit'']),
      (''jump.proxy'', [A ''Proxy (optional)'']),
      (''jump.empty'', [A ''(empty)'']),
      (''test.testing'', [A ''Testing'', U [0x2026]]),
      (''test.ok'', [U [0x2713], A '' Connected in '', P ''ms'', A '' ms'']),
      (''test.failed'', [U [0x2717], A '' '', P ''msg'']),
      (''test.connectionFailed'', [A ''connection failed'']),
      (''err.name.required'', [A ''Profile name is required'']),
      (''err.name.invalid'', [A ''Name must start with a letter/digit and contain only letters, digits, _ or - (max 64)'']),
      (''err.name.exists'', [A ''Profile "'', P ''name'', A ''" already exists'']),
      (''dialog.conn.delete.title'', [A ''Delete connection'']),
      (''dialog.conn.delete.msg'', [A ''Delete connection "'', P ''name'', A ''"? This cannot be undone.'']),
      (''modal.start.title'', [A ''Start session'']),
      (''modal.start.titleConnect'', [A ''Connect '', U [0xB7], A '' '', P ''name'']),
      (''modal.start.name'', [A ''Session name (optional)'']),
      (''modal.start.namePlaceholder'', [A ''Default: connection name'']),
      (''modal.start.cmd'', [A ''Command (optional)'']),
      (''modal.start.cmdPlaceholder'', [A ''Empty = SSH login shell; or bash, powershell, '', U [0x2026]]),
      (''modal.start.mode'', [A ''Mode'']),
      (''modal.start.run'', [A ''Connect'']),
      (''review.title'', [A ''Review'']),
      (''review.mode'', [A ''Review mode'']),
      (''review.on'', [A ''Reviewing'']),
      (''review.off'', [A ''Review'']),
      (''review.lock.on'', [A ''Review is on: every write the AI sends to this session waits for your decision. Click for the queue.'']),
      (''review.lock.off'', [A ''Review is off: the AI writes straight through. Click to turn it on or read the queue.'']),
      (''review.lock.waitingCount'', [A '' '', P ''count'', A '' waiting for your decision.'']),
      (''review.lock.clickOpen'', [A '' Click to open the review panel.'']),
      (''review.aria.on'', [A ''Review is on'']),
      (''review.aria.off'', [A ''Review is off'']),
      (''review.switch.tip'', [A ''Review every write the AI sends to this session'']),
      (''review.hint'', [A ''While review is on, every write the AI sends to this session waits here until a human accepts it.'']),
      (''review.waiting'', [A ''Waiting for review'']),
      (''review.empty'', [A ''Nothing waiting.'']),
      (''review.loadFailed'', [A ''Could not load the queue.'']),
      (''review.accept'', [A ''Accept'']),
      (''review.reject'', [A ''Reject'']),
      (''review.enableTip'', [A ''Click to make every AI write to this session wait for a decision'']),
      (''review.disableTip'', [A ''Review is on: every AI write waits for a decision. Click to turn off.'']),
      (''review.disable.title'', [A ''Turn off review'']),
      (''review.disable.ok'', [A ''Turn off'']),
      (''review.disable.msg'', [A ''Stop reviewing AI writes for this session? Anything still waiting is dropped and will never run.'']),
      (''review.disable.msgSession'', [A ''Stop reviewing AI writes for "'', P ''session'', A ''"? Anything still waiting is dropped and will never run.'']),
      (''review.toast.on'', [A ''Review on'']),
      (''review.toast.off'', [A ''Review off'']),
      (''review.toast.failed'', [A ''Failed: '', P ''msg'']),
      (''review.badge.one'', [P ''count'', A '' awaiting review'']),
      (''review.badge.other'', [P ''count'', A '' awaiting review'']),
      (''review.kind.fileWrite'', [A ''file write'']),
      (''review.kind.fileDelete'', [A ''file delete'']),
      (''review.kind.fileRename'', [A ''file move'']),
      (''review.kind.fileMkdir'', [A ''mkdir'']),
      (''review.kind.filePerm'', [A ''permissions'']),
      (''review.kind.fileLink'', [A ''link'']),
      (''review.kind.fileTruncate'', [A ''truncate'']),
      (''review.kind.forwardOpen'', [A ''port forward'']),
      (''review.kind.forwardClose'', [A ''forward close''])]\<close>

definition zhHans_1 :: "(string \<times> piece list) list" where
  \<open>zhHans_1 =
     [(''nav.docs'', [U [0x6587, 0x6863]]),
      (''nav.api.title'', [A ''MCP'', U [0x3001], A ''HTTP API '', U [0x4E0E], A '' Agent skill '', U [0x96C6, 0x6210, 0x6587, 0x6863]]),
      (''sec.entries'', [U [0x4E3B, 0x673A]]),
      (''sec.sessions'', [U [0x4F1A, 0x8BDD]]),
      (''tabbar.openSessions'', [U [0x5DF2, 0x6253, 0x5F00, 0x7684, 0x4F1A, 0x8BDD]]),
      (''tabbar.dragToMove'', [U [0x62D6, 0x52A8, 0x53EF, 0x79FB, 0x52A8]]),
      (''lang.auto'', [U [0x81EA, 0x52A8]]),
      (''lang.label'', [U [0x754C, 0x9762, 0x8BED, 0x8A00]]),
      (''section.batch.selectAll'', [U [0x5168, 0x9009]]),
      (''section.batch.selectAllAria'', [U [0x5168, 0x9009, 0x6216, 0x53D6, 0x6D88, 0x9009, 0x62E9]]),
      (''section.batch.clearSelection'', [U [0x53D6, 0x6D88, 0x5168, 0x9009]]),
      (''section.batch.deleteSelected'', [U [0x5220, 0x9664, 0x6240, 0x9009]]),
      (''section.batch.deleteSelectedAria'', [U [0x5220, 0x9664, 0x6240, 0x9009, 0x4F1A, 0x8BDD]]),
      (''section.batch.clearDead'', [U [0x6E05, 0x9664, 0x5DF2, 0x7ED3, 0x675F, 0x4F1A, 0x8BDD]]),
      (''section.batch.clearDeadAria'', [U [0x6E05, 0x9664, 0x6240, 0x6709, 0x5DF2, 0x7ED3, 0x675F, 0x4F1A, 0x8BDD]]),
      (''batch.count.selected'', [U [0x5DF2, 0x9009], A '' '', P ''count'']),
      (''batch.del.title.one'', [U [0x5220, 0x9664, 0x6240, 0x9009, 0x7684], A '' '', P ''count'', A '' '', U [0x4E2A, 0x4F1A, 0x8BDD]]),
      (''batch.del.title.other'', [U [0x5220, 0x9664, 0x6240, 0x9009, 0x7684], A '' '', P ''count'', A '' '', U [0x4E2A, 0x4F1A, 0x8BDD]]),
      (''batch.del.dialog'', [U [0x5220, 0x9664, 0x6240, 0x9009, 0x4F1A, 0x8BDD]]),
      (''batch.del.msg.one'', [U [0x6C38, 0x4E45, 0x5220, 0x9664, 0x6240, 0x9009, 0x7684], A '' '', P ''count'', A '' '', U [0x4E2A, 0x4F1A, 0x8BDD, 0xFF1F, 0x6B64, 0x64CD, 0x4F5C, 0x65E0, 0x6CD5, 0x64A4, 0x9500, 0x3002]]),
      (''batch.del.msg.other'', [U [0x6C38, 0x4E45, 0x5220, 0x9664, 0x6240, 0x9009, 0x7684], A '' '', P ''count'', A '' '', U [0x4E2A, 0x4F1A, 0x8BDD, 0xFF1F, 0x6B64, 0x64CD, 0x4F5C, 0x65E0, 0x6CD5, 0x64A4, 0x9500, 0x3002]]),
      (''batch.del.ok'', [U [0x5220, 0x9664, 0xFF08], P ''count'', U [0xFF09]]),
      (''clear.dead.msg.one'', [U [0x6C38, 0x4E45, 0x5220, 0x9664], A '' '', P ''count'', A '' '', U [0x4E2A, 0x5DF2, 0x7ED3, 0x675F, 0x7684, 0x4F1A, 0x8BDD, 0xFF1F, 0x6B64, 0x64CD, 0x4F5C, 0x65E0, 0x6CD5, 0x64A4, 0x9500, 0x3002]]),
      (''clear.dead.msg.other'', [U [0x6C38, 0x4E45, 0x5220, 0x9664], A '' '', P ''count'', A '' '', U [0x4E2A, 0x5DF2, 0x7ED3, 0x675F, 0x7684, 0x4F1A, 0x8BDD, 0xFF1F, 0x6B64, 0x64CD, 0x4F5C, 0x65E0, 0x6CD5, 0x64A4, 0x9500, 0x3002]]),
      (''clear.dead.ok'', [U [0x6E05, 0x9664, 0xFF08], P ''count'', U [0xFF09]]),
      (''banner.deleting.one'', [U [0x6B63, 0x5728, 0x5220, 0x9664], A '' '', P ''count'', A '' '', U [0x4E2A, 0x4F1A, 0x8BDD, 0x2026]]),
      (''banner.deleting.other'', [U [0x6B63, 0x5728, 0x5220, 0x9664], A '' '', P ''count'', A '' '', U [0x4E2A, 0x4F1A, 0x8BDD, 0x2026]]),
      (''banner.clearing.one'', [U [0x6B63, 0x5728, 0x6E05, 0x9664], A '' '', P ''count'', A '' '', U [0x4E2A, 0x5DF2, 0x7ED3, 0x675F, 0x7684, 0x4F1A, 0x8BDD, 0x2026]]),
      (''banner.clearing.other'', [U [0x6B63, 0x5728, 0x6E05, 0x9664], A '' '', P ''count'', A '' '', U [0x4E2A, 0x5DF2, 0x7ED3, 0x675F, 0x7684, 0x4F1A, 0x8BDD, 0x2026]]),
      (''toast.session.deleted.one'', [U [0x5DF2, 0x5220, 0x9664], A '' '', P ''count'', A '' '', U [0x4E2A, 0x4F1A, 0x8BDD]]),
      (''toast.session.deleted.other'', [U [0x5DF2, 0x5220, 0x9664], A '' '', P ''count'', A '' '', U [0x4E2A, 0x4F1A, 0x8BDD]]),
      (''toast.dead.cleared.one'', [U [0x5DF2, 0x6E05, 0x9664], A '' '', P ''count'', A '' '', U [0x4E2A, 0x5DF2, 0x7ED3, 0x675F, 0x7684, 0x4F1A, 0x8BDD]]),
      (''toast.dead.cleared.other'', [U [0x5DF2, 0x6E05, 0x9664], A '' '', P ''count'', A '' '', U [0x4E2A, 0x5DF2, 0x7ED3, 0x675F, 0x7684, 0x4F1A, 0x8BDD]]),
      (''toast.dead.none'', [U [0x6CA1, 0x6709, 0x53EF, 0x6E05, 0x9664, 0x7684, 0x5DF2, 0x7ED3, 0x675F, 0x4F1A, 0x8BDD]]),
      (''toast.sessions.none'', [U [0x672A, 0x9009, 0x62E9, 0x4F1A, 0x8BDD]]),
      (''toast.clear.failed'', [U [0x6E05, 0x9664, 0x5931, 0x8D25, 0xFF1A], P ''msg'']),
      (''toast.delete.failed'', [U [0x5220, 0x9664, 0x5931, 0x8D25, 0xFF1A], P ''msg'']),
      (''toast.rename.failed'', [U [0x91CD, 0x547D, 0x540D, 0x5931, 0x8D25, 0xFF1A], P ''msg'']),
      (''banner.entries.failed'', [U [0x52A0, 0x8F7D, 0x4E3B, 0x673A, 0x5931, 0x8D25, 0xFF1A], P ''msg'', U [0x3002, 0x8BF7, 0x786E, 0x8BA4], A '' termcp '', U [0x6B63, 0x5728, 0x8FD0, 0x884C, 0x4E14, 0x7AEF, 0x53E3, 0x6B63, 0x786E, 0x3002, 0x4F60, 0x4ECD, 0x53EF, 0x4EE5, 0x7528], A '' + '', U [0x624B, 0x52A8, 0x6DFB, 0x52A0, 0x4E3B, 0x673A, 0x3002]]),
      (''banner.conn.failed'', [U [0x8FDE, 0x63A5, 0x5931, 0x8D25, 0xFF1A], P ''msg'']),
      (''banner.dismiss'', [U [0x5173, 0x95ED]]),
      (''banner.syncing'', [U [0x6B63, 0x5728, 0x540C, 0x6B65, 0x4F1A, 0x8BDD, 0x5217, 0x8868, 0x2026]]),
      (''banner.reconnecting'', [U [0x8FDE, 0x63A5, 0x5DF2, 0x65AD, 0x5F00, 0xFF0C, 0x7EA6], A '' '', P ''s'', A '' '', U [0x79D2, 0x540E, 0x91CD, 0x8FDE, 0x2026]]),
      (''toast.copied'', [U [0x5DF2, 0x590D, 0x5236]]),
      (''toast.copy.failed'', [U [0x590D, 0x5236, 0x5931, 0x8D25]]),
      (''notify.dismiss'', [U [0x5173, 0x95ED, 0x901A, 0x77E5]]),
      (''notify.sessionPrefix'', [U [0x4F1A, 0x8BDD], A '' '', P ''id'']),
      (''common.close'', [U [0x5173, 0x95ED]]),
      (''common.cancel'', [U [0x53D6, 0x6D88]]),
      (''common.delete'', [U [0x5220, 0x9664]]),
      (''common.confirm'', [U [0x786E, 0x8BA4]]),
      (''common.ok'', [U [0x786E, 0x5B9A]]),
      (''common.save'', [U [0x4FDD, 0x5B58]]),
      (''common.test'', [U [0x6D4B, 0x8BD5]]),
      (''common.create'', [U [0x521B, 0x5EFA]]),
      (''common.duplicate'', [U [0x590D, 0x5236]]),
      (''common.refresh'', [U [0x5237, 0x65B0]]),
      (''common.rename'', [U [0x91CD, 0x547D, 0x540D]]),
      (''common.download'', [U [0x4E0B, 0x8F7D]]),
      (''common.upload'', [U [0x4E0A, 0x4F20]]),
      (''common.loading'', [U [0x52A0, 0x8F7D, 0x4E2D, 0x2026]]),
      (''common.copyUrl'', [U [0x590D, 0x5236], A '' URL'']),
      (''msg.leave.windows.one'', [U [0x4ECD, 0x6709], A '' '', P ''count'', A '' '', U [0x4E2A, 0x6253, 0x5F00, 0x7684, 0x7EC8, 0x7AEF, 0x7A97, 0x53E3]]),
      (''msg.leave.windows.other'', [U [0x4ECD, 0x6709], A '' '', P ''count'', A '' '', U [0x4E2A, 0x6253, 0x5F00, 0x7684, 0x7EC8, 0x7AEF, 0x7A97, 0x53E3]]),
      (''msg.leave.detail'', [A ''termcp '', U [0x4ECD, 0x6709], A '' '', P ''windows'', U [0x3002, 0x79BB, 0x5F00, 0x9875, 0x9762, 0x4F1A, 0x5173, 0x95ED, 0x7EC8, 0x7AEF, 0x89C6, 0x56FE, 0x2014, 0x2014, 0x4F1A, 0x8BDD, 0x4ECD, 0x5728, 0x670D, 0x52A1, 0x5668, 0x4E0A, 0x8FD0, 0x884C, 0x3002]]),
      (''alert.xterm.failed'', [A ''xterm '', U [0x52A0, 0x8F7D, 0x5931, 0x8D25]]),
      (''conn.title.connect'', [U [0x8FDE, 0x63A5]]),
      (''conn.aria.editProfile'', [U [0x7F16, 0x8F91, 0x914D, 0x7F6E]]),
      (''conn.aria.launchOptions'', [U [0x542F, 0x52A8, 0x9009, 0x9879]]),
      (''conn.aria.add'', [U [0x6DFB, 0x52A0, 0x4E3B, 0x673A]]),
      (''conn.title.launchOptions'', [U [0x542F, 0x52A8, 0x9009, 0x9879, 0xFF08, 0x4F1A, 0x8BDD, 0x540D, 0x79F0, 0x3001, 0x547D, 0x4EE4, 0xFF09]]),
      (''conn.tip.connect'', [U [0x70B9, 0x51FB, 0x76F4, 0x63A5, 0x8FDE, 0x63A5, 0xFF1B, 0x25B6], A '' '', U [0x6253, 0x5F00, 0x9009, 0x9879, 0xFF08, 0x4F1A, 0x8BDD, 0x540D, 0x79F0, 0x3001, 0x547D, 0x4EE4, 0xFF09]]),
      (''conn.tip.internal'', [U [0x5185, 0x7F6E, 0x56DE, 0x73AF, 0x914D, 0x7F6E, 0xFF0C, 0x53EF, 0x7F16, 0x8F91, 0x4EE5, 0x8BBE, 0x7F6E, 0x5176, 0x5BA1, 0x6838, 0x9ED8, 0x8BA4, 0x503C]]),
      (''session.delete.title'', [U [0x5220, 0x9664, 0x4F1A, 0x8BDD]]),
      (''session.delete.message'', [U [0x5220, 0x9664, 0x201C], P ''name'', U [0x201D, 0xFF1F]]),
      (''session.openHistory'', [U [0x6253, 0x5F00, 0x5386, 0x53F2]]),
      (''session.openTerminal'', [U [0x6253, 0x5F00, 0x7EC8, 0x7AEF]]),
      (''session.open.tip'', [U [0x6253, 0x5F00, 0x4F1A, 0x8BDD], A '' '', P ''sid'']),
      (''session.openHistory.tip'', [U [0x6253, 0x5F00, 0x5386, 0x53F2, 0xFF08, 0x53EA, 0x8BFB, 0xFF09]]),
      (''session.aria.select'', [U [0x9009, 0x62E9, 0x4F1A, 0x8BDD]]),
      (''session.aria.rename'', [U [0x91CD, 0x547D, 0x540D, 0x4F1A, 0x8BDD]]),
      (''session.aria.copyUrl'', [U [0x590D, 0x5236, 0x4F1A, 0x8BDD], A '' URL'']),
      (''session.prompt.rename'', [U [0x91CD, 0x547D, 0x540D, 0x4F1A, 0x8BDD]]),
      (''session.status.running'', [U [0x8FD0, 0x884C, 0x4E2D]]),
      (''session.status.dead'', [U [0x5DF2, 0x7ED3, 0x675F, 0xFF1A], P ''reason'']),
      (''session.ended'', [U [0x4F1A, 0x8BDD, 0x5DF2, 0x7ED3, 0x675F]]),
      (''session.dead.badge'', [U [0x5DF2, 0x7ED3, 0x675F]]),
      (''session.dead.badgeTitle'', [U [0x4F1A, 0x8BDD, 0x5DF2, 0x7ED3, 0x675F, 0xFF08, 0x53EA, 0x8BFB, 0xFF09]]),
      (''session.toast.unchanged'', [U [0x540D, 0x79F0, 0x672A, 0x53D8, 0x66F4]]),
      (''session.toast.renamed'', [U [0x5DF2, 0x91CD, 0x547D, 0x540D]])]\<close>

definition zhHans_2 :: "(string \<times> piece list) list" where
  \<open>zhHans_2 =
     [(''session.empty'', [U [0x6682, 0x65E0, 0x4F1A, 0x8BDD, 0x3002]]),
      (''fwd.count.one'', [P ''count'', A '' '', U [0x4E2A, 0x8F6C, 0x53D1]]),
      (''fwd.count.other'', [P ''count'', A '' '', U [0x4E2A, 0x8F6C, 0x53D1]]),
      (''reason.explicit'', [U [0x624B, 0x52A8, 0x7ED3, 0x675F]]),
      (''reason.crash'', [U [0x5F02, 0x5E38, 0x65AD, 0x5F00]]),
      (''reason.exited'', [U [0x8FDB, 0x7A0B, 0x5DF2, 0x9000, 0x51FA]]),
      (''reason.shutdown'', [U [0x670D, 0x52A1, 0x5668, 0x5173, 0x95ED]]),
      (''tab.connecting'', [U [0x8FDE, 0x63A5, 0x4E2D]]),
      (''tab.session'', [U [0x4F1A, 0x8BDD]]),
      (''tab.closeWindow'', [U [0x5173, 0x95ED, 0x7A97, 0x53E3, 0xFF08, 0x4F1A, 0x8BDD, 0x7EE7, 0x7EED, 0x8FD0, 0x884C, 0xFF09]]),
      (''tab.aria.closeWindow'', [U [0x5173, 0x95ED, 0x7A97, 0x53E3]]),
      (''pane.strategy.title'', [U [0x7A97, 0x683C, 0x6392, 0x5217, 0x7B56, 0x7565]]),
      (''pane.strategy.auto'', [U [0x81EA, 0x52A8]]),
      (''pane.strategy.cols'', [U [0x5206, 0x680F]]),
      (''pane.strategy.rows'', [U [0x5206, 0x884C]]),
      (''pane.strategy.pairs'', [U [0x4E24, 0x5217]]),
      (''layout.tip.float'', [U [0x5207, 0x6362, 0x4E3A, 0x6D6E, 0x52A8, 0x7A97, 0x53E3]]),
      (''layout.tip.tile'', [U [0x5E73, 0x94FA, 0x6240, 0x6709, 0x7EC8, 0x7AEF, 0x7A97, 0x53E3]]),
      (''win.showAll'', [U [0x663E, 0x793A, 0x7EC8, 0x7AEF, 0x7A97, 0x53E3]]),
      (''win.hideAll'', [U [0x9690, 0x85CF, 0x7EC8, 0x7AEF, 0x7A97, 0x53E3]]),
      (''win.max.tip'', [U [0x6700, 0x5927, 0x5316, 0xFF08, 0x53CC, 0x51FB, 0x6807, 0x9898, 0x680F, 0xFF09]]),
      (''win.restore.tip'', [U [0x8FD8, 0x539F, 0xFF08, 0x53CC, 0x51FB, 0x6807, 0x9898, 0x680F], A '' / Esc'', U [0xFF09]]),
      (''win.collapse'', [U [0x6298, 0x53E0]]),
      (''win.expand'', [U [0x5C55, 0x5F00]]),
      (''win.minimize'', [U [0x6700, 0x5C0F, 0x5316, 0xFF08, 0x4F1A, 0x8BDD, 0x7EE7, 0x7EED, 0x8FD0, 0x884C, 0xFF09]]),
      (''win.closeCancel'', [U [0x5173, 0x95ED, 0xFF08, 0x53D6, 0x6D88, 0x8FDE, 0x63A5, 0xFF09]]),
      (''win.resize'', [U [0x62D6, 0x52A8, 0x8C03, 0x6574, 0x5927, 0x5C0F]]),
      (''win.aria.activeSessions'', [U [0x6D3B, 0x52A8, 0x4F1A, 0x8BDD]]),
      (''win.aria.connections'', [U [0x8FDE, 0x63A5]]),
      (''switch.empty'', [U [0x6682, 0x65E0, 0x5DF2, 0x6253, 0x5F00, 0x7684, 0x4F1A, 0x8BDD]]),
      (''win.connecting.label'', [U [0x6B63, 0x5728, 0x8FDE, 0x63A5]]),
      (''win.term.tab'', [U [0x7EC8, 0x7AEF]]),
      (''win.fw.tab'', [U [0x7AEF, 0x53E3, 0x8F6C, 0x53D1]]),
      (''win.files.tab'', [U [0x6587, 0x4EF6]]),
      (''win.notify.tab'', [U [0x901A, 0x77E5]]),
      (''tab.reviewWaiting'', [U [0x7B49, 0x5F85, 0x5BA1, 0x6838, 0x7684, 0x547D, 0x4EE4]]),
      (''conn.approval.mark'', [U [0x8BE5, 0x914D, 0x7F6E, 0x542F, 0x52A8, 0x7684, 0x4F1A, 0x8BDD, 0x9ED8, 0x8BA4, 0x5F00, 0x542F, 0x5BA1, 0x6838, 0x6A21, 0x5F0F]]),
      (''conn.approval.markAria'', [U [0x9ED8, 0x8BA4, 0x5F00, 0x542F, 0x5BA1, 0x9605]]),
      (''win.notify.tip'', [U [0x8BE5], A '' shell '', U [0x7684, 0x5524, 0x9192, 0x89C4, 0x5219, 0xFF08], A ''notify '', U [0x5DE5, 0x5177, 0xFF09]]),
      (''ntf.emptyHint'', [U [0x6B64, 0x6807, 0x7B7E, 0x9875, 0x5217, 0x51FA, 0x7684, 0x662F, 0x901A, 0x77E5, 0x4EE3, 0x7406, 0x7684, 0x89C4, 0x5219, 0xFF08], A ''notify '', U [0x5DE5, 0x5177, 0xFF09, 0xFF0C, 0x4E0D, 0x662F, 0x89D2, 0x843D, 0x5F39, 0x51FA, 0x7684, 0x63D0, 0x793A, 0x3002]]),
      (''modal.conn.loopbackOnly'', [U [0x5185, 0x7F6E, 0x56DE, 0x73AF, 0x8FDE, 0x63A5, 0xFF1A, 0x5B83, 0x901A, 0x8FC7, 0x5185, 0x7F6E], A '' SSH '', U [0x670D, 0x52A1, 0x8FDE, 0x63A5, 0x672C, 0x673A, 0xFF0C, 0x56E0, 0x6B64, 0x4E3B, 0x673A, 0x3001, 0x51ED, 0x636E, 0x548C, 0x8DF3, 0x677F, 0x90FD, 0x4E0D, 0x9002, 0x7528, 0xFF0C, 0x53EA, 0x7528, 0x4E0B, 0x65B9, 0x7684, 0x8BBE, 0x7F6E, 0x3002]]),
      (''modal.conn.field.approval'', [U [0x9ED8, 0x8BA4, 0x5BA1, 0x6838], A '' AI '', U [0x7684, 0x6BCF, 0x6B21, 0x5199, 0x5165]]),
      (''modal.conn.field.approvalHint'', [U [0x4ECE, 0x8BE5, 0x914D, 0x7F6E, 0x542F, 0x52A8, 0x7684, 0x4F1A, 0x8BDD, 0x9ED8, 0x8BA4, 0x5F00, 0x542F, 0x5BA1, 0x6838, 0x6A21, 0x5F0F, 0xFF1A, 0x6BCF, 0x6761, 0x547D, 0x4EE4, 0x90FD, 0x4F1A, 0x7B49, 0x4F60, 0x63A5, 0x53D7, 0x6216, 0x62D2, 0x7EDD, 0x540E, 0x624D, 0x53D1, 0x9001, 0x5230], A '' shell'', U [0x3002]]),
      (''channel.add'', [U [0x65B0, 0x5EFA], A '' shell '', U [0x901A, 0x9053]]),
      (''channel.empty'', [U [0x6682, 0x65E0], A '' shell '', U [0x901A, 0x9053]]),
      (''channel.newShell'', [A ''+ '', U [0x65B0, 0x5EFA], A '' Shell'']),
      (''channel.addMenu'', [U [0x65B0, 0x5EFA], A '' shell '', U [0x901A, 0x9053], A '' - '', U [0x9009, 0x62E9, 0x6A21, 0x5F0F]]),
      (''channel.add.pty'', [A ''pty - '', U [0x4EA4, 0x4E92, 0x7EC8, 0x7AEF]]),
      (''channel.add.pipe'', [A ''pipe - '', U [0x6267, 0x884C, 0x5355, 0x6761, 0x547D, 0x4EE4]]),
      (''channel.add.failed'', [U [0x65E0, 0x6CD5, 0x6253, 0x5F00], A '' shell '', U [0x901A, 0x9053, 0xFF1A], P ''msg'']),
      (''channel.cmd.titlePty'', [U [0x6267, 0x884C, 0x547D, 0x4EE4, 0xFF08], A ''pty'', U [0xFF09]]),
      (''channel.cmd.titlePipe'', [U [0x6267, 0x884C, 0x547D, 0x4EE4, 0xFF08], A ''pipe'', U [0xFF09]]),
      (''channel.cmd.label'', [U [0x547D, 0x4EE4]]),
      (''channel.cmd.placeholder'', [U [0x7559, 0x7A7A], A '' = '', U [0x767B, 0x5F55], A '' shell'']),
      (''channel.cmd.required'', [A ''pipe '', U [0x6A21, 0x5F0F, 0x9700, 0x8981, 0x6267, 0x884C, 0x4E00, 0x6761, 0x547D, 0x4EE4, 0xFF0C, 0x8BF7, 0x586B, 0x5199]]),
      (''channel.close'', [U [0x5173, 0x95ED], A '' shell'']),
      (''channel.endedTab'', [U [0x7ED3, 0x675F]]),
      (''term.scroll.latest'', [U [0x56DE, 0x5230, 0x6700, 0x65B0, 0x8F93, 0x51FA]]),
      (''term.ended'', [A ''['', U [0x4F1A, 0x8BDD, 0x5DF2, 0x7ED3, 0x675F], A '']'']),
      (''term.history.cap'', [A ''['', U [0x66F4, 0x65E9, 0x7684, 0x8F93, 0x51FA, 0x672A, 0x663E, 0x793A, 0xFF08, 0x6D4F, 0x89C8, 0x5668, 0x4E0A, 0x9650, 0x7EA6], A '' '', P ''mb'', A '' MiB'', U [0xFF09], A '']'']),
      (''term.history.omitted'', [A ''['', U [0x66F4, 0x65E9, 0x7684, 0x8F93, 0x51FA, 0x5DF2, 0x7701, 0x7565, 0xFF08, 0x5927, 0x5C0F, 0x4E0A, 0x9650, 0xFF09], A '']'']),
      (''file.parent'', [U [0x4E0A, 0x7EA7, 0x76EE, 0x5F55]]),
      (''file.load'', [U [0x52A0, 0x8F7D]]),
      (''file.menu'', [U [0x83DC, 0x5355]]),
      (''file.empty'', [U [0x7A7A, 0x76EE, 0x5F55]]),
      (''file.size'', [U [0x5927, 0x5C0F, 0xFF1A], P ''size'']),
      (''file.modified'', [U [0x4FEE, 0x6539, 0x65F6, 0x95F4, 0xFF1A], P ''time'']),
      (''file.loadFailed'', [U [0x9519, 0x8BEF, 0xFF1A], P ''msg'']),
      (''file.deleteConfirm'', [U [0x5220, 0x9664], A '' '', P ''path'', U [0xFF1F]]),
      (''file.renamePrompt'', [U [0x91CD, 0x547D, 0x540D], A '' '', P ''name'']),
      (''fw.panel.title'', [U [0x7AEF, 0x53E3, 0x8F6C, 0x53D1]]),
      (''fw.add'', [U [0x6DFB, 0x52A0, 0x7AEF, 0x53E3, 0x8F6C, 0x53D1]]),
      (''fw.empty'', [U [0x6682, 0x65E0, 0x7AEF, 0x53E3, 0x8F6C, 0x53D1]]),
      (''ntf.empty'', [U [0x6682, 0x65E0, 0x901A, 0x77E5, 0x89C4, 0x5219]]),
      (''ntf.unregister'', [U [0x53D6, 0x6D88, 0x6CE8, 0x518C]]),
      (''ntf.channel.sampling'', [U [0x91C7, 0x6837]]),
      (''ntf.channel.resource'', [U [0x8D44, 0x6E90]]),
      (''modal.forward.title'', [U [0x65B0, 0x5EFA, 0x7AEF, 0x53E3, 0x8F6C, 0x53D1]]),
      (''modal.forward.direction'', [U [0x65B9, 0x5411]]),
      (''modal.forward.dir.local'', [U [0x672C, 0x5730], A '' (ssh -L)'']),
      (''modal.forward.dir.remote'', [U [0x8FDC, 0x7A0B], A '' (ssh -R)'']),
      (''modal.forward.dir.dynamic'', [A ''SOCKS5 (ssh -D)'']),
      (''modal.forward.dirHint.local'', [U [0x672C, 0x5730, 0x76D1, 0x542C], A '' '', U [0x2192], A '' '', U [0x8FDC, 0x7A0B, 0x76EE, 0x6807]]),
      (''modal.forward.dirHint.remote'', [U [0x8FDC, 0x7A0B, 0x76D1, 0x542C], A '' '', U [0x2192], A '' '', U [0x672C, 0x5730, 0x76EE, 0x6807]]),
      (''modal.forward.dirHint.dynamic'', [A ''SOCKS5 '', U [0x2192], A '' '', U [0x4EFB, 0x610F, 0x76EE, 0x6807]]),
      (''modal.forward.targetHost'', [U [0x76EE, 0x6807, 0x4E3B, 0x673A]]),
      (''modal.forward.targetHostPlaceholder'', [U [0x4F8B, 0x5982], A '' localhost'']),
      (''modal.forward.targetPort'', [U [0x76EE, 0x6807, 0x7AEF, 0x53E3]]),
      (''modal.forward.targetPortPlaceholder'', [U [0x7AEF, 0x53E3]]),
      (''modal.forward.listenHost'', [U [0x76D1, 0x542C, 0x4E3B, 0x673A]])]\<close>

definition zhHans_3 :: "(string \<times> piece list) list" where
  \<open>zhHans_3 =
     [(''modal.forward.listenHostPlaceholder'', [U [0x4F8B, 0x5982], A '' 127.0.0.1'']),
      (''modal.forward.listenPort'', [U [0x76D1, 0x542C, 0x7AEF, 0x53E3, 0xFF08], A ''0 = '', U [0x968F, 0x673A, 0xFF09]]),
      (''modal.forward.socksPort'', [A ''SOCKS5 '', U [0x7AEF, 0x53E3, 0xFF08], A ''0 = '', U [0x968F, 0x673A, 0xFF09]]),
      (''modal.forward.err.noSession'', [U [0x6CA1, 0x6709, 0x6D3B, 0x52A8, 0x4F1A, 0x8BDD, 0x2014, 0x2014, 0x8BF7, 0x5148, 0x6253, 0x5F00, 0x7EC8, 0x7AEF]]),
      (''modal.forward.err.required'', [U [0x5FC5, 0x987B, 0x586B, 0x5199, 0x76EE, 0x6807, 0x4E3B, 0x673A, 0x548C, 0x7AEF, 0x53E3]]),
      (''modal.conn.titleAdd'', [U [0x6DFB, 0x52A0, 0x4E3B, 0x673A]]),
      (''modal.conn.titleEdit'', [U [0x7F16, 0x8F91, 0x4E3B, 0x673A]]),
      (''modal.conn.name'', [U [0x540D, 0x79F0]]),
      (''modal.conn.toggleView'', [U [0x5728, 0x8868, 0x5355, 0x4E0E], A '' TOML '', U [0x4E4B, 0x95F4, 0x5207, 0x6362]]),
      (''modal.conn.field.host'', [U [0x4E3B, 0x673A]]),
      (''modal.conn.field.port'', [U [0x7AEF, 0x53E3]]),
      (''modal.conn.field.user'', [U [0x7528, 0x6237]]),
      (''modal.conn.field.auth'', [U [0x8BA4, 0x8BC1]]),
      (''modal.conn.field.password'', [U [0x5BC6, 0x7801]]),
      (''modal.conn.field.privateKey'', [U [0x79C1, 0x94A5]]),
      (''modal.conn.field.passphrase'', [U [0x79C1, 0x94A5, 0x53E3, 0x4EE4, 0xFF08, 0x53EF, 0x9009, 0xFF09]]),
      (''modal.conn.field.shell'', [U [0x9ED8, 0x8BA4], A '' Shell'', U [0xFF08, 0x53EF, 0x9009, 0xFF09]]),
      (''modal.conn.field.shellPlaceholder'', [U [0x81EA, 0x52A8, 0x68C0, 0x6D4B]]),
      (''modal.conn.field.proxy'', [U [0x4EE3, 0x7406, 0xFF08, 0x53EF, 0x9009, 0xFF0C], A ''SOCKS5 URL'', U [0xFF09]]),
      (''modal.conn.showPassword'', [U [0x663E, 0x793A, 0x5BC6, 0x7801]]),
      (''modal.conn.show'', [U [0x663E, 0x793A]]),
      (''modal.conn.jumps.title'', [A ''SSH '', U [0x8DF3, 0x677F, 0x94FE]]),
      (''modal.conn.jumps.hint'', [U [0x5230, 0x8BE5, 0x4E3B, 0x673A, 0x7684], A '' SSH '', U [0x6D41, 0x91CF, 0x4F1A, 0x6309, 0x987A, 0x5E8F, 0x7ECF, 0x4E0B, 0x65B9, 0x8DF3, 0x677F, 0x673A, 0x8F6C, 0x53D1]]),
      (''modal.conn.addJump'', [A ''+ '', U [0x6DFB, 0x52A0, 0x8DF3, 0x677F]]),
      (''modal.conn.config'', [U [0x914D, 0x7F6E]]),
      (''jump.import'', [U [0x4ECE, 0x4E3B, 0x673A, 0x5BFC, 0x5165]]),
      (''jump.label'', [U [0x8DF3, 0x677F], A '' '', P ''n'']),
      (''jump.import.select'', [U [0x2014], A '' '', U [0x9009, 0x62E9, 0x5165, 0x53E3], A '' '', U [0x2014]]),
      (''jump.save'', [U [0x4FDD, 0x5B58]]),
      (''jump.cancel'', [U [0x53D6, 0x6D88]]),
      (''jump.remove'', [U [0x79FB, 0x9664]]),
      (''jump.editTip'', [U [0x70B9, 0x51FB, 0x7F16, 0x8F91]]),
      (''jump.proxy'', [U [0x4EE3, 0x7406, 0xFF08, 0x53EF, 0x9009, 0xFF09]]),
      (''jump.empty'', [U [0xFF08, 0x7A7A, 0xFF09]]),
      (''test.testing'', [U [0x6D4B, 0x8BD5, 0x4E2D, 0x2026]]),
      (''test.ok'', [U [0x2713], A '' '', U [0x5DF2, 0x8FDE, 0x63A5, 0xFF0C, 0x8017, 0x65F6], A '' '', P ''ms'', A '' ms'']),
      (''test.failed'', [U [0x2717], A '' '', P ''msg'']),
      (''test.connectionFailed'', [U [0x8FDE, 0x63A5, 0x5931, 0x8D25]]),
      (''err.name.required'', [U [0x5FC5, 0x987B, 0x586B, 0x5199, 0x914D, 0x7F6E, 0x540D, 0x79F0]]),
      (''err.name.invalid'', [U [0x540D, 0x79F0, 0x5FC5, 0x987B, 0x4EE5, 0x5B57, 0x6BCD, 0x6216, 0x6570, 0x5B57, 0x5F00, 0x5934, 0xFF0C, 0x4E14, 0x53EA, 0x80FD, 0x5305, 0x542B, 0x5B57, 0x6BCD, 0x3001, 0x6570, 0x5B57, 0x3001], A ''_ '', U [0x6216], A '' -'', U [0xFF08, 0x6700, 0x591A], A '' 64 '', U [0x4E2A, 0x5B57, 0x7B26, 0xFF09]]),
      (''err.name.exists'', [U [0x914D, 0x7F6E, 0x201C], P ''name'', U [0x201D, 0x5DF2, 0x5B58, 0x5728]]),
      (''dialog.conn.delete.title'', [U [0x5220, 0x9664, 0x8FDE, 0x63A5]]),
      (''dialog.conn.delete.msg'', [U [0x5220, 0x9664, 0x8FDE, 0x63A5, 0x201C], P ''name'', U [0x201D, 0xFF1F, 0x6B64, 0x64CD, 0x4F5C, 0x65E0, 0x6CD5, 0x64A4, 0x9500, 0x3002]]),
      (''modal.start.title'', [U [0x542F, 0x52A8, 0x4F1A, 0x8BDD]]),
      (''modal.start.titleConnect'', [U [0x8FDE, 0x63A5], A '' '', U [0xB7], A '' '', P ''name'']),
      (''modal.start.name'', [U [0x4F1A, 0x8BDD, 0x540D, 0x79F0, 0xFF08, 0x53EF, 0x9009, 0xFF09]]),
      (''modal.start.namePlaceholder'', [U [0x9ED8, 0x8BA4, 0xFF1A, 0x8FDE, 0x63A5, 0x540D, 0x79F0]]),
      (''modal.start.cmd'', [U [0x547D, 0x4EE4, 0xFF08, 0x53EF, 0x9009, 0xFF09]]),
      (''modal.start.cmdPlaceholder'', [U [0x7559, 0x7A7A], A '' = SSH '', U [0x767B, 0x5F55], A '' shell'', U [0xFF1B, 0x6216], A '' bash'', U [0x3001], A ''powershell'', U [0x2026]]),
      (''modal.start.mode'', [U [0x6A21, 0x5F0F]]),
      (''modal.start.run'', [U [0x8FDE, 0x63A5]]),
      (''review.title'', [U [0x5BA1, 0x9605]]),
      (''review.mode'', [U [0x5BA1, 0x9605, 0x6A21, 0x5F0F]]),
      (''review.on'', [U [0x5BA1, 0x9605, 0x4E2D]]),
      (''review.off'', [U [0x5BA1, 0x9605]]),
      (''review.lock.on'', [U [0x5BA1, 0x9605, 0x5DF2, 0x5F00, 0x542F, 0xFF1A], A ''AI '', U [0x53D1, 0x5F80, 0x8BE5, 0x4F1A, 0x8BDD, 0x7684, 0x6BCF, 0x6B21, 0x5199, 0x5165, 0x90FD, 0x8981, 0x7B49, 0x4F60, 0x88C1, 0x51B3, 0x3002, 0x70B9, 0x51FB, 0x67E5, 0x770B, 0x961F, 0x5217, 0x3002]]),
      (''review.lock.off'', [U [0x5BA1, 0x9605, 0x5DF2, 0x5173, 0x95ED, 0xFF1A], A ''AI '', U [0x76F4, 0x63A5, 0x5199, 0x5165, 0x3002, 0x70B9, 0x51FB, 0x5F00, 0x542F, 0x6216, 0x67E5, 0x770B, 0x961F, 0x5217, 0x3002]]),
      (''review.lock.waitingCount'', [A '' '', P ''count'', A '' '', U [0x9879, 0x7B49, 0x5F85, 0x4F60, 0x7684, 0x88C1, 0x51B3, 0x3002]]),
      (''review.lock.clickOpen'', [A '' '', U [0x70B9, 0x51FB, 0x6253, 0x5F00, 0x5BA1, 0x9605, 0x9762, 0x677F, 0x3002]]),
      (''review.aria.on'', [U [0x5BA1, 0x9605, 0x5DF2, 0x5F00, 0x542F]]),
      (''review.aria.off'', [U [0x5BA1, 0x9605, 0x5DF2, 0x5173, 0x95ED]]),
      (''review.switch.tip'', [U [0x5BA1, 0x9605], A '' AI '', U [0x53D1, 0x5F80, 0x8BE5, 0x4F1A, 0x8BDD, 0x7684, 0x6BCF, 0x6B21, 0x5199, 0x5165]]),
      (''review.hint'', [U [0x5BA1, 0x9605, 0x5F00, 0x542F, 0x671F, 0x95F4, 0xFF0C], A ''AI '', U [0x53D1, 0x5F80, 0x8BE5, 0x4F1A, 0x8BDD, 0x7684, 0x6BCF, 0x6B21, 0x5199, 0x5165, 0x90FD, 0x4F1A, 0x505C, 0x5728, 0x8FD9, 0x91CC, 0xFF0C, 0x76F4, 0x5230, 0x6709, 0x4EBA, 0x63A5, 0x53D7, 0x3002]]),
      (''review.waiting'', [U [0x7B49, 0x5F85, 0x5BA1, 0x9605]]),
      (''review.empty'', [U [0x6682, 0x65E0, 0x5F85, 0x88C1, 0x51B3, 0x9879, 0x3002]]),
      (''review.loadFailed'', [U [0x65E0, 0x6CD5, 0x52A0, 0x8F7D, 0x961F, 0x5217, 0x3002]]),
      (''review.accept'', [U [0x63A5, 0x53D7]]),
      (''review.reject'', [U [0x62D2, 0x7EDD]]),
      (''review.enableTip'', [U [0x70B9, 0x51FB, 0x540E, 0xFF0C], A ''AI '', U [0x53D1, 0x5F80, 0x8BE5, 0x4F1A, 0x8BDD, 0x7684, 0x6BCF, 0x6B21, 0x5199, 0x5165, 0x90FD, 0x8981, 0x7B49, 0x5F85, 0x88C1, 0x51B3]]),
      (''review.disableTip'', [U [0x5BA1, 0x9605, 0x5DF2, 0x5F00, 0x542F, 0xFF1A], A ''AI '', U [0x7684, 0x6BCF, 0x6B21, 0x5199, 0x5165, 0x90FD, 0x8981, 0x7B49, 0x5F85, 0x88C1, 0x51B3, 0x3002, 0x70B9, 0x51FB, 0x5173, 0x95ED, 0x3002]]),
      (''review.disable.title'', [U [0x5173, 0x95ED, 0x5BA1, 0x9605]]),
      (''review.disable.ok'', [U [0x5173, 0x95ED]]),
      (''review.disable.msg'', [U [0x4E0D, 0x518D, 0x5BA1, 0x9605, 0x8BE5, 0x4F1A, 0x8BDD, 0x7684], A '' AI '', U [0x5199, 0x5165, 0xFF1F, 0x4ECD, 0x5728, 0x7B49, 0x5F85, 0x7684, 0x8BF7, 0x6C42, 0x4F1A, 0x88AB, 0x4E22, 0x5F03, 0xFF0C, 0x6C38, 0x8FDC, 0x4E0D, 0x4F1A, 0x6267, 0x884C, 0x3002]]),
      (''review.disable.msgSession'', [U [0x4E0D, 0x518D, 0x5BA1, 0x9605, 0x300C], P ''session'', U [0x300D, 0x7684], A '' AI '', U [0x5199, 0x5165, 0xFF1F, 0x4ECD, 0x5728, 0x7B49, 0x5F85, 0x7684, 0x8BF7, 0x6C42, 0x4F1A, 0x88AB, 0x4E22, 0x5F03, 0xFF0C, 0x6C38, 0x8FDC, 0x4E0D, 0x4F1A, 0x6267, 0x884C, 0x3002]]),
      (''review.toast.on'', [U [0x5BA1, 0x9605, 0x5DF2, 0x5F00, 0x542F]]),
      (''review.toast.off'', [U [0x5BA1, 0x9605, 0x5DF2, 0x5173, 0x95ED]]),
      (''review.toast.failed'', [U [0x5931, 0x8D25, 0xFF1A], P ''msg'']),
      (''review.badge.one'', [P ''count'', A '' '', U [0x9879, 0x5F85, 0x5BA1, 0x9605]]),
      (''review.badge.other'', [P ''count'', A '' '', U [0x9879, 0x5F85, 0x5BA1, 0x9605]]),
      (''review.kind.fileWrite'', [U [0x6587, 0x4EF6, 0x5199, 0x5165]]),
      (''review.kind.fileDelete'', [U [0x6587, 0x4EF6, 0x5220, 0x9664]]),
      (''review.kind.fileRename'', [U [0x6587, 0x4EF6, 0x79FB, 0x52A8]]),
      (''review.kind.fileMkdir'', [U [0x65B0, 0x5EFA, 0x76EE, 0x5F55]]),
      (''review.kind.filePerm'', [U [0x6743, 0x9650, 0x53D8, 0x66F4]]),
      (''review.kind.fileLink'', [U [0x94FE, 0x63A5]]),
      (''review.kind.fileTruncate'', [U [0x622A, 0x65AD]]),
      (''review.kind.forwardOpen'', [U [0x7AEF, 0x53E3, 0x8F6C, 0x53D1]]),
      (''review.kind.forwardClose'', [U [0x5173, 0x95ED, 0x8F6C, 0x53D1]])]\<close>

definition zhHant_1 :: "(string \<times> piece list) list" where
  \<open>zhHant_1 =
     [(''nav.docs'', [U [0x6587, 0x4EF6]]),
      (''nav.api.title'', [A ''MCP'', U [0x3001], A ''HTTP API '', U [0x8207], A '' Agent skill '', U [0x6574, 0x5408, 0x6587, 0x4EF6]]),
      (''sec.entries'', [U [0x4E3B, 0x6A5F]]),
      (''sec.sessions'', [U [0x5DE5, 0x4F5C, 0x968E, 0x6BB5]]),
      (''tabbar.openSessions'', [U [0x5DF2, 0x958B, 0x555F, 0x7684, 0x5DE5, 0x4F5C, 0x968E, 0x6BB5]]),
      (''tabbar.dragToMove'', [U [0x62D6, 0x66F3, 0x53EF, 0x79FB, 0x52D5]]),
      (''lang.auto'', [U [0x81EA, 0x52D5]]),
      (''lang.label'', [U [0x4ECB, 0x9762, 0x8A9E, 0x8A00]]),
      (''section.batch.selectAll'', [U [0x5168, 0x9078]]),
      (''section.batch.selectAllAria'', [U [0x5168, 0x9078, 0x6216, 0x53D6, 0x6D88, 0x9078, 0x53D6]]),
      (''section.batch.clearSelection'', [U [0x53D6, 0x6D88, 0x5168, 0x9078]]),
      (''section.batch.deleteSelected'', [U [0x522A, 0x9664, 0x6240, 0x9078]]),
      (''section.batch.deleteSelectedAria'', [U [0x522A, 0x9664, 0x6240, 0x9078, 0x5DE5, 0x4F5C, 0x968E, 0x6BB5]]),
      (''section.batch.clearDead'', [U [0x6E05, 0x9664, 0x5DF2, 0x7D50, 0x675F, 0x5DE5, 0x4F5C, 0x968E, 0x6BB5]]),
      (''section.batch.clearDeadAria'', [U [0x6E05, 0x9664, 0x6240, 0x6709, 0x5DF2, 0x7D50, 0x675F, 0x5DE5, 0x4F5C, 0x968E, 0x6BB5]]),
      (''batch.count.selected'', [U [0x5DF2, 0x9078], A '' '', P ''count'']),
      (''batch.del.title.one'', [U [0x522A, 0x9664, 0x6240, 0x9078, 0x7684], A '' '', P ''count'', A '' '', U [0x500B, 0x5DE5, 0x4F5C, 0x968E, 0x6BB5]]),
      (''batch.del.title.other'', [U [0x522A, 0x9664, 0x6240, 0x9078, 0x7684], A '' '', P ''count'', A '' '', U [0x500B, 0x5DE5, 0x4F5C, 0x968E, 0x6BB5]]),
      (''batch.del.dialog'', [U [0x522A, 0x9664, 0x6240, 0x9078, 0x5DE5, 0x4F5C, 0x968E, 0x6BB5]]),
      (''batch.del.msg.one'', [U [0x6C38, 0x4E45, 0x522A, 0x9664, 0x6240, 0x9078, 0x7684], A '' '', P ''count'', A '' '', U [0x500B, 0x5DE5, 0x4F5C, 0x968E, 0x6BB5, 0xFF1F, 0x6B64, 0x64CD, 0x4F5C, 0x7121, 0x6CD5, 0x5FA9, 0x539F, 0x3002]]),
      (''batch.del.msg.other'', [U [0x6C38, 0x4E45, 0x522A, 0x9664, 0x6240, 0x9078, 0x7684], A '' '', P ''count'', A '' '', U [0x500B, 0x5DE5, 0x4F5C, 0x968E, 0x6BB5, 0xFF1F, 0x6B64, 0x64CD, 0x4F5C, 0x7121, 0x6CD5, 0x5FA9, 0x539F, 0x3002]]),
      (''batch.del.ok'', [U [0x522A, 0x9664, 0xFF08], P ''count'', U [0xFF09]]),
      (''clear.dead.msg.one'', [U [0x6C38, 0x4E45, 0x522A, 0x9664], A '' '', P ''count'', A '' '', U [0x500B, 0x5DF2, 0x7D50, 0x675F, 0x7684, 0x5DE5, 0x4F5C, 0x968E, 0x6BB5, 0xFF1F, 0x6B64, 0x64CD, 0x4F5C, 0x7121, 0x6CD5, 0x5FA9, 0x539F, 0x3002]]),
      (''clear.dead.msg.other'', [U [0x6C38, 0x4E45, 0x522A, 0x9664], A '' '', P ''count'', A '' '', U [0x500B, 0x5DF2, 0x7D50, 0x675F, 0x7684, 0x5DE5, 0x4F5C, 0x968E, 0x6BB5, 0xFF1F, 0x6B64, 0x64CD, 0x4F5C, 0x7121, 0x6CD5, 0x5FA9, 0x539F, 0x3002]]),
      (''clear.dead.ok'', [U [0x6E05, 0x9664, 0xFF08], P ''count'', U [0xFF09]]),
      (''banner.deleting.one'', [U [0x6B63, 0x5728, 0x522A, 0x9664], A '' '', P ''count'', A '' '', U [0x500B, 0x5DE5, 0x4F5C, 0x968E, 0x6BB5, 0x2026]]),
      (''banner.deleting.other'', [U [0x6B63, 0x5728, 0x522A, 0x9664], A '' '', P ''count'', A '' '', U [0x500B, 0x5DE5, 0x4F5C, 0x968E, 0x6BB5, 0x2026]]),
      (''banner.clearing.one'', [U [0x6B63, 0x5728, 0x6E05, 0x9664], A '' '', P ''count'', A '' '', U [0x500B, 0x5DF2, 0x7D50, 0x675F, 0x7684, 0x5DE5, 0x4F5C, 0x968E, 0x6BB5, 0x2026]]),
      (''banner.clearing.other'', [U [0x6B63, 0x5728, 0x6E05, 0x9664], A '' '', P ''count'', A '' '', U [0x500B, 0x5DF2, 0x7D50, 0x675F, 0x7684, 0x5DE5, 0x4F5C, 0x968E, 0x6BB5, 0x2026]]),
      (''toast.session.deleted.one'', [U [0x5DF2, 0x522A, 0x9664], A '' '', P ''count'', A '' '', U [0x500B, 0x5DE5, 0x4F5C, 0x968E, 0x6BB5]]),
      (''toast.session.deleted.other'', [U [0x5DF2, 0x522A, 0x9664], A '' '', P ''count'', A '' '', U [0x500B, 0x5DE5, 0x4F5C, 0x968E, 0x6BB5]]),
      (''toast.dead.cleared.one'', [U [0x5DF2, 0x6E05, 0x9664], A '' '', P ''count'', A '' '', U [0x500B, 0x5DF2, 0x7D50, 0x675F, 0x5DE5, 0x4F5C, 0x968E, 0x6BB5]]),
      (''toast.dead.cleared.other'', [U [0x5DF2, 0x6E05, 0x9664], A '' '', P ''count'', A '' '', U [0x500B, 0x5DF2, 0x7D50, 0x675F, 0x5DE5, 0x4F5C, 0x968E, 0x6BB5]]),
      (''toast.dead.none'', [U [0x6C92, 0x6709, 0x53EF, 0x6E05, 0x9664, 0x7684, 0x5DF2, 0x7D50, 0x675F, 0x5DE5, 0x4F5C, 0x968E, 0x6BB5]]),
      (''toast.sessions.none'', [U [0x672A, 0x9078, 0x53D6, 0x5DE5, 0x4F5C, 0x968E, 0x6BB5]]),
      (''toast.clear.failed'', [U [0x6E05, 0x9664, 0x5931, 0x6557, 0xFF1A], P ''msg'']),
      (''toast.delete.failed'', [U [0x522A, 0x9664, 0x5931, 0x6557, 0xFF1A], P ''msg'']),
      (''toast.rename.failed'', [U [0x91CD, 0x65B0, 0x547D, 0x540D, 0x5931, 0x6557, 0xFF1A], P ''msg'']),
      (''banner.entries.failed'', [U [0x8F09, 0x5165, 0x4E3B, 0x6A5F, 0x5931, 0x6557, 0xFF1A], P ''msg'', U [0x3002, 0x8ACB, 0x78BA, 0x8A8D], A '' termcp '', U [0x6B63, 0x5728, 0x57F7, 0x884C, 0x4E14, 0x9023, 0x63A5, 0x57E0, 0x6B63, 0x78BA, 0x3002, 0x4F60, 0x4ECD, 0x53EF, 0x4EE5, 0x7528], A '' + '', U [0x624B, 0x52D5, 0x65B0, 0x589E, 0x4E3B, 0x6A5F, 0x3002]]),
      (''banner.conn.failed'', [U [0x9023, 0x7DDA, 0x5931, 0x6557, 0xFF1A], P ''msg'']),
      (''banner.dismiss'', [U [0x95DC, 0x9589]]),
      (''banner.syncing'', [U [0x6B63, 0x5728, 0x540C, 0x6B65, 0x5DE5, 0x4F5C, 0x968E, 0x6BB5, 0x6E05, 0x55AE, 0x2026]]),
      (''banner.reconnecting'', [U [0x9023, 0x7DDA, 0x5DF2, 0x4E2D, 0x65B7, 0xFF0C, 0x7D04], A '' '', P ''s'', A '' '', U [0x79D2, 0x5F8C, 0x91CD, 0x65B0, 0x9023, 0x7DDA, 0x2026]]),
      (''toast.copied'', [U [0x5DF2, 0x8907, 0x88FD]]),
      (''toast.copy.failed'', [U [0x8907, 0x88FD, 0x5931, 0x6557]]),
      (''notify.dismiss'', [U [0x95DC, 0x9589, 0x901A, 0x77E5]]),
      (''notify.sessionPrefix'', [U [0x5DE5, 0x4F5C, 0x968E, 0x6BB5], A '' '', P ''id'']),
      (''common.close'', [U [0x95DC, 0x9589]]),
      (''common.cancel'', [U [0x53D6, 0x6D88]]),
      (''common.delete'', [U [0x522A, 0x9664]]),
      (''common.confirm'', [U [0x78BA, 0x8A8D]]),
      (''common.ok'', [U [0x78BA, 0x5B9A]]),
      (''common.save'', [U [0x5132, 0x5B58]]),
      (''common.test'', [U [0x6E2C, 0x8A66]]),
      (''common.create'', [U [0x5EFA, 0x7ACB]]),
      (''common.duplicate'', [U [0x8907, 0x88FD]]),
      (''common.refresh'', [U [0x91CD, 0x65B0, 0x6574, 0x7406]]),
      (''common.rename'', [U [0x91CD, 0x65B0, 0x547D, 0x540D]]),
      (''common.download'', [U [0x4E0B, 0x8F09]]),
      (''common.upload'', [U [0x4E0A, 0x50B3]]),
      (''common.loading'', [U [0x8F09, 0x5165, 0x4E2D, 0x2026]]),
      (''common.copyUrl'', [U [0x8907, 0x88FD], A '' URL'']),
      (''msg.leave.windows.one'', [U [0x4ECD, 0x6709], A '' '', P ''count'', A '' '', U [0x500B, 0x958B, 0x555F, 0x7684, 0x7D42, 0x7AEF, 0x8996, 0x7A97]]),
      (''msg.leave.windows.other'', [U [0x4ECD, 0x6709], A '' '', P ''count'', A '' '', U [0x500B, 0x958B, 0x555F, 0x7684, 0x7D42, 0x7AEF, 0x8996, 0x7A97]]),
      (''msg.leave.detail'', [A ''termcp '', U [0x4ECD, 0x6709], A '' '', P ''windows'', U [0x3002, 0x96E2, 0x958B, 0x9801, 0x9762, 0x6703, 0x95DC, 0x9589, 0x7D42, 0x7AEF, 0x6AA2, 0x8996, 0x2014, 0x2014, 0x5DE5, 0x4F5C, 0x968E, 0x6BB5, 0x4ECD, 0x5728, 0x4F3A, 0x670D, 0x5668, 0x4E0A, 0x57F7, 0x884C, 0x3002]]),
      (''alert.xterm.failed'', [A ''xterm '', U [0x8F09, 0x5165, 0x5931, 0x6557]]),
      (''conn.title.connect'', [U [0x9023, 0x7DDA]]),
      (''conn.aria.editProfile'', [U [0x7DE8, 0x8F2F, 0x8A2D, 0x5B9A]]),
      (''conn.aria.launchOptions'', [U [0x555F, 0x52D5, 0x9078, 0x9805]]),
      (''conn.aria.add'', [U [0x65B0, 0x589E, 0x4E3B, 0x6A5F]]),
      (''conn.title.launchOptions'', [U [0x555F, 0x52D5, 0x9078, 0x9805, 0xFF08, 0x5DE5, 0x4F5C, 0x968E, 0x6BB5, 0x540D, 0x7A31, 0x3001, 0x6307, 0x4EE4, 0xFF09]]),
      (''conn.tip.connect'', [U [0x9EDE, 0x64CA, 0x76F4, 0x63A5, 0x9023, 0x7DDA, 0xFF1B, 0x25B6], A '' '', U [0x958B, 0x555F, 0x9078, 0x9805, 0xFF08, 0x5DE5, 0x4F5C, 0x968E, 0x6BB5, 0x540D, 0x7A31, 0x3001, 0x6307, 0x4EE4, 0xFF09]]),
      (''conn.tip.internal'', [U [0x5167, 0x5EFA, 0x56DE, 0x74B0, 0x8A2D, 0x5B9A, 0xFF0C, 0x53EF, 0x7DE8, 0x8F2F, 0x4EE5, 0x8A2D, 0x5B9A, 0x5176, 0x5BE9, 0x6838, 0x9810, 0x8A2D, 0x503C]]),
      (''session.delete.title'', [U [0x522A, 0x9664, 0x5DE5, 0x4F5C, 0x968E, 0x6BB5]]),
      (''session.delete.message'', [U [0x522A, 0x9664, 0x300C], P ''name'', U [0x300D, 0xFF1F]]),
      (''session.openHistory'', [U [0x958B, 0x555F, 0x6B77, 0x53F2]]),
      (''session.openTerminal'', [U [0x958B, 0x555F, 0x7D42, 0x7AEF]]),
      (''session.open.tip'', [U [0x958B, 0x555F, 0x5DE5, 0x4F5C, 0x968E, 0x6BB5], A '' '', P ''sid'']),
      (''session.openHistory.tip'', [U [0x958B, 0x555F, 0x6B77, 0x53F2, 0xFF08, 0x552F, 0x8B80, 0xFF09]]),
      (''session.aria.select'', [U [0x9078, 0x53D6, 0x5DE5, 0x4F5C, 0x968E, 0x6BB5]]),
      (''session.aria.rename'', [U [0x91CD, 0x65B0, 0x547D, 0x540D, 0x5DE5, 0x4F5C, 0x968E, 0x6BB5]]),
      (''session.aria.copyUrl'', [U [0x8907, 0x88FD, 0x5DE5, 0x4F5C, 0x968E, 0x6BB5], A '' URL'']),
      (''session.prompt.rename'', [U [0x91CD, 0x65B0, 0x547D, 0x540D, 0x5DE5, 0x4F5C, 0x968E, 0x6BB5]]),
      (''session.status.running'', [U [0x57F7, 0x884C, 0x4E2D]]),
      (''session.status.dead'', [U [0x5DF2, 0x7D50, 0x675F, 0xFF1A], P ''reason'']),
      (''session.ended'', [U [0x5DE5, 0x4F5C, 0x968E, 0x6BB5, 0x5DF2, 0x7D50, 0x675F]]),
      (''session.dead.badge'', [U [0x5DF2, 0x7D50, 0x675F]]),
      (''session.dead.badgeTitle'', [U [0x5DE5, 0x4F5C, 0x968E, 0x6BB5, 0x5DF2, 0x7D50, 0x675F, 0xFF08, 0x552F, 0x8B80, 0xFF09]]),
      (''session.toast.unchanged'', [U [0x540D, 0x7A31, 0x672A, 0x8B8A, 0x66F4]]),
      (''session.toast.renamed'', [U [0x5DF2, 0x91CD, 0x65B0, 0x547D, 0x540D]])]\<close>

definition zhHant_2 :: "(string \<times> piece list) list" where
  \<open>zhHant_2 =
     [(''session.empty'', [U [0x5C1A, 0x7121, 0x5DE5, 0x4F5C, 0x968E, 0x6BB5, 0x3002]]),
      (''fwd.count.one'', [P ''count'', A '' '', U [0x500B, 0x8F49, 0x9001]]),
      (''fwd.count.other'', [P ''count'', A '' '', U [0x500B, 0x8F49, 0x9001]]),
      (''reason.explicit'', [U [0x624B, 0x52D5, 0x7D50, 0x675F]]),
      (''reason.crash'', [U [0x7570, 0x5E38, 0x65B7, 0x7DDA]]),
      (''reason.exited'', [U [0x884C, 0x7A0B, 0x5DF2, 0x7D50, 0x675F]]),
      (''reason.shutdown'', [U [0x4F3A, 0x670D, 0x5668, 0x95DC, 0x9589]]),
      (''tab.connecting'', [U [0x9023, 0x7DDA, 0x4E2D]]),
      (''tab.session'', [U [0x5DE5, 0x4F5C, 0x968E, 0x6BB5]]),
      (''tab.closeWindow'', [U [0x95DC, 0x9589, 0x8996, 0x7A97, 0xFF08, 0x5DE5, 0x4F5C, 0x968E, 0x6BB5, 0x7E7C, 0x7E8C, 0x57F7, 0x884C, 0xFF09]]),
      (''tab.aria.closeWindow'', [U [0x95DC, 0x9589, 0x8996, 0x7A97]]),
      (''pane.strategy.title'', [U [0x7A97, 0x683C, 0x6392, 0x5217, 0x7B56, 0x7565]]),
      (''pane.strategy.auto'', [U [0x81EA, 0x52D5]]),
      (''pane.strategy.cols'', [U [0x5206, 0x6B04]]),
      (''pane.strategy.rows'', [U [0x5206, 0x884C]]),
      (''pane.strategy.pairs'', [U [0x5169, 0x6B04]]),
      (''layout.tip.float'', [U [0x5207, 0x63DB, 0x70BA, 0x6D6E, 0x52D5, 0x8996, 0x7A97]]),
      (''layout.tip.tile'', [U [0x4E26, 0x6392, 0x6240, 0x6709, 0x7D42, 0x7AEF, 0x8996, 0x7A97]]),
      (''win.showAll'', [U [0x986F, 0x793A, 0x7D42, 0x7AEF, 0x8996, 0x7A97]]),
      (''win.hideAll'', [U [0x96B1, 0x85CF, 0x7D42, 0x7AEF, 0x8996, 0x7A97]]),
      (''win.max.tip'', [U [0x6700, 0x5927, 0x5316, 0xFF08, 0x96D9, 0x64CA, 0x6A19, 0x984C, 0x5217, 0xFF09]]),
      (''win.restore.tip'', [U [0x9084, 0x539F, 0xFF08, 0x96D9, 0x64CA, 0x6A19, 0x984C, 0x5217], A '' / Esc'', U [0xFF09]]),
      (''win.collapse'', [U [0x647A, 0x758A]]),
      (''win.expand'', [U [0x5C55, 0x958B]]),
      (''win.minimize'', [U [0x6700, 0x5C0F, 0x5316, 0xFF08, 0x5DE5, 0x4F5C, 0x968E, 0x6BB5, 0x7E7C, 0x7E8C, 0x57F7, 0x884C, 0xFF09]]),
      (''win.closeCancel'', [U [0x95DC, 0x9589, 0xFF08, 0x53D6, 0x6D88, 0x9023, 0x7DDA, 0xFF09]]),
      (''win.resize'', [U [0x62D6, 0x66F3, 0x8ABF, 0x6574, 0x5927, 0x5C0F]]),
      (''win.aria.activeSessions'', [U [0x4F7F, 0x7528, 0x4E2D, 0x7684, 0x5DE5, 0x4F5C, 0x968E, 0x6BB5]]),
      (''win.aria.connections'', [U [0x9023, 0x7DDA]]),
      (''switch.empty'', [U [0x5C1A, 0x7121, 0x5DF2, 0x958B, 0x555F, 0x7684, 0x5DE5, 0x4F5C, 0x968E, 0x6BB5]]),
      (''win.connecting.label'', [U [0x6B63, 0x5728, 0x9023, 0x7DDA]]),
      (''win.term.tab'', [U [0x7D42, 0x7AEF]]),
      (''win.fw.tab'', [U [0x901A, 0x8A0A, 0x57E0, 0x8F49, 0x9001]]),
      (''win.files.tab'', [U [0x6A94, 0x6848]]),
      (''win.notify.tab'', [U [0x901A, 0x77E5]]),
      (''tab.reviewWaiting'', [U [0x7B49, 0x5F85, 0x5BE9, 0x6838, 0x7684, 0x6307, 0x4EE4]]),
      (''conn.approval.mark'', [U [0x6B64, 0x8A2D, 0x5B9A, 0x555F, 0x52D5, 0x7684, 0x5DE5, 0x4F5C, 0x968E, 0x6BB5, 0x9810, 0x8A2D, 0x958B, 0x555F, 0x5BE9, 0x6838, 0x6A21, 0x5F0F]]),
      (''conn.approval.markAria'', [U [0x9810, 0x8A2D, 0x958B, 0x555F, 0x5BE9, 0x95B1]]),
      (''win.notify.tip'', [U [0x6B64], A '' shell '', U [0x7684, 0x559A, 0x9192, 0x898F, 0x5247, 0xFF08], A ''notify '', U [0x5DE5, 0x5177, 0xFF09]]),
      (''ntf.emptyHint'', [U [0x6B64, 0x5206, 0x9801, 0x5217, 0x51FA, 0x7684, 0x662F, 0x901A, 0x77E5, 0x4EE3, 0x7406, 0x7684, 0x898F, 0x5247, 0xFF08], A ''notify '', U [0x5DE5, 0x5177, 0xFF09, 0xFF0C, 0x4E0D, 0x662F, 0x89D2, 0x843D, 0x5F48, 0x51FA, 0x7684, 0x63D0, 0x793A, 0x3002]]),
      (''modal.conn.loopbackOnly'', [U [0x5167, 0x5EFA, 0x56DE, 0x74B0, 0x9023, 0x7DDA, 0xFF1A, 0x5B83, 0x900F, 0x904E, 0x5167, 0x5EFA], A '' SSH '', U [0x670D, 0x52D9, 0x9023, 0x7DDA, 0x672C, 0x6A5F, 0xFF0C, 0x56E0, 0x6B64, 0x4E3B, 0x6A5F, 0x3001, 0x8A8D, 0x8B49, 0x8207, 0x8DF3, 0x677F, 0x90FD, 0x4E0D, 0x9069, 0x7528, 0xFF0C, 0x53EA, 0x4F7F, 0x7528, 0x4E0B, 0x65B9, 0x7684, 0x8A2D, 0x5B9A, 0x3002]]),
      (''modal.conn.field.approval'', [U [0x9810, 0x8A2D, 0x5BE9, 0x6838], A '' AI '', U [0x7684, 0x6BCF, 0x6B21, 0x5BEB, 0x5165]]),
      (''modal.conn.field.approvalHint'', [U [0x5F9E, 0x6B64, 0x8A2D, 0x5B9A, 0x555F, 0x52D5, 0x7684, 0x5DE5, 0x4F5C, 0x968E, 0x6BB5, 0x9810, 0x8A2D, 0x958B, 0x555F, 0x5BE9, 0x6838, 0x6A21, 0x5F0F, 0xFF1A, 0x6BCF, 0x9053, 0x6307, 0x4EE4, 0x90FD, 0x6703, 0x7B49, 0x4F60, 0x63A5, 0x53D7, 0x6216, 0x62D2, 0x7D55, 0x5F8C, 0x624D, 0x9001, 0x5230], A '' shell'', U [0x3002]]),
      (''channel.add'', [U [0x65B0, 0x589E], A '' shell '', U [0x901A, 0x9053]]),
      (''channel.empty'', [U [0x5C1A, 0x7121], A '' shell '', U [0x901A, 0x9053]]),
      (''channel.newShell'', [A ''+ '', U [0x65B0, 0x589E], A '' Shell'']),
      (''channel.addMenu'', [U [0x65B0, 0x589E], A '' shell '', U [0x901A, 0x9053], A '' - '', U [0x9078, 0x64C7, 0x6A21, 0x5F0F]]),
      (''channel.add.pty'', [A ''pty - '', U [0x4E92, 0x52D5, 0x7D42, 0x7AEF]]),
      (''channel.add.pipe'', [A ''pipe - '', U [0x57F7, 0x884C, 0x55AE, 0x4E00, 0x6307, 0x4EE4]]),
      (''channel.add.failed'', [U [0x7121, 0x6CD5, 0x958B, 0x555F], A '' shell '', U [0x901A, 0x9053, 0xFF1A], P ''msg'']),
      (''channel.cmd.titlePty'', [U [0x57F7, 0x884C, 0x6307, 0x4EE4, 0xFF08], A ''pty'', U [0xFF09]]),
      (''channel.cmd.titlePipe'', [U [0x57F7, 0x884C, 0x6307, 0x4EE4, 0xFF08], A ''pipe'', U [0xFF09]]),
      (''channel.cmd.label'', [U [0x6307, 0x4EE4]]),
      (''channel.cmd.placeholder'', [U [0x7559, 0x7A7A], A '' = '', U [0x767B, 0x5165], A '' shell'']),
      (''channel.cmd.required'', [A ''pipe '', U [0x6A21, 0x5F0F, 0x9700, 0x8981, 0x57F7, 0x884C, 0x4E00, 0x689D, 0x6307, 0x4EE4, 0xFF0C, 0x8ACB, 0x586B, 0x5BEB]]),
      (''channel.close'', [U [0x95DC, 0x9589], A '' shell'']),
      (''channel.endedTab'', [U [0x7D50, 0x675F]]),
      (''term.scroll.latest'', [U [0x56DE, 0x5230, 0x6700, 0x65B0, 0x8F38, 0x51FA]]),
      (''term.ended'', [A ''['', U [0x5DE5, 0x4F5C, 0x968E, 0x6BB5, 0x5DF2, 0x7D50, 0x675F], A '']'']),
      (''term.history.cap'', [A ''['', U [0x66F4, 0x65E9, 0x7684, 0x8F38, 0x51FA, 0x672A, 0x986F, 0x793A, 0xFF08, 0x700F, 0x89BD, 0x5668, 0x4E0A, 0x9650, 0x7D04], A '' '', P ''mb'', A '' MiB'', U [0xFF09], A '']'']),
      (''term.history.omitted'', [A ''['', U [0x66F4, 0x65E9, 0x7684, 0x8F38, 0x51FA, 0x5DF2, 0x7701, 0x7565, 0xFF08, 0x5927, 0x5C0F, 0x4E0A, 0x9650, 0xFF09], A '']'']),
      (''file.parent'', [U [0x4E0A, 0x5C64, 0x76EE, 0x9304]]),
      (''file.load'', [U [0x8F09, 0x5165]]),
      (''file.menu'', [U [0x9078, 0x55AE]]),
      (''file.empty'', [U [0x7A7A, 0x76EE, 0x9304]]),
      (''file.size'', [U [0x5927, 0x5C0F, 0xFF1A], P ''size'']),
      (''file.modified'', [U [0x4FEE, 0x6539, 0x6642, 0x9593, 0xFF1A], P ''time'']),
      (''file.loadFailed'', [U [0x932F, 0x8AA4, 0xFF1A], P ''msg'']),
      (''file.deleteConfirm'', [U [0x522A, 0x9664], A '' '', P ''path'', U [0xFF1F]]),
      (''file.renamePrompt'', [U [0x91CD, 0x65B0, 0x547D, 0x540D], A '' '', P ''name'']),
      (''fw.panel.title'', [U [0x901A, 0x8A0A, 0x57E0, 0x8F49, 0x9001]]),
      (''fw.add'', [U [0x65B0, 0x589E, 0x901A, 0x8A0A, 0x57E0, 0x8F49, 0x9001]]),
      (''fw.empty'', [U [0x5C1A, 0x7121, 0x901A, 0x8A0A, 0x57E0, 0x8F49, 0x9001]]),
      (''ntf.empty'', [U [0x5C1A, 0x7121, 0x901A, 0x77E5, 0x898F, 0x5247]]),
      (''ntf.unregister'', [U [0x53D6, 0x6D88, 0x8A3B, 0x518A]]),
      (''ntf.channel.sampling'', [U [0x53D6, 0x6A23]]),
      (''ntf.channel.resource'', [U [0x8CC7, 0x6E90]]),
      (''modal.forward.title'', [U [0x65B0, 0x589E, 0x901A, 0x8A0A, 0x57E0, 0x8F49, 0x9001]]),
      (''modal.forward.direction'', [U [0x65B9, 0x5411]]),
      (''modal.forward.dir.local'', [U [0x672C, 0x6A5F], A '' (ssh -L)'']),
      (''modal.forward.dir.remote'', [U [0x9060, 0x7AEF], A '' (ssh -R)'']),
      (''modal.forward.dir.dynamic'', [A ''SOCKS5 (ssh -D)'']),
      (''modal.forward.dirHint.local'', [U [0x672C, 0x6A5F, 0x76E3, 0x807D], A '' '', U [0x2192], A '' '', U [0x9060, 0x7AEF, 0x76EE, 0x6A19]]),
      (''modal.forward.dirHint.remote'', [U [0x9060, 0x7AEF, 0x76E3, 0x807D], A '' '', U [0x2192], A '' '', U [0x672C, 0x6A5F, 0x76EE, 0x6A19]]),
      (''modal.forward.dirHint.dynamic'', [A ''SOCKS5 '', U [0x2192], A '' '', U [0x4EFB, 0x610F, 0x76EE, 0x6A19]]),
      (''modal.forward.targetHost'', [U [0x76EE, 0x6A19, 0x4E3B, 0x6A5F]]),
      (''modal.forward.targetHostPlaceholder'', [U [0x4F8B, 0x5982], A '' localhost'']),
      (''modal.forward.targetPort'', [U [0x76EE, 0x6A19, 0x901A, 0x8A0A, 0x57E0]]),
      (''modal.forward.targetPortPlaceholder'', [U [0x901A, 0x8A0A, 0x57E0]]),
      (''modal.forward.listenHost'', [U [0x76E3, 0x807D, 0x4E3B, 0x6A5F]])]\<close>

definition zhHant_3 :: "(string \<times> piece list) list" where
  \<open>zhHant_3 =
     [(''modal.forward.listenHostPlaceholder'', [U [0x4F8B, 0x5982], A '' 127.0.0.1'']),
      (''modal.forward.listenPort'', [U [0x76E3, 0x807D, 0x901A, 0x8A0A, 0x57E0, 0xFF08], A ''0 = '', U [0x96A8, 0x6A5F, 0xFF09]]),
      (''modal.forward.socksPort'', [A ''SOCKS5 '', U [0x901A, 0x8A0A, 0x57E0, 0xFF08], A ''0 = '', U [0x96A8, 0x6A5F, 0xFF09]]),
      (''modal.forward.err.noSession'', [U [0x6C92, 0x6709, 0x4F7F, 0x7528, 0x4E2D, 0x7684, 0x5DE5, 0x4F5C, 0x968E, 0x6BB5, 0x2014, 0x2014, 0x8ACB, 0x5148, 0x958B, 0x555F, 0x7D42, 0x7AEF]]),
      (''modal.forward.err.required'', [U [0x5FC5, 0x9808, 0x586B, 0x5BEB, 0x76EE, 0x6A19, 0x4E3B, 0x6A5F, 0x8207, 0x901A, 0x8A0A, 0x57E0]]),
      (''modal.conn.titleAdd'', [U [0x65B0, 0x589E, 0x4E3B, 0x6A5F]]),
      (''modal.conn.titleEdit'', [U [0x7DE8, 0x8F2F, 0x4E3B, 0x6A5F]]),
      (''modal.conn.name'', [U [0x540D, 0x7A31]]),
      (''modal.conn.toggleView'', [U [0x5728, 0x8868, 0x55AE, 0x8207], A '' TOML '', U [0x4E4B, 0x9593, 0x5207, 0x63DB]]),
      (''modal.conn.field.host'', [U [0x4E3B, 0x6A5F]]),
      (''modal.conn.field.port'', [U [0x901A, 0x8A0A, 0x57E0]]),
      (''modal.conn.field.user'', [U [0x4F7F, 0x7528, 0x8005]]),
      (''modal.conn.field.auth'', [U [0x9A57, 0x8B49]]),
      (''modal.conn.field.password'', [U [0x5BC6, 0x78BC]]),
      (''modal.conn.field.privateKey'', [U [0x79C1, 0x9470]]),
      (''modal.conn.field.passphrase'', [U [0x79C1, 0x9470, 0x53E3, 0x4EE4, 0xFF08, 0x9078, 0x586B, 0xFF09]]),
      (''modal.conn.field.shell'', [U [0x9810, 0x8A2D], A '' Shell'', U [0xFF08, 0x9078, 0x586B, 0xFF09]]),
      (''modal.conn.field.shellPlaceholder'', [U [0x81EA, 0x52D5, 0x5075, 0x6E2C]]),
      (''modal.conn.field.proxy'', [U [0x4EE3, 0x7406, 0xFF08, 0x9078, 0x586B, 0xFF0C], A ''SOCKS5 URL'', U [0xFF09]]),
      (''modal.conn.showPassword'', [U [0x986F, 0x793A, 0x5BC6, 0x78BC]]),
      (''modal.conn.show'', [U [0x986F, 0x793A]]),
      (''modal.conn.jumps.title'', [A ''SSH '', U [0x8DF3, 0x677F, 0x93C8]]),
      (''modal.conn.jumps.hint'', [U [0x5230, 0x8A72, 0x4E3B, 0x6A5F, 0x7684], A '' SSH '', U [0x6D41, 0x91CF, 0x6703, 0x4F9D, 0x5E8F, 0x7D93, 0x4E0B, 0x65B9, 0x8DF3, 0x677F, 0x6A5F, 0x8F49, 0x9001]]),
      (''modal.conn.addJump'', [A ''+ '', U [0x65B0, 0x589E, 0x8DF3, 0x677F]]),
      (''modal.conn.config'', [U [0x8A2D, 0x5B9A]]),
      (''jump.import'', [U [0x5F9E, 0x4E3B, 0x6A5F, 0x532F, 0x5165]]),
      (''jump.label'', [U [0x8DF3, 0x677F], A '' '', P ''n'']),
      (''jump.import.select'', [U [0x2014], A '' '', U [0x9078, 0x64C7, 0x9805, 0x76EE], A '' '', U [0x2014]]),
      (''jump.save'', [U [0x5132, 0x5B58]]),
      (''jump.cancel'', [U [0x53D6, 0x6D88]]),
      (''jump.remove'', [U [0x79FB, 0x9664]]),
      (''jump.editTip'', [U [0x9EDE, 0x64CA, 0x7DE8, 0x8F2F]]),
      (''jump.proxy'', [U [0x4EE3, 0x7406, 0xFF08, 0x9078, 0x586B, 0xFF09]]),
      (''jump.empty'', [U [0xFF08, 0x7A7A, 0xFF09]]),
      (''test.testing'', [U [0x6E2C, 0x8A66, 0x4E2D, 0x2026]]),
      (''test.ok'', [U [0x2713], A '' '', U [0x5DF2, 0x9023, 0x7DDA, 0xFF0C, 0x8017, 0x6642], A '' '', P ''ms'', A '' ms'']),
      (''test.failed'', [U [0x2717], A '' '', P ''msg'']),
      (''test.connectionFailed'', [U [0x9023, 0x7DDA, 0x5931, 0x6557]]),
      (''err.name.required'', [U [0x5FC5, 0x9808, 0x586B, 0x5BEB, 0x8A2D, 0x5B9A, 0x540D, 0x7A31]]),
      (''err.name.invalid'', [U [0x540D, 0x7A31, 0x5FC5, 0x9808, 0x4EE5, 0x5B57, 0x6BCD, 0x6216, 0x6578, 0x5B57, 0x958B, 0x982D, 0xFF0C, 0x4E14, 0x53EA, 0x80FD, 0x5305, 0x542B, 0x5B57, 0x6BCD, 0x3001, 0x6578, 0x5B57, 0x3001], A ''_ '', U [0x6216], A '' -'', U [0xFF08, 0x6700, 0x591A], A '' 64 '', U [0x500B, 0x5B57, 0x5143, 0xFF09]]),
      (''err.name.exists'', [U [0x8A2D, 0x5B9A, 0x300C], P ''name'', U [0x300D, 0x5DF2, 0x5B58, 0x5728]]),
      (''dialog.conn.delete.title'', [U [0x522A, 0x9664, 0x9023, 0x7DDA]]),
      (''dialog.conn.delete.msg'', [U [0x522A, 0x9664, 0x9023, 0x7DDA, 0x300C], P ''name'', U [0x300D, 0xFF1F, 0x6B64, 0x64CD, 0x4F5C, 0x7121, 0x6CD5, 0x5FA9, 0x539F, 0x3002]]),
      (''modal.start.title'', [U [0x555F, 0x52D5, 0x5DE5, 0x4F5C, 0x968E, 0x6BB5]]),
      (''modal.start.titleConnect'', [U [0x9023, 0x7DDA], A '' '', U [0xB7], A '' '', P ''name'']),
      (''modal.start.name'', [U [0x5DE5, 0x4F5C, 0x968E, 0x6BB5, 0x540D, 0x7A31, 0xFF08, 0x9078, 0x586B, 0xFF09]]),
      (''modal.start.namePlaceholder'', [U [0x9810, 0x8A2D, 0xFF1A, 0x9023, 0x7DDA, 0x540D, 0x7A31]]),
      (''modal.start.cmd'', [U [0x6307, 0x4EE4, 0xFF08, 0x9078, 0x586B, 0xFF09]]),
      (''modal.start.cmdPlaceholder'', [U [0x7559, 0x7A7A], A '' = SSH '', U [0x767B, 0x5165], A '' shell'', U [0xFF1B, 0x6216], A '' bash'', U [0x3001], A ''powershell'', U [0x2026]]),
      (''modal.start.mode'', [U [0x6A21, 0x5F0F]]),
      (''modal.start.run'', [U [0x9023, 0x7DDA]]),
      (''review.title'', [U [0x5BE9, 0x95B1]]),
      (''review.mode'', [U [0x5BE9, 0x95B1, 0x6A21, 0x5F0F]]),
      (''review.on'', [U [0x5BE9, 0x95B1, 0x4E2D]]),
      (''review.off'', [U [0x5BE9, 0x95B1]]),
      (''review.lock.on'', [U [0x5BE9, 0x95B1, 0x5DF2, 0x958B, 0x555F, 0xFF1A], A ''AI '', U [0x9001, 0x5F80, 0x6B64, 0x5DE5, 0x4F5C, 0x968E, 0x6BB5, 0x7684, 0x6BCF, 0x6B21, 0x5BEB, 0x5165, 0x90FD, 0x8981, 0x7B49, 0x4F60, 0x88C1, 0x6C7A, 0x3002, 0x9EDE, 0x64CA, 0x67E5, 0x770B, 0x4F47, 0x5217, 0x3002]]),
      (''review.lock.off'', [U [0x5BE9, 0x95B1, 0x5DF2, 0x95DC, 0x9589, 0xFF1A], A ''AI '', U [0x76F4, 0x63A5, 0x5BEB, 0x5165, 0x3002, 0x9EDE, 0x64CA, 0x958B, 0x555F, 0x6216, 0x67E5, 0x770B, 0x4F47, 0x5217, 0x3002]]),
      (''review.lock.waitingCount'', [A '' '', P ''count'', A '' '', U [0x9805, 0x7B49, 0x5F85, 0x4F60, 0x7684, 0x88C1, 0x6C7A, 0x3002]]),
      (''review.lock.clickOpen'', [A '' '', U [0x9EDE, 0x64CA, 0x958B, 0x555F, 0x5BE9, 0x95B1, 0x9762, 0x677F, 0x3002]]),
      (''review.aria.on'', [U [0x5BE9, 0x95B1, 0x5DF2, 0x958B, 0x555F]]),
      (''review.aria.off'', [U [0x5BE9, 0x95B1, 0x5DF2, 0x95DC, 0x9589]]),
      (''review.switch.tip'', [U [0x5BE9, 0x95B1], A '' AI '', U [0x9001, 0x5F80, 0x6B64, 0x5DE5, 0x4F5C, 0x968E, 0x6BB5, 0x7684, 0x6BCF, 0x6B21, 0x5BEB, 0x5165]]),
      (''review.hint'', [U [0x5BE9, 0x95B1, 0x958B, 0x555F, 0x671F, 0x9593, 0xFF0C], A ''AI '', U [0x9001, 0x5F80, 0x6B64, 0x5DE5, 0x4F5C, 0x968E, 0x6BB5, 0x7684, 0x6BCF, 0x6B21, 0x5BEB, 0x5165, 0x90FD, 0x6703, 0x505C, 0x5728, 0x9019, 0x88E1, 0xFF0C, 0x76F4, 0x5230, 0x6709, 0x4EBA, 0x63A5, 0x53D7, 0x3002]]),
      (''review.waiting'', [U [0x7B49, 0x5F85, 0x5BE9, 0x95B1]]),
      (''review.empty'', [U [0x5C1A, 0x7121, 0x5F85, 0x88C1, 0x6C7A, 0x9805, 0x76EE, 0x3002]]),
      (''review.loadFailed'', [U [0x7121, 0x6CD5, 0x8F09, 0x5165, 0x4F47, 0x5217, 0x3002]]),
      (''review.accept'', [U [0x63A5, 0x53D7]]),
      (''review.reject'', [U [0x62D2, 0x7D55]]),
      (''review.enableTip'', [U [0x9EDE, 0x64CA, 0x5F8C, 0xFF0C], A ''AI '', U [0x9001, 0x5F80, 0x6B64, 0x5DE5, 0x4F5C, 0x968E, 0x6BB5, 0x7684, 0x6BCF, 0x6B21, 0x5BEB, 0x5165, 0x90FD, 0x8981, 0x7B49, 0x5F85, 0x88C1, 0x6C7A]]),
      (''review.disableTip'', [U [0x5BE9, 0x95B1, 0x5DF2, 0x958B, 0x555F, 0xFF1A], A ''AI '', U [0x7684, 0x6BCF, 0x6B21, 0x5BEB, 0x5165, 0x90FD, 0x8981, 0x7B49, 0x5F85, 0x88C1, 0x6C7A, 0x3002, 0x9EDE, 0x64CA, 0x95DC, 0x9589, 0x3002]]),
      (''review.disable.title'', [U [0x95DC, 0x9589, 0x5BE9, 0x95B1]]),
      (''review.disable.ok'', [U [0x95DC, 0x9589]]),
      (''review.disable.msg'', [U [0x4E0D, 0x518D, 0x5BE9, 0x95B1, 0x6B64, 0x5DE5, 0x4F5C, 0x968E, 0x6BB5, 0x7684], A '' AI '', U [0x5BEB, 0x5165, 0xFF1F, 0x4ECD, 0x5728, 0x7B49, 0x5F85, 0x7684, 0x8ACB, 0x6C42, 0x6703, 0x88AB, 0x4E1F, 0x68C4, 0xFF0C, 0x6C38, 0x9060, 0x4E0D, 0x6703, 0x57F7, 0x884C, 0x3002]]),
      (''review.disable.msgSession'', [U [0x4E0D, 0x518D, 0x5BE9, 0x95B1, 0x300C], P ''session'', U [0x300D, 0x7684], A '' AI '', U [0x5BEB, 0x5165, 0xFF1F, 0x4ECD, 0x5728, 0x7B49, 0x5F85, 0x7684, 0x8ACB, 0x6C42, 0x6703, 0x88AB, 0x4E1F, 0x68C4, 0xFF0C, 0x6C38, 0x9060, 0x4E0D, 0x6703, 0x57F7, 0x884C, 0x3002]]),
      (''review.toast.on'', [U [0x5BE9, 0x95B1, 0x5DF2, 0x958B, 0x555F]]),
      (''review.toast.off'', [U [0x5BE9, 0x95B1, 0x5DF2, 0x95DC, 0x9589]]),
      (''review.toast.failed'', [U [0x5931, 0x6557, 0xFF1A], P ''msg'']),
      (''review.badge.one'', [P ''count'', A '' '', U [0x9805, 0x5F85, 0x5BE9, 0x95B1]]),
      (''review.badge.other'', [P ''count'', A '' '', U [0x9805, 0x5F85, 0x5BE9, 0x95B1]]),
      (''review.kind.fileWrite'', [U [0x6A94, 0x6848, 0x5BEB, 0x5165]]),
      (''review.kind.fileDelete'', [U [0x6A94, 0x6848, 0x522A, 0x9664]]),
      (''review.kind.fileRename'', [U [0x6A94, 0x6848, 0x79FB, 0x52D5]]),
      (''review.kind.fileMkdir'', [U [0x65B0, 0x589E, 0x76EE, 0x9304]]),
      (''review.kind.filePerm'', [U [0x6B0A, 0x9650, 0x8B8A, 0x66F4]]),
      (''review.kind.fileLink'', [U [0x9023, 0x7D50]]),
      (''review.kind.fileTruncate'', [U [0x622A, 0x65B7]]),
      (''review.kind.forwardOpen'', [U [0x901A, 0x8A0A, 0x57E0, 0x8F49, 0x9001]]),
      (''review.kind.forwardClose'', [U [0x95DC, 0x9589, 0x8F49, 0x9001]])]\<close>
text \<open>An object literal: a key that is written twice has the last of its values.\<close>

definition literal :: "messages \<Rightarrow> string obj" where
  "literal es = foldl (\<lambda>ob (k, m). obj_set ob k (msg_text m)) [] es"

definition messages_of :: "string \<Rightarrow> messages option" where
  "messages_of lang =
     (if lang = ''en'' then Some (en_1 @ en_2 @ en_3)
      else if lang = ''zh-Hans'' then Some (zhHans_1 @ zhHans_2 @ zhHans_3)
      else if lang = ''zh-Hant'' then Some (zhHant_1 @ zhHant_2 @ zhHant_3)
      else None)"

definition I18N_CATALOG :: catalog where
  "I18N_CATALOG lang = map_option literal (messages_of lang)"

section \<open>Placeholders\<close>

fun piece_params :: "piece \<Rightarrow> string list" where
  "piece_params (A s) = []"
| "piece_params (P n) = [n]"
| "piece_params (U ns) = []"

definition msg_params :: "piece list \<Rightarrow> string list" where
  "msg_params m = concat (map piece_params m)"

text \<open>No brace stands outside of a placeholder.\<close>

fun piece_ok :: "piece \<Rightarrow> bool" where
  "piece_ok (A s) = (CHR ''{'' \<notin> set s)"
| "piece_ok (P n) = (n \<noteq> [] \<and> list_all is_word n)"
| "piece_ok (U ns) = list_all (\<lambda>n. 128 \<le> n \<and> n < 65536) ns"

fun fill :: "string obj \<Rightarrow> piece \<Rightarrow> string" where
  "fill ps (P n) = (case obj_get ps n of Some v \<Rightarrow> v | None \<Rightarrow> CHR ''{'' # n @ ''}'')"
| "fill ps p = piece_text p"

lemma utf8_point_plain: "128 \<le> n \<Longrightarrow> n < 65536 \<Longrightarrow> CHR ''{'' \<notin> set (utf8_point n)"
proof -
  assume n: "128 \<le> n" "n < 65536"
  have high: "CHR ''{'' \<noteq> char_of k" if "128 \<le> k" "k < 256" for k :: nat
  proof
    assume "CHR ''{'' = char_of k"
    then have "of_char (CHR ''{'') = (of_char (char_of k) :: nat)" by simp
    then show False using that by simp
  qed
  have d: "n div 64 mod 64 < 64" "n mod 64 < 64" "n < 2048 \<Longrightarrow> n div 64 < 32" "n div 4096 < 16"
    using n by (auto simp: div_less_iff_less_mult)
  have "CHR ''{'' \<noteq> char_of (128 + n mod 64)" "CHR ''{'' \<noteq> char_of (128 + n div 64 mod 64)" "CHR ''{'' \<noteq> char_of (224 + n div 4096)"
    using d by (intro high; linarith)+
  moreover have "CHR ''{'' \<noteq> char_of (192 + n div 64)" if "n < 2048" using d(3) [OF that] by (intro high; linarith)
  ultimately show ?thesis by (auto simp: utf8_point_def)
qed

lemma interpolate_piece: "piece_ok p \<Longrightarrow> interpolate ps (piece_text p @ s) = fill ps p @ interpolate ps s"
proof (cases p)
  case (P n)
  assume "piece_ok p"
  then have "n \<noteq> []" "\<forall>c \<in> set n. is_word c" using P by (auto simp: list_all_iff)
  then show ?thesis using P interpolate_hole [of n ps s] by simp
next
  case (U ns)
  assume "piece_ok p"
  then have "CHR ''{'' \<notin> set (concat (map utf8_point ns))" using U utf8_point_plain by (auto simp: list_all_iff)
  then show ?thesis using U by (simp add: interpolate_prefix)
qed (simp add: interpolate_prefix)

lemma interpolate_msg: "list_all piece_ok m \<Longrightarrow> interpolate ps (msg_text m) = concat (map (fill ps) m)"
  by (induction m) (simp_all add: msg_text_def interpolate_piece)

section \<open>Looking messages up\<close>

lemma obj_get_literal: "obj_get (literal es) k = map_option msg_text (map_of (rev es) k)"
proof (induction es rule: rev_induct)
  case (snoc e es)
  then show ?case by (cases e) (simp add: literal_def obj_get_set)
qed (simp add: literal_def)

lemma map_of_alike:
  "map (\<lambda>(k, m). (k, f m)) es = map (\<lambda>(k, m). (k, f m)) es' \<Longrightarrow> map_option f (map_of es k) = map_option f (map_of es' k)"
proof (induction es arbitrary: es')
  case (Cons e es)
  then show ?case by (cases e; cases es') auto
qed simp

lemma map_of_rev_alike:
  assumes "map (\<lambda>(k, m). (k, f m)) es = map (\<lambda>(k, m). (k, f m)) es'"
  shows "map_option f (map_of (rev es) k) = map_option f (map_of (rev es') k)"
proof (rule map_of_alike)
  show "map (\<lambda>(k, m). (k, f m)) (rev es) = map (\<lambda>(k, m). (k, f m)) (rev es')" using assms by (simp add: rev_map [symmetric])
qed

lemmas shape_eval = list.map prod.case msg_params_def concat.simps append.simps piece_params.simps

lemma shapes_1:
  "map (\<lambda>(k, m). (k, msg_params m)) en_1 = map (\<lambda>(k, m). (k, msg_params m)) zhHans_1"
  "map (\<lambda>(k, m). (k, msg_params m)) en_1 = map (\<lambda>(k, m). (k, msg_params m)) zhHant_1"
  unfolding en_1_def zhHans_1_def zhHant_1_def by (simp_all only: shape_eval)

lemma shapes_2:
  "map (\<lambda>(k, m). (k, msg_params m)) en_2 = map (\<lambda>(k, m). (k, msg_params m)) zhHans_2"
  "map (\<lambda>(k, m). (k, msg_params m)) en_2 = map (\<lambda>(k, m). (k, msg_params m)) zhHant_2"
  unfolding en_2_def zhHans_2_def zhHant_2_def by (simp_all only: shape_eval)

lemma shapes_3:
  "map (\<lambda>(k, m). (k, msg_params m)) en_3 = map (\<lambda>(k, m). (k, msg_params m)) zhHans_3"
  "map (\<lambda>(k, m). (k, msg_params m)) en_3 = map (\<lambda>(k, m). (k, msg_params m)) zhHant_3"
  unfolding en_3_def zhHans_3_def zhHant_3_def by (simp_all only: shape_eval)

definition all_ok :: "messages \<Rightarrow> bool" where
  "all_ok es = list_all (\<lambda>(k, m). list_all piece_ok m) es"

lemma en_ok: "all_ok en_1" "all_ok en_2" "all_ok en_3"
  unfolding all_ok_def by (simp_all add: en_1_def en_2_def en_3_def is_word_def is_digit_def is_lower_def is_upper_def)

lemma zhHans_ok: "all_ok zhHans_1" "all_ok zhHans_2" "all_ok zhHans_3"
  unfolding all_ok_def by (simp_all add: zhHans_1_def zhHans_2_def zhHans_3_def is_word_def is_digit_def is_lower_def is_upper_def)

lemma zhHant_ok: "all_ok zhHant_1" "all_ok zhHant_2" "all_ok zhHant_3"
  unfolding all_ok_def by (simp_all add: zhHant_1_def zhHant_2_def zhHant_3_def is_word_def is_digit_def is_lower_def is_upper_def)


text \<open>No key is empty: an empty one would not be looked up.\<close>

lemma en_keys_not_empty: "[] \<notin> fst ` set en_1" "[] \<notin> fst ` set en_2" "[] \<notin> fst ` set en_3"
  by (simp_all add: en_1_def en_2_def en_3_def)

abbreviation english :: messages where
  "english \<equiv> en_1 @ en_2 @ en_3"

lemma langs_alike:
  assumes "messages_of lang = Some es"
  shows "map (\<lambda>(k, m). (k, msg_params m)) english = map (\<lambda>(k, m). (k, msg_params m)) es \<and> all_ok es"
  using assms shapes_1 shapes_2 shapes_3 en_ok zhHans_ok zhHant_ok
  by (auto simp: messages_of_def all_ok_def split: if_splits)

lemma resolved_has_messages: "\<exists>es. messages_of (resolveLang languages language stored) = Some es"
  using resolveLang_range [of languages language stored] by (auto simp: I18N_LANGS_def messages_of_def)

lemma en_key_iff: "key \<in> fst ` set english \<longleftrightarrow> map_of (rev english) key \<noteq> None"
  by (simp only: map_of_eq_None_iff set_rev not_not)

definition filled :: "string obj \<Rightarrow> piece \<Rightarrow> string" where
  "filled ps p = (case p of P n \<Rightarrow> the (obj_get ps n) | _ \<Rightarrow> piece_text p)"

lemma fill_filled:
  assumes "list_all (\<lambda>n. obj_get ps n \<noteq> None) (msg_params m)"
  shows "map (fill ps) m = map (filled ps) m"
proof -
  have "fill ps p = filled ps p" if "p \<in> set m" for p
    using assms that by (cases p) (force simp: filled_def msg_params_def list_all_iff)+
  then show ?thesis by simp
qed

text \<open>C34: Every message is found and filled in every language: whatever the browser prefers and whatever was stored, a
  key has a message in the resolved language exactly when the English catalog has it, the message
  has the placeholders of the English one, and translating the key with values for these gives the
  message of that language with every placeholder replaced by its value, never the English text
  and never a key or a brace that was left over.\<close>
theorem every_message_in_every_language:
  "let lang = resolveLang languages language stored
    in (i18nLookup I18N_CATALOG lang key \<noteq> None \<longleftrightarrow> key \<in> fst ` set english) \<and>
       (\<forall>m_en. map_of (rev english) key = Some m_en \<longrightarrow>
          (\<exists>es m. messages_of lang = Some es \<and> map_of (rev es) key = Some m \<and> msg_params m = msg_params m_en \<and>
             (\<forall>ps. list_all (\<lambda>n. obj_get ps n \<noteq> None) (msg_params m_en) \<longrightarrow>
                tr I18N_CATALOG lang key (Some ps) = concat (map (filled ps) m))))"
proof -
  define lang where "lang = resolveLang languages language stored"
  obtain es where es: "messages_of lang = Some es" unfolding lang_def using resolved_has_messages by blast
  note alike = langs_alike [OF es]
  have same: "map_option msg_params (map_of (rev english) key) = map_option msg_params (map_of (rev es) key)"
    by (rule map_of_rev_alike) (use alike in blast)
  have nonempty: "[] \<notin> fst ` set english" using en_keys_not_empty by (simp add: image_Un)
  have look: "i18nLookup I18N_CATALOG lang key = (if key = [] then None else map_option msg_text (map_of (rev es) key))"
    by (simp add: i18nLookup_def I18N_CATALOG_def es obj_get_literal)
  have none: "map_of (rev es) key = None \<longleftrightarrow> map_of (rev english) key = None" using same by (metis map_option_is_None)
  have "i18nLookup I18N_CATALOG lang key \<noteq> None \<longleftrightarrow> key \<in> fst ` set english"
    unfolding look en_key_iff using none nonempty en_key_iff by (cases "key = []") auto
  moreover have "\<exists>m. map_of (rev es) key = Some m \<and> msg_params m = msg_params m_en \<and>
      (\<forall>ps. list_all (\<lambda>n. obj_get ps n \<noteq> None) (msg_params m_en) \<longrightarrow> tr I18N_CATALOG lang key (Some ps) = concat (map (filled ps) m))"
    if en: "map_of (rev english) key = Some m_en" for m_en
  proof -
    obtain m where m: "map_of (rev es) key = Some m" "msg_params m = msg_params m_en"
      using same unfolding en by (cases "map_of (rev es) key") simp_all
    have "key \<noteq> []" using en nonempty en_key_iff by auto
    then have l: "i18nLookup I18N_CATALOG lang key = Some (msg_text m)" by (simp add: look m(1))
    have "(key, m) \<in> set es" using map_of_SomeD [OF m(1)] by simp
    then have ok: "list_all piece_ok m" using alike by (force simp: all_ok_def list_all_iff)
    have "tr I18N_CATALOG lang key (Some ps) = concat (map (filled ps) m)" if "list_all (\<lambda>n. obj_get ps n \<noteq> None) (msg_params m_en)" for ps
    proof -
      have "tr I18N_CATALOG lang key (Some ps) = concat (map (fill ps) m)" by (simp add: tr_def l i18nInterpolate_def interpolate_msg [OF ok])
      also have "map (fill ps) m = map (filled ps) m" by (rule fill_filled) (use that m(2) in simp)
      finally show ?thesis .
    qed
    then show ?thesis using m by blast
  qed
  ultimately show ?thesis unfolding Let_def lang_def [symmetric] using es by blast
qed

lemma badge_message: "map_of (rev english) ''review.badge.one'' = Some [P ''count'', A '' awaiting review'']"
  by (simp add: en_3_def)

theorem every_message_in_every_language_witness:
  "\<exists>m. msg_params m = [''count''] \<and>
     tr I18N_CATALOG (resolveLang [''zh-TW''] [] I18N_AUTO) ''review.badge.one'' (Some [(''count'', ''3'')]) = concat (map (filled [(''count'', ''3'')]) m)"
proof -
  have p: "msg_params [P ''count'', A '' awaiting review''] = [''count'']" by (simp add: msg_params_def)
  have v: "list_all (\<lambda>n. obj_get [(''count'', ''3'')] n \<noteq> None) [''count'']" by (simp add: obj_get_def)
  show ?thesis
    using every_message_in_every_language [of "[''zh-TW'']" "[]" I18N_AUTO "''review.badge.one''"] badge_message v
    unfolding Let_def by (metis p)
qed

end
