(* ===== verification/Terminal_View.thy ===== *)
theory Terminal_View
  imports Files Geometry
begin

text \<open>
  What stands around a terminal (\<open>ui-socket.js\<close>, \<open>terminal-view.js\<close>): the button that leads back to the latest
  output, over the near-bottom test of \<open>Geometry\<close>; the guard of the scroll bar and the shield for a
  browser chord; the request for a piece of past output.
\<close>

section \<open>The button back to the latest output\<close>

text \<open>
  The viewport of a channel as measured, and whether the history of the channel is still being loaded. All of it is in
  one window; \<open>tf_visible\<close> is the class of its button.
\<close>

record viewport =
  vp_height :: rat
  vp_client :: rat
  vp_top :: rat
  vp_new :: bool

record term_fab =
  tf_views :: "viewport obj"
  tf_active :: "string option"
  tf_visible :: bool

definition near_tail :: "viewport \<Rightarrow> bool" where
  "near_tail v = xtermViewportNearBottom 64 (vp_height v) (vp_client v) (vp_top v)"

definition at_tail :: "viewport \<Rightarrow> viewport" where
  "at_tail v = v\<lparr>vp_top := max 0 (vp_height v - vp_client v)\<rparr>"

definition active_view :: "term_fab \<Rightarrow> viewport option" where
  "active_view f = (case tf_active f of None \<Rightarrow> None | Some sid \<Rightarrow> obj_get (tf_views f) sid)"

definition updateTermScrollButton :: "term_fab \<Rightarrow> term_fab" where
  "updateTermScrollButton f = f\<lparr>tf_visible := (case active_view f of None \<Rightarrow> False | Some v \<Rightarrow> \<not> near_tail v)\<rparr>"

text \<open>The scroll event of the viewport of \<open>sid\<close>, which the browser fires when its scroll position changes.\<close>

definition scrolled :: "string \<Rightarrow> viewport \<Rightarrow> term_fab \<Rightarrow> term_fab" where
  "scrolled sid v f =
     (let f1 = f\<lparr>tf_views := obj_set (tf_views f) sid v\<rparr>
      in if tf_active f1 = Some sid then updateTermScrollButton f1 else f1)"

text \<open>
  Output makes the content higher by \<open>g\<close>. The terminal follows by itself when the person has not scrolled (\<open>follow\<close>), and
  \<open>shellTermScrollToBottomIfStuck\<close> makes it follow near the tail; otherwise the position stays and no
  event is fired.
\<close>

definition grown :: "string \<Rightarrow> rat \<Rightarrow> bool \<Rightarrow> term_fab \<Rightarrow> term_fab" where
  "grown sid g follow f =
     (case obj_get (tf_views f) sid of
        None \<Rightarrow> f
      | Some v \<Rightarrow>
          (let v1 = v\<lparr>vp_height := vp_height v + g\<rparr>
           in if follow \<or> near_tail v1 then scrolled sid (at_tail v1) f else f\<lparr>tf_views := obj_set (tf_views f) sid v1\<rparr>))"

definition fab_click :: "term_fab \<Rightarrow> term_fab" where
  "fab_click f =
     (let f1 = (case tf_active f of
                  None \<Rightarrow> f
                | Some sid \<Rightarrow> (case obj_get (tf_views f) sid of None \<Rightarrow> f | Some v \<Rightarrow> scrolled sid (at_tail v) f))
      in f1\<lparr>tf_visible := False\<rparr>)"

text \<open>
  A new channel becomes the active one and leaves the button; the end of its history, a switch and the end
  of a channel look at the active terminal. A closed tab is followed by the last one.
\<close>

datatype tf_event =
    TfNew string viewport | TfLoaded string viewport | TfSwitch string | TfClose string | TfScroll string rat | TfOutput string rat bool | TfClick

fun tf_step :: "term_fab \<Rightarrow> tf_event \<Rightarrow> term_fab" where
  "tf_step f (TfNew sid v) = f\<lparr>tf_views := obj_set (tf_views f) sid (v\<lparr>vp_new := True\<rparr>), tf_active := Some sid\<rparr>"
| "tf_step f (TfLoaded sid v) =
     updateTermScrollButton
       (if obj_get (tf_views f) sid = None then f else f\<lparr>tf_views := obj_set (tf_views f) sid (v\<lparr>vp_new := False\<rparr>)\<rparr>)"
| "tf_step f (TfSwitch sid) =
     (if obj_get (tf_views f) sid = None \<or> tf_active f = Some sid then f else updateTermScrollButton (f\<lparr>tf_active := Some sid\<rparr>))"
| "tf_step f (TfClose sid) =
     (if obj_get (tf_views f) sid = None then f
      else
        (let f1 = f\<lparr>tf_views := obj_del (tf_views f) sid\<rparr>
         in updateTermScrollButton
              (if tf_active f1 = Some sid
               then f1\<lparr>tf_active := (case rev (obj_keys (tf_views f1)) of [] \<Rightarrow> None | k # ks \<Rightarrow> Some k)\<rparr> else f1)))"
| "tf_step f (TfScroll sid st) =
     (case obj_get (tf_views f) sid of None \<Rightarrow> f | Some v \<Rightarrow> scrolled sid (v\<lparr>vp_top := st\<rparr>) f)"
| "tf_step f (TfOutput sid g follow) = grown sid g follow f"
| "tf_step f TfClick = fab_click f"

text \<open>Content does not shrink, and a channel is created once.\<close>

fun tf_enabled :: "term_fab \<Rightarrow> tf_event \<Rightarrow> bool" where
  "tf_enabled f (TfOutput sid g follow) = (0 \<le> g)"
| "tf_enabled f (TfNew sid v) = (obj_get (tf_views f) sid = None)"
| "tf_enabled f e = True"

definition tf_start :: term_fab where
  "tf_start = \<lparr>tf_views = [], tf_active = None, tf_visible = False\<rparr>"

section \<open>When the button is shown\<close>

definition tf_inv :: "term_fab \<Rightarrow> bool" where
  "tf_inv f \<longleftrightarrow> (tf_visible f \<longrightarrow> (case active_view f of None \<Rightarrow> False | Some v \<Rightarrow> \<not> near_tail v \<or> vp_new v))"

lemma update_inv: "tf_inv (updateTermScrollButton f)"
  by (simp add: tf_inv_def updateTermScrollButton_def active_view_def split: option.split)

lemma away_grows: "\<not> near_tail v \<Longrightarrow> 0 \<le> g \<Longrightarrow> \<not> near_tail (v\<lparr>vp_height := vp_height v + g\<rparr>)"
  by (auto simp: near_tail_def xtermViewportNearBottom_def)

lemma view_set: "active_view (f\<lparr>tf_views := obj_set (tf_views f) sid v\<rparr>) = (if tf_active f = Some sid then Some v else active_view f)"
  by (auto simp: active_view_def obj_get_set split: option.split)

lemma scrolled_inv: "tf_inv f \<Longrightarrow> tf_inv (scrolled sid v f)"
  by (auto simp: scrolled_def Let_def update_inv) (simp add: tf_inv_def view_set)

lemma grown_inv:
  assumes f: "tf_inv f" and g: "0 \<le> g"
  shows "tf_inv (grown sid g follow f)"
proof (cases "obj_get (tf_views f) sid")
  case (Some v)
  have "tf_inv (f\<lparr>tf_views := obj_set (tf_views f) sid (v\<lparr>vp_height := vp_height v + g\<rparr>)\<rparr>)"
  proof (cases "tf_active f = Some sid")
    case True
    then have "active_view f = Some v" using Some by (simp add: active_view_def)
    then show ?thesis using f True away_grows [OF _ g, of v] by (auto simp: tf_inv_def view_set)
  next
    case False
    then show ?thesis using f by (simp add: tf_inv_def view_set)
  qed
  then show ?thesis using scrolled_inv [OF f] by (simp add: grown_def Some Let_def)
qed (simp add: grown_def f)

lemma click_inv: "tf_inv (fab_click f)"
  by (simp add: fab_click_def Let_def tf_inv_def)

lemma tf_step_inv: "tf_inv f \<Longrightarrow> tf_enabled f e \<Longrightarrow> tf_inv (tf_step f e)"
  by (cases e) (auto simp: update_inv grown_inv click_inv scrolled_inv Let_def split: option.split,
    auto simp: tf_inv_def active_view_def obj_get_set split: option.splits)

interpretation tf: guarded_machine tf_start tf_step tf_inv tf_enabled
  by unfold_locales (simp add: tf_inv_def tf_start_def, rule tf_step_inv)

text \<open>
  In every reachable state the button is shown only over a terminal that is away from its latest output, or whose
  history is being loaded; a click hides it and brings the active terminal to the tail.
\<close>

lemma button_leads_back:
  assumes "tf.reach f" and "tf_visible f"
  shows "\<exists>v. active_view f = Some v \<and> (\<not> near_tail v \<or> vp_new v) \<and>
    \<not> tf_visible (tf_step f TfClick) \<and> active_view (tf_step f TfClick) = Some (at_tail v)"
proof -
  have "tf_inv f" by (rule tf.reach_inv [OF assms(1)])
  then obtain v where v: "active_view f = Some v" "\<not> near_tail v \<or> vp_new v" using assms(2) by (auto simp: tf_inv_def split: option.splits)
  then obtain sid where s: "tf_active f = Some sid" "obj_get (tf_views f) sid = Some v" by (auto simp: active_view_def split: option.splits)
  have "active_view (tf_step f TfClick) = Some (at_tail v)"
    using s by (simp add: fab_click_def scrolled_def updateTermScrollButton_def active_view_def obj_get_set Let_def)
  then show ?thesis using v by (simp add: fab_click_def Let_def)
qed

text \<open>
  Two ways it misleads. A person who has scrolled up a little is near the tail; a burst of output then carries the tail
  away, no position changes, and the button is not shown. And a new tab keeps the button of the tab before it
  until its history is loaded.
\<close>

definition sample_view :: viewport where
  "sample_view = \<lparr>vp_height = 1000, vp_client = 400, vp_top = 560, vp_new = False\<rparr>"

lemma burst_hides_tail:
  "let f = foldl tf_step tf_start [TfNew ''a'' sample_view, TfLoaded ''a'' sample_view, TfOutput ''a'' 500 False]
    in \<not> tf_visible f \<and> map_option near_tail (active_view f) = Some False"
  by (simp add: tf_start_def sample_view_def updateTermScrollButton_def grown_def active_view_def obj_get_def near_tail_def
      xtermViewportNearBottom_def Let_def)

lemma new_tab_keeps_button:
  "let f = foldl tf_step tf_start [TfNew ''a'' sample_view, TfLoaded ''a'' sample_view, TfScroll ''a'' 0,
       TfNew ''b'' (sample_view\<lparr>vp_height := 0, vp_top := 0\<rparr>)]
    in tf_visible f \<and> map_option near_tail (active_view f) = Some True"
  by (simp add: tf_start_def sample_view_def updateTermScrollButton_def scrolled_def active_view_def obj_get_def near_tail_def
      xtermViewportNearBottom_def Let_def)

section \<open>Keys and the scroll bar\<close>

record key_event =
  ke_type :: string
  ke_ctrl :: bool
  ke_alt :: bool
  ke_meta :: bool
  ke_key :: string

text \<open>The handler always lets the terminal have the key; the result says whether the browser's default is prevented.\<close>

definition attachTermBrowserChordShield :: "key_event \<Rightarrow> bool \<times> bool" where
  "attachTermBrowserChordShield e =
     (if ke_type e \<noteq> ''keydown'' then (True, False)
      else if \<not> ke_ctrl e \<or> ke_alt e \<or> ke_meta e then (True, False)
      else (True, ke_key e = ''w'' \<or> ke_key e = ''W''))"

text \<open>Whether a press in the viewport is kept from the terminal, so that the scroll bar can be dragged.\<close>

definition attachXtermViewportScrollbarGuard :: "rat \<Rightarrow> rat \<Rightarrow> rat \<Rightarrow> bool" where
  "attachXtermViewportScrollbarGuard width right clientX = (if width \<le> 0 then False else right - 28 < clientX)"

lemma shield_passes_keys: "fst (attachTermBrowserChordShield e)"
  by (simp add: attachTermBrowserChordShield_def)

section \<open>A piece of past output\<close>

definition fetchShellOutputRange :: "string \<Rightarrow> string \<Rightarrow> string" where
  "fetchShellOutputRange shellId qs = ''/api/shells/'' @ encodeURIComponent shellId @ ''/output-range?'' @ qs"

definition range_query :: "nat \<Rightarrow> nat \<Rightarrow> string" where
  "range_query off cap = ''start='' @ show_nat off @ ''&max='' @ show_nat cap"


lemma show_nat_encoded: "encodeURIComponent (show_nat n) = show_nat n"
proof -
  have "\<forall>c \<in> set (show_nat n). uri_unreserved c" using show_nat_digits by (auto simp: uri_unreserved_def)
  then have "encodeURIComponent s = s" if "set s \<subseteq> set (show_nat n)" for s using that by (induction s) (auto simp: encodeURIComponent_def)
  then show ?thesis by blast
qed

text \<open>The server reads the shell, the position and the size out of the request for a piece of output.\<close>

lemma range_request_read:
  "path_segments (fetchShellOutputRange sid (range_query off cap)) = [[], ''api'', ''shells'', sid, ''output-range''] \<and>
   map (\<lambda>(k, v). (k, parse_int v)) (query_pairs (fetchShellOutputRange sid (range_query off cap))) =
     [(''start'', Some (int off)), (''max'', Some (int cap))]"
proof -
  let ?a = "''/api/shells/'' @ encodeURIComponent sid @ ''/output-range''"
  have q: "CHR ''?'' \<notin> set ?a" using encoded_plain(1) by auto
  have u: "fetchShellOutputRange sid (range_query off cap) =
      ?a @ CHR ''?'' # ''start'' @ CHR ''='' # encodeURIComponent (show_nat off) @ CHR ''&'' # ''max'' @ CHR ''='' # encodeURIComponent (show_nat cap)"
    by (simp add: fetchShellOutputRange_def range_query_def show_nat_encoded)
  have f: "?a = [] @ SL # ''api'' @ SL # ''shells'' @ SL # encodeURIComponent sid @ SL # ''output-range''"
    by (simp add: SL_def)
  have n: "SL \<notin> set []" "SL \<notin> set ''api''" "SL \<notin> set ''shells''" "SL \<notin> set ''output-range''" by (simp_all add: SL_def)
  have "js_split SL ?a = [[], ''api'', ''shells'', encodeURIComponent sid, ''output-range'']"
    unfolding f by (simp only: js_split_append n encoded_plain(5) js_split_no_sep not_False_eq_True)
  moreover have "utf8_decode (percent_decode ''api'') = ''api''" "utf8_decode (percent_decode ''shells'') = ''shells''"
    "utf8_decode (percent_decode ''output-range'') = ''output-range''" "utf8_decode (percent_decode []) = []" by code_simp+
  ultimately have "path_segments (fetchShellOutputRange sid (range_query off cap)) = [[], ''api'', ''shells'', sid, ''output-range'']"
    unfolding u segments_before_query [OF q] by (simp only: list.map percent_decode_encode utf8_decode_text)
  moreover have "query_pairs (fetchShellOutputRange sid (range_query off cap)) = [(''start'', show_nat off), (''max'', show_nat cap)]"
    unfolding u by (rule query_two [OF q]) simp_all
  ultimately show ?thesis by simp
qed

end
