(* ===== verification/Spec2Isabelle.thy ===== *)
theory Spec2Isabelle
  imports I18n Conn_Form Sidebar Sessions_Shown Windows_Shown History Socket Files Panels Launch Dialogs Client_Shown Resizing Window_Markup Conn_Test
    Window_Buttons Feedback Catalog Terminal_View
begin

text \<open>
  \<^bold>\<open>A verification library for the browser side of termcp.\<close>

  termcp serves shells over SSH to people and to language models. Its page
  (\<open>src/internal/webui/assets/static/js\<close>, plain scripts sharing one global scope) shows every
  session in a window with one tab per shell, streams output over one WebSocket, edits
  connection profiles, and lets a person approve what a model wants to run. The library models
  those scripts function by function; the definitions carry the names of the source.

  \<^bold>\<open>Parts and theories.\<close>

  \<^item> \<open>Prelude\<close>: JavaScript values the scripts use (insertion-ordered objects as association lists,
    \<open>split\<close>, \<open>join\<close>, \<open>trim\<close>, number parsing and printing), errors as \<open>js_error + 'a\<close>, and the
    locales \<open>guarded_machine\<close> and \<open>event_machine\<close>: a start state, a step function, an invariant and
    (for the former) a guard, from which the invariant holds in every reachable state and after
    every run. Every stateful component below is an interpretation of one of them on its own
    step function.
  \<^item> \<open>Text_Helpers\<close> (\<open>util.js\<close>): HTML escaping, command line splitting, sizes, identifiers,
    REST paths, UTF-8 encoding, the reconnect delay.
  \<^item> \<open>I18n\<close> (\<open>i18n.js\<close>): choice of language, lookup with fallback, interpolation, relabelling of a
    page, the language menu, for any catalog; \<open>Catalog\<close> (\<open>i18n-catalog.js\<close>): the three tables of messages,
    and that each language has every message with the same placeholders.
  \<^item> \<open>Conn_Toml\<close>, \<open>Conn_Roundtrip\<close>, \<open>Conn_Form\<close> (\<open>conn-form.js\<close>): the printer and parser of connection
    documents, that they are inverse, and the editor (views, saving, duplicating, jump hosts) as
    a machine of user events and server answers; \<open>Conn_Test\<close> adds its test button.
  \<^item> \<open>Sidebar\<close> (\<open>conn-form.js\<close> from line 713): collapsible sections and the touch drawer.
  \<^item> \<open>Approval\<close> (\<open>approval.js\<close> and the review parts of \<open>terminal-view.js\<close> and \<open>sessions.js\<close>): counts and
    badges, the review panel, decisions, the mode switch; the rows as the HTML they are.
  \<^item> \<open>Geometry\<close> (\<open>ui-socket.js\<close>, \<open>shell-windows.js\<close>, \<open>terminal-view.js\<close>): dragging, resizing, placement,
    pane grids and the fit of a terminal, in rational pixels.
  \<^item> \<open>Windows\<close>, \<open>Windows_Invariant\<close>, \<open>Windows_Shown\<close> (\<open>shell-windows.js\<close>, \<open>util.js\<close>): the window manager with
    its floating and tiled layouts, its tab bar and the two mutation observers.
  \<^item> \<open>Window_Buttons\<close> (\<open>shell-windows.js\<close>, \<open>terminal-view.js\<close>): titles and icons of the buttons of windows and
    tab bar through clicks, changes of the viewport and of the language.
  \<^item> \<open>Feedback\<close> (\<open>util.js\<close>, \<open>shell-windows.js\<close>, \<open>ui-socket.js\<close>): the short message and the clipboard, the copy
    buttons, the notifications of the browser, the cross of a window and what a window undoes.
  \<^item> \<open>Channels\<close> (\<open>terminal-view.js\<close>, \<open>sessions.js\<close>, \<open>ui-socket.js\<close>): the tabs of a window, their streams,
    and every message they put on the socket.
  \<^item> \<open>Resizing\<close> (\<open>ui-socket.js\<close>, \<open>terminal-view.js\<close>): the grids of a window's terminals and the one timer
    through which a shell learns its size, over the window of \<open>Channels\<close> and the fit of \<open>Geometry\<close>.
  \<^item> \<open>Terminal_View\<close> (\<open>ui-socket.js\<close>, \<open>terminal-view.js\<close>): the button back to the latest output, the guards of
    scroll bar and keys, and the request for past output as the server reads it.
  \<^item> \<open>Window_Markup\<close> (\<open>terminal-view.js\<close>): the templates of the windows and of their tabs, and a scanner of tags.
  \<^item> \<open>Sessions\<close>, \<open>Sessions_Invariant\<close>, \<open>Sessions_Shown\<close> (\<open>sessions.js\<close>, the batch buttons of
    \<open>conn-form.js\<close>, the notices of \<open>util.js\<close>): the session grid with its selection and batches, the
    reconciliation of the open windows with each snapshot of the server, and the notification
    cards, over the windows of \<open>Channels\<close> and the review surfaces of \<open>Approval\<close>.
  \<^item> \<open>History\<close> (\<open>ui-socket.js\<close>, with the byte-range endpoint of \<open>buffer.go\<close> and \<open>handler.go\<close>): the chunked
    load of a shell's past output.
  \<^item> \<open>Socket\<close> (\<open>ui-socket.js\<close>): connecting, reconnecting, renewing watches, over the windows of
    \<open>Channels\<close>.

  \<^item> \<open>Files\<close> (\<open>terminal-view.js\<close>): the file browser of a window: its listing with the path it
    belongs to, the detail view, the context menu, renaming, uploading, and the requests they send.
  \<^item> \<open>Panels\<close> (\<open>terminal-view.js\<close>, \<open>forward-modal.js\<close>, \<open>dialogs.js\<close>): the side panels of a window, the
    lists of port forwards and notification rules in them, and the form of a new forward.
  \<^item> \<open>Launch\<close> (\<open>dialogs.js\<close>, \<open>conn-form.js\<close>, \<open>terminal-view.js\<close>, \<open>ui-socket.js\<close>): the cards of the
    connection profiles, the banner, the launch dialog, and a start from the click to the window
    of the session, failure and abortion included.
  \<^item> \<open>Dialogs\<close> (\<open>dialogs.js\<close>, \<open>terminal-view.js\<close>): the confirmation and its promise, the command prompt,
    the menu that adds a tab and what a new tab asks of the server, the warning before leaving.
  \<^item> \<open>Switcher\<close> (\<open>terminal-view.js\<close>): the session switch menu of the window headers on touch devices.
  \<^item> \<open>Window_Views\<close>, \<open>Client_Views\<close>, \<open>Client\<close>, \<open>Client_Invariant\<close>, \<open>Client_Shown\<close> (\<open>ui-socket.js\<close>,
    \<open>shell-windows.js\<close>, \<open>terminal-view.js\<close>, \<open>sessions.js\<close>): the page as a whole. \<open>client_op\<close> dispatches the
    messages of the socket, the clicks and the answers to the session list, the desk, the launcher and
    the switch menu. The script has one list of windows; here three components keep the part they
    need, the locale \<open>window_view\<close> is the interface these lists share (show, wait, settle, close), and
    \<open>two_views\<close> shows that two providers stay in step. In every reachable state they agree, and each
    component is in a state it can reach alone. File browser, panels, dialogs and the editor act on
    one window or form and are not composed with the rest; the language is fixed in the composed page.

  \<^bold>\<open>What the lemmas show.\<close> Invariants by induction over the events of each machine (tabs, review
  surfaces, session grid, editor, drawer, desk, socket, file browser, panels, starts, dialogs, buttons,
  the page as a whole); round trips (form to document and back, quoting and splitting, percent-encoding, layout to tiles and back); equivalence with a reference (plain
  splitting, direct and indirect language switch); safety of generated markup for every text of a
  request or of a hop, and that the markup of windows and requests nests; bounds of windows, bars and
  terminals; that a change of size reaches the shell once; that every message is found and filled in every
  language; that the history load returns and
  restores the stored bytes in order. Where the code does not do what it means to, the
  behaviour is proved as a lemma of its component.

  \<^bold>\<open>Conventions.\<close> Strings are lists of code units below 256; the messages of \<open>Catalog\<close>, which go
  beyond, are in UTF-8. JavaScript numbers are \<open>nat\<close>, \<open>int\<close> or
  \<open>rat\<close>; none of the modelled computations reaches \<open>2 ^ 53\<close>. The page is single-threaded, so an
  event handler is one step; answers of the server and timers are events of their own, and what
  the server answers is an argument of the event. Fuel is used nowhere; \<open>history_loop\<close> is a partial
  function because a server may serve without end, and is proved to return for every server
  that serves a finite buffer.

  \<^bold>\<open>Not modelled.\<close> The vendored terminal, styles and the static page;
  the Go server except for the byte-range read; keyboard focus and the redraw of terminals frame
  by frame.
\<close>

end
